(* ===== verification/Prelude.thy ===== *)
theory Prelude
  imports Main "HOL-Library.Word" "HOL-Library.Multiset"
begin

text \<open>
  Shared base of the development: the integer types of the Rust code, the outcome type that
  makes a panic a value, the checked and saturating integer operations, the slice and iterator
  functions the code uses (indexing, \<^verbatim>\<open>position\<close>, \<^verbatim>\<open>min_by\<close>, the stable \<^verbatim>\<open>sort_by\<close>), and the
  generic lemmas on them.

  Integers. A \<^verbatim>\<open>uN\<close> of the source is an \<open>N word\<close>; \<open>U256\<close> of \<^verbatim>\<open>alloy\<close> is a 256-bit word whose
  operators \<open>+\<close>, \<open>-\<close>, \<open>*\<close> wrap and whose \<open>/\<close> panics on a zero divisor.  Primitive arithmetic
  wraps too: the release profile of \<^verbatim>\<open>Cargo.toml\<close> does not turn overflow checks on.
  \<^verbatim>\<open>usize\<close> values count elements of in-memory collections and are \<open>nat\<close>.
\<close>

section \<open>Integer types\<close>

type_synonym u8 = "8 word"
type_synonym u32 = "32 word"
type_synonym u64 = "64 word"
type_synonym u128 = "128 word"
type_synonym u256 = "256 word"

text \<open>A 20-byte account address and a 32-byte hash or log topic.\<close>

type_synonym address = "160 word"
type_synonym b256 = "256 word"

named_theorems u256_arith \<open>exactness of wrapping operations under no-overflow side conditions\<close>
named_theorems exec_simps \<open>equations of the outcome combinators\<close>

section \<open>Outcomes: values and panics\<close>

datatype panic = DivByZero | IndexOutOfBounds | CastOverflow | MissingKey

datatype 'a exec = Ret 'a | Panic panic

fun ebind :: "'a exec \<Rightarrow> ('a \<Rightarrow> 'b exec) \<Rightarrow> 'b exec" where
  "ebind (Ret x) f = f x"
| "ebind (Panic p) f = Panic p"

text \<open>The \<^verbatim>\<open>?\<close> operator inside a function that returns \<^verbatim>\<open>Option\<close>: \<open>None\<close> returns early.\<close>

fun obind :: "'a option \<Rightarrow> ('a \<Rightarrow> 'b option exec) \<Rightarrow> 'b option exec" where
  "obind None f = Ret None"
| "obind (Some x) f = f x"

text \<open>\<^verbatim>\<open>?\<close> on the result of a call that may itself panic.\<close>

definition eobind :: "'a option exec \<Rightarrow> ('a \<Rightarrow> 'b option exec) \<Rightarrow> 'b option exec" where
  "eobind m f = ebind m (\<lambda>r. obind r f)"

fun emap :: "('a \<Rightarrow> 'b) \<Rightarrow> 'a exec \<Rightarrow> 'b exec" where
  "emap f (Ret x) = Ret (f x)"
| "emap f (Panic p) = Panic p"

fun returns :: "'a exec \<Rightarrow> bool" where
  "returns (Ret x) = True"
| "returns (Panic p) = False"

lemma ebind_Ret_iff [exec_simps]:
  "ebind m f = Ret y \<longleftrightarrow> (\<exists>x. m = Ret x \<and> f x = Ret y)"
  by (cases m) auto

lemma obind_Ret_Some_iff [exec_simps]:
  "obind m f = Ret (Some y) \<longleftrightarrow> (\<exists>x. m = Some x \<and> f x = Ret (Some y))"
  by (cases m) auto

lemma eobind_simps [simp]:
  "eobind (Ret None) f = Ret None" "eobind (Ret (Some x)) f = f x" "eobind (Panic e) f = Panic e"
  by (simp_all add: eobind_def)

lemma eobind_Ret_Some_iff [exec_simps]:
  "eobind m f = Ret (Some y) \<longleftrightarrow> (\<exists>x. m = Ret (Some x) \<and> f x = Ret (Some y))"
  by (cases m) (auto simp: eobind_def split: option.splits elim: obind.elims)

lemma obind_SomeE:
  assumes "obind m f = Ret (Some y)"
  obtains x where "m = Some x" "f x = Ret (Some y)"
  using assms by (auto simp: obind_Ret_Some_iff)

lemma eobind_SomeE:
  assumes "eobind m f = Ret (Some y)"
  obtains x where "m = Ret (Some x)" "f x = Ret (Some y)"
  using assms by (auto simp: eobind_Ret_Some_iff)

lemma emap_Ret_iff [exec_simps]:
  "emap f m = Ret y \<longleftrightarrow> (\<exists>x. m = Ret x \<and> y = f x)"
  by (cases m) auto

lemma returns_iff: "returns m \<longleftrightarrow> (\<exists>x. m = Ret x)"
  by (cases m) auto

section \<open>Word operations of the source\<close>

definition checked_add :: "'a::len word \<Rightarrow> 'a word \<Rightarrow> 'a word option" where
  "checked_add a b = (if uint (a + b) = uint a + uint b then Some (a + b) else None)"

definition checked_sub :: "'a::len word \<Rightarrow> 'a word \<Rightarrow> 'a word option" where
  "checked_sub a b = (if b \<le> a then Some (a - b) else None)"

definition saturating_sub :: "'a::len word \<Rightarrow> 'a word \<Rightarrow> 'a word" where
  "saturating_sub a b = (if b \<le> a then a - b else 0)"

definition saturating_add :: "'a::len word \<Rightarrow> 'a word \<Rightarrow> 'a word" where
  "saturating_add a b = (if uint (a + b) = uint a + uint b then a + b else - 1)"

definition saturating_mul :: "'a::len word \<Rightarrow> 'a word \<Rightarrow> 'a word" where
  "saturating_mul a b = (if uint (a * b) = uint a * uint b then a * b else - 1)"

definition word_div :: "'a::len word \<Rightarrow> 'a word \<Rightarrow> 'a word exec" where
  "word_div a b = (if b = 0 then Panic DivByZero else Ret (a div b))"

lemma uint_add_exact_iff: "uint (a + b) = uint a + uint b \<longleftrightarrow> unat (a + b) = unat a + unat b"
  for a b :: "'a::len word"
proof -
  have "uint w = int (unat w)" for w :: "'a word" by simp
  then show ?thesis by (metis of_nat_add of_nat_eq_iff)
qed

lemma checked_add_Some:
  "checked_add a b = Some c \<Longrightarrow> unat c = unat a + unat b"
  by (auto simp: checked_add_def uint_add_exact_iff split: if_splits)

lemma checked_add_fits:
  "unat a + unat b < 2 ^ LENGTH('a) \<Longrightarrow> checked_add a b = Some (a + b)"
  for a b :: "'a::len word"
  by (simp add: checked_add_def uint_add_exact_iff unat_add_lem)

lemma saturating_add_fits:
  "unat a + unat b < 2 ^ LENGTH('a) \<Longrightarrow> unat (saturating_add a b) = unat a + unat b"
  for a b :: "'a::len word"
  by (simp add: saturating_add_def uint_add_exact_iff unat_add_lem)

lemma uint_mult_exact_iff: "uint (a * b) = uint a * uint b \<longleftrightarrow> unat a * unat b < 2 ^ LENGTH('a)"
  for a b :: "'a::len word"
proof -
  have "uint w = int (unat w)" for w :: "'a word" by simp
  then have "uint (a * b) = uint a * uint b \<longleftrightarrow> unat (a * b) = unat a * unat b" by (metis of_nat_mult of_nat_eq_iff)
  then show ?thesis using unat_mult_lem [of a b] by simp
qed

lemma saturating_mul_fits:
  "unat a * unat b < 2 ^ LENGTH('a) \<Longrightarrow> unat (saturating_mul a b) = unat a * unat b"
  for a b :: "'a::len word"
  by (simp add: saturating_mul_def uint_mult_exact_iff unat_mult_lem)

lemma saturating_mul_le: "unat (saturating_mul a b) \<le> unat a * unat b"
  for a b :: "'a::len word"
proof (cases "unat a * unat b < 2 ^ LENGTH('a)")
  case False
  then have "unat (saturating_mul a b) < 2 ^ LENGTH('a)" by simp
  then show ?thesis using False by linarith
qed (simp add: saturating_mul_fits)

lemma checked_sub_Some:
  "checked_sub a b = Some c \<Longrightarrow> unat c = unat a - unat b \<and> unat b \<le> unat a \<and> c = a - b"
  by (auto simp: checked_sub_def unat_sub word_le_nat_alt split: if_splits)

lemma checked_sub_None_iff: "checked_sub a b = None \<longleftrightarrow> a < b"
  by (auto simp: checked_sub_def not_le split: if_splits)

lemma unat_saturating_sub: "unat (saturating_sub a b) = unat a - unat b"
  by (auto simp: saturating_sub_def unat_sub word_le_nat_alt)

lemma word_div_Ret_iff [exec_simps]:
  "word_div a b = Ret q \<longleftrightarrow> b \<noteq> 0 \<and> q = a div b"
  by (auto simp: word_div_def)

lemma word_div_nonzero [simp]: "b \<noteq> 0 \<Longrightarrow> word_div a b = Ret (a div b)"
  by (simp add: word_div_def)

subsection \<open>No-overflow side conditions on 256-bit values\<close>

definition u256_fits :: "nat \<Rightarrow> bool" where
  "u256_fits n \<longleftrightarrow> n < 2 ^ 256"

lemma u256_fits_mono: "u256_fits m \<Longrightarrow> n \<le> m \<Longrightarrow> u256_fits n"
  unfolding u256_fits_def by (rule le_less_trans)

lemma u256_fits_unat [simp]: "u256_fits (unat (a :: u256))"
  unfolding u256_fits_def using unsigned_less [of a, where ?'a = nat] by simp

lemma unat_mult_fits [u256_arith]:
  "u256_fits (unat a * unat b) \<Longrightarrow> unat ((a :: u256) * b) = unat a * unat b"
  unfolding u256_fits_def by (rule unat_mult_lem [THEN iffD1]) simp

lemma unat_add_fits [u256_arith]:
  "u256_fits (unat a + unat b) \<Longrightarrow> unat ((a :: u256) + b) = unat a + unat b"
  unfolding u256_fits_def by (rule unat_add_lem [THEN iffD1]) simp

lemma unat_sub_le [u256_arith]:
  "b \<le> a \<Longrightarrow> unat ((a :: u256) - b) = unat a - unat b"
  by (simp add: unat_sub word_le_nat_alt)

lemma unat_div_word [u256_arith]: "unat ((a :: u256) div b) = unat a div unat b"
  by (rule unat_div_distrib)

lemma unat_pos_iff: "0 < unat (a :: 'a::len word) \<longleftrightarrow> a \<noteq> 0"
  by (simp add: word_neq_0_conv [symmetric] unat_gt_0)

text \<open>Widening casts (\<^verbatim>\<open>U256::from(x)\<close>) keep the value.\<close>

lemma unat_ucast_up:
  "LENGTH('a::len) \<le> LENGTH('b::len) \<Longrightarrow> unat (ucast (a :: 'a word) :: 'b word) = unat a"
  by transfer (simp add: take_bit_nat_eq_self min_absorb2 take_bit_take_bit)

lemma unat_ucast_widen [u256_arith]:
  "LENGTH('a::len) \<le> 256 \<Longrightarrow> unat (ucast (a :: 'a word) :: u256) = unat a"
  by (rule unat_ucast_up) simp

lemma mult_less_pow2:
  fixes a b :: nat
  assumes "a < 2 ^ m" and "b < 2 ^ n"
  shows "a * b < 2 ^ (m + n)"
  using assms by (simp add: power_add mult_strict_mono')

lemma u256_fits_pow2: "n < 2 ^ m \<Longrightarrow> m \<le> 256 \<Longrightarrow> u256_fits n"
  unfolding u256_fits_def by (erule less_le_trans) (rule power_increasing; simp)

text \<open>Signed 32-bit arithmetic on mathematical integers: the result of an operation wraps.\<close>

definition wrap_i32 :: "int \<Rightarrow> int" where
  "wrap_i32 x = (x + 2 ^ 31) mod 2 ^ 32 - 2 ^ 31"

lemma wrap_i32_id [simp]: "- (2 ^ 31) \<le> x \<Longrightarrow> x < 2 ^ 31 \<Longrightarrow> wrap_i32 x = x"
  by (simp add: wrap_i32_def)

lemma wrap_i32_range: "- (2 ^ 31) \<le> wrap_i32 x \<and> wrap_i32 x < 2 ^ 31"
  unfolding wrap_i32_def using pos_mod_bound [of "2 ^ 32" "x + 2 ^ 31"] pos_mod_sign [of "2 ^ 32" "x + 2 ^ 31"]
  by simp

lemma int_bucket_iff:
  fixes n k s :: int
  assumes "0 < s"
  shows "k * s \<le> n \<and> n < k * s + s \<longleftrightarrow> n div s = k"
proof
  assume "k * s \<le> n \<and> n < k * s + s"
  then show "n div s = k" by (intro int_div_pos_eq [of _ _ _ "n - k * s"]) (auto simp: algebra_simps)
next
  assume "n div s = k"
  then show "k * s \<le> n \<and> n < k * s + s"
    using pos_mod_bound [OF assms, of n] pos_mod_sign [OF assms, of n] div_mult_mod_eq [of n s]
    by auto
qed

section \<open>Slices and iterators\<close>

text \<open>Indexing panics out of range; \<open>list_get\<close> is \<^verbatim>\<open>slice::get\<close>.\<close>

definition index :: "'a list \<Rightarrow> nat \<Rightarrow> 'a exec" where
  "index xs i = (if i < length xs then Ret (xs ! i) else Panic IndexOutOfBounds)"

definition list_get :: "'a list \<Rightarrow> nat \<Rightarrow> 'a option" where
  "list_get xs i = (if i < length xs then Some (xs ! i) else None)"

fun position :: "('a \<Rightarrow> bool) \<Rightarrow> 'a list \<Rightarrow> nat option" where
  "position P [] = None"
| "position P (x # xs) = (if P x then Some 0 else map_option Suc (position P xs))"

lemma index_Ret_iff [exec_simps]:
  "index xs i = Ret x \<longleftrightarrow> i < length xs \<and> x = xs ! i"
  by (auto simp: index_def)

lemma index_in [simp]: "i < length xs \<Longrightarrow> index xs i = Ret (xs ! i)"
  by (simp add: index_def)

lemma list_get_Some_iff: "list_get xs i = Some x \<longleftrightarrow> i < length xs \<and> x = xs ! i"
  by (auto simp: list_get_def)

lemma position_Some:
  "position P xs = Some i \<Longrightarrow> i < length xs \<and> P (xs ! i) \<and> (\<forall>j<i. \<not> P (xs ! j))"
proof (induction xs arbitrary: i)
  case Nil
  then show ?case by simp
next
  case (Cons x xs)
  show ?case
  proof (cases "P x")
    case True
    with Cons.prems show ?thesis by simp
  next
    case False
    with Cons.prems obtain j where j: "position P xs = Some j" "i = Suc j" by auto
    from Cons.IH [OF j(1)] False j(2) show ?thesis
      by (auto simp: less_Suc_eq_0_disj)
  qed
qed

lemma position_None_iff: "position P xs = None \<longleftrightarrow> (\<forall>x \<in> set xs. \<not> P x)"
  by (induction xs) auto

lemma position_exists: "x \<in> set xs \<Longrightarrow> P x \<Longrightarrow> \<exists>i. position P xs = Some i"
  using position_None_iff [of P xs] by (cases "position P xs") auto

subsection \<open>Comparators, minima and stable sorting\<close>

datatype ordering = Less | Equal | Greater

text \<open>Decimal printing.\<close>

fun dec_nat :: "nat \<Rightarrow> string" where
  "dec_nat n = (if n < 10 then [char_of (48 + n)] else dec_nat (n div 10) @ [char_of (48 + n mod 10)])"

declare dec_nat.simps [simp del]

text \<open>\<^verbatim>\<open>Iterator::min_by\<close>: the first of several equally small elements is returned.\<close>

fun min_by_acc :: "('a \<Rightarrow> 'a \<Rightarrow> ordering) \<Rightarrow> 'a \<Rightarrow> 'a list \<Rightarrow> 'a" where
  "min_by_acc cmp m [] = m"
| "min_by_acc cmp m (x # xs) = min_by_acc cmp (if cmp m x = Greater then x else m) xs"

fun min_by :: "('a \<Rightarrow> 'a \<Rightarrow> ordering) \<Rightarrow> 'a list \<Rightarrow> 'a option" where
  "min_by cmp [] = None"
| "min_by cmp (x # xs) = Some (min_by_acc cmp x xs)"

text \<open>\<^verbatim>\<open>slice::sort_by\<close>, a stable sort.\<close>

fun insert_by :: "('a \<Rightarrow> 'a \<Rightarrow> ordering) \<Rightarrow> 'a \<Rightarrow> 'a list \<Rightarrow> 'a list" where
  "insert_by cmp x [] = [x]"
| "insert_by cmp x (y # ys) = (if cmp x y = Greater then y # insert_by cmp x ys else x # y # ys)"

fun sort_by :: "('a \<Rightarrow> 'a \<Rightarrow> ordering) \<Rightarrow> 'a list \<Rightarrow> 'a list" where
  "sort_by cmp [] = []"
| "sort_by cmp (x # xs) = insert_by cmp x (sort_by cmp xs)"

lemma min_by_acc_in: "min_by_acc cmp m xs \<in> insert m (set xs)"
  by (induction xs arbitrary: m) (auto split: if_splits)

lemma min_by_in: "min_by cmp xs = Some m \<Longrightarrow> m \<in> set xs"
  using min_by_acc_in by (cases xs) fastforce+

lemma min_by_None_iff [simp]: "min_by cmp xs = None \<longleftrightarrow> xs = []"
  by (cases xs) auto

lemma mset_insert_by [simp]: "mset (insert_by cmp x xs) = add_mset x (mset xs)"
  by (induction xs) auto

lemma mset_sort_by [simp]: "mset (sort_by cmp xs) = mset xs"
  by (induction xs) auto

lemma set_sort_by [simp]: "set (sort_by cmp xs) = set xs"
  by (metis mset_sort_by set_mset_mset)

lemma set_insert_by [simp]: "set (insert_by cmp x xs) = insert x (set xs)"
  by (induction xs) auto

lemma length_sort_by [simp]: "length (sort_by cmp xs) = length xs"
  by (metis mset_sort_by size_mset)

text \<open>
  The contract of a comparator.  \<^verbatim>\<open>sort_by\<close> and \<^verbatim>\<open>min_by\<close> ask for a total preorder on the
  elements they see; \<open>S\<close> is the set of those elements (floats that are not NaN, say).
\<close>

locale comparator =
  fixes cmp :: "'a \<Rightarrow> 'a \<Rightarrow> ordering" and S :: "'a set"
  assumes cmp_total: "x \<in> S \<Longrightarrow> y \<in> S \<Longrightarrow> cmp x y = Greater \<Longrightarrow> cmp y x \<noteq> Greater"
    and cmp_trans: "x \<in> S \<Longrightarrow> y \<in> S \<Longrightarrow> z \<in> S \<Longrightarrow> cmp x y \<noteq> Greater \<Longrightarrow> cmp y z \<noteq> Greater
      \<Longrightarrow> cmp x z \<noteq> Greater"
begin

lemma insert_by_sorted:
  "set xs \<subseteq> S \<Longrightarrow> x \<in> S \<Longrightarrow> sorted_wrt (\<lambda>a b. cmp a b \<noteq> Greater) xs
   \<Longrightarrow> sorted_wrt (\<lambda>a b. cmp a b \<noteq> Greater) (insert_by cmp x xs)"
proof (induction xs)
  case Nil
  then show ?case by simp
next
  case (Cons y ys)
  show ?case
  proof (cases "cmp x y = Greater")
    case True
    with Cons.prems have "cmp y x \<noteq> Greater" by (auto dest: cmp_total)
    with True Cons show ?thesis by auto
  next
    case False
    have "cmp x z \<noteq> Greater" if "z \<in> set ys" for z
      using that False Cons.prems cmp_trans [of x y z] by auto
    with False Cons.prems show ?thesis by auto
  qed
qed

lemma sort_by_sorted:
  "set xs \<subseteq> S \<Longrightarrow> sorted_wrt (\<lambda>a b. cmp a b \<noteq> Greater) (sort_by cmp xs)"
  by (induction xs) (auto intro!: insert_by_sorted)

lemma cmp_refl: "x \<in> S \<Longrightarrow> cmp x x \<noteq> Greater"
  using cmp_total by blast

lemma min_by_acc_least:
  "set xs \<subseteq> S \<Longrightarrow> m \<in> S \<Longrightarrow> y \<in> insert m (set xs) \<Longrightarrow> cmp (min_by_acc cmp m xs) y \<noteq> Greater"
proof (induction xs arbitrary: m y)
  case Nil
  then show ?case using cmp_refl by auto
next
  case (Cons x xs)
  define k where "k = (if cmp m x = Greater then x else m)"
  have S: "k \<in> S" "set xs \<subseteq> S" "m \<in> S" "x \<in> S" using Cons.prems by (auto simp: k_def)
  have le: "cmp k m \<noteq> Greater" "cmp k x \<noteq> Greater"
    using S cmp_total [of m x] cmp_refl [of m] cmp_refl [of x] by (auto simp: k_def)
  let ?r = "min_by_acc cmp k xs"
  have r: "?r \<in> S" using min_by_acc_in [of cmp k xs] S by auto
  have rk: "cmp ?r k \<noteq> Greater" by (rule Cons.IH [OF S(2) S(1)]) simp
  have "cmp ?r m \<noteq> Greater" by (rule cmp_trans [OF r S(1) S(3) rk le(1)])
  moreover have "cmp ?r x \<noteq> Greater" by (rule cmp_trans [OF r S(1) S(4) rk le(2)])
  moreover have "cmp ?r z \<noteq> Greater" if "z \<in> set xs" for z
    using that by (intro Cons.IH [OF S(2) S(1)]) simp
  ultimately have "cmp ?r y \<noteq> Greater" using Cons.prems(3) by auto
  then show ?case by (simp add: k_def)
qed

lemma min_by_least:
  "min_by cmp xs = Some m \<Longrightarrow> set xs \<subseteq> S \<Longrightarrow> y \<in> set xs \<Longrightarrow> cmp m y \<noteq> Greater"
  by (cases xs) (auto dest: min_by_acc_least)

end

end
