(* ===== verification/F64.thy ===== *)
theory F64
  imports Complex_Main "HOL-Library.Product_Lexorder" Prelude
begin

text \<open>
  The \<^verbatim>\<open>f64\<close> of the source: IEEE 754 binary64 with round-to-nearest, ties to even.  A value is
  NaN, one of the infinities, negative zero, or a finite number given by its exact rational
  value (\<open>Num 0\<close> is positive zero).  Every arithmetic operation computes the exact rational
  result and rounds it, so the model evaluates.  The comparison operators are false on NaN.

  Functions whose precision the language leaves open (\<^verbatim>\<open>ln\<close>, \<^verbatim>\<open>exp\<close>, \<^verbatim>\<open>powi\<close>, \<^verbatim>\<open>powf\<close>) are not
  defined here: the definitions that call them take them as arguments.
\<close>

section \<open>Values\<close>

datatype f64 = NaN | PInf | NInf | NZero | Num rat

fun is_finite :: "f64 \<Rightarrow> bool" where
  "is_finite NZero = True"
| "is_finite (Num r) = True"
| "is_finite _ = False"

text \<open>Value of a finite number; the key orders the values that are not NaN.\<close>

fun fval :: "f64 \<Rightarrow> rat" where
  "fval (Num r) = r"
| "fval _ = 0"

fun fkey :: "f64 \<Rightarrow> nat \<times> rat" where
  "fkey NInf = (0, 0)"
| "fkey PInf = (2, 0)"
| "fkey (Num r) = (1, r)"
| "fkey NZero = (1, 0)"
| "fkey NaN = (1, 0)"

definition f64_lt :: "f64 \<Rightarrow> f64 \<Rightarrow> bool" where
  "f64_lt a b \<longleftrightarrow> a \<noteq> NaN \<and> b \<noteq> NaN \<and> fkey a < fkey b"

definition f64_le :: "f64 \<Rightarrow> f64 \<Rightarrow> bool" where
  "f64_le a b \<longleftrightarrow> a \<noteq> NaN \<and> b \<noteq> NaN \<and> fkey a \<le> fkey b"

definition f64_eq :: "f64 \<Rightarrow> f64 \<Rightarrow> bool" where
  "f64_eq a b \<longleftrightarrow> a \<noteq> NaN \<and> b \<noteq> NaN \<and> fkey a = fkey b"

text \<open>\<^verbatim>\<open>a.partial_cmp(&b).unwrap_or(Ordering::Equal)\<close>, the comparator of every float sort.\<close>

definition f64_cmp :: "f64 \<Rightarrow> f64 \<Rightarrow> ordering" where
  "f64_cmp a b = (if f64_lt a b then Less else if f64_lt b a then Greater else Equal)"

section \<open>Rounding\<close>

function bit_len :: "int \<Rightarrow> int" where
  "bit_len n = (if n \<le> 0 then 0 else 1 + bit_len (n div 2))"
  by pat_completeness auto
termination
  by (relation "measure nat") auto

declare bit_len.simps [simp del]

text \<open>\<open>\<lfloor>log\<^sub>2 (n / d)\<rfloor>\<close> for positive \<open>n\<close> and \<open>d\<close>.\<close>

definition floor_log2 :: "int \<Rightarrow> int \<Rightarrow> int" where
  "floor_log2 n d =
     (let k = bit_len n - bit_len d
      in if (if 0 \<le> k then d * 2 ^ nat k \<le> n else d \<le> n * 2 ^ nat (- k)) then k else k - 1)"

text \<open>The integer nearest to \<open>n / d\<close>, ties to even.\<close>

definition round_half_even :: "int \<Rightarrow> int \<Rightarrow> int" where
  "round_half_even n d =
     (let q = n div d; r = 2 * (n mod d)
      in if r < d then q else if d < r then q + 1 else if even q then q else q + 1)"

text \<open>
  Rounding of a positive rational: a 53-bit significand \<open>m\<close> with exponent \<open>e\<close>, subnormal below
  \<open>2 ^ (-1022)\<close>, infinite from \<open>2 ^ 1024\<close> on.
\<close>

definition round_pos :: "rat \<Rightarrow> f64" where
  "round_pos a =
     (let (n, d) = quotient_of a;
          e = max (- 1074) (floor_log2 n d - 52);
          m = (if 0 \<le> e then round_half_even n (d * 2 ^ nat e)
               else round_half_even (n * 2 ^ nat (- e)) d)
      in if 971 < e \<or> e = 971 \<and> m = 9007199254740992 then PInf
         else if 0 \<le> e then Num (of_int (m * 2 ^ nat e))
         else Num (of_int m / of_int (2 ^ nat (- e))))"

fun f64_neg :: "f64 \<Rightarrow> f64" where
  "f64_neg NaN = NaN"
| "f64_neg PInf = NInf"
| "f64_neg NInf = PInf"
| "f64_neg NZero = Num 0"
| "f64_neg (Num r) = (if r = 0 then NZero else Num (- r))"

text \<open>The double nearest to a rational; zero rounds to positive zero.\<close>

definition f64_of_rat :: "rat \<Rightarrow> f64" where
  "f64_of_rat r = (if r = 0 then Num 0 else if 0 < r then round_pos r else f64_neg (round_pos (- r)))"

text \<open>\<^verbatim>\<open>n as f64\<close> for an unsigned integer.\<close>

definition f64_of_nat :: "nat \<Rightarrow> f64" where
  "f64_of_nat n = f64_of_rat (of_nat n)"

text \<open>\<^verbatim>\<open>as f64\<close> of an unsigned machine integer.\<close>

definition f64_of_word :: "'a::len word \<Rightarrow> f64" where
  "f64_of_word w = f64_of_rat (of_int (uint w))"

section \<open>Arithmetic\<close>

fun sign_bit :: "f64 \<Rightarrow> bool" where
  "sign_bit NInf = True"
| "sign_bit NZero = True"
| "sign_bit (Num r) = (r < 0)"
| "sign_bit _ = False"

fun is_zero :: "f64 \<Rightarrow> bool" where
  "is_zero NZero = True"
| "is_zero (Num r) = (r = 0)"
| "is_zero _ = False"

definition signed_zero :: "bool \<Rightarrow> f64" where
  "signed_zero neg = (if neg then NZero else Num 0)"

definition signed_inf :: "bool \<Rightarrow> f64" where
  "signed_inf neg = (if neg then NInf else PInf)"

definition f64_add :: "f64 \<Rightarrow> f64 \<Rightarrow> f64" where
  "f64_add a b =
     (if a = NaN \<or> b = NaN then NaN
      else if \<not> is_finite a then (if \<not> is_finite b \<and> a \<noteq> b then NaN else a)
      else if \<not> is_finite b then b
      else if fval a + fval b = 0 then signed_zero (sign_bit a \<and> sign_bit b)
      else f64_of_rat (fval a + fval b))"

definition f64_sub :: "f64 \<Rightarrow> f64 \<Rightarrow> f64" where
  "f64_sub a b = f64_add a (f64_neg b)"

definition f64_mul :: "f64 \<Rightarrow> f64 \<Rightarrow> f64" where
  "f64_mul a b =
     (let s = (sign_bit a \<noteq> sign_bit b) in
      if a = NaN \<or> b = NaN then NaN
      else if \<not> is_finite a \<or> \<not> is_finite b
        then (if is_zero a \<or> is_zero b then NaN else signed_inf s)
      else if is_zero a \<or> is_zero b then signed_zero s
      else f64_of_rat (fval a * fval b))"

definition f64_div :: "f64 \<Rightarrow> f64 \<Rightarrow> f64" where
  "f64_div a b =
     (let s = (sign_bit a \<noteq> sign_bit b) in
      if a = NaN \<or> b = NaN then NaN
      else if \<not> is_finite a then (if is_finite b then signed_inf s else NaN)
      else if \<not> is_finite b then signed_zero s
      else if is_zero b then (if is_zero a then NaN else signed_inf s)
      else if is_zero a then signed_zero s
      else f64_of_rat (fval a / fval b))"

fun f64_abs :: "f64 \<Rightarrow> f64" where
  "f64_abs NaN = NaN"
| "f64_abs PInf = PInf"
| "f64_abs NInf = PInf"
| "f64_abs NZero = Num 0"
| "f64_abs (Num r) = Num \<bar>r\<bar>"

text \<open>\<^verbatim>\<open>f64::max\<close> ignores a NaN argument; \<^verbatim>\<open>f64::clamp\<close> keeps NaN.\<close>

definition f64_max :: "f64 \<Rightarrow> f64 \<Rightarrow> f64" where
  "f64_max a b = (if a = NaN then b else if b = NaN then a else if f64_lt a b then b else a)"

definition f64_clamp :: "f64 \<Rightarrow> f64 \<Rightarrow> f64 \<Rightarrow> f64" where
  "f64_clamp x lo hi = (if f64_lt x lo then lo else if f64_lt hi x then hi else x)"

text \<open>Integer square root, and the correctly rounded \<^verbatim>\<open>f64::sqrt\<close>.\<close>

function isqrt :: "int \<Rightarrow> int" where
  "isqrt n = (if n \<le> 0 then 0
     else let s = 2 * isqrt (n div 4) in if (s + 1) * (s + 1) \<le> n then s + 1 else s)"
  by pat_completeness auto
termination
  by (relation "measure nat") auto

declare isqrt.simps [simp del]

definition sqrt_rat :: "rat \<Rightarrow> rat" where
  "sqrt_rat r =
     (let (n, d) = quotient_of r;
          k = max 0 (57 - floor_log2 n d div 2);
          t = rat_of_int (isqrt \<lfloor>r * 4 ^ nat k\<rfloor>)
      in if t * t = r * 4 ^ nat k then t / 2 ^ nat k else (t + 1 / 2) / 2 ^ nat k)"

fun f64_sqrt :: "f64 \<Rightarrow> f64" where
  "f64_sqrt NaN = NaN"
| "f64_sqrt PInf = PInf"
| "f64_sqrt NInf = NaN"
| "f64_sqrt NZero = NZero"
| "f64_sqrt (Num r) = (if r < 0 then NaN else if r = 0 then Num 0 else f64_of_rat (sqrt_rat r))"

section \<open>Conversions to integers\<close>

text \<open>\<^verbatim>\<open>x as iN\<close>: truncation towards zero, saturating at the bounds; NaN becomes 0.\<close>

definition trunc_rat :: "rat \<Rightarrow> int" where
  "trunc_rat r = (if 0 \<le> r then \<lfloor>r\<rfloor> else \<lceil>r\<rceil>)"

fun f64_to_int :: "int \<Rightarrow> int \<Rightarrow> f64 \<Rightarrow> int" where
  "f64_to_int lo hi NaN = 0"
| "f64_to_int lo hi PInf = hi"
| "f64_to_int lo hi NInf = lo"
| "f64_to_int lo hi NZero = 0"
| "f64_to_int lo hi (Num r) = max lo (min hi (trunc_rat r))"

definition f64_to_i32 :: "f64 \<Rightarrow> int" where
  "f64_to_i32 = f64_to_int (- (2 ^ 31)) (2 ^ 31 - 1)"

definition f64_to_i64 :: "f64 \<Rightarrow> int" where
  "f64_to_i64 = f64_to_int (- (2 ^ 63)) (2 ^ 63 - 1)"

definition f64_to_u128 :: "f64 \<Rightarrow> int" where
  "f64_to_u128 = f64_to_int 0 (2 ^ 128 - 1)"

fun f64_floor :: "f64 \<Rightarrow> f64" where
  "f64_floor (Num r) = Num (of_int \<lfloor>r\<rfloor>)"
| "f64_floor x = x"

text \<open>\<^verbatim>\<open>f64::round\<close>: halves go away from zero; a negative value that rounds to zero is \<open>-0.0\<close>.\<close>

fun f64_round_int :: "f64 \<Rightarrow> f64" where
  "f64_round_int (Num r) =
     (if 0 \<le> r then Num (of_int \<lfloor>r + 1 / 2\<rfloor>)
      else if r > - (1 / 2) then NZero else Num (of_int \<lceil>r - 1 / 2\<rceil>))"
| "f64_round_int x = x"

section \<open>Order\<close>

lemma f64_lt_irrefl [simp]: "\<not> f64_lt a a"
  by (simp add: f64_lt_def)

lemma f64_lt_NaN [simp]: "\<not> f64_lt NaN b" "\<not> f64_lt a NaN" "\<not> f64_le NaN b" "\<not> f64_le a NaN"
  by (simp_all add: f64_lt_def f64_le_def)

lemma f64_lt_trans: "f64_lt a b \<Longrightarrow> f64_lt b c \<Longrightarrow> f64_lt a c"
  by (auto simp: f64_lt_def)

lemma f64_lt_asym: "f64_lt a b \<Longrightarrow> \<not> f64_lt b a"
  by (auto simp: f64_lt_def)

lemma f64_lt_imp_le: "f64_lt a b \<Longrightarrow> f64_le a b"
  by (simp add: f64_lt_def f64_le_def less_imp_le)

lemma f64_not_lt: "a \<noteq> NaN \<Longrightarrow> b \<noteq> NaN \<Longrightarrow> \<not> f64_lt a b \<longleftrightarrow> f64_le b a"
  by (auto simp: f64_lt_def f64_le_def)

lemma f64_le_trans: "f64_le a b \<Longrightarrow> f64_le b c \<Longrightarrow> f64_le a c"
  by (auto simp: f64_le_def)

lemma f64_le_refl [simp]: "f64_le a a \<longleftrightarrow> a \<noteq> NaN"
  by (auto simp: f64_le_def)

lemma f64_cmp_Greater_iff: "f64_cmp a b = Greater \<longleftrightarrow> f64_lt b a"
  by (auto simp: f64_cmp_def dest: f64_lt_asym)

lemma f64_cmp_not_Greater: "a \<noteq> NaN \<Longrightarrow> b \<noteq> NaN \<Longrightarrow> f64_cmp a b \<noteq> Greater \<longleftrightarrow> f64_le a b"
  by (simp add: f64_cmp_Greater_iff f64_not_lt)

lemma fkey_num [simp]: "is_finite a \<Longrightarrow> fkey a = (1, fval a)"
  by (cases a) auto

lemma is_finite_not_NaN [simp]: "is_finite a \<Longrightarrow> a \<noteq> NaN"
  by auto

lemma f64_lt_finite: "is_finite a \<Longrightarrow> is_finite b \<Longrightarrow> f64_lt a b \<longleftrightarrow> fval a < fval b"
  by (auto simp: f64_lt_def)

lemma f64_le_finite: "is_finite a \<Longrightarrow> is_finite b \<Longrightarrow> f64_le a b \<longleftrightarrow> fval a \<le> fval b"
  by (auto simp: f64_le_def)

text \<open>
  The comparator of the float sorts keeps its contract on the values that are not NaN, whatever
  projection \<open>f\<close> reads the float and whichever direction the sort takes.
\<close>

interpretation asc: comparator "\<lambda>a b. f64_cmp (f a) (f b)" "{x. f x \<noteq> NaN}" for f :: "'a \<Rightarrow> f64"
  by unfold_locales (auto simp: f64_cmp_Greater_iff f64_lt_def)

interpretation desc: comparator "\<lambda>a b. f64_cmp (f b) (f a)" "{x. f x \<noteq> NaN}" for f :: "'a \<Rightarrow> f64"
  by unfold_locales (auto simp: f64_cmp_Greater_iff f64_lt_def)

lemma f64_clamp_bounds:
  assumes "f64_le lo hi" and "x \<noteq> NaN"
  shows "f64_le lo (f64_clamp x lo hi) \<and> f64_le (f64_clamp x lo hi) hi"
proof -
  have nn: "lo \<noteq> NaN" "hi \<noteq> NaN" using assms(1) by auto
  show ?thesis
    using assms nn f64_not_lt [of x lo] f64_not_lt [of hi x] by (auto simp: f64_clamp_def)
qed

lemma f64_max_not_NaN: "a \<noteq> NaN \<Longrightarrow> f64_max a b \<noteq> NaN"
  by (auto simp: f64_max_def)

lemma f64_max_ge: "a \<noteq> NaN \<Longrightarrow> f64_le a (f64_max a b)"
  by (auto simp: f64_max_def f64_lt_def f64_le_def)

lemma f64_max_ge2: "b \<noteq> NaN \<Longrightarrow> f64_le b (f64_max a b)"
  by (auto simp: f64_max_def f64_lt_def f64_le_def)

section \<open>Integers convert to finite numbers\<close>

lemma bit_len_le: "0 \<le> n \<Longrightarrow> n < 2 ^ k \<Longrightarrow> bit_len n \<le> int k"
proof (induction k arbitrary: n)
  case (Suc k)
  then have "bit_len (n div 2) \<le> int k" by (intro Suc.IH) auto
  then show ?case using Suc.prems by (subst bit_len.simps) auto
qed (subst bit_len.simps, simp)

lemma f64_of_rat_not_NaN: "f64_of_rat r \<noteq> NaN"
proof -
  have "round_pos a \<noteq> NaN" for a by (simp add: round_pos_def Let_def split: prod.split)
  then show ?thesis by (cases "round_pos (- r)") (auto simp: f64_of_rat_def)
qed

lemma f64_of_nat_finite:
  assumes "n < 2 ^ k" and "k \<le> 1000"
  shows "is_finite (f64_of_rat (of_int (int n)))"
proof (cases "n = 0")
  case False
  have one: "bit_len 1 = 1" using bit_len.simps [of 1] bit_len.simps [of 0] by simp
  have "bit_len (int n) \<le> int k" using assms(1) by (intro bit_len_le) simp_all
  then have "floor_log2 (int n) 1 \<le> 999" using assms(2) by (simp add: floor_log2_def Let_def one)
  then have "max (- 1074) (floor_log2 (int n) 1 - 52) < 971" by simp
  then show ?thesis
    using False by (simp add: f64_of_rat_def round_pos_def Let_def del: max_less_iff_conj)
qed (simp add: f64_of_rat_def)

lemma f64_of_word_finite:
  assumes "LENGTH('a) \<le> 1000"
  shows "is_finite (f64_of_word (w :: 'a::len word))"
  unfolding f64_of_word_def
  using f64_of_nat_finite [OF unsigned_less [of w, where 'a = nat] assms] by simp

lemma f64_div_not_NaN: "is_finite a \<Longrightarrow> is_finite b \<Longrightarrow> f64_lt (Num 0) b \<Longrightarrow> f64_div a b \<noteq> NaN"
  by (cases a; cases b) (auto simp: f64_div_def f64_lt_finite signed_zero_def f64_of_rat_not_NaN Let_def)

text \<open>Sorting by a float key that is never NaN.\<close>

lemma sort_by_desc:
  assumes "\<forall>x \<in> set xs. f x \<noteq> NaN"
  shows "sorted_wrt (\<lambda>a b. f64_le (f b) (f a)) (sort_by (\<lambda>a b. f64_cmp (f b) (f a)) xs)"
proof -
  have "sorted_wrt (\<lambda>a b. f64_cmp (f b) (f a) \<noteq> Greater) (sort_by (\<lambda>a b. f64_cmp (f b) (f a)) xs)"
    using assms by (intro desc.sort_by_sorted) auto
  then show ?thesis
    by (rule sorted_wrt_mono_rel [rotated]) (use assms in \<open>auto simp: f64_cmp_not_Greater\<close>)
qed

lemma sort_by_asc:
  assumes "\<forall>x \<in> set xs. f x \<noteq> NaN"
  shows "sorted_wrt (\<lambda>a b. f64_le (f a) (f b)) (sort_by (\<lambda>a b. f64_cmp (f a) (f b)) xs)"
proof -
  have "sorted_wrt (\<lambda>a b. f64_cmp (f a) (f b) \<noteq> Greater) (sort_by (\<lambda>a b. f64_cmp (f a) (f b)) xs)"
    using assms by (intro asc.sort_by_sorted) auto
  then show ?thesis
    by (rule sorted_wrt_mono_rel [rotated]) (use assms in \<open>auto simp: f64_cmp_not_Greater\<close>)
qed

end
