(* ===== verification/Common_Types.thy ===== *)
theory Common_Types
  imports Prelude
begin

text \<open>
  \<^verbatim>\<open>crates/common/src/types.rs\<close>: the protocol enumeration with its on-chain codes and base gas,
  pool identifiers, the curated token tables, and the records that travel from the detector to
  the executor.
\<close>

section \<open>Protocols\<close>

datatype ProtocolType =
  UniswapV2 | UniswapV3 | SushiSwap | Curve | BalancerV2 | BancorV3 | BalancerV3

text \<open>\<^verbatim>\<open>p as u8\<close>: the discriminants of the \<^verbatim>\<open>repr(u8)\<close> enumeration.\<close>

fun protocol_u8 :: "ProtocolType \<Rightarrow> u8" where
  "protocol_u8 UniswapV2 = 1"
| "protocol_u8 UniswapV3 = 2"
| "protocol_u8 SushiSwap = 3"
| "protocol_u8 Curve = 4"
| "protocol_u8 BalancerV2 = 5"
| "protocol_u8 BancorV3 = 6"
| "protocol_u8 BalancerV3 = 7"

fun base_gas :: "ProtocolType \<Rightarrow> u64" where
  "base_gas UniswapV2 = 60000"
| "base_gas UniswapV3 = 180000"
| "base_gas SushiSwap = 60000"
| "base_gas Curve = 130000"
| "base_gas BalancerV2 = 120000"
| "base_gas BancorV3 = 150000"
| "base_gas BalancerV3 = 120000"

lemma protocol_u8_inj: "protocol_u8 p = protocol_u8 q \<Longrightarrow> p = q"
  by (cases p; cases q) simp_all

section \<open>Well-known addresses\<close>

definition WETH :: address where "WETH = 0xC02aaA39b223FE8D0A0e5C4F27eAD9083C756Cc2"
definition USDC :: address where "USDC = 0xA0b86991c6218b36c1d19D4a2e9Eb0cE3606eB48"
definition USDT :: address where "USDT = 0xdAC17F958D2ee523a2206206994597C13D831ec7"
definition DAI :: address where "DAI = 0x6B175474E89094C44Da98b954EedeAC495271d0F"
definition WBTC :: address where "WBTC = 0x2260FAC5E5542a773Aa44fBCfeDf7C193bc2C599"

lemmas well_known = WETH_def USDC_def USDT_def DAI_def WBTC_def

definition known_token_decimals :: "address \<Rightarrow> u8 option" where
  "known_token_decimals a =
     (if a = WETH then Some 18
      else if a = USDC then Some 6
      else if a = USDT then Some 6
      else if a = DAI then Some 18
      else if a = WBTC then Some 8
      else None)"

definition erc20_balance_slot_for_token :: "address \<Rightarrow> u256 option" where
  "erc20_balance_slot_for_token a =
     (if a = WETH then Some 3
      else if a = USDC then Some 9
      else if a = DAI \<or> a = USDT then Some 2
      else None)"

text \<open>Every token with a known storage layout has known decimals, so a measured profit can be scaled.\<close>

lemma balance_slot_has_decimals:
  "erc20_balance_slot_for_token a = Some s \<Longrightarrow> known_token_decimals a \<noteq> None"
  by (auto simp: erc20_balance_slot_for_token_def known_token_decimals_def split: if_splits)

section \<open>Pools, hops and opportunities\<close>

record PoolId =
  pid_address :: address
  pid_protocol :: ProtocolType

datatype PoolTier = Hot | Warm | Cold

record ArbHop =
  hop_protocol :: ProtocolType
  hop_pool_address :: address
  hop_token_in :: address
  hop_token_out :: address
  hop_amount_in :: u256
  hop_expected_out :: u256
  hop_estimated_gas :: u64

record SwapStep =
  step_protocol :: ProtocolType
  step_pool_address :: address
  step_token_in :: address
  step_token_out :: address
  step_amount_in :: u256
  step_min_amount_out :: u256
  step_calldata :: "u8 list"

record ArbOpportunity =
  opp_id :: string
  opp_hops :: "ArbHop list"
  opp_total_profit_wei :: u256
  opp_total_gas :: u64
  opp_gas_cost_wei :: u256
  opp_net_profit_wei :: u256
  opp_block_number :: u64
  opp_timestamp_ns :: int

record ValidatedArb =
  va_id :: string
  va_hops :: "ArbHop list"
  va_steps :: "SwapStep list"
  va_total_profit_wei :: u256
  va_total_gas :: u64
  va_gas_cost_wei :: u256
  va_net_profit_wei :: u256
  va_block_number :: u64
  va_timestamp_ns :: int
  va_flashloan_token :: address
  va_flashloan_amount :: u256
  va_calldata :: "u8 list"

record SimulationResult =
  sim_success :: bool
  sim_profit_wei :: u256
  sim_gas_used :: u64
  sim_revert_reason :: "string option"

datatype NodeState = Connected | Healthy | Degraded | Reconnecting | Failed

section \<open>Gas constants\<close>

definition FLASHLOAN_BASE_GAS :: u64 where "FLASHLOAN_BASE_GAS = 80000"
definition TX_BASE_GAS :: u64 where "TX_BASE_GAS = 21000"
definition EXECUTOR_OVERHEAD_GAS :: u64 where "EXECUTOR_OVERHEAD_GAS = 30000"
definition UNIV3_PER_TICK_GAS :: u64 where "UNIV3_PER_TICK_GAS = 5000"

lemmas gas_consts =
  FLASHLOAN_BASE_GAS_def TX_BASE_GAS_def EXECUTOR_OVERHEAD_GAS_def UNIV3_PER_TICK_GAS_def

end
