(* ===== verification/Gas.thy ===== *)
theory Gas
  imports Common_Types F64
begin

text \<open>
  \<^verbatim>\<open>crates/detector/src/gas.rs\<close>: gas estimates of one swap and of a whole route, in 64-bit
  arithmetic, and the conversion to wei through \<^verbatim>\<open>f64\<close>.
\<close>

definition estimate_swap_gas :: "ProtocolType \<Rightarrow> u32 \<Rightarrow> u64" where
  "estimate_swap_gas protocol extra_ticks =
     (let base = base_gas protocol in
      case protocol of
        UniswapV3 \<Rightarrow> base + ucast extra_ticks * UNIV3_PER_TICK_GAS
      | _ \<Rightarrow> base)"

text \<open>The loop of \<^verbatim>\<open>estimate_total_gas\<close> over \<^verbatim>\<open>protocols.iter().enumerate()\<close>.\<close>

fun total_gas_loop :: "u32 list \<Rightarrow> nat \<Rightarrow> ProtocolType list \<Rightarrow> u64 \<Rightarrow> u64" where
  "total_gas_loop ticks i [] acc = acc"
| "total_gas_loop ticks i (p # ps) acc =
     (let t = (case list_get ticks i of Some t \<Rightarrow> t | None \<Rightarrow> 0)
      in total_gas_loop ticks (Suc i) ps (acc + estimate_swap_gas p t))"

definition estimate_total_gas :: "ProtocolType list \<Rightarrow> u32 list \<Rightarrow> u64" where
  "estimate_total_gas protocols tick_counts =
     total_gas_loop tick_counts 0 protocols (TX_BASE_GAS + FLASHLOAN_BASE_GAS + EXECUTOR_OVERHEAD_GAS)"

definition gas_cost_wei :: "u64 \<Rightarrow> f64 \<Rightarrow> int" where
  "gas_cost_wei gas_units gas_price_gwei =
     f64_to_u128 (f64_mul (f64_mul (f64_of_word gas_units) gas_price_gwei) (Num (10 ^ 9)))"

section \<open>Exact value of the estimate\<close>

text \<open>The sum over unbounded naturals that the 64-bit accumulator is meant to hold.\<close>

definition swap_gas_nat :: "ProtocolType \<Rightarrow> nat \<Rightarrow> nat" where
  "swap_gas_nat p t = unat (base_gas p) + (if p = UniswapV3 then 5000 * t else 0)"

fun total_gas_nat :: "ProtocolType list \<Rightarrow> u32 list \<Rightarrow> nat" where
  "total_gas_nat [] ts = 0"
| "total_gas_nat (p # ps) [] = swap_gas_nat p 0 + total_gas_nat ps []"
| "total_gas_nat (p # ps) (t # ts) = swap_gas_nat p (unat t) + total_gas_nat ps ts"

lemma unat_lt_u32: "unat (t :: u32) < 4294967296"
  using unsigned_less [of t, where ?'a = nat] by simp

lemma swap_gas_nat_bound: "swap_gas_nat p (unat (t :: u32)) \<le> 180000 + 5000 * 4294967295"
  using unat_lt_u32 [of t] by (cases p) (auto simp: swap_gas_nat_def)

lemma unat_ticks_product: "unat (ucast (t :: u32) * UNIV3_PER_TICK_GAS) = 5000 * unat t"
proof -
  have "unat (ucast t * (5000 :: u64)) = unat (ucast t :: u64) * unat (5000 :: u64)"
    by (rule unat_mult_lem [THEN iffD1]) (use unat_lt_u32 [of t] in \<open>simp add: unat_ucast_up\<close>)
  then show ?thesis by (simp add: UNIV3_PER_TICK_GAS_def unat_ucast_up)
qed

lemma unat_estimate_swap_gas: "unat (estimate_swap_gas p t) = swap_gas_nat p (unat t)"
proof (cases "p = UniswapV3")
  case True
  have "unat (180000 + ucast t * UNIV3_PER_TICK_GAS) =
      unat (180000 :: u64) + unat (ucast t * UNIV3_PER_TICK_GAS)"
    by (rule unat_add_lem [THEN iffD1])
       (use unat_lt_u32 [of t] in \<open>simp add: unat_ticks_product\<close>)
  with True show ?thesis
    by (simp add: estimate_swap_gas_def swap_gas_nat_def unat_ticks_product)
next
  case False
  then show ?thesis
    by (cases p) (simp_all add: estimate_swap_gas_def swap_gas_nat_def)
qed

lemma total_gas_loop_exact:
  "unat acc + total_gas_nat ps (drop i ts) < 2 ^ 64
   \<Longrightarrow> unat (total_gas_loop ts i ps acc) = unat acc + total_gas_nat ps (drop i ts)"
proof (induction ps arbitrary: i acc)
  case Nil
  then show ?case by simp
next
  case (Cons p ps)
  define t where "t = (case list_get ts i of Some t \<Rightarrow> t | None \<Rightarrow> 0)"
  have split: "total_gas_nat (p # ps) (drop i ts) = swap_gas_nat p (unat t) + total_gas_nat ps (drop (Suc i) ts)"
    by (cases "i < length ts")
       (auto simp: t_def list_get_def Cons_nth_drop_Suc [symmetric])
  have "unat (acc + estimate_swap_gas p t) = unat acc + swap_gas_nat p (unat t)"
    using unat_add_lem [THEN iffD1, of acc "estimate_swap_gas p t"] Cons.prems split
    by (simp add: unat_estimate_swap_gas)
  with Cons.IH [of "acc + estimate_swap_gas p t" "Suc i"] Cons.prems split show ?case
    by (simp add: t_def Let_def)
qed

text \<open>
  The route estimate is exact.  With fewer than \<open>2 ^ 18\<close> hops the 64-bit accumulator cannot
  wrap, whatever the tick counts, so the estimate is the fixed overhead of the transaction, the
  flash loan and the executor (131000) plus the per-hop cost; a hop without an entry in
  \<^verbatim>\<open>tick_counts\<close> is charged no ticks.
\<close>

theorem estimate_total_gas_exact:
  assumes "length protocols < 2 ^ 18"
  shows "unat (estimate_total_gas protocols tick_counts) = 131000 + total_gas_nat protocols tick_counts"
proof -
  have bound: "total_gas_nat ps ts \<le> length ps * (180000 + 5000 * 4294967295)" for ps ts
  proof (induction ps ts rule: total_gas_nat.induct)
    case (2 p ps)
    then show ?case using swap_gas_nat_bound [of p 0] by simp
  next
    case (3 p ps t ts)
    then show ?case using swap_gas_nat_bound [of p t] by simp
  qed simp
  have "length protocols * (180000 + 5000 * 4294967295) \<le> 2 ^ 18 * (180000 + 5000 * 4294967295)"
    using assms by (intro mult_le_mono1) simp
  with bound [of protocols tick_counts]
  have "131000 + total_gas_nat protocols tick_counts < 2 ^ 64" by simp
  then show ?thesis
    using total_gas_loop_exact [of 131000 protocols 0 tick_counts]
    by (simp add: estimate_total_gas_def gas_consts)
qed

theorem estimate_total_gas_exact_witness:
  "unat (estimate_total_gas [UniswapV3, SushiSwap] [3]) = 131000 + total_gas_nat [UniswapV3, SushiSwap] [3]
   \<and> total_gas_nat [UniswapV3, SushiSwap] [3] = 255000"
  using estimate_total_gas_exact [of "[UniswapV3, SushiSwap]" "[3]"]
  by (simp add: swap_gas_nat_def)

end
