(* ===== verification/Pool_Contract.thy ===== *)
theory Pool_Contract
  imports Common_Types
begin

text \<open>
  The interfaces the pool adapters implement.  \<open>pool_adapter\<close> is the part of the trait \<^verbatim>\<open>Pool\<close>
  (\<^verbatim>\<open>crates/pools/src/lib.rs\<close>) every caller relies on: which requests are refused.
  \<open>constant_product\<close> is the pricing promise of the adapters whose curve is \<open>x * y = k\<close>: a quote
  never pays more than the curve allows.  Its clients' facts are proved here once.
\<close>

section \<open>Refusals\<close>

locale pool_adapter =
  fixes tokens :: "'p \<Rightarrow> address list"
    and get_amount_out :: "'p \<Rightarrow> address \<Rightarrow> u256 \<Rightarrow> u256 option exec"
    and get_amount_in :: "'p \<Rightarrow> address \<Rightarrow> u256 \<Rightarrow> u256 option exec"
  assumes out_zero: "get_amount_out p t 0 = Ret None"
    and out_unknown: "t \<notin> set (tokens p) \<Longrightarrow> get_amount_out p t a = Ret None"
    and in_zero: "get_amount_in p t 0 = Ret None"
    and in_unknown: "t \<notin> set (tokens p) \<Longrightarrow> get_amount_in p t a = Ret None"
begin

lemma quote_domain:
  "get_amount_out p t a = Ret (Some y) \<Longrightarrow> t \<in> set (tokens p) \<and> a \<noteq> 0"
  using out_unknown out_zero by (metis exec.inject(1) option.distinct(1))

lemma reverse_quote_domain:
  "get_amount_in p t a = Ret (Some x) \<Longrightarrow> t \<in> set (tokens p) \<and> a \<noteq> 0"
  using in_unknown in_zero by (metis exec.inject(1) option.distinct(1))

text \<open>A panic can only come from a request for a token of the pool.\<close>

lemma panic_domain:
  "get_amount_out p t a = Panic e \<Longrightarrow> t \<in> set (tokens p) \<and> a \<noteq> 0"
  using out_unknown out_zero by (metis exec.distinct(1))

end

section \<open>The constant-product promise\<close>

text \<open>
  \<open>rin\<close> and \<open>rout\<close> read the reserves on the side of the given input token, \<open>ok\<close> is the condition
  under which the adapter's arithmetic is exact.
\<close>

locale constant_product =
  fixes quote :: "'p \<Rightarrow> address \<Rightarrow> u256 \<Rightarrow> u256 option exec"
    and rin rout :: "'p \<Rightarrow> address \<Rightarrow> nat"
    and ok :: "'p \<Rightarrow> address \<Rightarrow> u256 \<Rightarrow> bool"
  assumes quote_bound: "ok p t a \<Longrightarrow> quote p t a = Ret (Some y)
      \<Longrightarrow> unat y * (rin p t + unat a) \<le> rout p t * unat a"
    and quote_reserves: "ok p t a \<Longrightarrow> quote p t a = Ret (Some y) \<Longrightarrow> 0 < rin p t \<and> 0 < rout p t"
begin

lemma no_drain:
  assumes "ok p t a" and "quote p t a = Ret (Some y)"
  shows "unat y < rout p t"
proof (rule ccontr)
  assume "\<not> unat y < rout p t"
  then have "rout p t * (rin p t + unat a) \<le> unat y * (rin p t + unat a)"
    by (intro mult_le_mono1) simp
  with quote_bound [OF assms] have "rout p t * rin p t \<le> 0"
    unfolding add_mult_distrib2 by linarith
  with quote_reserves [OF assms] show False by simp
qed

lemma product_never_decreases:
  assumes "ok p t a" and "quote p t a = Ret (Some y)"
  shows "rin p t * rout p t \<le> (rin p t + unat a) * (rout p t - unat y)"
proof -
  have "(rin p t + unat a) * (rout p t - unat y) =
      (rin p t + unat a) * rout p t - unat y * (rin p t + unat a)"
    by (simp add: diff_mult_distrib2 mult.commute [of "unat y"])
  moreover have "(rin p t + unat a) * rout p t - rout p t * unat a = rin p t * rout p t"
    by (simp add: algebra_simps)
  ultimately show ?thesis using quote_bound [OF assms] by simp
qed

text \<open>Selling the proceeds back into the pool as the first trade left it never makes a profit.\<close>

lemma round_trip_no_profit:
  assumes first: "ok p t a" "quote p t a = Ret (Some y)"
    and post: "rin p' t' = rout p t - unat y" "rout p' t' = rin p t + unat a"
    and second: "ok p' t' y" "quote p' t' y = Ret (Some z)"
  shows "unat z \<le> unat a"
proof -
  have "rin p' t' + unat y = rout p t" using post no_drain [OF first] by simp
  with quote_bound [OF second] post have "unat z * rout p t \<le> (rin p t + unat a) * unat y" by simp
  also have "\<dots> = unat y * (rin p t + unat a)" by (rule mult.commute)
  also have "\<dots> \<le> unat a * rout p t" using quote_bound [OF first] by (simp add: mult.commute)
  finally have "unat z * rout p t \<le> unat a * rout p t" .
  with quote_reserves [OF first] show ?thesis by simp
qed

end

text \<open>The integer form of the curve: what a floor division by the post-trade reserve pays.\<close>

lemma cp_floor_bound:
  fixes w a x y q s :: nat
  assumes "w \<le> s * a" and "q = w * y div (x * s + w)" and "0 < x * s + w"
  shows "q * (x + a) \<le> y * a"
proof -
  have "q * (x * s + w) \<le> w * y" unfolding assms(2) by (rule div_times_less_eq_dividend)
  then have le: "q * x * s + q * w \<le> w * y" by (simp add: algebra_simps)
  show ?thesis
  proof (cases "q \<le> y")
    case True
    have "s * (q * (x + a)) = q * x * s + q * (s * a)" by (simp add: algebra_simps)
    also have "\<dots> = (q * x * s + q * w) + q * (s * a - w)"
      using assms(1) by (simp add: diff_mult_distrib2)
    also have "\<dots> \<le> w * y + y * (s * a - w)" using le True by (intro add_mono mult_le_mono1) auto
    also have "\<dots> = y * (s * a)" using assms(1) by (simp add: diff_mult_distrib2 algebra_simps)
    finally have "s * (q * (x + a)) \<le> s * (y * a)" by (simp add: algebra_simps)
    moreover have "0 < s \<or> q = 0" using assms(1,2) by (cases "s = 0") auto
    ultimately show ?thesis by auto
  next
    case False
    then have "w * y < w * q \<or> w = 0" by auto
    moreover have "w * q \<le> w * y" using le mult.commute [of q w] by linarith
    ultimately have "w = 0" by linarith
    with assms(2) have "q = 0" by simp
    with False show ?thesis by simp
  qed
qed

lemma div_le_mult_bound: "w * y div (x + w) \<le> (y :: nat)"
proof (cases "x + w = 0")
  case False
  have "w * y div (x + w) \<le> y * (x + w) div (x + w)" by (intro div_le_mono) (simp add: algebra_simps)
  with False show ?thesis by simp
qed simp

section \<open>Basis-point arithmetic on words\<close>

lemma bps_words:
  fixes r :: u256 and m :: u32
  assumes "unat r < 2 ^ 240" and "unat m \<le> 10000"
  shows "unat (r * ucast m div 10000) = unat r * unat m div 10000"
    and "unat (r * ucast m div 10000) \<le> unat r"
proof -
  have "unat r * unat m < 2 ^ 254" using mult_less_pow2 [OF assms(1), of "unat m" 14] assms(2) by simp
  then have "unat (r * ucast m) = unat r * unat m"
    by (subst unat_mult_fits) (auto simp: unat_ucast_widen intro: u256_fits_pow2 [of _ 254])
  then show eq: "unat (r * ucast m div 10000) = unat r * unat m div 10000" by (simp add: unat_div_word)
  have "unat r * unat m div 10000 \<le> unat r * 10000 div 10000"
    using assms(2) by (intro div_le_mono) simp
  then show "unat (r * ucast m div 10000) \<le> unat r" by (simp add: eq)
qed

lemma unat_fee_complement32: "unat fee \<le> 10000 \<Longrightarrow> unat (10000 - fee :: u32) = 10000 - unat fee"
  by (subst unat_sub) (simp_all add: word_le_nat_alt)

lemma fee_first_words:
  fixes a ri ro :: u256 and fee :: u32
  assumes "unat a < 2 ^ 128" and "unat ri < 2 ^ 112" and "unat ro < 2 ^ 112"
    and "unat fee \<le> 10000" and "0 < unat ri"
  defines "w \<equiv> a * ucast (10000 - fee) div 10000"
  shows "unat w \<le> unat a" and "ri + w \<noteq> 0"
    and "unat (ro * w div (ri + w)) = unat w * unat ro div (unat ri + unat w)"
proof -
  have a: "unat a < 2 ^ 240" using assms(1) by simp
  show le: "unat w \<le> unat a" unfolding w_def
    by (rule bps_words(2) [OF a]) (simp add: unat_fee_complement32 [OF assms(4)])
  have sum: "unat (ri + w) = unat ri + unat w"
    by (intro unat_add_fits u256_fits_pow2 [of _ 129]) (use le assms(1,2) in simp_all)
  then show "ri + w \<noteq> 0" using assms(5) by (metis add_is_0 less_irrefl unat_0)
  have "unat ro * unat w < 2 ^ 240"
    using mult_less_pow2 [OF assms(3), of "unat w" 128] le assms(1) by simp
  then have "unat (ro * w) = unat w * unat ro"
    by (subst unat_mult_fits) (auto intro: u256_fits_pow2 [of _ 240])
  then show "unat (ro * w div (ri + w)) = unat w * unat ro div (unat ri + unat w)"
    by (simp add: unat_div_word sum)
qed

end
