(* ===== verification/Swap_Encode.thy ===== *)
theory Swap_Encode
  imports Common_Types
begin

unbundle bit_operations_syntax

text \<open>
  \<^verbatim>\<open>crates/pools/src/swap_encode.rs\<close>: the calldata each adapter hands to the executor.  A call of
  a contract interface declared with \<^verbatim>\<open>sol!\<close> is a value of type \<open>sol_call\<close>; turning it into bytes
  (\<^verbatim>\<open>SolCall::abi_encode\<close> of the \<^verbatim>\<open>alloy\<close> crate) is the parameter \<open>abi_encode\<close> of the encoders.
\<close>

type_synonym u160 = "160 word"
type_synonym bytes = "u8 list"

record SingleSwap =
  ss_poolId :: b256
  ss_kind :: u8
  ss_assetIn :: address
  ss_assetOut :: address
  ss_amount :: u256
  ss_userData :: bytes

record FundManagement =
  fm_sender :: address
  fm_fromInternalBalance :: bool
  fm_recipient :: address
  fm_toInternalBalance :: bool

text \<open>Signed arguments (\<^verbatim>\<open>int256\<close>, \<^verbatim>\<open>int128\<close>) are given by their mathematical value.\<close>

datatype sol_call =
    UniV2Swap u256 u256 address bytes
      \<comment> \<open>\<^verbatim>\<open>swap(amount0Out, amount1Out, to, data)\<close>\<close>
  | UniV3Swap address bool int u160 bytes
      \<comment> \<open>\<^verbatim>\<open>swap(recipient, zeroForOne, amountSpecified, sqrtPriceLimitX96, data)\<close>\<close>
  | CurveExchange int int u256 u256
      \<comment> \<open>\<^verbatim>\<open>exchange(i, j, dx, min_dy)\<close>\<close>
  | TradeBySourceAmount address address u256 u256 u256 address
      \<comment> \<open>\<^verbatim>\<open>tradeBySourceAmount(source, target, amount, minReturn, deadline, beneficiary)\<close>\<close>
  | VaultSwap SingleSwap FundManagement u256 u256
      \<comment> \<open>\<^verbatim>\<open>swap(singleSwap, funds, limit, deadline)\<close>\<close>

definition encode_univ2_swap ::
    "(sol_call \<Rightarrow> bytes) \<Rightarrow> address \<Rightarrow> address \<Rightarrow> u256 \<Rightarrow> address \<Rightarrow> bytes" where
  "encode_univ2_swap abi_encode token0 token_in min_out recipient =
     (let (amount0_out, amount1_out) = (if token_in = token0 then (0, min_out) else (min_out, 0))
      in abi_encode (UniV2Swap amount0_out amount1_out recipient []))"

text \<open>\<^verbatim>\<open>amount_in.saturating_to::<u128>()\<close>, then \<^verbatim>\<open>I256::try_from\<close>, which a \<^verbatim>\<open>u128\<close> never fails.\<close>

definition univ3_amount_specified :: "u256 \<Rightarrow> int" where
  "univ3_amount_specified amount_in = int (min (unat amount_in) (2 ^ 128 - 1))"

definition encode_univ3_swap ::
    "(sol_call \<Rightarrow> bytes) \<Rightarrow> address \<Rightarrow> address \<Rightarrow> u256 \<Rightarrow> address \<Rightarrow> bytes" where
  "encode_univ3_swap abi_encode token0 token_in amount_in recipient =
     (let zero_for_one = (token_in = token0);
          amount_i256 = univ3_amount_specified amount_in;
          sqrt_limit = (if zero_for_one then 4295128740 else push_bit 160 (1 :: u256) - 2);
          max_uint160 = push_bit 160 (1 :: u256) - 1;
          clamped = min sqrt_limit max_uint160;
          limit_u160 = (ucast clamped :: u160)
      in abi_encode (UniV3Swap recipient zero_for_one amount_i256 limit_u160 []))"

definition encode_curve_exchange ::
    "(sol_call \<Rightarrow> bytes) \<Rightarrow> address \<Rightarrow> address list \<Rightarrow> u256 \<Rightarrow> u256 \<Rightarrow> bytes" where
  "encode_curve_exchange abi_encode token_in tokens amount_in min_out =
     (if length tokens < 2 then []
      else case position (\<lambda>t. t = token_in) tokens of
        None \<Rightarrow> []
      | Some i \<Rightarrow>
          let j = (if i = 0 then 1 else 0)
          in abi_encode (CurveExchange (int i) j amount_in min_out))"

text \<open>\<open>u64::MAX\<close> as a deadline; the pool address fills the low 20 bytes of the 32-byte pool id.\<close>

definition encode_balancer_vault_swap ::
    "(sol_call \<Rightarrow> bytes) \<Rightarrow> address \<Rightarrow> address \<Rightarrow> address \<Rightarrow> u256 \<Rightarrow> u256 \<Rightarrow> bytes" where
  "encode_balancer_vault_swap abi_encode pool_address token_in token_out amount_in min_out =
     abi_encode (VaultSwap
       \<lparr>ss_poolId = ucast pool_address, ss_kind = 0, ss_assetIn = token_in, ss_assetOut = token_out,
        ss_amount = amount_in, ss_userData = []\<rparr>
       \<lparr>fm_sender = 0, fm_fromInternalBalance = False, fm_recipient = 0, fm_toInternalBalance = False\<rparr>
       min_out (ucast (- 1 :: u64)))"

definition encode_bancor_trade ::
    "(sol_call \<Rightarrow> bytes) \<Rightarrow> address \<Rightarrow> address \<Rightarrow> u256 \<Rightarrow> u256 \<Rightarrow> address \<Rightarrow> bytes" where
  "encode_bancor_trade abi_encode token_in token_out amount_in min_out beneficiary =
     abi_encode (TradeBySourceAmount token_in token_out amount_in min_out (ucast (- 1 :: u64)) beneficiary)"

section \<open>What reaches the contract\<close>

text \<open>
  The price limit of the V3 swap survives the narrowing to 160 bits, so neither direction is
  encoded with a truncated limit.
\<close>

lemma encode_univ3_limit:
  "encode_univ3_swap abi t0 t_in a r =
     abi (UniV3Swap r (t_in = t0) (univ3_amount_specified a)
            (if t_in = t0 then 4295128740
             else 1461501637330902918203684832716283019655932542974) [])"
  by (simp add: encode_univ3_swap_def Let_def push_bit_eq_mult min_def word_le_nat_alt)

lemma univ3_amount_specified_exact_iff:
  "univ3_amount_specified a = int (unat a) \<longleftrightarrow> unat a < 2 ^ 128"
  unfolding univ3_amount_specified_def of_nat_eq_iff by (simp add: min_def)

end
