(* ===== verification/Uniswap_V2.thy ===== *)
theory Uniswap_V2
  imports Pool_Contract Swap_Encode
begin

text \<open>
  \<^verbatim>\<open>crates/pools/src/uniswap_v2.rs\<close> and \<^verbatim>\<open>sushiswap.rs\<close>: the constant-product adapters.  \<open>U256\<close>
  arithmetic wraps, so exactness needs the pool's reserves to be the \<^verbatim>\<open>uint112\<close> values a pair
  contract holds (\<open>v2_inv\<close>) and the amount to be below \<open>2 ^ 128\<close>.
\<close>

record UniswapV2Pool =
  v2_address :: address
  v2_token0 :: address
  v2_token1 :: address
  v2_reserve0 :: u256
  v2_reserve1 :: u256
  v2_fee_bps :: u32

definition v2_new :: "address \<Rightarrow> address \<Rightarrow> address \<Rightarrow> u32 \<Rightarrow> UniswapV2Pool" where
  "v2_new addr token0 token1 fee_bps =
     \<lparr>v2_address = addr, v2_token0 = token0, v2_token1 = token1,
      v2_reserve0 = 0, v2_reserve1 = 0, v2_fee_bps = fee_bps\<rparr>"

definition v2_protocol :: "UniswapV2Pool \<Rightarrow> ProtocolType" where
  "v2_protocol _ = UniswapV2"

definition v2_tokens :: "UniswapV2Pool \<Rightarrow> address list" where
  "v2_tokens p = [v2_token0 p, v2_token1 p]"

definition v2_get_amount_out :: "UniswapV2Pool \<Rightarrow> address \<Rightarrow> u256 \<Rightarrow> u256 option exec" where
  "v2_get_amount_out p token_in amount_in =
     (if amount_in = 0 then Ret None
      else case
          (if token_in = v2_token0 p then Some (v2_reserve0 p, v2_reserve1 p)
           else if token_in = v2_token1 p then Some (v2_reserve1 p, v2_reserve0 p)
           else None)
        of None \<Rightarrow> Ret None
        | Some (reserve_in, reserve_out) \<Rightarrow>
            if reserve_in = 0 \<or> reserve_out = 0 then Ret None
            else
              let fee_complement = saturating_sub (10000 :: u64) (ucast (v2_fee_bps p));
                  amount_in_with_fee = amount_in * ucast fee_complement;
                  numerator = amount_in_with_fee * reserve_out;
                  denominator = reserve_in * 10000 + amount_in_with_fee
              in emap Some (word_div numerator denominator))"

definition v2_get_amount_in :: "UniswapV2Pool \<Rightarrow> address \<Rightarrow> u256 \<Rightarrow> u256 option exec" where
  "v2_get_amount_in p token_out amount_out =
     (if amount_out = 0 then Ret None
      else case
          (if token_out = v2_token1 p then Some (v2_reserve0 p, v2_reserve1 p)
           else if token_out = v2_token0 p then Some (v2_reserve1 p, v2_reserve0 p)
           else None)
        of None \<Rightarrow> Ret None
        | Some (reserve_in, reserve_out) \<Rightarrow>
            if reserve_in = 0 \<or> reserve_out = 0 then Ret None
            else if amount_out \<ge> reserve_out then Ret None
            else
              let fee_complement = saturating_sub (10000 :: u64) (ucast (v2_fee_bps p));
                  numerator = reserve_in * amount_out * 10000;
                  denominator = (reserve_out - amount_out) * ucast fee_complement
              in emap (\<lambda>q. Some (q + 1)) (word_div numerator denominator))"

definition v2_update_state :: "UniswapV2Pool \<Rightarrow> u256 \<Rightarrow> u256 \<Rightarrow> UniswapV2Pool" where
  "v2_update_state p reserve0 reserve1 = p\<lparr>v2_reserve0 := reserve0, v2_reserve1 := reserve1\<rparr>"

definition v2_encode_swap ::
    "(sol_call \<Rightarrow> bytes) \<Rightarrow> UniswapV2Pool \<Rightarrow> address \<Rightarrow> u256 \<Rightarrow> u256 \<Rightarrow> bytes" where
  "v2_encode_swap abi_encode p token_in amount_in min_out =
     encode_univ2_swap abi_encode (v2_token0 p) token_in min_out 0"

definition v2_liquidity_depth :: "UniswapV2Pool \<Rightarrow> u256" where
  "v2_liquidity_depth p = min (v2_reserve0 p) (v2_reserve1 p)"

subsection \<open>SushiSwap: the same pool behind another tag\<close>

record SushiSwapPool =
  sushi_inner :: UniswapV2Pool

definition sushi_new :: "address \<Rightarrow> address \<Rightarrow> address \<Rightarrow> u32 \<Rightarrow> SushiSwapPool" where
  "sushi_new addr token0 token1 fee_bps = \<lparr>sushi_inner = v2_new addr token0 token1 fee_bps\<rparr>"

definition sushi_protocol :: "SushiSwapPool \<Rightarrow> ProtocolType" where
  "sushi_protocol _ = SushiSwap"

definition sushi_tokens :: "SushiSwapPool \<Rightarrow> address list" where
  "sushi_tokens p = v2_tokens (sushi_inner p)"

definition sushi_get_amount_out :: "SushiSwapPool \<Rightarrow> address \<Rightarrow> u256 \<Rightarrow> u256 option exec" where
  "sushi_get_amount_out p = v2_get_amount_out (sushi_inner p)"

definition sushi_get_amount_in :: "SushiSwapPool \<Rightarrow> address \<Rightarrow> u256 \<Rightarrow> u256 option exec" where
  "sushi_get_amount_in p = v2_get_amount_in (sushi_inner p)"

definition sushi_update_state :: "SushiSwapPool \<Rightarrow> u256 \<Rightarrow> u256 \<Rightarrow> SushiSwapPool" where
  "sushi_update_state p reserve0 reserve1 =
     p\<lparr>sushi_inner := v2_update_state (sushi_inner p) reserve0 reserve1\<rparr>"

definition sushi_encode_swap ::
    "(sol_call \<Rightarrow> bytes) \<Rightarrow> SushiSwapPool \<Rightarrow> address \<Rightarrow> u256 \<Rightarrow> u256 \<Rightarrow> bytes" where
  "sushi_encode_swap abi_encode p = v2_encode_swap abi_encode (sushi_inner p)"

definition sushi_liquidity_depth :: "SushiSwapPool \<Rightarrow> u256" where
  "sushi_liquidity_depth p = v2_liquidity_depth (sushi_inner p)"

section \<open>Reserves seen from a side of the pair\<close>

definition v2_inv :: "UniswapV2Pool \<Rightarrow> bool" where
  "v2_inv p \<longleftrightarrow> unat (v2_reserve0 p) < 2 ^ 112 \<and> unat (v2_reserve1 p) < 2 ^ 112
     \<and> v2_token0 p \<noteq> v2_token1 p"

definition v2_rin :: "UniswapV2Pool \<Rightarrow> address \<Rightarrow> nat" where
  "v2_rin p t = unat (if t = v2_token0 p then v2_reserve0 p else v2_reserve1 p)"

definition v2_rout :: "UniswapV2Pool \<Rightarrow> address \<Rightarrow> nat" where
  "v2_rout p t = unat (if t = v2_token0 p then v2_reserve1 p else v2_reserve0 p)"

definition v2_other :: "UniswapV2Pool \<Rightarrow> address \<Rightarrow> address" where
  "v2_other p t = (if t = v2_token0 p then v2_token1 p else v2_token0 p)"

text \<open>The share of the input the fee leaves, in basis points.\<close>

definition v2_keep :: "UniswapV2Pool \<Rightarrow> nat" where
  "v2_keep p = 10000 - unat (v2_fee_bps p)"

definition v2_ok :: "UniswapV2Pool \<Rightarrow> address \<Rightarrow> u256 \<Rightarrow> bool" where
  "v2_ok p t a \<longleftrightarrow> v2_inv p \<and> t \<in> set (v2_tokens p) \<and> unat a < 2 ^ 128"

text \<open>The books after the pair contract took \<open>a\<close> of token \<open>t\<close> and paid out \<open>y\<close>.\<close>

definition v2_swapped :: "UniswapV2Pool \<Rightarrow> address \<Rightarrow> u256 \<Rightarrow> u256 \<Rightarrow> UniswapV2Pool" where
  "v2_swapped p t a y =
     (if t = v2_token0 p then v2_update_state p (v2_reserve0 p + a) (v2_reserve1 p - y)
      else v2_update_state p (v2_reserve0 p - y) (v2_reserve1 p + a))"

lemma v2_rin_less: "v2_inv p \<Longrightarrow> v2_rin p t < 2 ^ 112"
  and v2_rout_less: "v2_inv p \<Longrightarrow> v2_rout p t < 2 ^ 112"
  by (simp_all add: v2_inv_def v2_rin_def v2_rout_def)

lemma unat_fee_complement:
  "unat (ucast (saturating_sub (10000 :: u64) (ucast (v2_fee_bps p))) :: u256) = v2_keep p"
  by (simp add: v2_keep_def unat_saturating_sub unat_ucast_widen unat_ucast_up)

lemma v2_keep_le: "v2_keep p \<le> 10000"
  by (simp add: v2_keep_def)

section \<open>The quotes in exact arithmetic\<close>

lemma v2_words_out:
  fixes a c ri ro :: u256
  assumes "unat a < 2 ^ 128" "unat c \<le> 10000" "unat ri < 2 ^ 112" "unat ro < 2 ^ 112"
  shows "unat (a * c * ro) = unat a * unat c * unat ro"
    and "unat (ri * 10000 + a * c) = unat ri * 10000 + unat a * unat c"
proof -
  have c: "unat c < 2 ^ 14" using assms(2) by simp
  have ac: "unat a * unat c < 2 ^ 142" using mult_less_pow2 [OF assms(1) c] by simp
  then have ac': "unat (a * c) = unat a * unat c"
    by (intro unat_mult_fits u256_fits_pow2 [of _ 142]) auto
  have "unat a * unat c * unat ro < 2 ^ 254" using mult_less_pow2 [OF ac assms(4)] by simp
  then show "unat (a * c * ro) = unat a * unat c * unat ro"
    by (subst unat_mult_fits) (auto simp: ac' intro: u256_fits_pow2 [of _ 254])
  have r: "unat ri * 10000 < 2 ^ 142" using assms(3) by simp
  then have r': "unat (ri * 10000) = unat ri * 10000"
    by (subst unat_mult_fits) (auto intro: u256_fits_pow2 [of _ 142])
  have "unat ri * 10000 + unat a * unat c < 2 ^ 143" using r ac by simp
  then show "unat (ri * 10000 + a * c) = unat ri * 10000 + unat a * unat c"
    by (subst unat_add_fits) (auto simp: r' ac' intro: u256_fits_pow2 [of _ 143])
qed

lemma v2_words_in:
  fixes d c ri ro :: u256
  assumes "d < ro" "unat c \<le> 10000" "unat ri < 2 ^ 112" "unat ro < 2 ^ 112"
  shows "unat (ri * d * 10000) = unat ri * unat d * 10000"
    and "unat ((ro - d) * c) = (unat ro - unat d) * unat c"
proof -
  have d: "unat d < 2 ^ 112" using assms(1,4) by (simp add: word_less_nat_alt)
  have rd: "unat ri * unat d < 2 ^ 224" using mult_less_pow2 [OF assms(3) d] by simp
  then have rd': "unat (ri * d) = unat ri * unat d"
    by (intro unat_mult_fits u256_fits_pow2 [of _ 224]) auto
  have "unat ri * unat d * 10000 < 2 ^ 238" using mult_less_pow2 [OF rd, of 10000 14] by simp
  then show "unat (ri * d * 10000) = unat ri * unat d * 10000"
    by (subst unat_mult_fits) (auto simp: rd' intro: u256_fits_pow2 [of _ 238])
  have s: "unat (ro - d) = unat ro - unat d" using assms(1) by (intro unat_sub_le) simp
  have "(unat ro - unat d) * unat c < 2 ^ 126"
    using mult_less_pow2 [of "unat ro - unat d" 112 "unat c" 14] assms(2,4) by simp
  then show "unat ((ro - d) * c) = (unat ro - unat d) * unat c"
    by (subst unat_mult_fits) (auto simp: s intro: u256_fits_pow2 [of _ 126])
qed

text \<open>The integer formulas of the two quotes.\<close>

definition v2_out_nat :: "nat \<Rightarrow> nat \<Rightarrow> nat \<Rightarrow> nat \<Rightarrow> nat" where
  "v2_out_nat c x y a = a * c * y div (x * 10000 + a * c)"

definition v2_in_nat :: "nat \<Rightarrow> nat \<Rightarrow> nat \<Rightarrow> nat \<Rightarrow> nat" where
  "v2_in_nat c x y d = x * d * 10000 div ((y - d) * c) + 1"

lemma v2_out_exec:
  assumes "v2_ok p t a" and "a \<noteq> 0" and "0 < v2_rin p t" and "0 < v2_rout p t"
  shows "\<exists>y. v2_get_amount_out p t a = Ret (Some y)
     \<and> unat y = v2_out_nat (v2_keep p) (v2_rin p t) (v2_rout p t) (unat a)"
proof -
  define c :: u256 where "c = ucast (saturating_sub (10000 :: u64) (ucast (v2_fee_bps p)))"
  define ri where "ri = (if t = v2_token0 p then v2_reserve0 p else v2_reserve1 p)"
  define ro where "ro = (if t = v2_token0 p then v2_reserve1 p else v2_reserve0 p)"
  have c: "unat c = v2_keep p" by (simp add: c_def unat_fee_complement)
  have r: "unat ri = v2_rin p t" "unat ro = v2_rout p t"
    by (simp_all add: ri_def ro_def v2_rin_def v2_rout_def)
  have bounds: "unat ri < 2 ^ 112" "unat ro < 2 ^ 112" "unat a < 2 ^ 128" "unat c \<le> 10000"
    using assms(1) v2_rin_less v2_rout_less by (auto simp: r c v2_ok_def v2_keep_le)
  note words = v2_words_out [OF bounds(3,4,1,2)]
  have nz: "ri \<noteq> 0" "ro \<noteq> 0" using assms(3,4) r by auto
  have tok: "t = v2_token0 p \<or> t = v2_token1 p" using assms(1) by (simp add: v2_ok_def v2_tokens_def)
  have "0 < unat (ri * 10000 + a * c)" unfolding words r using assms(3) by simp
  then have d: "ri * 10000 + a * c \<noteq> 0" by auto
  have "v2_get_amount_out p t a = emap Some (word_div (a * c * ro) (ri * 10000 + a * c))"
    using tok assms(2) nz unfolding v2_get_amount_out_def ri_def ro_def c_def Let_def
    by (cases "t = v2_token0 p") simp_all
  also have "\<dots> = Ret (Some ((a * c * ro) div (ri * 10000 + a * c)))" using d by simp
  finally have "v2_get_amount_out p t a = Ret (Some ((a * c * ro) div (ri * 10000 + a * c)))" .
  moreover have "unat ((a * c * ro) div (ri * 10000 + a * c)) =
      v2_out_nat (v2_keep p) (v2_rin p t) (v2_rout p t) (unat a)"
    unfolding unat_div_word words v2_out_nat_def r c ..
  ultimately show ?thesis by blast
qed

text \<open>Seen from the token asked for, \<open>v2_rout\<close> is the reserve on the paying-in side.\<close>

lemma v2_in_exec:
  assumes "v2_inv p" and "t \<in> set (v2_tokens p)" and "d \<noteq> 0" and "0 < v2_rout p t"
    and "unat d < v2_rin p t" and "0 < v2_keep p"
  shows "\<exists>x. v2_get_amount_in p t d = Ret (Some x)
     \<and> unat x = v2_in_nat (v2_keep p) (v2_rout p t) (v2_rin p t) (unat d)"
proof -
  define c :: u256 where "c = ucast (saturating_sub (10000 :: u64) (ucast (v2_fee_bps p)))"
  define ri where "ri = (if t = v2_token0 p then v2_reserve1 p else v2_reserve0 p)"
  define ro where "ro = (if t = v2_token0 p then v2_reserve0 p else v2_reserve1 p)"
  have c: "unat c = v2_keep p" by (simp add: c_def unat_fee_complement)
  have r: "unat ri = v2_rout p t" "unat ro = v2_rin p t"
    by (simp_all add: ri_def ro_def v2_rin_def v2_rout_def)
  have bounds: "unat ri < 2 ^ 112" "unat ro < 2 ^ 112" "unat c \<le> 10000" "d < ro"
    using assms(1,5) v2_rin_less v2_rout_less
    by (auto simp: r c v2_keep_le word_less_nat_alt)
  note words = v2_words_in [OF bounds(4,3,1,2)]
  have nz: "ri \<noteq> 0" "ro \<noteq> 0" using assms(4,5) r by auto
  have tok: "t = v2_token0 p \<or> t = v2_token1 p" "v2_token0 p \<noteq> v2_token1 p"
    using assms(1,2) by (simp_all add: v2_inv_def v2_tokens_def)
  have "0 < unat ((ro - d) * c)" unfolding words r c using assms(5,6) by simp
  then have nd: "(ro - d) * c \<noteq> 0" by (metis unat_0 less_irrefl)
  define q where "q = (ri * d * 10000) div ((ro - d) * c)"
  have "v2_get_amount_in p t d = emap (\<lambda>q. Some (q + 1)) (word_div (ri * d * 10000) ((ro - d) * c))"
    using tok assms(3) nz bounds(4) unfolding v2_get_amount_in_def ri_def ro_def c_def Let_def
    by (cases "t = v2_token0 p") (simp_all add: not_le)
  then have res: "v2_get_amount_in p t d = Ret (Some (q + 1))" using nd by (simp add: q_def)
  have q: "unat q = v2_rout p t * unat d * 10000 div ((v2_rin p t - unat d) * v2_keep p)"
    unfolding q_def unat_div_word words r c ..
  have "unat q \<le> unat ri * unat d * 10000" unfolding q r by (rule div_le_dividend)
  also have "unat ri * unat d * 10000 < 2 ^ 238"
    using mult_less_pow2 [OF mult_less_pow2 [OF bounds(1), of "unat d" 112], of 10000 14]
      assms(5) bounds(2) r by simp
  finally have "unat q + 1 < 2 ^ 239" by simp
  then have "unat (q + 1) = unat q + 1"
    by (subst unat_add_fits) (auto intro: u256_fits_pow2 [of _ 239])
  with res q show ?thesis unfolding v2_in_nat_def by (intro exI [of _ "q + 1"]) simp
qed

lemma v2_out_Some_reserves:
  assumes "v2_get_amount_out p t a = Ret (Some y)"
  shows "0 < v2_rin p t" and "0 < v2_rout p t" and "a \<noteq> 0" and "t \<in> set (v2_tokens p)"
  using assms unfolding v2_get_amount_out_def v2_rin_def v2_rout_def v2_tokens_def
  by (auto split: if_splits simp: unat_pos_iff)

lemma v2_out_value:
  assumes "v2_ok p t a" and "v2_get_amount_out p t a = Ret (Some y)"
  shows "unat y = v2_out_nat (v2_keep p) (v2_rin p t) (v2_rout p t) (unat a)"
  using v2_out_exec [OF assms(1)] v2_out_Some_reserves [OF assms(2)] assms(2) by auto

section \<open>The interfaces\<close>

interpretation v2: pool_adapter v2_tokens v2_get_amount_out v2_get_amount_in
  by unfold_locales (auto simp: v2_get_amount_out_def v2_get_amount_in_def v2_tokens_def)

interpretation sushi: pool_adapter sushi_tokens sushi_get_amount_out sushi_get_amount_in
  by unfold_locales
    (simp_all add: sushi_tokens_def sushi_get_amount_out_def sushi_get_amount_in_def
      v2.out_zero v2.out_unknown v2.in_zero v2.in_unknown)

interpretation v2: constant_product v2_get_amount_out v2_rin v2_rout v2_ok
proof
  fix p t a y
  assume ok: "v2_ok p t a" and quote: "v2_get_amount_out p t a = Ret (Some y)"
  note res = v2_out_Some_reserves [OF quote]
  have "unat y = (unat a * v2_keep p) * v2_rout p t div (v2_rin p t * 10000 + unat a * v2_keep p)"
    using v2_out_value [OF ok quote] unfolding v2_out_nat_def .
  then show "unat y * (v2_rin p t + unat a) \<le> v2_rout p t * unat a"
    by (rule cp_floor_bound [rotated]) (use res v2_keep_le in \<open>simp_all add: mult.commute\<close>)
  show "0 < v2_rin p t \<and> 0 < v2_rout p t" using res by simp
qed

section \<open>Properties\<close>

definition v2_sample :: UniswapV2Pool where
  "v2_sample = \<lparr>v2_address = 1, v2_token0 = 2, v2_token1 = 3, v2_reserve0 = 1000000,
     v2_reserve1 = 2000000, v2_fee_bps = 30\<rparr>"

text \<open>
  C1: for a token of the pair and amounts in range, \<^verbatim>\<open>get_amount_out\<close> never panics: it refuses a
  zero amount and an empty side, and otherwise pays exactly the floor of
  \<open>a * keep * y / (x * 10000 + a * keep)\<close> over the integers, with no wrap-around.
\<close>
theorem v2_get_amount_out_exact:
  assumes "v2_ok p t a"
  shows "v2_get_amount_out p t a =
    (if a = 0 \<or> v2_rin p t = 0 \<or> v2_rout p t = 0 then Ret None
     else Ret (Some (of_nat (v2_out_nat (v2_keep p) (v2_rin p t) (v2_rout p t) (unat a)))))"
proof (cases "a = 0 \<or> v2_rin p t = 0 \<or> v2_rout p t = 0")
  case True
  then show ?thesis
    by (auto simp: v2_get_amount_out_def v2_rin_def v2_rout_def unat_eq_zero)
next
  case False
  then obtain y where "v2_get_amount_out p t a = Ret (Some y)"
    and y: "unat y = v2_out_nat (v2_keep p) (v2_rin p t) (v2_rout p t) (unat a)"
    using v2_out_exec [OF assms] by auto
  with False show ?thesis by (simp add: y [symmetric])
qed

theorem v2_get_amount_out_exact_witness:
  "v2_get_amount_out v2_sample 2 1000 = Ret (Some 1992)"
  using v2_get_amount_out_exact [of v2_sample 2 1000]
  by (simp add: v2_sample_def v2_ok_def v2_inv_def v2_tokens_def v2_rin_def v2_rout_def
      v2_keep_def v2_out_nat_def)

text \<open>
  A V2 trade can neither empty the paying reserve nor lower the product of the reserves: the
  quoted output is below the reserve it is paid from, and after taking \<open>a\<close> in and paying \<open>y\<close> out
  the constant product is at least what it was.
\<close>
theorem v2_constant_product:
  assumes "v2_ok p t a" and "v2_get_amount_out p t a = Ret (Some y)"
  shows "unat y < v2_rout p t
     \<and> v2_rin p t * v2_rout p t \<le> (v2_rin p t + unat a) * (v2_rout p t - unat y)"
  using v2.no_drain [OF assms] v2.product_never_decreases [OF assms] by simp

theorem v2_constant_product_witness:
  "v2_ok v2_sample 2 1000 \<and> v2_get_amount_out v2_sample 2 1000 = Ret (Some 1992) \<and>
   v2_rin v2_sample 2 * v2_rout v2_sample 2
     \<le> (v2_rin v2_sample 2 + 1000) * (v2_rout v2_sample 2 - 1992)"
proof -
  have "v2_ok v2_sample 2 1000" "v2_get_amount_out v2_sample 2 1000 = Ret (Some 1992)"
    by (simp add: v2_sample_def v2_ok_def v2_inv_def v2_tokens_def, code_simp)
  then show ?thesis using v2_constant_product [of v2_sample 2 1000 1992] by simp
qed

lemma v2_swapped_sides:
  assumes "v2_ok p t a" and "v2_get_amount_out p t a = Ret (Some y)"
  shows "v2_rin (v2_swapped p t a y) (v2_other p t) = v2_rout p t - unat y"
    and "v2_rout (v2_swapped p t a y) (v2_other p t) = v2_rin p t + unat a"
proof -
  have sub: "unat (r - y) = unat r - unat y" if "unat r = v2_rout p t" for r
    using v2.no_drain [OF assms] that by (intro unat_sub_le) (simp add: word_le_nat_alt)
  have add: "unat (r + a) = unat r + unat a" if "unat r = v2_rin p t" for r
    using assms(1) v2_rin_less [of p t] that
    by (intro unat_add_fits u256_fits_pow2 [of _ 129]) (auto simp: v2_ok_def)
  show "v2_rin (v2_swapped p t a y) (v2_other p t) = v2_rout p t - unat y"
    and "v2_rout (v2_swapped p t a y) (v2_other p t) = v2_rin p t + unat a"
    using assms(1) sub add
    by (auto simp: v2_ok_def v2_inv_def v2_swapped_def v2_other_def v2_update_state_def
        v2_rin_def v2_rout_def v2_tokens_def)
qed

text \<open>
  C28: swapping through a V2 pair and selling the proceeds straight back, at the reserves the first
  trade left behind, returns at most the amount put in, whatever the fee.
\<close>
theorem v2_round_trip_no_profit:
  assumes "v2_ok p t a" and "v2_get_amount_out p t a = Ret (Some y)"
    and "v2_ok (v2_swapped p t a y) (v2_other p t) y"
    and "v2_get_amount_out (v2_swapped p t a y) (v2_other p t) y = Ret (Some z)"
  shows "unat z \<le> unat a"
  by (rule v2.round_trip_no_profit [OF assms(1,2) v2_swapped_sides [OF assms(1,2)] assms(3,4)])

theorem v2_round_trip_no_profit_witness:
  "v2_get_amount_out (v2_swapped v2_sample 2 1000 1992) (v2_other v2_sample 2) 1992 = Ret (Some 994)
   \<and> unat (994 :: u256) \<le> unat (1000 :: u256)"
proof -
  have "v2_ok v2_sample 2 1000" "v2_get_amount_out v2_sample 2 1000 = Ret (Some 1992)"
    "v2_ok (v2_swapped v2_sample 2 1000 1992) (v2_other v2_sample 2) 1992"
    "v2_get_amount_out (v2_swapped v2_sample 2 1000 1992) (v2_other v2_sample 2) 1992 = Ret (Some 994)"
    by (simp add: v2_sample_def v2_ok_def v2_inv_def v2_tokens_def, code_simp,
      simp add: v2_sample_def v2_ok_def v2_inv_def v2_tokens_def v2_swapped_def v2_other_def
        v2_update_state_def, code_simp)
  then show ?thesis using v2_round_trip_no_profit [of v2_sample 2 1000 1992 994] by simp
qed

lemma v2_nat_in_suffices:
  fixes c x y d :: nat
  assumes "d < y" and "0 < c"
  shows "d \<le> v2_out_nat c x y (v2_in_nat c x y d)"
proof -
  define X where "X = v2_in_nat c x y d"
  have "x * d * 10000 < X * ((y - d) * c)"
    using assms dividend_less_times_div [of "(y - d) * c" "x * d * 10000"]
    unfolding X_def v2_in_nat_def by (simp add: mult.commute [of "_ div _"])
  also have "\<dots> = X * c * y - X * c * d"
    by (simp add: diff_mult_distrib2 algebra_simps)
  finally have "d * (x * 10000 + X * c) \<le> X * c * y" by (simp add: algebra_simps)
  moreover have "0 < x * 10000 + X * c" using assms(2) by (simp add: X_def v2_in_nat_def)
  ultimately show ?thesis unfolding v2_out_nat_def X_def [symmetric]
    by (simp add: less_eq_div_iff_mult_less_eq)
qed

lemma v2_nat_in_tight:
  fixes c x y d a :: nat
  assumes "d < y" and "0 < c" and "0 < x" and "d \<le> v2_out_nat c x y a"
  shows "v2_in_nat c x y d \<le> a + 1"
proof -
  have "d * (x * 10000 + a * c) \<le> a * c * y"
    using assms(3,4) unfolding v2_out_nat_def by (simp add: less_eq_div_iff_mult_less_eq)
  then have "x * d * 10000 \<le> a * ((y - d) * c)"
    by (simp add: diff_mult_distrib2 diff_mult_distrib algebra_simps)
  then have "x * d * 10000 div ((y - d) * c) \<le> a"
    using div_le_mono [of "x * d * 10000" "a * ((y - d) * c)" "(y - d) * c"] assms(1,2) by simp
  then show ?thesis unfolding v2_in_nat_def by simp
qed



text \<open>
  A pool configured with a fee of 100\<open>%\<close> or more makes \<^verbatim>\<open>get_amount_in\<close> divide by zero: the
  saturated fee complement is \<open>0\<close>, and every request that passes the guards panics instead of
  returning \<^verbatim>\<open>None\<close>.
\<close>
theorem v2_get_amount_in_panics:
  assumes "10000 \<le> unat (v2_fee_bps p)" and "v2_token0 p \<noteq> v2_token1 p"
    and "t \<in> set (v2_tokens p)" and "d \<noteq> 0" and "0 < v2_rout p t" and "unat d < v2_rin p t"
  shows "v2_get_amount_in p t d = Panic DivByZero"
proof -
  have "v2_keep p = 0" using assms(1) by (simp add: v2_keep_def)
  then have "(ucast (saturating_sub (10000 :: u64) (ucast (v2_fee_bps p))) :: u256) = 0"
    using unat_fee_complement [of p] by (simp add: unat_eq_zero)
  then show ?thesis
    using assms(2-) unfolding v2_get_amount_in_def v2_rin_def v2_rout_def v2_tokens_def
    by (auto simp: word_div_def unat_pos_iff word_less_nat_alt word_le_nat_alt)
qed

theorem v2_get_amount_in_panics_witness:
  "v2_get_amount_in (v2_sample\<lparr>v2_fee_bps := 10000\<rparr>) 3 100 = Panic DivByZero"
  by (rule v2_get_amount_in_panics)
    (simp_all add: v2_sample_def v2_tokens_def v2_rin_def v2_rout_def)

end
