(* ===== verification/Uniswap_V3.thy ===== *)
theory Uniswap_V3
  imports F64 Pool_Contract Swap_Encode
begin

unbundle bit_operations_syntax

text \<open>
  \<^verbatim>\<open>crates/pools/src/uniswap_v3.rs\<close>: concentrated liquidity under the single-tick approximation.
  Signed 32-bit ticks are integers with \<open>wrap_i32\<close> at the operations; the natural logarithm of the
  platform's \<^verbatim>\<open>libm\<close> is the parameter \<open>lnf\<close> of the tick projection.
\<close>

record TickInfo =
  ti_index :: int
  ti_liquidity_net :: int
  ti_liquidity_gross :: u128

record UniswapV3Pool =
  v3_address :: address
  v3_token0 :: address
  v3_token1 :: address
  v3_fee_bps :: u32
  v3_tick_spacing :: int
  v3_sqrt_price_x96 :: u256
  v3_liquidity :: u128
  v3_tick :: int
  v3_ticks :: "TickInfo list"

definition Q96 :: u128 where
  "Q96 = push_bit 96 1"

definition TWO_POW_96_F64 :: f64 where
  "TWO_POW_96_F64 = f64_of_rat 79228162514264337593543950336"

definition LN_1_0001 :: f64 where
  "LN_1_0001 = f64_of_rat (9999500033330834 / 10 ^ 20)"

definition SIMULATION_SAFETY_MARGIN_BPS :: u32 where
  "SIMULATION_SAFETY_MARGIN_BPS = 200"

definition limb :: "u256 \<Rightarrow> nat \<Rightarrow> u64" where
  "limb x i = word_of_int (uint x div (18446744073709551616 ^ i))"

text \<open>The 64-bit limbs, weighted with the source's decimal literals.\<close>

definition v3_u256_to_f64 :: "u256 \<Rightarrow> f64" where
  "v3_u256_to_f64 v =
     f64_add
       (f64_add
         (f64_add (f64_of_word (limb v 0))
           (f64_mul (f64_of_word (limb v 1)) (f64_of_rat 18446744073709551616)))
         (f64_mul (f64_of_word (limb v 2)) (f64_of_rat 340282366920938500000000000000000000000)))
       (f64_mul (f64_of_word (limb v 3)) (f64_of_rat 115792089237316200000000000000000000000000000000000000000000000000000000000000))"

definition sqrt_price_x96_to_tick :: "(f64 \<Rightarrow> f64) \<Rightarrow> u256 \<Rightarrow> int" where
  "sqrt_price_x96_to_tick lnf sqrt_price_x96 =
     (let raw = v3_u256_to_f64 sqrt_price_x96
      in if f64_le raw (Num 0) \<or> \<not> is_finite raw then - (2 ^ 31)
         else
           let sqrt_norm = f64_div raw TWO_POW_96_F64;
               price = f64_mul sqrt_norm sqrt_norm
           in if f64_le price (Num 0) \<or> \<not> is_finite price then - (2 ^ 31)
              else f64_to_i32 (f64_floor (f64_div (lnf price) LN_1_0001)))"

definition virtual_reserves :: "u256 \<Rightarrow> u128 \<Rightarrow> (f64 \<times> f64) option" where
  "virtual_reserves sqrt_price_x96 liquidity =
     (if sqrt_price_x96 = 0 \<or> liquidity = 0 then None
      else
        let sqrt_p = v3_u256_to_f64 sqrt_price_x96
        in if f64_le sqrt_p (Num 0) \<or> \<not> is_finite sqrt_p then None
           else
             let l = f64_of_word liquidity;
                 x_v = f64_div (f64_mul l TWO_POW_96_F64) sqrt_p;
                 y_v = f64_div (f64_mul l sqrt_p) TWO_POW_96_F64
             in if \<not> is_finite x_v \<or> \<not> is_finite y_v \<or> f64_le x_v (Num 0) \<or> f64_le y_v (Num 0)
                then None else Some (x_v, y_v))"

record V3PostState =
  v3p_new_sqrt_price_x96 :: u256
  v3p_new_liquidity :: u128
  v3p_amount_out :: u256
  v3p_single_tick :: bool

definition v3_new :: "address \<Rightarrow> address \<Rightarrow> address \<Rightarrow> u32 \<Rightarrow> int \<Rightarrow> UniswapV3Pool" where
  "v3_new addr token0 token1 fee_bps tick_spacing =
     \<lparr>v3_address = addr, v3_token0 = token0, v3_token1 = token1, v3_fee_bps = fee_bps,
      v3_tick_spacing = tick_spacing, v3_sqrt_price_x96 = 0, v3_liquidity = 0, v3_tick = 0,
      v3_ticks = []\<rparr>"

definition update_sqrt_price :: "UniswapV3Pool \<Rightarrow> u256 \<Rightarrow> u128 \<Rightarrow> int \<Rightarrow> UniswapV3Pool" where
  "update_sqrt_price p sqrt_price_x96 liquidity tick =
     p\<lparr>v3_sqrt_price_x96 := sqrt_price_x96, v3_liquidity := liquidity, v3_tick := tick\<rparr>"

definition set_ticks :: "UniswapV3Pool \<Rightarrow> TickInfo list \<Rightarrow> UniswapV3Pool" where
  "set_ticks p ticks = p\<lparr>v3_ticks := sort_key ti_index ticks\<rparr>"

text \<open>\<^verbatim>\<open>div_euclid\<close> by a positive divisor is HOL's \<open>div\<close> on integers.\<close>

definition is_within_active_tick_bucket :: "(f64 \<Rightarrow> f64) \<Rightarrow> UniswapV3Pool \<Rightarrow> u256 \<Rightarrow> bool" where
  "is_within_active_tick_bucket lnf p new_sqrt_price_x96 =
     (if v3_tick_spacing p \<le> 0 then True
      else
        let new_tick = sqrt_price_x96_to_tick lnf new_sqrt_price_x96;
            bucket_low = wrap_i32 (v3_tick p div v3_tick_spacing p * v3_tick_spacing p);
            bucket_high = wrap_i32 (bucket_low + v3_tick_spacing p)
        in bucket_low \<le> new_tick \<and> new_tick < bucket_high)"

text \<open>
  The divisors below are a literal, \<open>Q96\<close>, or tested for zero first, so no division can panic.
  \<^verbatim>\<open>10_000u64 - fee_bps\<close> wraps for a fee above 100\<open>%\<close>.
\<close>

definition predict_post_state ::
    "(f64 \<Rightarrow> f64) \<Rightarrow> UniswapV3Pool \<Rightarrow> address \<Rightarrow> u256 \<Rightarrow> V3PostState option" where
  "predict_post_state lnf p token_in amount_in =
     (if v3_sqrt_price_x96 p = 0 \<or> v3_liquidity p = 0 \<or> amount_in = 0 then None
      else if token_in \<noteq> v3_token0 p \<and> token_in \<noteq> v3_token1 p then None
      else
        let fee_complement = (10000 :: u64) - ucast (v3_fee_bps p);
            amount_in_after_fee = amount_in * ucast fee_complement div 10000;
            is_token0 = (token_in = v3_token0 p);
            q96 = (ucast Q96 :: u256);
            l = (ucast (v3_liquidity p) :: u256)
        in if is_token0 then
             let numerator = l * v3_sqrt_price_x96 p;
                 denominator = l * q96 + amount_in_after_fee * v3_sqrt_price_x96 p
             in if denominator = 0 then None
                else
                  let new_sqrt_price_x96 = numerator * q96 div denominator
                  in if new_sqrt_price_x96 \<ge> v3_sqrt_price_x96 p then None
                     else
                       let delta = v3_sqrt_price_x96 p - new_sqrt_price_x96;
                           amount_out = l * delta div q96
                       in Some \<lparr>v3p_new_sqrt_price_x96 = new_sqrt_price_x96,
                                v3p_new_liquidity = v3_liquidity p,
                                v3p_amount_out = amount_out,
                                v3p_single_tick = is_within_active_tick_bucket lnf p new_sqrt_price_x96\<rparr>
           else if l = 0 then None
           else
             let delta_sqrt = amount_in_after_fee * q96 div l;
                 new_sqrt_price_x96 = v3_sqrt_price_x96 p + delta_sqrt;
                 numerator = l * q96 * delta_sqrt;
                 denominator = v3_sqrt_price_x96 p * new_sqrt_price_x96
             in if denominator = 0 then None
                else Some \<lparr>v3p_new_sqrt_price_x96 = new_sqrt_price_x96,
                           v3p_new_liquidity = v3_liquidity p,
                           v3p_amount_out = numerator div denominator,
                           v3p_single_tick = is_within_active_tick_bucket lnf p new_sqrt_price_x96\<rparr>)"

definition compute_swap_within_tick :: "UniswapV3Pool \<Rightarrow> address \<Rightarrow> u256 \<Rightarrow> u256 option" where
  "compute_swap_within_tick p token_in amount_in =
     (if v3_sqrt_price_x96 p = 0 \<or> v3_liquidity p = 0 \<or> amount_in = 0 then None
      else
        let fee_complement = (10000 :: u64) - ucast (v3_fee_bps p);
            amount_in_after_fee = amount_in * ucast fee_complement div 10000;
            is_token0 = (token_in = v3_token0 p);
            q96 = (ucast Q96 :: u256);
            l = (ucast (v3_liquidity p) :: u256)
        in if is_token0 then
             let numerator = l * v3_sqrt_price_x96 p;
                 denominator = l * q96 + amount_in_after_fee * v3_sqrt_price_x96 p
             in if denominator = 0 then None
                else
                  let new_sqrt_price = numerator * q96 div denominator
                  in if v3_sqrt_price_x96 p \<le> new_sqrt_price then Some 0
                     else
                       let delta = v3_sqrt_price_x96 p - new_sqrt_price
                       in Some (l * delta div q96)
           else if l = 0 then None
           else
             let delta_sqrt = amount_in_after_fee * q96 div l;
                 new_sqrt_price = v3_sqrt_price_x96 p + delta_sqrt;
                 numerator = l * q96 * delta_sqrt;
                 denominator = v3_sqrt_price_x96 p * new_sqrt_price
             in if denominator = 0 then None else Some (numerator div denominator))"

definition apply_simulation_safety_margin :: "u256 \<Rightarrow> u256" where
  "apply_simulation_safety_margin amount =
     amount * ucast (10000 - SIMULATION_SAFETY_MARGIN_BPS) div 10000"

subsection \<open>The \<^verbatim>\<open>Pool\<close> trait\<close>

definition v3_tokens :: "UniswapV3Pool \<Rightarrow> address list" where
  "v3_tokens p = [v3_token0 p, v3_token1 p]"

definition v3_get_amount_out :: "UniswapV3Pool \<Rightarrow> address \<Rightarrow> u256 \<Rightarrow> u256 option" where
  "v3_get_amount_out p token_in amount_in =
     (if token_in \<noteq> v3_token0 p \<and> token_in \<noteq> v3_token1 p then None
      else map_option apply_simulation_safety_margin (compute_swap_within_tick p token_in amount_in))"

text \<open>The body of the \<^verbatim>\<open>for _ in 0..256\<close> loop; \<open>quote\<close> is \<^verbatim>\<open>get_amount_out\<close> for the chosen token.\<close>

fun v3_search :: "(u256 \<Rightarrow> u256 option) \<Rightarrow> u256 \<Rightarrow> nat \<Rightarrow> u256 \<Rightarrow> u256 \<Rightarrow> u256" where
  "v3_search quote amount_out 0 low high = high"
| "v3_search quote amount_out (Suc n) low high =
     (if low \<ge> high then high
      else
        let mid = (low + high) div 2
        in case quote mid of
             Some out \<Rightarrow>
               if out \<ge> amount_out then v3_search quote amount_out n low mid
               else v3_search quote amount_out n (mid + 1) high
           | None \<Rightarrow> v3_search quote amount_out n (mid + 1) high)"

definition v3_get_amount_in :: "UniswapV3Pool \<Rightarrow> address \<Rightarrow> u256 \<Rightarrow> u256 option" where
  "v3_get_amount_in p token_out amount_out =
     (if amount_out = 0 then None
      else if token_out \<noteq> v3_token0 p \<and> token_out \<noteq> v3_token1 p then None
      else
        let token_in = (if token_out = v3_token0 p then v3_token1 p else v3_token0 p)
        in Some (v3_search (v3_get_amount_out p token_in) amount_out 256 1 (amount_out * 2)))"

definition v3_update_state :: "UniswapV3Pool \<Rightarrow> u256 \<Rightarrow> u256 \<Rightarrow> UniswapV3Pool" where
  "v3_update_state p reserve0 reserve1 = p"

definition v3_encode_swap ::
    "(sol_call \<Rightarrow> bytes) \<Rightarrow> UniswapV3Pool \<Rightarrow> address \<Rightarrow> u256 \<Rightarrow> u256 \<Rightarrow> bytes" where
  "v3_encode_swap abi_encode p token_in amount_in min_out =
     encode_univ3_swap abi_encode (v3_token0 p) token_in amount_in 0"

definition v3_liquidity_depth :: "UniswapV3Pool \<Rightarrow> u256" where
  "v3_liquidity_depth p = ucast (v3_liquidity p)"

section \<open>The bisection\<close>

definition v3_good :: "(u256 \<Rightarrow> u256 option) \<Rightarrow> u256 \<Rightarrow> u256 \<Rightarrow> bool" where
  "v3_good quote amount_out x \<longleftrightarrow> (case quote x of Some out \<Rightarrow> amount_out \<le> out | None \<Rightarrow> False)"

lemma v3_search_Suc:
  "v3_search quote d (Suc n) low high =
     (if high \<le> low then high
      else if v3_good quote d ((low + high) div 2) then v3_search quote d n low ((low + high) div 2)
      else v3_search quote d n ((low + high) div 2 + 1) high)"
  by (simp add: v3_good_def Let_def split: option.split)

declare v3_search.simps(2) [simp del]

lemma midpoint:
  fixes low high :: u256
  assumes "low < high" and "unat high < 2 ^ 255"
  shows "unat ((low + high) div 2) = (unat low + unat high) div 2"
    and "unat ((low + high) div 2 + 1) = (unat low + unat high) div 2 + 1"
proof -
  have "unat low + unat high < 2 ^ 256" using assms by (simp add: word_less_nat_alt)
  then have "unat (low + high) = unat low + unat high"
    by (intro unat_add_fits) (simp add: u256_fits_def)
  then show m: "unat ((low + high) div 2) = (unat low + unat high) div 2"
    by (simp add: unat_div_word)
  have "(unat low + unat high) div 2 + 1 < 2 ^ 256"
    using assms by (simp add: word_less_nat_alt)
  then show "unat ((low + high) div 2 + 1) = (unat low + unat high) div 2 + 1"
    by (subst unat_add_fits) (auto simp: m u256_fits_def)
qed

text \<open>
  Enough iterations close the bracket: the result is good unless it is the initial upper end, and
  its predecessor is not good unless it is the initial lower end.
\<close>

lemma v3_search_spec:
  assumes "low \<le> high" and "unat high < 2 ^ 255" and "unat high - unat low < 2 ^ n"
    and "r = v3_search quote d n low high"
  shows "low \<le> r \<and> r \<le> high \<and> (r = high \<or> v3_good quote d r) \<and> (r = low \<or> \<not> v3_good quote d (r - 1))"
  using assms(1-3) unfolding assms(4)
proof (induction n arbitrary: low high)
  case 0
  then have "low = high" by (simp add: word_le_nat_alt word_unat_eq_iff)
  then show ?case by simp
next
  case (Suc n)
  show ?case
  proof (cases "low < high")
    case False
    with Suc.prems(1) show ?thesis by (simp add: v3_search_Suc)
  next
    case True
    define mid where "mid = (low + high) div 2"
    note m = midpoint [OF True Suc.prems(2), folded mid_def]
    have lt: "unat low < unat high" using True by (simp add: word_less_nat_alt)
    have ord: "low \<le> mid" "mid < high" "mid + 1 \<le> high" "low \<le> mid + 1" "mid \<le> high"
      using lt by (auto simp: word_le_nat_alt word_less_nat_alt m)
    show ?thesis
    proof (cases "v3_good quote d mid")
      case good: True
      have "unat mid < 2 ^ 255" "unat mid - unat low < 2 ^ n"
        using Suc.prems(2,3) lt by (auto simp: m)
      from Suc.IH [OF ord(1) this] good True ord show ?thesis
        by (auto simp: v3_search_Suc mid_def [symmetric])
    next
      case bad: False
      have "unat high - unat (mid + 1) < 2 ^ n" using Suc.prems(3) lt by (auto simp: m)
      from Suc.IH [OF ord(3) Suc.prems(2) this] bad True ord show ?thesis
        by (auto simp: v3_search_Suc mid_def [symmetric])
    qed
  qed
qed

section \<open>The interface\<close>

interpretation v3: pool_adapter v3_tokens
  "\<lambda>p t a. Ret (v3_get_amount_out p t a)" "\<lambda>p t a. Ret (v3_get_amount_in p t a)"
  by unfold_locales
    (auto simp: v3_tokens_def v3_get_amount_out_def v3_get_amount_in_def compute_swap_within_tick_def)

section \<open>The single-tick formulas over the integers\<close>

definition v3_after_fee :: "UniswapV3Pool \<Rightarrow> nat \<Rightarrow> nat" where
  "v3_after_fee p a = a * (10000 - unat (v3_fee_bps p)) div 10000"

text \<open>Token 0 in: the new square-root price and the amount of token 1 paid.\<close>

definition v3_new_sqrt0 :: "nat \<Rightarrow> nat \<Rightarrow> nat \<Rightarrow> nat" where
  "v3_new_sqrt0 L s dx = L * s * 2 ^ 96 div (L * 2 ^ 96 + dx * s)"

definition v3_out0 :: "nat \<Rightarrow> nat \<Rightarrow> nat \<Rightarrow> nat" where
  "v3_out0 L s dx = L * (s - v3_new_sqrt0 L s dx) div 2 ^ 96"

text \<open>Token 1 in: the growth of the square-root price and the amount of token 0 paid.\<close>

definition v3_delta1 :: "nat \<Rightarrow> nat \<Rightarrow> nat" where
  "v3_delta1 L dy = dy * 2 ^ 96 div L"

definition v3_out1 :: "nat \<Rightarrow> nat \<Rightarrow> nat \<Rightarrow> nat" where
  "v3_out1 L s dy = L * 2 ^ 96 * v3_delta1 L dy div (s * (s + v3_delta1 L dy))"

text \<open>No intermediate product of the swap leaves the 256 bits.\<close>

definition v3_fits :: "UniswapV3Pool \<Rightarrow> address \<Rightarrow> u256 \<Rightarrow> bool" where
  "v3_fits p t a \<longleftrightarrow>
     (let L = unat (v3_liquidity p); s = unat (v3_sqrt_price_x96 p); d = v3_after_fee p (unat a)
      in unat (v3_fee_bps p) \<le> 10000 \<and> u256_fits (unat a * 10000) \<and>
         (if t = v3_token0 p then u256_fits (L * s * 2 ^ 96) \<and> u256_fits (L * 2 ^ 96 + d * s)
          else u256_fits (d * 2 ^ 96) \<and> u256_fits (L * 2 ^ 96 * v3_delta1 L d)
             \<and> u256_fits (s * (s + v3_delta1 L d))))"

lemma unat_Q96: "unat (ucast Q96 :: u256) = 2 ^ 96"
  by (simp add: Q96_def push_bit_eq_mult)

lemma unat_liquidity: "unat (ucast (v3_liquidity p) :: u256) = unat (v3_liquidity p)"
  by (rule unat_ucast_up) simp

lemma unat_after_fee:
  assumes "unat (v3_fee_bps p) \<le> 10000" and "u256_fits (unat a * 10000)"
  shows "unat (a * ucast ((10000 :: u64) - ucast (v3_fee_bps p)) div 10000 :: u256) = v3_after_fee p (unat a)"
proof -
  have u: "unat (ucast (v3_fee_bps p) :: u64) = unat (v3_fee_bps p)" by (rule unat_ucast_up) simp
  then have "(ucast (v3_fee_bps p) :: u64) \<le> 10000" using assms(1) by (simp add: word_le_nat_alt)
  then have c: "unat (ucast ((10000 :: u64) - ucast (v3_fee_bps p)) :: u256) = 10000 - unat (v3_fee_bps p)"
    by (subst unat_ucast_widen) (simp_all add: unat_sub u)
  have "u256_fits (unat a * (10000 - unat (v3_fee_bps p)))"
    using assms(2) by (rule u256_fits_mono) (intro mult_le_mono; simp)
  then have "unat (a * ucast ((10000 :: u64) - ucast (v3_fee_bps p))) = unat a * (10000 - unat (v3_fee_bps p))"
    by (subst unat_mult_fits) (simp_all add: c)
  then show ?thesis by (simp add: unat_div_word v3_after_fee_def)
qed

lemma v3_new_sqrt0_le: "v3_new_sqrt0 L s dx \<le> s"
proof (cases "L = 0")
  case False
  have "L * s * 2 ^ 96 div (L * 2 ^ 96 + dx * s) \<le> L * s * 2 ^ 96 div (L * 2 ^ 96)"
    using False by (intro div_le_mono2) auto
  also have "\<dots> = s" using False by (simp add: mult.assoc mult.left_commute)
  finally show ?thesis unfolding v3_new_sqrt0_def .
qed (simp add: v3_new_sqrt0_def)

text \<open>The payouts never exceed the virtual reserves \<open>L * s / 2 ^ 96\<close> and \<open>L * 2 ^ 96 / s\<close>.\<close>

lemma v3_out0_bound: "v3_out0 L s dx * 2 ^ 96 \<le> L * s"
proof -
  have "v3_out0 L s dx * 2 ^ 96 \<le> L * (s - v3_new_sqrt0 L s dx)"
    unfolding v3_out0_def by (rule div_times_less_eq_dividend)
  also have "\<dots> \<le> L * s" by simp
  finally show ?thesis .
qed

lemma v3_out1_bound:
  assumes "0 < s"
  shows "v3_out1 L s dy * s \<le> L * 2 ^ 96"
proof -
  define D where "D = v3_delta1 L dy"
  have "v3_out1 L s dy * (s * (s + D)) \<le> L * 2 ^ 96 * D"
    unfolding v3_out1_def D_def by (rule div_times_less_eq_dividend)
  also have "\<dots> \<le> L * 2 ^ 96 * (s + D)" by simp
  finally have "v3_out1 L s dy * s * (s + D) \<le> L * 2 ^ 96 * (s + D)" by (simp only: mult.assoc)
  then show ?thesis using assms by simp
qed

lemma v3_words0:
  fixes l q sp d :: u256
  assumes "unat q = 2 ^ 96" and "u256_fits (unat l * unat sp * 2 ^ 96)"
    and "u256_fits (unat l * 2 ^ 96 + unat d * unat sp)" and "0 < unat l"
  defines "new_sp \<equiv> l * sp * q div (l * q + d * sp)"
  shows "l * q + d * sp \<noteq> 0"
    and "unat new_sp = v3_new_sqrt0 (unat l) (unat sp) (unat d)"
    and "unat (l * (sp - new_sp) div q) = v3_out0 (unat l) (unat sp) (unat d)"
proof -
  have ls: "unat (l * sp) = unat l * unat sp"
    using assms(2) by (intro unat_mult_fits, elim u256_fits_mono) simp
  have lsq: "unat (l * sp * q) = unat l * unat sp * 2 ^ 96"
    using assms(1,2) by (subst unat_mult_fits) (simp_all add: ls)
  have lq: "unat (l * q) = unat l * 2 ^ 96"
    using assms(1,3) by (subst unat_mult_fits) (auto elim!: u256_fits_mono)
  have ds: "unat (d * sp) = unat d * unat sp"
    using assms(3) by (intro unat_mult_fits, elim u256_fits_mono) simp
  have den: "unat (l * q + d * sp) = unat l * 2 ^ 96 + unat d * unat sp"
    using assms(3) by (subst unat_add_fits) (simp_all add: lq ds)
  show "l * q + d * sp \<noteq> 0" using den assms(4) by (metis add_is_0 mult_is_0 power_not_zero unat_0 zero_neq_numeral less_irrefl)
  show new_sp: "unat new_sp = v3_new_sqrt0 (unat l) (unat sp) (unat d)"
    unfolding new_sp_def unat_div_word lsq den v3_new_sqrt0_def ..
  have "unat (sp - new_sp) = unat sp - v3_new_sqrt0 (unat l) (unat sp) (unat d)"
    by (subst unat_sub_le) (simp_all add: word_le_nat_alt new_sp v3_new_sqrt0_le)
  moreover have "u256_fits (unat l * (unat sp - v3_new_sqrt0 (unat l) (unat sp) (unat d)))"
    using u256_fits_unat [of "l * sp"] by (elim u256_fits_mono) (simp add: ls)
  ultimately have "unat (l * (sp - new_sp)) = unat l * (unat sp - v3_new_sqrt0 (unat l) (unat sp) (unat d))"
    by (subst unat_mult_fits) simp_all
  then show "unat (l * (sp - new_sp) div q) = v3_out0 (unat l) (unat sp) (unat d)"
    unfolding unat_div_word assms(1) v3_out0_def by simp
qed

lemma v3_words1:
  fixes l q sp d :: u256
  assumes "unat q = 2 ^ 96" and "u256_fits (unat d * 2 ^ 96)"
    and "u256_fits (unat l * 2 ^ 96 * v3_delta1 (unat l) (unat d))"
    and "u256_fits (unat sp * (unat sp + v3_delta1 (unat l) (unat d)))"
    and "u256_fits (unat l * 2 ^ 96)" and "0 < unat sp"
  defines "delta \<equiv> d * q div l"
  shows "sp * (sp + delta) \<noteq> 0"
    and "unat (sp + delta) = unat sp + v3_delta1 (unat l) (unat d)"
    and "unat (l * q * delta div (sp * (sp + delta))) = v3_out1 (unat l) (unat sp) (unat d)"
proof -
  have "unat (d * q) = unat d * 2 ^ 96" using assms(1,2) by (subst unat_mult_fits) simp_all
  then have delta: "unat delta = v3_delta1 (unat l) (unat d)"
    unfolding delta_def unat_div_word v3_delta1_def by simp
  have lq: "unat (l * q) = unat l * 2 ^ 96" using assms(1,5) by (subst unat_mult_fits) simp_all
  have lqd: "unat (l * q * delta) = unat l * 2 ^ 96 * v3_delta1 (unat l) (unat d)"
    using assms(3) by (subst unat_mult_fits) (simp_all add: lq delta)
  have "u256_fits (unat sp + v3_delta1 (unat l) (unat d))"
    using assms(4) by (rule u256_fits_mono) (use assms(6) in simp)
  then show sd: "unat (sp + delta) = unat sp + v3_delta1 (unat l) (unat d)"
    by (subst unat_add_fits) (simp_all add: delta)
  have den: "unat (sp * (sp + delta)) = unat sp * (unat sp + v3_delta1 (unat l) (unat d))"
    using assms(4) by (subst unat_mult_fits) (simp_all add: sd)
  then show "sp * (sp + delta) \<noteq> 0" using assms(6) by (metis add_is_0 mult_is_0 unat_0 less_irrefl)
  show "unat (l * q * delta div (sp * (sp + delta))) = v3_out1 (unat l) (unat sp) (unat d)"
    unfolding unat_div_word lqd den v3_out1_def ..
qed

section \<open>Properties\<close>

definition v3_sample :: UniswapV3Pool where
  "v3_sample = \<lparr>v3_address = 1, v3_token0 = 2, v3_token1 = 3, v3_fee_bps = 30, v3_tick_spacing = 60,
     v3_sqrt_price_x96 = 79228162514264337593543950336, v3_liquidity = 1000, v3_tick = 0, v3_ticks = []\<rparr>"

lemma v3_predict_guards:
  assumes "predict_post_state lnf p t a = Some st"
  shows "0 < unat (v3_sqrt_price_x96 p)" and "0 < unat (v3_liquidity p)"
    and "t = v3_token0 p \<or> t = v3_token1 p"
  using assms by (auto simp: predict_post_state_def unat_pos_iff split: if_splits)

lemma v3_predict_exact0:
  assumes "v3_fits p t a" and "t = v3_token0 p" and "predict_post_state lnf p t a = Some st"
  shows "unat (v3p_new_sqrt_price_x96 st) =
      v3_new_sqrt0 (unat (v3_liquidity p)) (unat (v3_sqrt_price_x96 p)) (v3_after_fee p (unat a))"
    and "v3p_new_sqrt_price_x96 st < v3_sqrt_price_x96 p"
    and "unat (v3p_amount_out st) =
      v3_out0 (unat (v3_liquidity p)) (unat (v3_sqrt_price_x96 p)) (v3_after_fee p (unat a))"
proof -
  note g = v3_predict_guards [OF assms(3)]
  have f: "unat (v3_fee_bps p) \<le> 10000" "u256_fits (unat a * 10000)"
    using assms(1) by (simp_all add: v3_fits_def Let_def)
  note d = unat_after_fee [OF f]
  note w = v3_words0 [OF unat_Q96, of "ucast (v3_liquidity p)" "v3_sqrt_price_x96 p"
      "a * ucast ((10000 :: u64) - ucast (v3_fee_bps p)) div 10000", unfolded unat_liquidity d]
  have h: "u256_fits (unat (v3_liquidity p) * unat (v3_sqrt_price_x96 p) * 2 ^ 96)"
    "u256_fits (unat (v3_liquidity p) * 2 ^ 96 + v3_after_fee p (unat a) * unat (v3_sqrt_price_x96 p))"
    using assms(1,2) by (simp_all add: v3_fits_def Let_def)
  show "unat (v3p_new_sqrt_price_x96 st) =
      v3_new_sqrt0 (unat (v3_liquidity p)) (unat (v3_sqrt_price_x96 p)) (v3_after_fee p (unat a))"
    and "v3p_new_sqrt_price_x96 st < v3_sqrt_price_x96 p"
    and "unat (v3p_amount_out st) =
      v3_out0 (unat (v3_liquidity p)) (unat (v3_sqrt_price_x96 p)) (v3_after_fee p (unat a))"
    using assms(2,3) w(2,3) [OF h g(2)]
    unfolding predict_post_state_def Let_def by (auto split: if_splits)
qed

lemma v3_predict_exact1:
  assumes "v3_fits p t a" and "t \<noteq> v3_token0 p" and "predict_post_state lnf p t a = Some st"
  shows "unat (v3p_new_sqrt_price_x96 st) =
      unat (v3_sqrt_price_x96 p) + v3_delta1 (unat (v3_liquidity p)) (v3_after_fee p (unat a))"
    and "unat (v3p_amount_out st) =
      v3_out1 (unat (v3_liquidity p)) (unat (v3_sqrt_price_x96 p)) (v3_after_fee p (unat a))"
proof -
  note g = v3_predict_guards [OF assms(3)]
  have f: "unat (v3_fee_bps p) \<le> 10000" "u256_fits (unat a * 10000)"
    using assms(1) by (simp_all add: v3_fits_def Let_def)
  note d = unat_after_fee [OF f]
  note w = v3_words1 [OF unat_Q96, of "a * ucast ((10000 :: u64) - ucast (v3_fee_bps p)) div 10000"
      "ucast (v3_liquidity p)" "v3_sqrt_price_x96 p", unfolded unat_liquidity d]
  have "unat (v3_liquidity p) * 2 ^ 96 < 2 ^ 224"
    using unsigned_less [of "v3_liquidity p", where ?'a = nat] by simp
  then have h: "u256_fits (unat (v3_liquidity p) * 2 ^ 96)" by (rule u256_fits_pow2) simp
  have h': "u256_fits (v3_after_fee p (unat a) * 2 ^ 96)"
    "u256_fits (unat (v3_liquidity p) * 2 ^ 96 * v3_delta1 (unat (v3_liquidity p)) (v3_after_fee p (unat a)))"
    "u256_fits (unat (v3_sqrt_price_x96 p) *
       (unat (v3_sqrt_price_x96 p) + v3_delta1 (unat (v3_liquidity p)) (v3_after_fee p (unat a))))"
    using assms(1,2) by (simp_all add: v3_fits_def Let_def)
  show "unat (v3p_new_sqrt_price_x96 st) =
      unat (v3_sqrt_price_x96 p) + v3_delta1 (unat (v3_liquidity p)) (v3_after_fee p (unat a))"
    and "unat (v3p_amount_out st) =
      v3_out1 (unat (v3_liquidity p)) (unat (v3_sqrt_price_x96 p)) (v3_after_fee p (unat a))"
    using assms(2,3) w(2,3) [OF h' h g(1)]
    unfolding predict_post_state_def Let_def by (auto split: if_splits)
qed

text \<open>
  C7: while no intermediate product leaves 256 bits, a predicted V3 post-state is the single-tick
  formula over the integers: selling token 0 lowers the price and pays at most the virtual reserve
  \<open>L * s / 2 ^ 96\<close>, selling token 1 never lowers it and pays at most \<open>L * 2 ^ 96 / s\<close>, and the
  liquidity is carried over.
\<close>
theorem v3_predict_exact:
  assumes "v3_fits p t a" and "predict_post_state lnf p t a = Some st"
  defines "L \<equiv> unat (v3_liquidity p)" and "s \<equiv> unat (v3_sqrt_price_x96 p)"
    and "d \<equiv> v3_after_fee p (unat a)"
  shows "v3p_new_liquidity st = v3_liquidity p \<and>
    (if t = v3_token0 p
     then unat (v3p_new_sqrt_price_x96 st) = v3_new_sqrt0 L s d \<and> v3_new_sqrt0 L s d < s
        \<and> unat (v3p_amount_out st) = v3_out0 L s d \<and> unat (v3p_amount_out st) * 2 ^ 96 \<le> L * s
     else unat (v3p_new_sqrt_price_x96 st) = s + v3_delta1 L d
        \<and> unat (v3p_amount_out st) = v3_out1 L s d \<and> unat (v3p_amount_out st) * s \<le> L * 2 ^ 96)"
proof -
  have liq: "v3p_new_liquidity st = v3_liquidity p"
    using assms(2) by (auto simp: predict_post_state_def Let_def split: if_splits)
  show ?thesis
  proof (cases "t = v3_token0 p")
    case True
    note e = v3_predict_exact0 [OF assms(1) True assms(2)]
    from e(1,2) have "v3_new_sqrt0 L s d < s" by (simp add: L_def s_def d_def word_less_nat_alt)
    with True liq e(1,3) v3_out0_bound [of L s d] show ?thesis unfolding L_def s_def d_def by simp
  next
    case False
    with liq v3_predict_exact1 [OF assms(1) False assms(2)] v3_out1_bound [of s L d]
      v3_predict_guards(1) [OF assms(2)]
    show ?thesis unfolding L_def s_def d_def by simp
  qed
qed

theorem v3_predict_exact_witness:
  "predict_post_state (\<lambda>_. Num 0) v3_sample 2 100 =
     Some \<lparr>v3p_new_sqrt_price_x96 = 72091139685408860412687852898, v3p_new_liquidity = 1000,
       v3p_amount_out = 90, v3p_single_tick = True\<rparr>
   \<and> v3_out0 1000 79228162514264337593543950336 99 = 90"
proof -
  have p: "predict_post_state (\<lambda>_. Num 0) v3_sample 2 100 =
     Some \<lparr>v3p_new_sqrt_price_x96 = 72091139685408860412687852898, v3p_new_liquidity = 1000,
       v3p_amount_out = 90, v3p_single_tick = True\<rparr>"
    by code_simp
  have "v3_fits v3_sample 2 100"
    by (simp add: v3_fits_def v3_sample_def u256_fits_def v3_after_fee_def)
  from v3_predict_exact [OF this p] p show ?thesis
    by (simp add: v3_sample_def v3_after_fee_def)
qed

lemma apply_simulation_safety_margin_0: "apply_simulation_safety_margin 0 = 0"
  by (simp add: apply_simulation_safety_margin_def)

text \<open>
  The quote used for ranking and the predicted post-state come from the same arithmetic:
  whenever a post-state is predicted, \<^verbatim>\<open>get_amount_out\<close> is its amount less the 2\<open>%\<close> safety margin, and a
  quote without a post-state is a quote of zero.
\<close>
theorem v3_quote_agrees_with_prediction:
  "case predict_post_state lnf p t a of
     Some st \<Rightarrow> v3_get_amount_out p t a = Some (apply_simulation_safety_margin (v3p_amount_out st))
   | None \<Rightarrow> v3_get_amount_out p t a \<in> {None, Some 0}"
  unfolding predict_post_state_def v3_get_amount_out_def compute_swap_within_tick_def Let_def
  by (cases "t = v3_token0 p") (simp_all add: apply_simulation_safety_margin_0)

text \<open>
  The bisection of \<^verbatim>\<open>get_amount_in\<close> always closes within its 256 iterations.  The input it returns
  is at most twice the requested output; it either earns the request or is exactly that upper
  bound, and the next smaller input does not earn the request.
\<close>
theorem v3_get_amount_in_spec:
  assumes "t \<in> set (v3_tokens p)" and "d \<noteq> 0" and "unat d < 2 ^ 254"
  defines "quote \<equiv> v3_get_amount_out p (if t = v3_token0 p then v3_token1 p else v3_token0 p)"
  shows "\<exists>x. v3_get_amount_in p t d = Some x \<and> 1 \<le> x \<and> x \<le> d * 2
    \<and> (x = d * 2 \<or> v3_good quote d x) \<and> (x = 1 \<or> \<not> v3_good quote d (x - 1))"
proof -
  have fits: "u256_fits (unat d * unat (2 :: u256))"
    using assms(3) by (intro u256_fits_pow2 [of _ 255]) simp_all
  have u: "unat (d * 2) = unat d * 2" using unat_mult_fits [OF fits] by simp
  have "0 < unat d" using assms(2) by (simp add: unat_pos_iff)
  then have "1 \<le> d * 2" "unat (d * 2) < 2 ^ 255" "unat (d * 2) - unat (1 :: u256) < 2 ^ 256"
    using assms(3) by (simp_all add: word_le_nat_alt u)
  from v3_search_spec [OF this refl, of quote d]
  show ?thesis using assms(1,2)
    by (auto simp: v3_get_amount_in_def v3_tokens_def quote_def Let_def)
qed

theorem v3_get_amount_in_spec_witness:
  "\<exists>x. v3_get_amount_in v3_sample 2 50 = Some x \<and> 1 \<le> x \<and> x \<le> 100
    \<and> (x = 100 \<or> v3_good (v3_get_amount_out v3_sample 3) 50 x)
    \<and> (x = 1 \<or> \<not> v3_good (v3_get_amount_out v3_sample 3) 50 (x - 1))"
  using v3_get_amount_in_spec [of 2 v3_sample 50] by (simp add: v3_sample_def v3_tokens_def)

text \<open>
  The upper bound of the search is not an upper bound of the answer: on a pool at price one with
  little liquidity \<^verbatim>\<open>get_amount_in\<close> returns an input for which \<^verbatim>\<open>get_amount_out\<close> pays less than
  was asked for.
\<close>
theorem v3_get_amount_in_short:
  "v3_get_amount_in v3_sample 2 900 = Some 1800 \<and> v3_get_amount_out v3_sample 3 1800 = Some 629"
  by code_simp


text \<open>
  For ticks in the range a V3 pool can hold, a price is judged to be inside the active bucket
  exactly when its tick and the current tick fall into the same \<open>tick_spacing\<close>-aligned interval, for
  negative ticks too.
\<close>
theorem v3_tick_bucket:
  assumes "0 < v3_tick_spacing p" and "v3_tick_spacing p \<le> 16384"
    and "\<bar>v3_tick p\<bar> \<le> 887272"
  shows "is_within_active_tick_bucket lnf p x \<longleftrightarrow>
    sqrt_price_x96_to_tick lnf x div v3_tick_spacing p = v3_tick p div v3_tick_spacing p"
proof -
  define sp where "sp = v3_tick_spacing p"
  define k where "k = v3_tick p div sp"
  define n where "n = sqrt_price_x96_to_tick lnf x"
  have sp: "0 < sp" "sp \<le> 16384" using assms(1,2) by (simp_all add: sp_def)
  have "k * sp \<le> v3_tick p" "v3_tick p < k * sp + sp"
    using int_bucket_iff [OF sp(1), of k "v3_tick p"] by (simp_all add: k_def)
  then have lo: "wrap_i32 (k * sp) = k * sp" "wrap_i32 (k * sp + sp) = k * sp + sp"
    using assms(3) sp(2) by simp_all
  have "is_within_active_tick_bucket lnf p x \<longleftrightarrow> k * sp \<le> n \<and> n < k * sp + sp"
    using sp lo by (simp add: is_within_active_tick_bucket_def sp_def [symmetric] k_def [symmetric]
        n_def [symmetric] Let_def)
  also have "\<dots> \<longleftrightarrow> n div sp = k" using sp(1) by (rule int_bucket_iff)
  finally show ?thesis unfolding n_def k_def sp_def .
qed

theorem v3_tick_bucket_witness:
  "is_within_active_tick_bucket (\<lambda>_. Num 0) (v3_sample\<lparr>v3_tick := - 1\<rparr>) 79228162514264337593543950336
     \<longleftrightarrow> sqrt_price_x96_to_tick (\<lambda>_. Num 0) 79228162514264337593543950336 div 60 = (- 1) div 60"
  using v3_tick_bucket [of "v3_sample\<lparr>v3_tick := - 1\<rparr>"] by (simp add: v3_sample_def)

text \<open>The fourth limb is weighted with \<open>2 ^ 256\<close> instead of \<open>2 ^ 192\<close>.\<close>

lemma v3_limb3_weight:
  "f64_lt (f64_of_rat (10 ^ 77))
     (v3_u256_to_f64 6277101735386680763835789423207666416102355444464034512896)"
  by code_simp

end
