(* ===== verification/Curve_Pool.thy ===== *)
theory Curve_Pool
  imports Pool_Contract Swap_Encode
begin

text \<open>
  \<^verbatim>\<open>crates/pools/src/curve.rs\<close>: the StableSwap adapter.  Both Newton iterations are bounded loops of
  256 rounds in the source and recursion on the remaining rounds here.  Every division whose
  divisor the source does not test is a \<open>word_div\<close>, so a zero or wrapped-to-zero divisor is a panic.
\<close>

record CurvePool =
  curve_address :: address
  curve_tokens :: "address list"
  curve_balances :: "u256 list"
  curve_amplification :: u256
  curve_fee_bps :: u32

record CurvePostState =
  cps_i :: nat
  cps_j :: nat
  cps_new_balance_in :: u256
  cps_new_balance_out :: u256
  cps_amount_out :: u256
  cps_analytical :: bool

definition curve_new :: "address \<Rightarrow> address list \<Rightarrow> u64 \<Rightarrow> u32 \<Rightarrow> CurvePool" where
  "curve_new addr tokens amplification fee_bps =
     \<lparr>curve_address = addr, curve_tokens = tokens, curve_balances = replicate (length tokens) 0,
      curve_amplification = ucast amplification, curve_fee_bps = fee_bps\<rparr>"

text \<open>Two successive iterates at most one unit apart.\<close>

definition within_one :: "u256 \<Rightarrow> u256 \<Rightarrow> bool" where
  "within_one v v_prev = (if v > v_prev then v - v_prev \<le> 1 else v_prev - v \<le> 1)"

text \<open>The inner loop over the balances; \<open>None\<close> is the early \<^verbatim>\<open>return U256::ZERO\<close>.\<close>

fun curve_d_p :: "u256 list \<Rightarrow> u256 \<Rightarrow> u256 \<Rightarrow> u256 \<Rightarrow> u256 option exec" where
  "curve_d_p [] n d d_p = Ret (Some d_p)"
| "curve_d_p (b # bs) n d d_p =
     (if b = 0 then Ret None
      else ebind (word_div (d_p * d) (b * n)) (\<lambda>q. curve_d_p bs n d q))"

fun curve_d_loop :: "u256 list \<Rightarrow> u256 \<Rightarrow> u256 \<Rightarrow> u256 \<Rightarrow> nat \<Rightarrow> u256 \<Rightarrow> u256 exec" where
  "curve_d_loop bs n ann s 0 d = Ret d"
| "curve_d_loop bs n ann s (Suc k) d =
     ebind (curve_d_p bs n d d) (\<lambda>r. case r of
         None \<Rightarrow> Ret 0
       | Some d_p \<Rightarrow>
           let numerator = (ann * s + d_p * n) * d;
               denominator = (ann - 1) * d + (n + 1) * d_p
           in if denominator = 0 then Ret d
              else
                let d' = numerator div denominator
                in if within_one d' d then Ret d' else curve_d_loop bs n ann s k d')"

definition get_d :: "CurvePool \<Rightarrow> u256 exec" where
  "get_d p =
     (let n = of_nat (length (curve_balances p));
          s = foldl (+) 0 (curve_balances p)
      in if s = 0 then Ret 0
         else curve_d_loop (curve_balances p) n (curve_amplification p * n) s 256 s)"

text \<open>The loop over the other coins that accumulates the sum and \<open>c\<close>; \<open>k\<close> is the running index.\<close>

fun curve_c_loop :: "nat \<Rightarrow> nat \<Rightarrow> u256 \<Rightarrow> u256 \<Rightarrow> u256 list \<Rightarrow> nat \<Rightarrow> u256 \<Rightarrow> u256 \<Rightarrow> (u256 \<times> u256) exec" where
  "curve_c_loop i j n d [] k s c = Ret (s, c)"
| "curve_c_loop i j n d (b # bs) k s c =
     (if k = i \<or> k = j then curve_c_loop i j n d bs (Suc k) s c
      else ebind (word_div (c * d) (b * n)) (\<lambda>c'. curve_c_loop i j n d bs (Suc k) (s + b) c'))"

fun curve_y_loop :: "u256 \<Rightarrow> u256 \<Rightarrow> u256 \<Rightarrow> nat \<Rightarrow> u256 \<Rightarrow> u256 exec" where
  "curve_y_loop b c d 0 y = Ret y"
| "curve_y_loop b c d (Suc k) y =
     ebind (word_div (y * y + c) (2 * y + b - d))
       (\<lambda>y'. if within_one y' y then Ret y' else curve_y_loop b c d k y')"

definition get_y :: "CurvePool \<Rightarrow> nat \<Rightarrow> nat \<Rightarrow> u256 \<Rightarrow> u256 option exec" where
  "get_y p i j x =
     (let n = length (curve_balances p)
      in if n \<le> i \<or> n \<le> j \<or> i = j then Ret None
         else ebind (get_d p) (\<lambda>d.
           if d = 0 then Ret None
           else
             let n_u256 = of_nat n;
                 ann = curve_amplification p * n_u256
             in ebind (word_div (d * d) (x * n_u256)) (\<lambda>c0.
                ebind (curve_c_loop i j n_u256 d (curve_balances p) 0 x c0) (\<lambda>(s, c1).
                ebind (word_div (c1 * d) (ann * n_u256)) (\<lambda>c.
                ebind (word_div d ann) (\<lambda>d_ann.
                  emap Some (curve_y_loop (s + d_ann) c d 256 d)))))))"

definition curve_predict_post_state :: "CurvePool \<Rightarrow> address \<Rightarrow> u256 \<Rightarrow> CurvePostState option exec" where
  "curve_predict_post_state p token_in amount_in =
     (if amount_in = 0 then Ret None
      else if length (curve_balances p) < 2 then Ret None
      else case position (\<lambda>t. t = token_in) (curve_tokens p) of
        None \<Rightarrow> Ret None
      | Some i \<Rightarrow>
          if length (curve_tokens p) \<noteq> 2 then Ret None
          else
            let j = (if i = 0 then 1 else 0)
            in ebind (index (curve_balances p) i) (\<lambda>bal_i.
               obind (checked_add bal_i amount_in) (\<lambda>new_balance_in.
               eobind (get_y p i j new_balance_in) (\<lambda>y_new.
               ebind (index (curve_balances p) j) (\<lambda>bal_j.
               obind (checked_sub bal_j y_new) (\<lambda>dy.
                 if dy = 0 then Ret None
                 else
                   let fee = dy * ucast (curve_fee_bps p) div 10000
                   in obind (checked_sub dy fee) (\<lambda>amount_out.
                      obind (checked_sub bal_j amount_out) (\<lambda>new_balance_out.
                        Ret (Some \<lparr>cps_i = i, cps_j = j, cps_new_balance_in = new_balance_in,
                                   cps_new_balance_out = new_balance_out,
                                   cps_amount_out = amount_out, cps_analytical = True\<rparr>)))))))))"

subsection \<open>The \<^verbatim>\<open>Pool\<close> trait\<close>

definition curve_get_amount_out :: "CurvePool \<Rightarrow> address \<Rightarrow> u256 \<Rightarrow> u256 option exec" where
  "curve_get_amount_out p token_in amount_in =
     (if amount_in = 0 then Ret None
      else if length (curve_tokens p) > 2 then Ret None
      else case position (\<lambda>t. t = token_in) (curve_tokens p) of
        None \<Rightarrow> Ret None
      | Some i \<Rightarrow>
          let j = (if i = 0 then 1 else 0)
          in ebind (index (curve_balances p) i) (\<lambda>bal_i.
             eobind (get_y p i j (bal_i + amount_in)) (\<lambda>y.
             ebind (index (curve_balances p) j) (\<lambda>bal_j.
             obind (checked_sub bal_j y) (\<lambda>dy.
               if dy = 0 then Ret None
               else
                 let fee = dy * ucast (curve_fee_bps p) div 10000
                 in Ret (Some (dy - fee)))))))"

definition curve_get_amount_in :: "CurvePool \<Rightarrow> address \<Rightarrow> u256 \<Rightarrow> u256 option exec" where
  "curve_get_amount_in p token_out amount_out =
     (if amount_out = 0 then Ret None
      else case position (\<lambda>t. t = token_out) (curve_tokens p) of
        None \<Rightarrow> Ret None
      | Some j \<Rightarrow>
          let i = (if j = 0 then 1 else 0)
          in ebind (word_div (amount_out * 10000) (ucast (10000 - curve_fee_bps p))) (\<lambda>amount_out_before_fee.
             ebind (index (curve_balances p) j) (\<lambda>bal_j.
             obind (checked_sub bal_j amount_out_before_fee) (\<lambda>y_new.
             eobind (get_y p j i y_new) (\<lambda>x.
             ebind (index (curve_balances p) i) (\<lambda>bal_i.
             obind (checked_sub x bal_i) (\<lambda>dx. Ret (Some (dx + 1)))))))))"

definition curve_update_state :: "CurvePool \<Rightarrow> u256 \<Rightarrow> u256 \<Rightarrow> CurvePool" where
  "curve_update_state p reserve0 reserve1 =
     (if length (curve_balances p) \<ge> 2
      then p\<lparr>curve_balances := (curve_balances p)[0 := reserve0, 1 := reserve1]\<rparr>
      else p)"

definition curve_encode_swap ::
    "(sol_call \<Rightarrow> bytes) \<Rightarrow> CurvePool \<Rightarrow> address \<Rightarrow> u256 \<Rightarrow> u256 \<Rightarrow> bytes" where
  "curve_encode_swap abi_encode p token_in amount_in min_out =
     encode_curve_exchange abi_encode token_in (curve_tokens p) amount_in min_out"

definition curve_liquidity_depth :: "CurvePool \<Rightarrow> u256" where
  "curve_liquidity_depth p = foldl (+) 0 (curve_balances p)"

section \<open>The interface\<close>

lemma position_token_None: "t \<notin> set ts \<Longrightarrow> position (\<lambda>u. u = t) ts = None"
  by (simp add: position_None_iff) blast

interpretation curve: pool_adapter curve_tokens curve_get_amount_out curve_get_amount_in
  by unfold_locales
    (simp_all add: curve_get_amount_out_def curve_get_amount_in_def position_token_None)

section \<open>The iteration for \<open>y\<close>\<close>

text \<open>
  The iteration solves \<open>y\<^sup>2 + (b - d) * y = c\<close>.  \<open>curve_f\<close> is the difference of the two sides; a
  Newton step from any point lands at most one unit below the root.
\<close>

definition curve_f :: "nat \<Rightarrow> nat \<Rightarrow> nat \<Rightarrow> nat \<Rightarrow> int" where
  "curve_f b c d y = int y * int y + int y * (int b - int d) - int c"

lemma newton_step_above:
  assumes "d < 2 * y + b" and "y' = (y * y + c) div (2 * y + b - d)"
  shows "0 < curve_f b c d (y' + 1)"
proof -
  define D where "D = int (2 * y + b - d)"
  have D: "D = 2 * int y + int b - int d" using assms(1) by (simp add: D_def)
  have "y * y + c < (y' + 1) * (2 * y + b - d)"
    using assms dividend_less_times_div [of "2 * y + b - d" "y * y + c"] by (simp add: mult.commute)
  then have "int (y * y + c) < int ((y' + 1) * (2 * y + b - d))" by (simp only: of_nat_less_iff)
  then have "int y * int y + int c < (int y' + 1) * D" by (simp add: D_def distrib_right)
  moreover have "curve_f b c d (y' + 1) =
      (int y' + 1 - int y) ^ 2 + (int y' + 1) * D - int y * int y - int c"
    by (simp add: curve_f_def D power2_eq_square algebra_simps)
  moreover have "0 \<le> (int y' + 1 - int y) ^ 2" by simp
  ultimately show ?thesis by linarith
qed

lemma newton_numerator:
  "int (y * y + c) = int y * (2 * int y + int b - int d) - curve_f b c d y"
  by (simp add: curve_f_def algebra_simps)

lemma newton_step_down:
  assumes "d < 2 * y + b" and "y' = (y * y + c) div (2 * y + b - d)" and "0 \<le> curve_f b c d y"
  shows "y' \<le> y"
proof -
  have "int (y * y + c) \<le> int (y * (2 * y + b - d))"
    using newton_numerator [of y c b d] assms(1,3) by simp
  then have "y * y + c \<le> y * (2 * y + b - d)" by (simp only: of_nat_le_iff)
  then have "(y * y + c) div (2 * y + b - d) \<le> y * (2 * y + b - d) div (2 * y + b - d)"
    by (rule div_le_mono)
  with assms(1,2) show ?thesis by simp
qed

text \<open>Just below the root the next step moves up by at most one, so the loop stops there.\<close>

lemma newton_step_up:
  assumes "d < 2 * y + b" and "y' = (y * y + c) div (2 * y + b - d)"
    and "curve_f b c d y < 0" and "0 < curve_f b c d (y + 1)"
  shows "y \<le> y'" and "y' \<le> y + 1"
proof -
  define D where "D = 2 * y + b - d"
  have D: "0 < D" "int D = 2 * int y + int b - int d" using assms(1) by (simp_all add: D_def)
  note num = newton_numerator [of y c b d, folded D(2)]
  have "curve_f b c d (y + 1) = curve_f b c d y + int D + 1"
    by (simp add: curve_f_def D(2) algebra_simps)
  then have "int (y * y + c) \<le> int ((y + 1) * D)" "int (y * D) \<le> int (y * y + c)"
    using num assms(3,4) by (simp_all add: algebra_simps)
  then have le: "y * y + c \<le> (y + 1) * D" "y * D \<le> y * y + c" by (simp_all only: of_nat_le_iff)
  from div_le_mono [OF le(1), of D] div_le_mono [OF le(2), of D] D(1)
  show "y \<le> y'" "y' \<le> y + 1" unfolding assms(2) D_def [symmetric] by simp_all
qed

text \<open>The iterates stay where the next divisor is positive.\<close>

lemma newton_divisor_pos:
  fixes y b d c y' :: nat
  assumes "d < 2 * y + b" and "y' = (y * y + c) div (2 * y + b - d)" and "y' + 1 < y"
  shows "d < 2 * y' + b"
proof (cases "y' = 0")
  case True
  then have "y * y + c < 2 * y + b - d" using assms(1,2) by (simp add: div_eq_0_iff)
  moreover have "2 * y \<le> y * y" using assms(3) by (intro mult_le_mono1) simp
  ultimately show ?thesis by linarith
next
  case False
  have "0 < (int y' + 1) * (int y' + 1 + int b - int d)"
    using newton_step_above [OF assms(1,2)] by (simp add: curve_f_def algebra_simps)
  then have "0 < int y' + 1 + int b - int d" by (simp add: zero_less_mult_iff)
  with False show ?thesis by simp
qed

lemma within_one_iff: "within_one v w \<longleftrightarrow> unat v \<le> unat w + 1 \<and> unat w \<le> unat v + 1"
  by (auto simp: within_one_def word_less_nat_alt word_le_nat_alt unat_sub_le)

lemma newton_words:
  fixes y b c d :: u256
  assumes "unat y \<le> unat d" and "u256_fits (unat d * unat d + unat c)"
    and "u256_fits (2 * unat d + unat b)" and "unat d < 2 * unat y + unat b"
  shows "2 * y + b - d \<noteq> 0"
    and "unat ((y * y + c) div (2 * y + b - d)) =
      (unat y * unat y + unat c) div (2 * unat y + unat b - unat d)"
proof -
  have yy: "unat y * unat y \<le> unat d * unat d" using assms(1) by (intro mult_le_mono)
  have "unat (y * y) = unat y * unat y"
    by (intro unat_mult_fits u256_fits_mono [OF assms(2)]) (use yy in simp)
  then have n: "unat (y * y + c) = unat y * unat y + unat c"
    by (subst unat_add_fits) (simp_all add: u256_fits_mono [OF assms(2)] yy)
  have "unat (2 * y) = 2 * unat y"
    by (subst unat_mult_fits) (use assms(1) in \<open>simp_all add: u256_fits_mono [OF assms(3)]\<close>)
  then have "unat (2 * y + b) = 2 * unat y + unat b"
    by (subst unat_add_fits) (use assms(1) in \<open>simp_all add: u256_fits_mono [OF assms(3)]\<close>)
  then have d: "unat (2 * y + b - d) = 2 * unat y + unat b - unat d"
    using assms(4) by (subst unat_sub_le) (simp_all add: word_le_nat_alt)
  then show "2 * y + b - d \<noteq> 0" using assms(4) by (metis unat_0 zero_less_diff less_irrefl)
  show "unat ((y * y + c) div (2 * y + b - d)) =
      (unat y * unat y + unat c) div (2 * unat y + unat b - unat d)"
    by (simp only: unat_div_word n d)
qed

text \<open>
  What the loop keeps: the iterate is at most \<open>d\<close>, the divisor is positive, and it is above the
  root or directly below it.
\<close>

definition newton_inv :: "nat \<Rightarrow> nat \<Rightarrow> nat \<Rightarrow> nat \<Rightarrow> bool" where
  "newton_inv b c d y \<longleftrightarrow> y \<le> d \<and> d < 2 * y + b \<and>
     (0 \<le> curve_f b c d y \<or> 0 < curve_f b c d (y + 1) \<and> y < d)"

lemma newton_inv_step:
  assumes "newton_inv b c d y" and "y' = (y * y + c) div (2 * y + b - d)"
  shows "y' \<le> d" and "0 < curve_f b c d (y' + 1)"
    and "\<not> (y' \<le> y + 1 \<and> y \<le> y' + 1) \<Longrightarrow> newton_inv b c d y'"
proof -
  have D: "d < 2 * y + b" and le: "y \<le> d" using assms(1) by (simp_all add: newton_inv_def)
  show above: "0 < curve_f b c d (y' + 1)" by (rule newton_step_above [OF D assms(2)])
  have or: "0 \<le> curve_f b c d y \<and> y' \<le> y \<or> y' \<le> y + 1 \<and> y \<le> y' \<and> y < d"
    using assms newton_step_down [OF D assms(2)] newton_step_up [OF D assms(2)]
    unfolding newton_inv_def by (cases "0 \<le> curve_f b c d y") auto
  then show "y' \<le> d" using le by auto
  show "newton_inv b c d y'" if "\<not> (y' \<le> y + 1 \<and> y \<le> y' + 1)"
    using that or above le newton_divisor_pos [OF D assms(2)] unfolding newton_inv_def by auto
qed

lemma curve_y_loop_spec:
  assumes "u256_fits (unat d * unat d + unat c)" and "u256_fits (2 * unat d + unat b)"
    and "newton_inv (unat b) (unat c) (unat d) (unat y)" and "0 < k"
  shows "\<exists>r. curve_y_loop b c d k y = Ret r \<and> unat r \<le> unat d
     \<and> 0 < curve_f (unat b) (unat c) (unat d) (unat r + 1)"
  using assms(3,4)
proof (induction k arbitrary: y)
  case (Suc k)
  have pre: "unat y \<le> unat d" "unat d < 2 * unat y + unat b"
    using Suc.prems(1) by (simp_all add: newton_inv_def)
  note w = newton_words [OF pre(1) assms(1,2) pre(2)]
  define y' where "y' = (y * y + c) div (2 * y + b - d)"
  note st = newton_inv_step [OF Suc.prems(1) w(2) [folded y'_def]]
  have step: "curve_y_loop b c d (Suc k) y = (if within_one y' y then Ret y' else curve_y_loop b c d k y')"
    using w(1) by (simp add: y'_def)
  show ?case
  proof (cases "within_one y' y \<or> k = 0")
    case True
    then have "curve_y_loop b c d (Suc k) y = Ret y'" unfolding step by auto
    with st(1,2) show ?thesis by blast
  next
    case False
    then have "newton_inv (unat b) (unat c) (unat d) (unat y')" using st(3) by (simp add: within_one_iff)
    with Suc.IH False show ?thesis unfolding step by auto
  qed
qed simp

section \<open>Properties\<close>

definition curve_sample :: CurvePool where
  "curve_sample = \<lparr>curve_address = 1, curve_tokens = [2, 3], curve_balances = [1000000, 1000000],
     curve_amplification = 100, curve_fee_bps = 4\<rparr>"

text \<open>
  C30: the StableSwap output iteration is total and conservative.  Started at \<open>d\<close>, within range and
  with \<open>c \<le> b * d\<close>, it never divides by zero, stays at or below \<open>d\<close>, and returns a \<open>y\<close> whose
  successor lies strictly above the root of \<open>y\<^sup>2 + (b - d) * y = c\<close>: the balance left to the pool is
  short of the exact solution by less than one unit.
\<close>
theorem curve_y_loop_safe:
  assumes "u256_fits (unat d * unat d + unat c)" and "u256_fits (2 * unat d + unat b)"
    and "unat c \<le> unat b * unat d" and "d \<noteq> 0"
  shows "\<exists>y. curve_y_loop b c d 256 d = Ret y \<and> unat y \<le> unat d
     \<and> unat c + (unat y + 1) * unat d < (unat y + 1) * (unat y + 1 + unat b)"
proof -
  have "int (unat c) \<le> int (unat b * unat d)" using assms(3) by (simp only: of_nat_le_iff)
  then have "newton_inv (unat b) (unat c) (unat d) (unat d)"
    using assms(4) by (simp add: newton_inv_def curve_f_def algebra_simps unat_gt_0)
  from curve_y_loop_spec [OF assms(1,2) this, of 256] obtain y where
    y: "curve_y_loop b c d 256 d = Ret y" "unat y \<le> unat d"
      "0 < curve_f (unat b) (unat c) (unat d) (unat y + 1)" by auto
  have "int (unat c + (unat y + 1) * unat d) < int ((unat y + 1) * (unat y + 1 + unat b))"
    using y(3) unfolding curve_f_def by (simp add: algebra_simps)
  with y(1,2) show ?thesis by (simp only: of_nat_less_iff) blast
qed

theorem curve_y_loop_safe_witness:
  "\<exists>y. curve_y_loop 1110000 9900990099 2000000 256 2000000 = Ret y \<and> unat y \<le> 2000000
     \<and> 9900990099 + (unat y + 1) * 2000000 < (unat y + 1) * (unat y + 1 + 1110000)"
  using curve_y_loop_safe [of 2000000 9900990099 1110000] by (simp add: u256_fits_def)

lemma curve_fee_le:
  assumes "unat (fee_bps :: u32) \<le> 10000"
  shows "dy * ucast fee_bps div 10000 \<le> (dy :: u256)"
proof -
  have "unat (dy * ucast fee_bps) \<le> unat dy * unat fee_bps"
    by (simp add: unat_word_ariths unat_ucast_widen)
  also have "\<dots> \<le> unat dy * 10000" using assms by simp
  finally have "unat (dy * ucast fee_bps) div 10000 \<le> unat dy * 10000 div 10000" by (rule div_le_mono)
  then show ?thesis by (simp add: word_le_nat_alt unat_div_word)
qed

text \<open>The prediction once the input coin is found.\<close>

lemma curve_predict_unfold:
  assumes "position (\<lambda>u. u = t) (curve_tokens p) = Some i" and "length (curve_tokens p) = 2"
    and "2 \<le> length (curve_balances p)" and "a \<noteq> 0" and "i < 2" and "j = 1 - i"
  shows "curve_predict_post_state p t a =
    obind (checked_add (curve_balances p ! i) a) (\<lambda>x.
    eobind (get_y p i j x) (\<lambda>y.
    obind (checked_sub (curve_balances p ! j) y) (\<lambda>dy.
      if dy = 0 then Ret None
      else obind (checked_sub dy (dy * ucast (curve_fee_bps p) div 10000)) (\<lambda>amount_out.
           obind (checked_sub (curve_balances p ! j) amount_out) (\<lambda>new_balance_out.
             Ret (Some \<lparr>cps_i = i, cps_j = j, cps_new_balance_in = x,
               cps_new_balance_out = new_balance_out, cps_amount_out = amount_out,
               cps_analytical = True\<rparr>))))))"
proof -
  have "i = 0 \<or> i = 1" using assms(5) by auto
  moreover have "0 < length (curve_balances p)" "Suc 0 < length (curve_balances p)"
    using assms(3) by auto
  ultimately show ?thesis using assms unfolding curve_predict_post_state_def Let_def
    by (elim disjE) (simp_all cong: if_cong)
qed

text \<open>
  The two Curve entry points agree: on a two-coin pool whose balances cannot overflow with the
  input, \<^verbatim>\<open>get_amount_out\<close> is the \<^verbatim>\<open>amount_out\<close> of \<^verbatim>\<open>predict_post_state\<close>, panics and refusals included.
\<close>
theorem curve_quote_is_prediction:
  assumes "length (curve_tokens p) = 2" and "length (curve_balances p) = 2"
    and "unat (curve_fee_bps p) \<le> 10000"
    and "\<forall>b \<in> set (curve_balances p). u256_fits (unat b + unat a)"
  shows "curve_get_amount_out p t a = emap (map_option cps_amount_out) (curve_predict_post_state p t a)"
proof (cases "a = 0 \<or> position (\<lambda>u. u = t) (curve_tokens p) = None")
  case True
  then show ?thesis using assms
    by (auto simp: curve_get_amount_out_def curve_predict_post_state_def)
next
  case False
  then obtain i where i: "position (\<lambda>u. u = t) (curve_tokens p) = Some i" by blast
  with assms(1) have i2: "i < 2" using position_Some by fastforce
  define j :: nat where "j = (if i = 0 then 1 else 0)"
  have j2: "j < 2" by (simp add: j_def)
  define x where "x = curve_balances p ! i + a"
  have add: "checked_add (curve_balances p ! i) a = Some x"
    using assms(2,4) i2 unfolding x_def u256_fits_def by (intro checked_add_fits) simp
  define B where "B = curve_balances p ! j"
  define fee where "fee dy = dy * ucast (curve_fee_bps p) div 10000" for dy :: u256
  have fee: "checked_sub dy (fee dy) = Some (dy - fee dy)" for dy
    using curve_fee_le [OF assms(3)] by (simp add: checked_sub_def fee_def)
  have out: "checked_sub B (B - y - fee (B - y)) = Some (B - (B - y - fee (B - y)))" if "y \<le> B" for y
  proof -
    have f: "fee (B - y) \<le> B - y" using curve_fee_le [OF assms(3)] by (simp add: fee_def)
    then have "unat (B - y - fee (B - y)) \<le> unat (B - y)" by (simp add: unat_sub_le)
    also have "\<dots> \<le> unat B" using that by (simp add: unat_sub_le)
    finally show ?thesis by (simp add: checked_sub_def word_le_nat_alt)
  qed
  have L: "curve_get_amount_out p t a = eobind (get_y p i j x) (\<lambda>y.
      obind (checked_sub B y) (\<lambda>dy. if dy = 0 then Ret None else Ret (Some (dy - fee dy))))"
    using False i assms(1,2) i2 j2
    unfolding curve_get_amount_out_def Let_def fee_def by (simp add: j_def [symmetric] x_def B_def)
  have ij: "j = 1 - i" using i2 by (auto simp: j_def)
  have R: "curve_predict_post_state p t a = eobind (get_y p i j x) (\<lambda>y.
      obind (checked_sub B y) (\<lambda>dy. if dy = 0 then Ret None
        else obind (checked_sub B (dy - fee dy)) (\<lambda>new_balance_out.
           Ret (Some \<lparr>cps_i = i, cps_j = j, cps_new_balance_in = x, cps_new_balance_out = new_balance_out,
                      cps_amount_out = dy - fee dy, cps_analytical = True\<rparr>))))"
    using curve_predict_unfold [OF i assms(1) _ _ i2 ij, of a] False assms(2)
    by (simp add: add B_def fee_def [symmetric] fee cong: if_cong)
  show ?thesis
  proof (cases "get_y p i j x")
    case (Ret r)
    then show ?thesis unfolding L R
      by (cases r) (auto simp: out [unfolded checked_sub_def] checked_sub_def)
  next
    case (Panic e)
    then show ?thesis unfolding L R by simp
  qed
qed

theorem curve_quote_is_prediction_witness:
  "curve_get_amount_out curve_sample 2 1000 = Ret (Some 1000) \<and>
   curve_get_amount_out curve_sample 2 1000 =
     emap (map_option cps_amount_out) (curve_predict_post_state curve_sample 2 1000)"
proof
  show "curve_get_amount_out curve_sample 2 1000 = Ret (Some 1000)" by code_simp
  show "curve_get_amount_out curve_sample 2 1000 =
     emap (map_option cps_amount_out) (curve_predict_post_state curve_sample 2 1000)"
    by (rule curve_quote_is_prediction) (simp_all add: curve_sample_def u256_fits_def)
qed

text \<open>
  A predicted Curve post-state balances: the input coin is \<open>token_in\<close>, its balance grows by exactly
  the amount paid in without wrap-around, and what the swapper receives plus what the pool keeps
  of the other coin is what the pool had.
\<close>
theorem curve_predict_conserves:
  assumes "curve_predict_post_state p t a = Ret (Some st)"
  shows "cps_i st < 2 \<and> cps_j st = 1 - cps_i st \<and> curve_tokens p ! cps_i st = t
    \<and> unat (cps_new_balance_in st) = unat (curve_balances p ! cps_i st) + unat a
    \<and> unat (cps_amount_out st) + unat (cps_new_balance_out st) = unat (curve_balances p ! cps_j st)"
proof -
  obtain i where i: "position (\<lambda>u. u = t) (curve_tokens p) = Some i"
    and len: "length (curve_tokens p) = 2" "2 \<le> length (curve_balances p)"
    using assms by (auto simp: curve_predict_post_state_def split: if_splits option.splits)
  have il: "i < 2" "curve_tokens p ! i = t" using position_Some [OF i] len by auto
  have a: "a \<noteq> 0" using assms by (auto simp: curve_predict_post_state_def)
  note eq = assms [unfolded curve_predict_unfold [OF i len a il(1) refl]]
  obtain x dy where x: "checked_add (curve_balances p ! i) a = Some x"
    and "(if dy = 0 then Ret None
      else obind (checked_sub dy (dy * ucast (curve_fee_bps p) div 10000)) (\<lambda>amount_out.
           obind (checked_sub (curve_balances p ! (1 - i)) amount_out) (\<lambda>new_balance_out.
             Ret (Some \<lparr>cps_i = i, cps_j = 1 - i, cps_new_balance_in = x,
               cps_new_balance_out = new_balance_out, cps_amount_out = amount_out,
               cps_analytical = True\<rparr>)))) = Ret (Some st)"
    using eq by (elim obind_SomeE eobind_SomeE)
  then obtain out rest where "checked_sub (curve_balances p ! (1 - i)) out = Some rest"
    "st = \<lparr>cps_i = i, cps_j = 1 - i, cps_new_balance_in = x, cps_new_balance_out = rest,
           cps_amount_out = out, cps_analytical = True\<rparr>"
    by (cases "dy = 0") (auto elim!: obind_SomeE)
  with x show ?thesis using il by (auto dest!: checked_add_Some checked_sub_Some)
qed

theorem curve_predict_conserves_witness:
  "\<exists>st. curve_predict_post_state curve_sample 2 1000 = Ret (Some st)
    \<and> unat (cps_new_balance_in st) = 1001000
    \<and> unat (cps_amount_out st) + unat (cps_new_balance_out st) = 1000000"
proof -
  have p: "curve_predict_post_state curve_sample 2 1000 =
    Ret (Some \<lparr>cps_i = 0, cps_j = 1, cps_new_balance_in = 1001000, cps_new_balance_out = 999000,
      cps_amount_out = 1000, cps_analytical = True\<rparr>)"
    by code_simp
  from curve_predict_conserves [OF p] p show ?thesis by (simp add: curve_sample_def)
qed

lemma word_div_exact:
  fixes a b q :: u256
  assumes "unat a = unat q * unat b" and "0 < unat b"
  shows "word_div a b = Ret q" and "a div b = q"
proof -
  have "unat (a div b) = unat q" using assms by (simp add: unat_div_word)
  then show "a div b = q" by (simp only: word_unat_eq_iff)
  moreover have "b \<noteq> 0" using assms(2) by auto
  ultimately show "word_div a b = Ret q" by simp
qed

text \<open>
  On a balanced two-coin pool the invariant \<open>D\<close> is exactly the sum of the balances, found in one
  Newton round.
\<close>
theorem get_d_balanced:
  assumes "curve_balances p = [x, x]" and "x \<noteq> 0" and "curve_amplification p \<noteq> 0"
    and "u256_fits (8 * unat x * unat x * (unat (curve_amplification p) + 1))"
  shows "get_d p = Ret (2 * x)"
proof -
  define A where "A = unat (curve_amplification p)"
  define X where "X = unat x"
  define d where "d = 2 * x"
  have pos: "1 \<le> X" "1 \<le> A" using assms(2,3) by (auto simp: X_def A_def unat_gt_0 Suc_le_eq)
  have big: "u256_fits n" if "n \<le> 8 * (X * (X * A)) + 8 * (X * X)" for n
    using assms(4) that by (auto simp: X_def A_def algebra_simps elim: u256_fits_mono)
  have le: "X \<le> X * X" "A \<le> X * A" "X * A \<le> X * (X * A)" using pos by auto
  have small: "u256_fits (2 * X)" "u256_fits (X * 2)" "u256_fits (A * 2)" "u256_fits (4 * (X * A))"
      "u256_fits (4 * X)" "u256_fits (6 * X)" "u256_fits (4 * (X * A) + 4 * X)"
    by (rule big, use le in linarith)+
  have small': "u256_fits ((2 * A - 1) * (2 * X))"
    by (rule u256_fits_mono [OF small(4)]) (simp add: diff_mult_distrib mult.commute [of A X])
  have d: "unat d = 2 * X" unfolding d_def
    by (subst unat_mult_fits) (use small in \<open>simp_all add: X_def [symmetric]\<close>)
  have dd: "unat (d * d) = 2 * X * (2 * X)"
    by (subst unat_mult_fits) (simp_all add: d big)
  have x2: "unat (x * 2) = 2 * X"
    by (subst unat_mult_fits) (use small in \<open>simp_all add: X_def [symmetric]\<close>)
  have dp: "word_div (d * d) (x * 2) = Ret d"
    by (rule word_div_exact) (use pos in \<open>simp_all add: d dd x2\<close>)
  define ann where "ann = curve_amplification p * 2"
  have ann: "unat ann = 2 * A" unfolding ann_def
    by (subst unat_mult_fits) (use small in \<open>simp_all add: A_def [symmetric]\<close>)
  have t1: "unat (ann * d) = 4 * (X * A)"
    by (subst unat_mult_fits) (use small in \<open>simp_all add: ann d mult.commute [of A X]\<close>)
  have t2: "unat (d * 2) = 4 * X"
    by (subst unat_mult_fits) (use small in \<open>simp_all add: d\<close>)
  have t3: "unat (ann * d + d * 2) = 4 * (X * A) + 4 * X"
    by (subst unat_add_fits) (use small in \<open>simp_all add: t1 t2\<close>)
  have num: "unat ((ann * d + d * 2) * d) = (4 * (X * A) + 4 * X) * (2 * X)"
    by (subst unat_mult_fits) (simp_all add: t3 d, rule big, simp add: algebra_simps)
  have a1: "unat (ann - 1) = 2 * A - 1"
    using pos ann by (subst unat_sub_le) (simp_all add: word_le_nat_alt)
  have t4: "unat ((ann - 1) * d) = (2 * A - 1) * (2 * X)"
    by (subst unat_mult_fits) (use small' in \<open>simp_all add: a1 d\<close>)
  have t5: "unat (3 * d) = 6 * X"
    by (subst unat_mult_fits) (use small in \<open>simp_all add: d\<close>)
  have sum: "(2 * A - 1) * (2 * X) + 6 * X = 4 * (X * A) + 4 * X"
    using le pos by (cases A) (simp_all add: algebra_simps)
  have den: "unat ((ann - 1) * d + 3 * d) = 4 * (X * A) + 4 * X"
    using small(7) unat_add_fits [of "(ann - 1) * d" "3 * d"] unfolding t4 t5 sum by simp
  have q: "(ann * d + d * 2) * d div ((ann - 1) * d + 3 * d) = d"
    by (rule word_div_exact) (use pos in \<open>simp_all add: num den d\<close>)
  have nz: "(ann - 1) * d + 3 * d \<noteq> 0" "d \<noteq> 0" using pos den d by (auto intro: Suc_leI)
  have n: "(of_nat (length (curve_balances p)) :: u256) = 2" "foldl (+) 0 (curve_balances p) = d"
    using assms(1) by (simp_all add: d_def)
  have d_p: "curve_d_p [x, x] 2 d d = Ret (Some d)" using assms(2) dp by simp
  have "curve_d_loop [x, x] 2 ann d (Suc k) d = Ret d" for k
    using nz(1) by (simp add: d_p q within_one_def del: curve_d_p.simps)
  from this [of 255] show ?thesis
    using nz(2) unfolding get_d_def Let_def n by (simp add: assms(1) ann_def [symmetric] d_def)
qed

theorem get_d_balanced_witness: "get_d curve_sample = Ret 2000000"
  using get_d_balanced [of curve_sample 1000000] by (simp add: curve_sample_def u256_fits_def)

end
