(* ===== verification/Balancer.thy ===== *)
theory Balancer
  imports Pool_Contract Swap_Encode
begin

text \<open>
  \<^verbatim>\<open>crates/pools/src/balancer.rs\<close> and \<^verbatim>\<open>balancer_v3.rs\<close>: the weighted two-token pools.  Equal weights
  price on the constant product; unequal weights use the source's first-order formula with its 2\<open>%\<close>
  margin.  \<^verbatim>\<open>10000 - fee_bps\<close> is computed in \<^verbatim>\<open>u32\<close> and wraps for a fee above 100\<open>%\<close>.
\<close>

definition UNEQUAL_WEIGHT_SAFETY_MARGIN_BPS :: u32 where
  "UNEQUAL_WEIGHT_SAFETY_MARGIN_BPS = 200"

record BalancerPool =
  bal_address :: address
  bal_token0 :: address
  bal_token1 :: address
  bal_balance0 :: u256
  bal_balance1 :: u256
  bal_weight0 :: u256
  bal_weight1 :: u256
  bal_fee_bps :: u32

record BalancerPostState =
  bps_new_balance0 :: u256
  bps_new_balance1 :: u256
  bps_amount_out :: u256
  bps_analytical :: bool

definition bal_new :: "address \<Rightarrow> address \<Rightarrow> address \<Rightarrow> u64 \<Rightarrow> u64 \<Rightarrow> u32 \<Rightarrow> BalancerPool" where
  "bal_new addr token0 token1 weight0 weight1 fee_bps =
     \<lparr>bal_address = addr, bal_token0 = token0, bal_token1 = token1, bal_balance0 = 0, bal_balance1 = 0,
      bal_weight0 = ucast weight0, bal_weight1 = ucast weight1, bal_fee_bps = fee_bps\<rparr>"

definition bal_tokens :: "BalancerPool \<Rightarrow> address list" where
  "bal_tokens p = [bal_token0 p, bal_token1 p]"

definition bal_get_amount_out :: "BalancerPool \<Rightarrow> address \<Rightarrow> u256 \<Rightarrow> u256 option exec" where
  "bal_get_amount_out p token_in amount_in =
     (if amount_in = 0 then Ret None
      else case
          (if token_in = bal_token0 p then Some (bal_balance0 p, bal_balance1 p, bal_weight0 p, bal_weight1 p)
           else if token_in = bal_token1 p then Some (bal_balance1 p, bal_balance0 p, bal_weight1 p, bal_weight0 p)
           else None)
        of None \<Rightarrow> Ret None
        | Some (bal_in, bal_out, w_in, w_out) \<Rightarrow>
            if bal_in = 0 \<or> bal_out = 0 then Ret None
            else
              let fee_complement = ucast (10000 - bal_fee_bps p);
                  amount_in_after_fee = amount_in * fee_complement div 10000
              in if w_in = w_out then
                   let numerator = bal_out * amount_in_after_fee;
                       denominator = bal_in + amount_in_after_fee
                   in emap Some (word_div numerator denominator)
                 else
                   let numerator = bal_out * amount_in_after_fee * w_in;
                       denominator = bal_in * w_out + amount_in_after_fee * w_in
                   in if denominator = 0 then Ret None
                      else
                        let raw = numerator div denominator
                        in Ret (Some (raw * ucast (10000 - UNEQUAL_WEIGHT_SAFETY_MARGIN_BPS) div 10000)))"

definition bal_predict_post_state :: "BalancerPool \<Rightarrow> address \<Rightarrow> u256 \<Rightarrow> BalancerPostState option exec" where
  "bal_predict_post_state p token_in amount_in =
     (if amount_in = 0 then Ret None
      else eobind (bal_get_amount_out p token_in amount_in) (\<lambda>amount_out.
        let analytical = (bal_weight0 p = bal_weight1 p)
        in if token_in = bal_token0 p then
             obind (checked_add (bal_balance0 p) amount_in) (\<lambda>new_balance0.
             obind (checked_sub (bal_balance1 p) amount_out) (\<lambda>new_balance1.
               Ret (Some \<lparr>bps_new_balance0 = new_balance0, bps_new_balance1 = new_balance1,
                          bps_amount_out = amount_out, bps_analytical = analytical\<rparr>)))
           else if token_in = bal_token1 p then
             obind (checked_sub (bal_balance0 p) amount_out) (\<lambda>new_balance0.
             obind (checked_add (bal_balance1 p) amount_in) (\<lambda>new_balance1.
               Ret (Some \<lparr>bps_new_balance0 = new_balance0, bps_new_balance1 = new_balance1,
                          bps_amount_out = amount_out, bps_analytical = analytical\<rparr>)))
           else Ret None))"

definition bal_get_amount_in :: "BalancerPool \<Rightarrow> address \<Rightarrow> u256 \<Rightarrow> u256 option exec" where
  "bal_get_amount_in p token_out amount_out =
     (if amount_out = 0 then Ret None
      else case
          (if token_out = bal_token1 p then Some (bal_balance0 p, bal_balance1 p, bal_weight0 p, bal_weight1 p)
           else if token_out = bal_token0 p then Some (bal_balance1 p, bal_balance0 p, bal_weight1 p, bal_weight0 p)
           else None)
        of None \<Rightarrow> Ret None
        | Some (bal_in, bal_out, w_in, w_out) \<Rightarrow>
            if bal_in = 0 \<or> bal_out = 0 \<or> amount_out \<ge> bal_out then Ret None
            else if w_in = w_out then
              let numerator = bal_in * amount_out;
                  denominator = bal_out - amount_out
              in ebind (word_div numerator denominator) (\<lambda>q.
                 let amount_in_before_fee = q + 1
                 in emap Some (word_div (amount_in_before_fee * 10000) (ucast (10000 - bal_fee_bps p))))
            else
              let numerator = bal_in * amount_out * w_out;
                  denominator = (bal_out - amount_out) * w_in
              in if denominator = 0 then Ret None
                 else
                   let amount_in_before_fee = numerator div denominator + 1
                   in emap Some (word_div (amount_in_before_fee * 10000) (ucast (10000 - bal_fee_bps p))))"

definition bal_update_state :: "BalancerPool \<Rightarrow> u256 \<Rightarrow> u256 \<Rightarrow> BalancerPool" where
  "bal_update_state p reserve0 reserve1 = p\<lparr>bal_balance0 := reserve0, bal_balance1 := reserve1\<rparr>"

definition bal_encode_swap ::
    "(sol_call \<Rightarrow> bytes) \<Rightarrow> BalancerPool \<Rightarrow> address \<Rightarrow> u256 \<Rightarrow> u256 \<Rightarrow> bytes" where
  "bal_encode_swap abi_encode p token_in amount_in min_out =
     (if token_in = bal_token0 p then
        encode_balancer_vault_swap abi_encode (bal_address p) token_in (bal_token1 p) amount_in min_out
      else if token_in = bal_token1 p then
        encode_balancer_vault_swap abi_encode (bal_address p) token_in (bal_token0 p) amount_in min_out
      else [])"

definition bal_liquidity_depth :: "BalancerPool \<Rightarrow> u256" where
  "bal_liquidity_depth p = min (bal_balance0 p) (bal_balance1 p)"

subsection \<open>Balancer V3: the same curve with a 5\<open>%\<close> margin on quotes\<close>

definition SAFETY_MARGIN_BPS :: u32 where
  "SAFETY_MARGIN_BPS = 500"

record BalancerV3Pool =
  bal3_inner :: BalancerPool

definition bal3_new :: "address \<Rightarrow> address \<Rightarrow> address \<Rightarrow> u64 \<Rightarrow> u64 \<Rightarrow> u32 \<Rightarrow> BalancerV3Pool" where
  "bal3_new addr token0 token1 weight0 weight1 fee_bps =
     \<lparr>bal3_inner = bal_new addr token0 token1 weight0 weight1 fee_bps\<rparr>"

definition bal3_predict_post_state :: "BalancerV3Pool \<Rightarrow> address \<Rightarrow> u256 \<Rightarrow> BalancerPostState option exec" where
  "bal3_predict_post_state p = bal_predict_post_state (bal3_inner p)"

definition apply_safety_margin :: "u256 \<Rightarrow> u256" where
  "apply_safety_margin amount = amount * ucast (10000 - SAFETY_MARGIN_BPS) div 10000"

definition bal3_tokens :: "BalancerV3Pool \<Rightarrow> address list" where
  "bal3_tokens p = [bal_token0 (bal3_inner p), bal_token1 (bal3_inner p)]"

definition bal3_get_amount_out :: "BalancerV3Pool \<Rightarrow> address \<Rightarrow> u256 \<Rightarrow> u256 option exec" where
  "bal3_get_amount_out p token_in amount_in =
     emap (map_option apply_safety_margin) (bal_get_amount_out (bal3_inner p) token_in amount_in)"

definition bal3_get_amount_in :: "BalancerV3Pool \<Rightarrow> address \<Rightarrow> u256 \<Rightarrow> u256 option exec" where
  "bal3_get_amount_in p = bal_get_amount_in (bal3_inner p)"

definition bal3_update_state :: "BalancerV3Pool \<Rightarrow> u256 \<Rightarrow> u256 \<Rightarrow> BalancerV3Pool" where
  "bal3_update_state p reserve0 reserve1 =
     p\<lparr>bal3_inner := bal_update_state (bal3_inner p) reserve0 reserve1\<rparr>"

definition bal3_encode_swap ::
    "(sol_call \<Rightarrow> bytes) \<Rightarrow> BalancerV3Pool \<Rightarrow> address \<Rightarrow> u256 \<Rightarrow> u256 \<Rightarrow> bytes" where
  "bal3_encode_swap abi_encode p token_in amount_in min_out =
     (let q = bal3_inner p
      in if token_in = bal_token0 q then
           encode_balancer_vault_swap abi_encode (bal_address q) token_in (bal_token1 q) amount_in min_out
         else if token_in = bal_token1 q then
           encode_balancer_vault_swap abi_encode (bal_address q) token_in (bal_token0 q) amount_in min_out
         else [])"

definition bal3_liquidity_depth :: "BalancerV3Pool \<Rightarrow> u256" where
  "bal3_liquidity_depth p = bal_liquidity_depth (bal3_inner p)"

section \<open>Equal weights: the constant-product contract\<close>

definition bal_rin :: "BalancerPool \<Rightarrow> address \<Rightarrow> nat" where
  "bal_rin p t = unat (if t = bal_token0 p then bal_balance0 p else bal_balance1 p)"

definition bal_rout :: "BalancerPool \<Rightarrow> address \<Rightarrow> nat" where
  "bal_rout p t = unat (if t = bal_token0 p then bal_balance1 p else bal_balance0 p)"

definition bal_ok :: "BalancerPool \<Rightarrow> address \<Rightarrow> u256 \<Rightarrow> bool" where
  "bal_ok p t a \<longleftrightarrow> bal_weight0 p = bal_weight1 p \<and> unat (bal_fee_bps p) \<le> 10000
     \<and> unat (bal_balance0 p) < 2 ^ 112 \<and> unat (bal_balance1 p) < 2 ^ 112 \<and> unat a < 2 ^ 128"

lemma bal_out_Some_reserves:
  assumes "bal_get_amount_out p t a = Ret (Some y)"
  shows "0 < bal_rin p t" and "0 < bal_rout p t" and "a \<noteq> 0" and "t \<in> set (bal_tokens p)"
  using assms unfolding bal_get_amount_out_def bal_rin_def bal_rout_def bal_tokens_def
  by (auto split: if_splits simp: unat_pos_iff)

lemma bal_out_value:
  assumes "bal_ok p t a" and "t \<in> set (bal_tokens p)" and "a \<noteq> 0"
    and "0 < bal_rin p t" and "0 < bal_rout p t"
  shows "\<exists>y w. bal_get_amount_out p t a = Ret (Some y) \<and> w \<le> unat a
    \<and> unat y = w * bal_rout p t div (bal_rin p t + w)"
proof -
  define ri where "ri = (if t = bal_token0 p then bal_balance0 p else bal_balance1 p)"
  define ro where "ro = (if t = bal_token0 p then bal_balance1 p else bal_balance0 p)"
  define w where "w = a * ucast (10000 - bal_fee_bps p) div 10000"
  have r: "unat ri = bal_rin p t" "unat ro = bal_rout p t"
    by (simp_all add: ri_def ro_def bal_rin_def bal_rout_def)
  have b: "unat a < 2 ^ 128" "unat ri < 2 ^ 112" "unat ro < 2 ^ 112" "unat (bal_fee_bps p) \<le> 10000"
    using assms(1) unfolding bal_ok_def ri_def ro_def by simp_all
  have nz: "0 < unat ri" "ri \<noteq> 0" "ro \<noteq> 0" using assms(4,5) r by auto
  note words = fee_first_words [OF b nz(1), folded w_def]
  have tok: "t = bal_token0 p \<or> t = bal_token1 p" using assms(2) by (auto simp: bal_tokens_def)
  have "bal_get_amount_out p t a = emap Some (word_div (ro * w) (ri + w))"
    using tok assms(1,3) nz unfolding bal_get_amount_out_def ri_def ro_def w_def Let_def
    by (cases "t = bal_token0 p") (simp_all add: bal_ok_def)
  also have "\<dots> = Ret (Some (ro * w div (ri + w)))" using words(2) by simp
  finally show ?thesis using words(1,3) r by metis
qed

interpretation bal: pool_adapter bal_tokens bal_get_amount_out bal_get_amount_in
  by unfold_locales (auto simp: bal_get_amount_out_def bal_get_amount_in_def bal_tokens_def)

interpretation bal3: pool_adapter bal3_tokens bal3_get_amount_out bal3_get_amount_in
  by unfold_locales
    (simp_all add: bal3_tokens_def bal3_get_amount_out_def bal3_get_amount_in_def
      bal.out_zero bal.out_unknown bal.in_zero bal.in_unknown bal_tokens_def)

interpretation bal: constant_product bal_get_amount_out bal_rin bal_rout bal_ok
proof
  fix p t a y
  assume ok: "bal_ok p t a" and quote: "bal_get_amount_out p t a = Ret (Some y)"
  note res = bal_out_Some_reserves [OF quote]
  obtain w where "w \<le> 1 * unat a" "unat y = w * bal_rout p t div (bal_rin p t * 1 + w)"
    using bal_out_value [OF ok res(4,3,1,2)] quote by auto
  then show "unat y * (bal_rin p t + unat a) \<le> bal_rout p t * unat a"
    by (rule cp_floor_bound) (use res in simp)
  show "0 < bal_rin p t \<and> 0 < bal_rout p t" using res by simp
qed

section \<open>Properties\<close>

definition bal_sample :: BalancerPool where
  "bal_sample = \<lparr>bal_address = 1, bal_token0 = 2, bal_token1 = 3, bal_balance0 = 1000000,
     bal_balance1 = 2000000, bal_weight0 = 500000, bal_weight1 = 500000, bal_fee_bps = 30\<rparr>"

text \<open>
  For an equal-weight Balancer pool with balances in range, whenever there is a quote there is a
  predicted post-state with the same output, marked analytical; it credits the full input, debits
  the output, leaves the paying balance positive, and its product of balances is at least the
  pool's.
\<close>
theorem bal_predict_safe:
  assumes "bal_ok p t a" and "bal_get_amount_out p t a = Ret (Some y)"
  shows "\<exists>st. bal_predict_post_state p t a = Ret (Some st) \<and> bps_amount_out st = y \<and> bps_analytical st
    \<and> unat (bps_new_balance0 st) * unat (bps_new_balance1 st)
        = (bal_rin p t + unat a) * (bal_rout p t - unat y)
    \<and> unat y < bal_rout p t
    \<and> unat (bal_balance0 p) * unat (bal_balance1 p)
        \<le> unat (bps_new_balance0 st) * unat (bps_new_balance1 st)"
proof -
  note res = bal_out_Some_reserves [OF assms(2)]
  note drain = bal.no_drain [OF assms] and prod = bal.product_never_decreases [OF assms]
  have w: "bal_weight0 p = bal_weight1 p" using assms(1) by (simp add: bal_ok_def)
  have add: "checked_add b a = Some (b + a) \<and> unat (b + a) = unat b + unat a" if "unat b < 2 ^ 112" for b
  proof -
    have "unat b + unat a < 2 ^ LENGTH(256)" using assms(1) that by (simp add: bal_ok_def)
    from checked_add_fits [OF this] show ?thesis using checked_add_Some by blast
  qed
  have sub: "checked_sub b y = Some (b - y) \<and> unat (b - y) = unat b - unat y" if "unat b = bal_rout p t" for b
    using drain that by (auto simp: checked_sub_def unat_sub_le word_le_nat_alt)
  have b: "unat (bal_balance0 p) < 2 ^ 112" "unat (bal_balance1 p) < 2 ^ 112"
    using assms(1) by (simp_all add: bal_ok_def)
  show ?thesis
  proof (cases "t = bal_token0 p")
    case True
    then show ?thesis using assms(2) res(3) w add [OF b(1)] sub [of "bal_balance1 p"] drain prod
      by (simp add: bal_predict_post_state_def bal_rin_def bal_rout_def)
  next
    case False
    then have "t = bal_token1 p" using res(4) by (auto simp: bal_tokens_def)
    with False show ?thesis using assms(2) res(3) w add [OF b(2)] sub [of "bal_balance0 p"] drain prod
      by (simp add: bal_predict_post_state_def bal_rin_def bal_rout_def mult.commute)
  qed
qed

theorem bal_predict_safe_witness:
  "bal_get_amount_out bal_sample 2 1000 = Ret (Some 1992) \<and>
   (\<exists>st. bal_predict_post_state bal_sample 2 1000 = Ret (Some st) \<and> bps_amount_out st = 1992
     \<and> 1000000 * 2000000 \<le> unat (bps_new_balance0 st) * unat (bps_new_balance1 st))"
proof -
  have "bal_get_amount_out bal_sample 2 1000 = Ret (Some 1992)" by code_simp
  moreover have "bal_ok bal_sample 2 1000" by (simp add: bal_ok_def bal_sample_def)
  ultimately show ?thesis using bal_predict_safe [of bal_sample 2 1000 1992]
    by (auto simp: bal_sample_def)
qed

end
