(* ===== verification/Bancor.thy ===== *)
theory Bancor
  imports Pool_Contract Swap_Encode
begin

text \<open>
  \<^verbatim>\<open>crates/pools/src/bancor.rs\<close>: pools of a token against BNT on the bonding curve \<open>x * y = k\<close>, and the
  joint prediction of a two-pool swap through BNT.
\<close>

definition BNT_ADDRESS :: address where
  "BNT_ADDRESS = 0x1F573D6Fb3F13d689FF844B4cE37794d79a7FF1C"

definition ANALYTICAL_SAFETY_MARGIN_BPS :: u32 where
  "ANALYTICAL_SAFETY_MARGIN_BPS = 200"

record BancorPool =
  ban_address :: address
  ban_token :: address
  ban_bnt :: address
  ban_token_balance :: u256
  ban_bnt_balance :: u256
  ban_fee_bps :: u32

record BancorPostState =
  nps_new_balance_in :: u256
  nps_new_balance_out :: u256
  nps_amount_out :: u256
  nps_analytical :: bool

definition ban_new :: "address \<Rightarrow> address \<Rightarrow> address \<Rightarrow> u32 \<Rightarrow> BancorPool" where
  "ban_new addr token bnt fee_bps =
     \<lparr>ban_address = addr, ban_token = token, ban_bnt = bnt, ban_token_balance = 0,
      ban_bnt_balance = 0, ban_fee_bps = fee_bps\<rparr>"

definition ban_tokens :: "BancorPool \<Rightarrow> address list" where
  "ban_tokens p = [ban_token p, ban_bnt p]"

definition ban_get_amount_out :: "BancorPool \<Rightarrow> address \<Rightarrow> u256 \<Rightarrow> u256 option exec" where
  "ban_get_amount_out p token_in amount_in =
     (if amount_in = 0 then Ret None
      else case
          (if token_in = ban_token p then Some (ban_token_balance p, ban_bnt_balance p)
           else if token_in = ban_bnt p then Some (ban_bnt_balance p, ban_token_balance p)
           else None)
        of None \<Rightarrow> Ret None
        | Some (bal_in, bal_out) \<Rightarrow>
            if bal_in = 0 \<or> bal_out = 0 then Ret None
            else
              let fee_complement = ucast (10000 - ban_fee_bps p);
                  amount_in_after_fee = amount_in * fee_complement div 10000;
                  numerator = bal_out * amount_in_after_fee;
                  denominator = bal_in + amount_in_after_fee
              in emap (\<lambda>raw. Some (raw * ucast (10000 - ANALYTICAL_SAFETY_MARGIN_BPS) div 10000))
                   (word_div numerator denominator))"

definition ban_get_amount_in :: "BancorPool \<Rightarrow> address \<Rightarrow> u256 \<Rightarrow> u256 option exec" where
  "ban_get_amount_in p token_out amount_out =
     (if amount_out = 0 then Ret None
      else case
          (if token_out = ban_bnt p then Some (ban_token_balance p, ban_bnt_balance p)
           else if token_out = ban_token p then Some (ban_bnt_balance p, ban_token_balance p)
           else None)
        of None \<Rightarrow> Ret None
        | Some (bal_in, bal_out) \<Rightarrow>
            if bal_in = 0 \<or> bal_out = 0 \<or> amount_out \<ge> bal_out then Ret None
            else
              let numerator = bal_in * amount_out;
                  denominator = bal_out - amount_out
              in ebind (word_div numerator denominator) (\<lambda>q.
                 let amount_before_fee = q + 1
                 in emap Some (word_div (amount_before_fee * 10000) (ucast (10000 - ban_fee_bps p)))))"

definition ban_predict_post_state :: "BancorPool \<Rightarrow> address \<Rightarrow> u256 \<Rightarrow> BancorPostState option exec" where
  "ban_predict_post_state p token_in amount_in =
     (if ban_token_balance p = 0 \<or> ban_bnt_balance p = 0 \<or> amount_in = 0 then Ret None
      else if token_in \<noteq> ban_token p \<and> token_in \<noteq> ban_bnt p then Ret None
      else
        let (bal_in, bal_out) =
              (if token_in = ban_token p then (ban_token_balance p, ban_bnt_balance p)
               else (ban_bnt_balance p, ban_token_balance p))
        in eobind (ban_get_amount_out p token_in amount_in) (\<lambda>amount_out.
             if amount_out = 0 \<or> amount_out \<ge> bal_out then Ret None
             else Ret (Some \<lparr>nps_new_balance_in = bal_in + amount_in,
                             nps_new_balance_out = bal_out - amount_out,
                             nps_amount_out = amount_out, nps_analytical = True\<rparr>)))"

definition ban_predict_post_state_multihop ::
    "BancorPool \<Rightarrow> address \<Rightarrow> u256 \<Rightarrow> address \<Rightarrow> BancorPool
      \<Rightarrow> (BancorPostState \<times> BancorPostState) option exec" where
  "ban_predict_post_state_multihop p token_in amount_in token_out second_pool =
     (if ban_bnt p \<noteq> BNT_ADDRESS \<or> ban_bnt second_pool \<noteq> BNT_ADDRESS then Ret None
      else if token_in = BNT_ADDRESS \<or> token_out = BNT_ADDRESS then Ret None
      else if ban_token p \<noteq> token_in then Ret None
      else if ban_token second_pool \<noteq> token_out then Ret None
      else eobind (ban_predict_post_state p token_in amount_in) (\<lambda>leg_a.
        if nps_amount_out leg_a = 0 then Ret None
        else eobind (ban_predict_post_state second_pool BNT_ADDRESS (nps_amount_out leg_a)) (\<lambda>leg_b.
          Ret (Some (leg_a, leg_b)))))"

definition ban_update_state :: "BancorPool \<Rightarrow> u256 \<Rightarrow> u256 \<Rightarrow> BancorPool" where
  "ban_update_state p reserve0 reserve1 = p\<lparr>ban_token_balance := reserve0, ban_bnt_balance := reserve1\<rparr>"

definition ban_encode_swap ::
    "(sol_call \<Rightarrow> bytes) \<Rightarrow> BancorPool \<Rightarrow> address \<Rightarrow> u256 \<Rightarrow> u256 \<Rightarrow> bytes" where
  "ban_encode_swap abi_encode p token_in amount_in min_out =
     (if token_in = ban_token p then
        encode_bancor_trade abi_encode token_in (ban_bnt p) amount_in min_out 0
      else if token_in = ban_bnt p then
        encode_bancor_trade abi_encode token_in (ban_token p) amount_in min_out 0
      else [])"

definition ban_liquidity_depth :: "BancorPool \<Rightarrow> u256" where
  "ban_liquidity_depth p = min (ban_token_balance p) (ban_bnt_balance p)"

section \<open>The constant-product contract\<close>

definition ban_rin :: "BancorPool \<Rightarrow> address \<Rightarrow> nat" where
  "ban_rin p t = unat (if t = ban_token p then ban_token_balance p else ban_bnt_balance p)"

definition ban_rout :: "BancorPool \<Rightarrow> address \<Rightarrow> nat" where
  "ban_rout p t = unat (if t = ban_token p then ban_bnt_balance p else ban_token_balance p)"

definition ban_ok :: "BancorPool \<Rightarrow> address \<Rightarrow> u256 \<Rightarrow> bool" where
  "ban_ok p t a \<longleftrightarrow> unat (ban_fee_bps p) \<le> 10000 \<and> unat a < 2 ^ 128
     \<and> unat (ban_token_balance p) < 2 ^ 112 \<and> unat (ban_bnt_balance p) < 2 ^ 112"

lemma ban_out_Some_reserves:
  assumes "ban_get_amount_out p t a = Ret (Some y)"
  shows "0 < ban_rin p t" and "0 < ban_rout p t" and "a \<noteq> 0" and "t \<in> set (ban_tokens p)"
  using assms unfolding ban_get_amount_out_def ban_rin_def ban_rout_def ban_tokens_def
  by (auto split: if_splits simp: unat_pos_iff)

lemma ban_out_value:
  assumes "ban_ok p t a" and "t \<in> set (ban_tokens p)" and "a \<noteq> 0"
    and "0 < ban_rin p t" and "0 < ban_rout p t"
  shows "\<exists>y w. ban_get_amount_out p t a = Ret (Some y) \<and> w \<le> unat a
    \<and> unat y \<le> w * ban_rout p t div (ban_rin p t + w)"
proof -
  define ri where "ri = (if t = ban_token p then ban_token_balance p else ban_bnt_balance p)"
  define ro where "ro = (if t = ban_token p then ban_bnt_balance p else ban_token_balance p)"
  define w where "w = a * ucast (10000 - ban_fee_bps p) div 10000"
  have r: "unat ri = ban_rin p t" "unat ro = ban_rout p t"
    by (simp_all add: ri_def ro_def ban_rin_def ban_rout_def)
  have b: "unat a < 2 ^ 128" "unat ri < 2 ^ 112" "unat ro < 2 ^ 112" "unat (ban_fee_bps p) \<le> 10000"
    using assms(1) unfolding ban_ok_def ri_def ro_def by simp_all
  have nz: "0 < unat ri" "ri \<noteq> 0" "ro \<noteq> 0" using assms(4,5) r by auto
  note words = fee_first_words [OF b nz(1), folded w_def]
  define raw where "raw = ro * w div (ri + w)"
  define y where "y = raw * ucast (10000 - ANALYTICAL_SAFETY_MARGIN_BPS) div 10000"
  have tok: "t = ban_token p \<or> t = ban_bnt p" using assms(2) by (auto simp: ban_tokens_def)
  have "ban_get_amount_out p t a =
      emap (\<lambda>raw. Some (raw * ucast (10000 - ANALYTICAL_SAFETY_MARGIN_BPS) div 10000)) (word_div (ro * w) (ri + w))"
    using tok assms(3) nz unfolding ban_get_amount_out_def ri_def ro_def w_def Let_def
    by (cases "t = ban_token p") simp_all
  then have res: "ban_get_amount_out p t a = Ret (Some y)" using words(2) by (simp add: raw_def y_def)
  have "unat raw \<le> unat ro"
    unfolding raw_def words(3) by (rule div_le_mult_bound)
  then have "unat raw < 2 ^ 240" using b(3) by simp
  then have "unat y \<le> unat raw"
    unfolding y_def by (rule bps_words(2)) (simp add: ANALYTICAL_SAFETY_MARGIN_BPS_def)
  with res words(1,3) r show ?thesis unfolding raw_def by metis
qed

interpretation ban: pool_adapter ban_tokens ban_get_amount_out ban_get_amount_in
  by unfold_locales (auto simp: ban_get_amount_out_def ban_get_amount_in_def ban_tokens_def)

interpretation ban: constant_product ban_get_amount_out ban_rin ban_rout ban_ok
proof
  fix p t a y
  assume ok: "ban_ok p t a" and quote: "ban_get_amount_out p t a = Ret (Some y)"
  note res = ban_out_Some_reserves [OF quote]
  obtain w where w: "w \<le> 1 * unat a" "unat y \<le> w * ban_rout p t div (ban_rin p t * 1 + w)"
    using ban_out_value [OF ok res(4,3,1,2)] quote by auto
  have "unat y * (ban_rin p t + unat a) \<le>
      w * ban_rout p t div (ban_rin p t * 1 + w) * (ban_rin p t + unat a)"
    using w(2) by (rule mult_le_mono1)
  also have "\<dots> \<le> ban_rout p t * unat a" by (rule cp_floor_bound [OF w(1) refl]) (use res in simp)
  finally show "unat y * (ban_rin p t + unat a) \<le> ban_rout p t * unat a" .
  show "0 < ban_rin p t \<and> 0 < ban_rout p t" using res by simp
qed

section \<open>Properties\<close>

definition ban_sample :: "address \<Rightarrow> BancorPool" where
  "ban_sample token = \<lparr>ban_address = 1, ban_token = token, ban_bnt = BNT_ADDRESS,
     ban_token_balance = 1000000, ban_bnt_balance = 2000000, ban_fee_bps = 30\<rparr>"

lemma ban_predict_cases:
  assumes "ban_predict_post_state p t a = Ret (Some st)"
  obtains ri ro where "ban_get_amount_out p t a = Ret (Some (nps_amount_out st))"
    and "unat ri = ban_rin p t" and "unat ro = ban_rout p t"
    and "nps_new_balance_in st = ri + a" and "nps_new_balance_out st = ro - nps_amount_out st"
    and "nps_amount_out st \<noteq> 0" and "nps_amount_out st < ro"
  using assms
  by (cases "t = ban_token p")
    (auto simp: ban_predict_post_state_def ban_rin_def ban_rout_def not_le split: if_splits elim!: eobind_SomeE)

lemma ban_predict_balances:
  assumes "ban_ok p t a" and "ban_predict_post_state p t a = Ret (Some st)"
  shows "unat (nps_new_balance_in st) = ban_rin p t + unat a"
    and "unat (nps_new_balance_out st) + unat (nps_amount_out st) = ban_rout p t"
proof -
  from ban_predict_cases [OF assms(2)] obtain ri ro where
    r: "unat ri = ban_rin p t" "unat ro = ban_rout p t" "nps_new_balance_in st = ri + a"
      "nps_new_balance_out st = ro - nps_amount_out st" "nps_amount_out st < ro" .
  have "unat ri + unat a < 2 ^ 129" unfolding r(1) ban_rin_def using assms(1) by (simp add: ban_ok_def)
  then have "unat (ri + a) = unat ri + unat a"
    by (intro unat_add_fits u256_fits_pow2 [of _ 129]) simp_all
  then show "unat (nps_new_balance_in st) = ban_rin p t + unat a" by (simp add: r(1,3))
  have "unat (ro - nps_amount_out st) = unat ro - unat (nps_amount_out st)"
    using r(5) by (intro unat_sub_le) simp
  then show "unat (nps_new_balance_out st) + unat (nps_amount_out st) = ban_rout p t"
    using r(5) by (simp add: r(2,4) word_less_nat_alt)
qed

text \<open>
  A predicted Bancor post-state is consistent with the quote and safe: it pays a positive amount,
  credits the full input, debits exactly the payout, and never lowers the product of the balances.
\<close>
theorem ban_predict_safe:
  assumes "ban_ok p t a" and "ban_predict_post_state p t a = Ret (Some st)"
  shows "ban_get_amount_out p t a = Ret (Some (nps_amount_out st)) \<and> nps_amount_out st \<noteq> 0
    \<and> unat (nps_new_balance_in st) = ban_rin p t + unat a
    \<and> unat (nps_new_balance_out st) = ban_rout p t - unat (nps_amount_out st)
    \<and> 0 < unat (nps_new_balance_out st)
    \<and> ban_rin p t * ban_rout p t \<le> unat (nps_new_balance_in st) * unat (nps_new_balance_out st)"
proof -
  have q: "ban_get_amount_out p t a = Ret (Some (nps_amount_out st))" and "nps_amount_out st \<noteq> 0"
    using ban_predict_cases [OF assms(2)] by blast+
  moreover have "unat (nps_new_balance_out st) = ban_rout p t - unat (nps_amount_out st)"
    using ban_predict_balances(2) [OF assms] by simp
  ultimately show ?thesis
    using ban_predict_balances(1) [OF assms] ban.no_drain [OF assms(1) q]
      ban.product_never_decreases [OF assms(1) q] by simp
qed

theorem ban_predict_safe_witness:
  "ban_predict_post_state (ban_sample 2) 2 1000 = Ret (Some \<lparr>nps_new_balance_in = 1001000,
     nps_new_balance_out = 1998048, nps_amount_out = 1952, nps_analytical = True\<rparr>)
   \<and> (1000000 * 2000000 :: nat) \<le> 1001000 * 1998048"
proof -
  have p: "ban_predict_post_state (ban_sample 2) 2 1000 = Ret (Some \<lparr>nps_new_balance_in = 1001000,
     nps_new_balance_out = 1998048, nps_amount_out = 1952, nps_analytical = True\<rparr>)" by code_simp
  have "ban_ok (ban_sample 2) 2 1000" by (simp add: ban_ok_def ban_sample_def)
  from ban_predict_safe [OF this p] p show ?thesis by (simp add: ban_rin_def ban_rout_def ban_sample_def)
qed

text \<open>
  The two-pool prediction conserves BNT: it only applies when both pools are paired with the
  canonical BNT and neither end is BNT; the second leg takes in exactly what the first pays out,
  so the BNT held by the two pools together is unchanged.
\<close>
theorem ban_multihop_conserves_bnt:
  assumes "ban_predict_post_state_multihop p t a u q = Ret (Some (st, st'))"
    and "ban_ok p t a" and "ban_ok q BNT_ADDRESS (nps_amount_out st)"
  shows "ban_predict_post_state p t a = Ret (Some st)
    \<and> ban_predict_post_state q BNT_ADDRESS (nps_amount_out st) = Ret (Some st')
    \<and> ban_token p = t \<and> ban_token q = u
    \<and> unat (nps_new_balance_out st) + unat (nps_new_balance_in st')
        = unat (ban_bnt_balance p) + unat (ban_bnt_balance q)"
proof -
  have g: "ban_bnt p = BNT_ADDRESS" "ban_bnt q = BNT_ADDRESS" "t \<noteq> BNT_ADDRESS" "u \<noteq> BNT_ADDRESS"
    "ban_token p = t" "ban_token q = u"
    and p: "ban_predict_post_state p t a = Ret (Some st)"
    and q: "ban_predict_post_state q BNT_ADDRESS (nps_amount_out st) = Ret (Some st')"
    using assms(1) unfolding ban_predict_post_state_multihop_def
    by (auto split: if_splits elim!: eobind_SomeE)
  have "unat (nps_new_balance_out st) + unat (nps_amount_out st) = unat (ban_bnt_balance p)"
    using ban_predict_balances(2) [OF assms(2) p] g by (simp add: ban_rout_def)
  moreover have "unat (nps_new_balance_in st') = unat (ban_bnt_balance q) + unat (nps_amount_out st)"
    using ban_predict_balances(1) [OF assms(3) q] g by (simp add: ban_rin_def)
  ultimately show ?thesis using p q g by simp
qed

theorem ban_multihop_conserves_bnt_witness:
  "\<exists>st st'. ban_predict_post_state_multihop (ban_sample 2) 2 1000 3 (ban_sample 3) = Ret (Some (st, st'))
    \<and> unat (nps_new_balance_out st) + unat (nps_new_balance_in st') = 4000000"
proof -
  let ?st = "\<lparr>nps_new_balance_in = 1001000, nps_new_balance_out = 1998048, nps_amount_out = 1952,
    nps_analytical = True\<rparr>"
  let ?st' = "\<lparr>nps_new_balance_in = 2001952, nps_new_balance_out = 999048, nps_amount_out = 952,
    nps_analytical = True\<rparr>"
  have p: "ban_predict_post_state_multihop (ban_sample 2) 2 1000 3 (ban_sample 3) = Ret (Some (?st, ?st'))"
    by code_simp
  from ban_multihop_conserves_bnt [OF p] p show ?thesis by (simp add: ban_ok_def ban_sample_def)
qed

text \<open>
  \<^verbatim>\<open>get_amount_in\<close> inverts the curve but not the 2\<open>%\<close> margin that \<^verbatim>\<open>get_amount_out\<close> deducts: the
  input quoted for 1000 units of BNT earns 979 of them.
\<close>
theorem ban_get_amount_in_short:
  "ban_get_amount_in (ban_sample 2) BNT_ADDRESS 1000 = Ret (Some 502)
   \<and> ban_get_amount_out (ban_sample 2) 2 502 = Ret (Some 979)"
  by code_simp

end
