(* ===== verification/Hash_Map.thy ===== *)
theory Hash_Map
  imports "HOL-Library.AList" Prelude
begin

text \<open>
  \<^verbatim>\<open>std::collections::HashMap\<close> (and \<^verbatim>\<open>DashMap\<close> accessed from one thread at a time): an association list
  whose order is one of the iteration orders the library may choose.  The locale \<open>std_map\<close> states
  what the components rely on; they use it through the interpretation \<open>hm\<close>.
\<close>

type_synonym ('k, 'v) hmap = "('k \<times> 'v) list"

definition hnew :: "('k, 'v) hmap" where
  "hnew = []"

definition hget :: "('k, 'v) hmap \<Rightarrow> 'k \<Rightarrow> 'v option" where
  "hget m k = map_of m k"

definition hinsert :: "'k \<Rightarrow> 'v \<Rightarrow> ('k, 'v) hmap \<Rightarrow> ('k, 'v) hmap" where
  "hinsert k v m = AList.update k v m"

definition hremove :: "'k \<Rightarrow> ('k, 'v) hmap \<Rightarrow> ('k, 'v) hmap" where
  "hremove k m = AList.delete k m"

definition hcontains :: "('k, 'v) hmap \<Rightarrow> 'k \<Rightarrow> bool" where
  "hcontains m k \<longleftrightarrow> hget m k \<noteq> None"

text \<open>\<^verbatim>\<open>keys\<close>, \<^verbatim>\<open>iter\<close>, \<^verbatim>\<open>len\<close>, and \<^verbatim>\<open>entry(k).or_insert(v)\<close> followed by an update.\<close>

definition hkeys :: "('k, 'v) hmap \<Rightarrow> 'k list" where
  "hkeys m = map fst m"

definition hlen :: "('k, 'v) hmap \<Rightarrow> nat" where
  "hlen m = length m"

definition hentry :: "'k \<Rightarrow> 'v \<Rightarrow> ('v \<Rightarrow> 'v) \<Rightarrow> ('k, 'v) hmap \<Rightarrow> ('k, 'v) hmap" where
  "hentry k dflt f m = hinsert k (f (case hget m k of None \<Rightarrow> dflt | Some v \<Rightarrow> v)) m"

text \<open>\<^verbatim>\<open>retain\<close>.\<close>

definition hretain :: "('k \<Rightarrow> 'v \<Rightarrow> bool) \<Rightarrow> ('k, 'v) hmap \<Rightarrow> ('k, 'v) hmap" where
  "hretain P m = filter (\<lambda>(k, v). P k v) m"

text \<open>\<^verbatim>\<open>iter_mut\<close>: every value updated in place.\<close>

definition hupdate :: "('v \<Rightarrow> 'v) \<Rightarrow> ('k, 'v) hmap \<Rightarrow> ('k, 'v) hmap" where
  "hupdate f m = map (\<lambda>(k, v). (k, f v)) m"

text \<open>Every key occurs once.\<close>

definition hmap_ok :: "('k, 'v) hmap \<Rightarrow> bool" where
  "hmap_ok m \<longleftrightarrow> distinct (map fst m)"

locale std_map =
  fixes new :: "'m"
    and get :: "'m \<Rightarrow> 'k \<Rightarrow> 'v option"
    and insert :: "'k \<Rightarrow> 'v \<Rightarrow> 'm \<Rightarrow> 'm"
    and remove :: "'k \<Rightarrow> 'm \<Rightarrow> 'm"
    and keys :: "'m \<Rightarrow> 'k list"
    and len :: "'m \<Rightarrow> nat"
    and ok :: "'m \<Rightarrow> bool"
  assumes get_new: "get new k = None"
    and get_insert: "get (insert k v m) k' = (if k' = k then Some v else get m k')"
    and get_remove: "get (remove k m) k' = (if k' = k then None else get m k')"
    and set_keys: "set (keys m) = {k. get m k \<noteq> None}"
    and len_keys: "len m = length (keys m)"
    and ok_new: "ok new"
    and ok_insert: "ok m \<Longrightarrow> ok (insert k v m)"
    and ok_remove: "ok m \<Longrightarrow> ok (remove k m)"
    and ok_keys: "ok m \<Longrightarrow> distinct (keys m)"
begin

lemma len_card: "ok m \<Longrightarrow> len m = card {k. get m k \<noteq> None}"
  using ok_keys len_keys set_keys by (metis distinct_card)

lemma finite_keys: "finite {k. get m k \<noteq> None}"
  using set_keys by (metis List.finite_set)

lemma keys_insert: "set (keys (insert k v m)) = Set.insert k (set (keys m))"
  by (auto simp: set_keys get_insert)

lemma keys_remove: "set (keys (remove k m)) = set (keys m) - {k}"
  by (auto simp: set_keys get_remove split: if_splits)

lemma len_within: "ok m \<Longrightarrow> set (keys m) \<subseteq> set xs \<Longrightarrow> len m \<le> length xs"
  unfolding len_keys using ok_keys by (metis List.finite_set card_length card_mono distinct_card order_trans)

lemma len_insert:
  assumes "ok m"
  shows "len (insert k v m) = (if get m k = None then len m + 1 else len m)"
proof -
  have eq: "{k'. get (insert k v m) k' \<noteq> None} = Set.insert k {k'. get m k' \<noteq> None}"
    by (auto simp: get_insert)
  show ?thesis
    unfolding len_card [OF assms] len_card [OF ok_insert [OF assms]] eq
    using finite_keys [of m] by (simp add: card_insert_if del: not_None_eq)
qed

lemma len_remove:
  assumes "ok m"
  shows "len (remove k m) = (if get m k = None then len m else len m - 1)"
proof -
  have eq: "{k'. get (remove k m) k' \<noteq> None} = {k'. get m k' \<noteq> None} - {k}"
    by (auto simp: get_remove)
  show ?thesis
    unfolding len_card [OF assms] len_card [OF ok_remove [OF assms]] eq
    using finite_keys [of m] by (simp add: card_Diff_singleton_if del: not_None_eq)
qed

text \<open>Removing the keys of a list one after the other.\<close>

lemma get_remove_all: "get (foldl (\<lambda>m k. remove k m) m ks) k = (if k \<in> set ks then None else get m k)"
  by (induction ks arbitrary: m) (auto simp: get_remove)

lemma ok_remove_all: "ok m \<Longrightarrow> ok (foldl (\<lambda>m k. remove k m) m ks)"
  by (induction ks arbitrary: m) (auto simp: ok_remove)

lemma len_remove_all:
  assumes "ok m" and "distinct ks" and "set ks \<subseteq> set (keys m)"
  shows "len (foldl (\<lambda>m k. remove k m) m ks) = len m - length ks"
proof -
  have "{k. get (foldl (\<lambda>m k. remove k m) m ks) k \<noteq> None} = {k. get m k \<noteq> None} - set ks"
    by (auto simp: get_remove_all)
  then show ?thesis
    unfolding len_card [OF assms(1)] len_card [OF ok_remove_all [OF assms(1)]]
    using assms(2,3) by (simp add: set_keys card_Diff_subset distinct_card)
qed

end

interpretation hm: std_map hnew hget hinsert hremove hkeys hlen hmap_ok
proof
  fix k k' :: 'k and v :: 'v and m :: "('k, 'v) hmap"
  show "hget hnew k = (None :: 'v option)" by (simp add: hget_def hnew_def)
  show "hget (hinsert k v m) k' = (if k' = k then Some v else hget m k')"
    by (simp add: hget_def hinsert_def update_conv')
  show "hget (hremove k m) k' = (if k' = k then None else hget m k')"
    by (simp add: hget_def hremove_def delete_conv')
  show "set (hkeys m) = {k. hget m k \<noteq> None}"
    by (simp add: hkeys_def hget_def map_of_eq_None_iff)
  show "hlen m = length (hkeys m)" by (simp add: hlen_def hkeys_def)
  show "hmap_ok (hnew :: ('k, 'v) hmap)" by (simp add: hmap_ok_def hnew_def)
  show "hmap_ok m \<Longrightarrow> hmap_ok (hinsert k v m)"
    unfolding hmap_ok_def hinsert_def by (rule distinct_update)
  show "hmap_ok m \<Longrightarrow> hmap_ok (hremove k m)"
    unfolding hmap_ok_def hremove_def by (rule distinct_delete)
  show "hmap_ok m \<Longrightarrow> distinct (hkeys m)" by (simp add: hmap_ok_def hkeys_def)
qed

declare hm.get_new [simp] hm.get_insert [simp] hm.get_remove [simp]

lemma hget_entry [simp]:
  "hget (hentry k dflt f m) k' =
     (if k' = k then Some (f (case hget m k of None \<Rightarrow> dflt | Some v \<Rightarrow> v)) else hget m k')"
  by (simp add: hentry_def)

lemma hcontains_iff: "hcontains m k \<longleftrightarrow> k \<in> set (hkeys m)"
  by (simp add: hcontains_def hm.set_keys)

lemma hmap_ok_mem: "hmap_ok m \<Longrightarrow> (k, v) \<in> set m \<longleftrightarrow> hget m k = Some v"
  by (simp add: hmap_ok_def hget_def)

lemma hget_mem: "hget m k = Some v \<Longrightarrow> (k, v) \<in> set m"
  by (simp add: hget_def map_of_SomeD)

lemma hmap_ok_retain: "hmap_ok m \<Longrightarrow> hmap_ok (hretain P m)"
  unfolding hmap_ok_def hretain_def by (rule distinct_map_filter)

lemma hget_retain:
  assumes "hmap_ok m"
  shows "hget (hretain P m) k = (case hget m k of Some v \<Rightarrow> if P k v then Some v else None | None \<Rightarrow> None)"
proof -
  have iff: "hget (hretain P m) k = Some v \<longleftrightarrow> hget m k = Some v \<and> P k v" for v
    using hmap_ok_mem [OF hmap_ok_retain [OF assms]] hmap_ok_mem [OF assms]
    by (auto simp: hretain_def)
  show ?thesis
  proof (cases "hget (hretain P m) k")
    case None
    then show ?thesis using iff by (simp split: option.split)
  next
    case (Some v)
    then show ?thesis using iff [of v] by simp
  qed
qed

lemma hkeys_update [simp]: "hkeys (hupdate f m) = hkeys m"
  by (simp add: hkeys_def hupdate_def comp_def case_prod_unfold)

lemma hlen_update [simp]: "hlen (hupdate f m) = hlen m"
  by (simp add: hlen_def hupdate_def)

lemma hmap_ok_update [simp]: "hmap_ok (hupdate f m) = hmap_ok m"
  by (simp add: hmap_ok_def hupdate_def comp_def case_prod_unfold)

lemma hget_update [simp]: "hget (hupdate f m) k = map_option f (hget m k)"
  by (simp add: hget_def hupdate_def map_of_map)

end
