(* ===== verification/Pools.thy ===== *)
theory Pools
  imports Uniswap_V2 Uniswap_V3 Curve_Pool Balancer Bancor Hash_Map
begin

text \<open>
  \<^verbatim>\<open>crates/pools/src/lib.rs\<close>: the trait object \<^verbatim>\<open>dyn Pool\<close> as the sum of its implementations, the cached
  \<^verbatim>\<open>PoolState\<close>, and the two post-state predictors that decide between the analytical answer and an
  EVM replay.  The metric callback is the list of reasons it was called with; the replay closure is
  an argument.
\<close>

datatype dyn_pool =
    DynUniswapV2 UniswapV2Pool
  | DynSushiSwap SushiSwapPool
  | DynUniswapV3 UniswapV3Pool
  | DynCurve CurvePool
  | DynBalancer BalancerPool
  | DynBalancerV3 BalancerV3Pool
  | DynBancor BancorPool

fun pool_protocol :: "dyn_pool \<Rightarrow> ProtocolType" where
  "pool_protocol (DynUniswapV2 p) = v2_protocol p"
| "pool_protocol (DynSushiSwap p) = sushi_protocol p"
| "pool_protocol (DynUniswapV3 p) = UniswapV3"
| "pool_protocol (DynCurve p) = Curve"
| "pool_protocol (DynBalancer p) = BalancerV2"
| "pool_protocol (DynBalancerV3 p) = BalancerV3"
| "pool_protocol (DynBancor p) = BancorV3"

fun pool_address :: "dyn_pool \<Rightarrow> address" where
  "pool_address (DynUniswapV2 p) = v2_address p"
| "pool_address (DynSushiSwap p) = v2_address (sushi_inner p)"
| "pool_address (DynUniswapV3 p) = v3_address p"
| "pool_address (DynCurve p) = curve_address p"
| "pool_address (DynBalancer p) = bal_address p"
| "pool_address (DynBalancerV3 p) = bal_address (bal3_inner p)"
| "pool_address (DynBancor p) = ban_address p"

fun pool_tokens :: "dyn_pool \<Rightarrow> address list" where
  "pool_tokens (DynUniswapV2 p) = v2_tokens p"
| "pool_tokens (DynSushiSwap p) = sushi_tokens p"
| "pool_tokens (DynUniswapV3 p) = v3_tokens p"
| "pool_tokens (DynCurve p) = curve_tokens p"
| "pool_tokens (DynBalancer p) = bal_tokens p"
| "pool_tokens (DynBalancerV3 p) = bal3_tokens p"
| "pool_tokens (DynBancor p) = ban_tokens p"

fun pool_get_amount_out :: "dyn_pool \<Rightarrow> address \<Rightarrow> u256 \<Rightarrow> u256 option exec" where
  "pool_get_amount_out (DynUniswapV2 p) t a = v2_get_amount_out p t a"
| "pool_get_amount_out (DynSushiSwap p) t a = sushi_get_amount_out p t a"
| "pool_get_amount_out (DynUniswapV3 p) t a = Ret (v3_get_amount_out p t a)"
| "pool_get_amount_out (DynCurve p) t a = curve_get_amount_out p t a"
| "pool_get_amount_out (DynBalancer p) t a = bal_get_amount_out p t a"
| "pool_get_amount_out (DynBalancerV3 p) t a = bal3_get_amount_out p t a"
| "pool_get_amount_out (DynBancor p) t a = ban_get_amount_out p t a"

fun pool_get_amount_in :: "dyn_pool \<Rightarrow> address \<Rightarrow> u256 \<Rightarrow> u256 option exec" where
  "pool_get_amount_in (DynUniswapV2 p) t a = v2_get_amount_in p t a"
| "pool_get_amount_in (DynSushiSwap p) t a = sushi_get_amount_in p t a"
| "pool_get_amount_in (DynUniswapV3 p) t a = Ret (v3_get_amount_in p t a)"
| "pool_get_amount_in (DynCurve p) t a = curve_get_amount_in p t a"
| "pool_get_amount_in (DynBalancer p) t a = bal_get_amount_in p t a"
| "pool_get_amount_in (DynBalancerV3 p) t a = bal3_get_amount_in p t a"
| "pool_get_amount_in (DynBancor p) t a = ban_get_amount_in p t a"

fun pool_update_state :: "dyn_pool \<Rightarrow> u256 \<Rightarrow> u256 \<Rightarrow> dyn_pool" where
  "pool_update_state (DynUniswapV2 p) r0 r1 = DynUniswapV2 (v2_update_state p r0 r1)"
| "pool_update_state (DynSushiSwap p) r0 r1 = DynSushiSwap (sushi_update_state p r0 r1)"
| "pool_update_state (DynUniswapV3 p) r0 r1 = DynUniswapV3 (v3_update_state p r0 r1)"
| "pool_update_state (DynCurve p) r0 r1 = DynCurve (curve_update_state p r0 r1)"
| "pool_update_state (DynBalancer p) r0 r1 = DynBalancer (bal_update_state p r0 r1)"
| "pool_update_state (DynBalancerV3 p) r0 r1 = DynBalancerV3 (bal3_update_state p r0 r1)"
| "pool_update_state (DynBancor p) r0 r1 = DynBancor (ban_update_state p r0 r1)"

fun pool_liquidity_depth :: "dyn_pool \<Rightarrow> u256" where
  "pool_liquidity_depth (DynUniswapV2 p) = v2_liquidity_depth p"
| "pool_liquidity_depth (DynSushiSwap p) = sushi_liquidity_depth p"
| "pool_liquidity_depth (DynUniswapV3 p) = v3_liquidity_depth p"
| "pool_liquidity_depth (DynCurve p) = curve_liquidity_depth p"
| "pool_liquidity_depth (DynBalancer p) = bal_liquidity_depth p"
| "pool_liquidity_depth (DynBalancerV3 p) = bal3_liquidity_depth p"
| "pool_liquidity_depth (DynBancor p) = ban_liquidity_depth p"

interpretation pool: pool_adapter pool_tokens pool_get_amount_out pool_get_amount_in
proof
  fix p t a
  show "pool_get_amount_out p t 0 = Ret None"
    by (cases p) (simp_all add: v2.out_zero sushi.out_zero v3.out_zero [simplified] curve.out_zero
        bal.out_zero bal3.out_zero ban.out_zero)
  show "pool_get_amount_in p t 0 = Ret None"
    by (cases p) (simp_all add: v2.in_zero sushi.in_zero v3.in_zero [simplified] curve.in_zero
        bal.in_zero bal3.in_zero ban.in_zero)
  show "pool_get_amount_out p t a = Ret None" if "t \<notin> set (pool_tokens p)"
    using that by (cases p) (simp_all add: v2.out_unknown sushi.out_unknown
        v3.out_unknown [simplified] curve.out_unknown bal.out_unknown bal3.out_unknown ban.out_unknown)
  show "pool_get_amount_in p t a = Ret None" if "t \<notin> set (pool_tokens p)"
    using that by (cases p) (simp_all add: v2.in_unknown sushi.in_unknown
        v3.in_unknown [simplified] curve.in_unknown bal.in_unknown bal3.in_unknown ban.in_unknown)
qed

text \<open>An update of the reserves changes neither the identity nor the tokens of a pool.\<close>

lemma pool_update_state_identity [simp]:
  "pool_address (pool_update_state p r0 r1) = pool_address p"
  "pool_protocol (pool_update_state p r0 r1) = pool_protocol p"
  "pool_tokens (pool_update_state p r0 r1) = pool_tokens p"
  by (cases p; simp add: v2_update_state_def sushi_update_state_def v3_update_state_def
      curve_update_state_def bal_update_state_def bal3_update_state_def ban_update_state_def
      v2_tokens_def sushi_tokens_def bal_tokens_def bal3_tokens_def ban_tokens_def
      v2_protocol_def sushi_protocol_def)+

section \<open>Cached pool state\<close>

datatype PoolState =
    PS_UniswapV2 UniswapV2Pool
  | PS_UniswapV3 UniswapV3Pool
  | PS_SushiSwap UniswapV2Pool
  | PS_Curve CurvePool
  | PS_Balancer BalancerPool
  | PS_BalancerV3 BalancerV3Pool
  | PS_Bancor BancorPool

fun ps_address :: "PoolState \<Rightarrow> address" where
  "ps_address (PS_UniswapV2 p) = v2_address p"
| "ps_address (PS_SushiSwap p) = v2_address p"
| "ps_address (PS_UniswapV3 p) = v3_address p"
| "ps_address (PS_Curve p) = curve_address p"
| "ps_address (PS_Balancer p) = bal_address p"
| "ps_address (PS_BalancerV3 p) = bal_address (bal3_inner p)"
| "ps_address (PS_Bancor p) = ban_address p"

fun ps_protocol :: "PoolState \<Rightarrow> ProtocolType" where
  "ps_protocol (PS_UniswapV2 _) = UniswapV2"
| "ps_protocol (PS_UniswapV3 _) = UniswapV3"
| "ps_protocol (PS_SushiSwap _) = SushiSwap"
| "ps_protocol (PS_Curve _) = Curve"
| "ps_protocol (PS_Balancer _) = BalancerV2"
| "ps_protocol (PS_BalancerV3 _) = BalancerV3"
| "ps_protocol (PS_Bancor _) = BancorV3"

type_synonym PoolStateCache = "(address, PoolState) hmap"

datatype UnifiedPostState =
    UP_UniswapV3 V3PostState
  | UP_Curve CurvePostState
  | UP_Balancer BalancerPostState
  | UP_Bancor BancorPostState

fun up_amount_out :: "UnifiedPostState \<Rightarrow> u256" where
  "up_amount_out (UP_UniswapV3 p) = v3p_amount_out p"
| "up_amount_out (UP_Curve p) = cps_amount_out p"
| "up_amount_out (UP_Balancer p) = bps_amount_out p"
| "up_amount_out (UP_Bancor p) = nps_amount_out p"

datatype ReplayProtocol = RP_UniswapV3 | RP_Curve | RP_Balancer | RP_Bancor

text \<open>\<^verbatim>\<open>let post = ...?\<close> in a function that also reports fallback reasons.\<close>

definition on_post ::
    "'a option exec \<Rightarrow> ('a \<Rightarrow> string list \<times> UnifiedPostState option) \<Rightarrow> (string list \<times> UnifiedPostState option) exec" where
  "on_post m f = emap (\<lambda>r. case r of None \<Rightarrow> ([], None) | Some post \<Rightarrow> f post) m"

fun predict_post_state_with_fallback ::
    "(f64 \<Rightarrow> f64) \<Rightarrow> PoolState \<Rightarrow> address \<Rightarrow> u256 \<Rightarrow> (string list \<times> UnifiedPostState option) exec" where
  "predict_post_state_with_fallback lnf (PS_UniswapV3 p) t a =
     on_post (Ret (predict_post_state lnf p t a)) (\<lambda>post.
       if \<not> v3p_single_tick post then ([''v3_tick_crossed''], None) else ([], Some (UP_UniswapV3 post)))"
| "predict_post_state_with_fallback lnf (PS_Curve p) t a =
     on_post (curve_predict_post_state p t a) (\<lambda>post. ([], Some (UP_Curve post)))"
| "predict_post_state_with_fallback lnf (PS_Balancer p) t a =
     on_post (bal_predict_post_state p t a) (\<lambda>post.
       if \<not> bps_analytical post then ([''balancer_unequal_weight''], None) else ([], Some (UP_Balancer post)))"
| "predict_post_state_with_fallback lnf (PS_BalancerV3 p) t a =
     on_post (bal3_predict_post_state p t a) (\<lambda>post.
       if \<not> bps_analytical post then ([''balancer_unequal_weight''], None) else ([], Some (UP_Balancer post)))"
| "predict_post_state_with_fallback lnf (PS_Bancor p) t a =
     on_post (ban_predict_post_state p t a) (\<lambda>post. ([], Some (UP_Bancor post)))"
| "predict_post_state_with_fallback lnf (PS_UniswapV2 p) t a = Ret ([''unknown_protocol''], None)"
| "predict_post_state_with_fallback lnf (PS_SushiSwap p) t a = Ret ([''unknown_protocol''], None)"

fun predict_post_state_with_replay ::
    "(f64 \<Rightarrow> f64) \<Rightarrow> PoolState \<Rightarrow> address \<Rightarrow> u256 \<Rightarrow> (ReplayProtocol \<Rightarrow> UnifiedPostState option)
      \<Rightarrow> (string list \<times> UnifiedPostState option) exec" where
  "predict_post_state_with_replay lnf (PS_UniswapV3 p) t a replay =
     on_post (Ret (predict_post_state lnf p t a)) (\<lambda>post.
       if \<not> v3p_single_tick post then ([''v3_tick_crossed''], replay RP_UniswapV3)
       else ([], Some (UP_UniswapV3 post)))"
| "predict_post_state_with_replay lnf (PS_Curve p) t a replay =
     on_post (curve_predict_post_state p t a) (\<lambda>post. ([], Some (UP_Curve post)))"
| "predict_post_state_with_replay lnf (PS_Balancer p) t a replay =
     on_post (bal_predict_post_state p t a) (\<lambda>post.
       if \<not> bps_analytical post then ([''balancer_unequal_weight''], replay RP_Balancer)
       else ([], Some (UP_Balancer post)))"
| "predict_post_state_with_replay lnf (PS_BalancerV3 p) t a replay =
     on_post (bal3_predict_post_state p t a) (\<lambda>post.
       if \<not> bps_analytical post then ([''balancer_unequal_weight''], replay RP_Balancer)
       else ([], Some (UP_Balancer post)))"
| "predict_post_state_with_replay lnf (PS_Bancor p) t a replay =
     on_post (ban_predict_post_state p t a) (\<lambda>post. ([], Some (UP_Bancor post)))"
| "predict_post_state_with_replay lnf (PS_UniswapV2 p) t a replay = Ret ([''unknown_protocol''], None)"
| "predict_post_state_with_replay lnf (PS_SushiSwap p) t a replay = Ret ([''unknown_protocol''], None)"

section \<open>Properties\<close>

text \<open>The confidence flag of a post-state.\<close>

fun up_trusted :: "UnifiedPostState \<Rightarrow> bool" where
  "up_trusted (UP_UniswapV3 p) = v3p_single_tick p"
| "up_trusted (UP_Curve p) = cps_analytical p"
| "up_trusted (UP_Balancer p) = bps_analytical p"
| "up_trusted (UP_Bancor p) = nps_analytical p"

lemma on_post_Ret:
  "on_post m f = Ret r \<longleftrightarrow> (\<exists>x. m = Ret x \<and> r = (case x of None \<Rightarrow> ([], None) | Some post \<Rightarrow> f post))"
  by (auto simp: on_post_def emap_Ret_iff)

lemma curve_predict_analytical:
  "curve_predict_post_state p t a = Ret (Some st) \<Longrightarrow> cps_analytical st"
  by (auto simp: curve_predict_post_state_def Let_def exec_simps split: if_splits option.splits)

lemma ban_predict_analytical:
  "ban_predict_post_state p t a = Ret (Some st) \<Longrightarrow> nps_analytical st"
  by (auto simp: ban_predict_post_state_def Let_def exec_simps split: if_splits)

text \<open>
  A post-state reaches the graph only when it can be trusted or was replayed: with no fallback
  reason the answer carries a set confidence flag and does not depend on the replay; otherwise
  exactly one reason was reported and any answer is the replay's, never the low-confidence
  analytical estimate.
\<close>
theorem predict_replay_contract:
  assumes "predict_post_state_with_replay lnf s t a replay = Ret (reasons, r)"
  shows "(reasons = [] \<and> (\<forall>u. r = Some u \<longrightarrow> up_trusted u)
       \<and> (\<forall>replay'. predict_post_state_with_replay lnf s t a replay' = Ret ([], r)))
    \<or> (\<exists>why. reasons = [why] \<and> (r = None \<or> (\<exists>q. r = replay q)))"
  using assms
  by (cases s) (auto simp: on_post_Ret curve_predict_analytical ban_predict_analytical
      split: option.splits if_splits)

theorem predict_replay_contract_witness:
  "predict_post_state_with_replay (\<lambda>_. Num 0) (PS_Bancor (ban_sample 2)) 2 1000 (\<lambda>_. None) =
     Ret ([], Some (UP_Bancor \<lparr>nps_new_balance_in = 1001000, nps_new_balance_out = 1998048,
       nps_amount_out = 1952, nps_analytical = True\<rparr>)) \<and>
   (\<forall>replay. predict_post_state_with_replay (\<lambda>_. Num 0) (PS_Bancor (ban_sample 2)) 2 1000 replay =
     Ret ([], Some (UP_Bancor \<lparr>nps_new_balance_in = 1001000, nps_new_balance_out = 1998048,
       nps_amount_out = 1952, nps_analytical = True\<rparr>)))"
proof -
  have p: "predict_post_state_with_replay (\<lambda>_. Num 0) (PS_Bancor (ban_sample 2)) 2 1000 (\<lambda>_. None) =
     Ret ([], Some (UP_Bancor \<lparr>nps_new_balance_in = 1001000, nps_new_balance_out = 1998048,
       nps_amount_out = 1952, nps_analytical = True\<rparr>))"
    by code_simp
  from predict_replay_contract [OF p] p show ?thesis by blast
qed

text \<open>
  The dormant predictor is the replaying one with a replay that never answers.
\<close>
theorem predict_fallback_is_dormant_replay:
  "predict_post_state_with_fallback lnf s t a = predict_post_state_with_replay lnf s t a (\<lambda>_. None)"
  by (cases s) simp_all

end
