(* ===== verification/Registry.thy ===== *)
theory Registry
  imports Pools
begin

text \<open>
  \<^verbatim>\<open>crates/pools/src/registry.rs\<close>: the pool registry with its pair index and monitoring tiers.
  \<^verbatim>\<open>get_mut\<close> hands out a mutable reference; the mutation the engine performs through it is
  \<^verbatim>\<open>update_state\<close>.
\<close>

record QualificationCriteria =
  qc_min_liquidity_usd :: f64
  qc_min_volume_24h_usd :: f64
  qc_min_age_blocks :: u64
  qc_max_rug_score :: f64

definition criteria_default :: QualificationCriteria where
  "criteria_default = \<lparr>qc_min_liquidity_usd = Num 10000, qc_min_volume_24h_usd = Num 1000,
     qc_min_age_blocks = 100, qc_max_rug_score = f64_of_rat (3 / 10)\<rparr>"

record PoolRegistry =
  reg_pools :: "(PoolId, dyn_pool) hmap"
  reg_pair_index :: "(address \<times> address, PoolId list) hmap"
  reg_tiers :: "(PoolId, PoolTier) hmap"
  reg_criteria :: QualificationCriteria

definition registry_new :: "QualificationCriteria \<Rightarrow> PoolRegistry" where
  "registry_new criteria =
     \<lparr>reg_pools = hnew, reg_pair_index = hnew, reg_tiers = hnew, reg_criteria = criteria\<rparr>"

definition with_defaults :: PoolRegistry where
  "with_defaults = registry_new criteria_default"

definition pool_id :: "dyn_pool \<Rightarrow> PoolId" where
  "pool_id p = \<lparr>pid_address = pool_address p, pid_protocol = pool_protocol p\<rparr>"

text \<open>The pairs visited by the double loop \<^verbatim>\<open>for i .. for j in (i + 1)..\<close>.\<close>

fun token_pairs :: "address list \<Rightarrow> (address \<times> address) list" where
  "token_pairs [] = []"
| "token_pairs (t # ts) = map (Pair t) ts @ token_pairs ts"

definition index_push :: "PoolId \<Rightarrow> (address \<times> address) \<Rightarrow> (address \<times> address, PoolId list) hmap
    \<Rightarrow> (address \<times> address, PoolId list) hmap" where
  "index_push i pair m = (case pair of (x, y) \<Rightarrow>
     hentry (y, x) [] (\<lambda>ids. ids @ [i]) (hentry (x, y) [] (\<lambda>ids. ids @ [i]) m))"

definition register :: "PoolRegistry \<Rightarrow> dyn_pool \<Rightarrow> PoolTier \<Rightarrow> PoolRegistry" where
  "register r pool tier =
     (let i = pool_id pool
      in r\<lparr>reg_pair_index := fold (index_push i) (token_pairs (pool_tokens pool)) (reg_pair_index r),
           reg_tiers := hinsert i tier (reg_tiers r),
           reg_pools := hinsert i pool (reg_pools r)\<rparr>)"

definition reg_get :: "PoolRegistry \<Rightarrow> PoolId \<Rightarrow> dyn_pool option" where
  "reg_get r i = hget (reg_pools r) i"

definition reg_update :: "PoolRegistry \<Rightarrow> PoolId \<Rightarrow> u256 \<Rightarrow> u256 \<Rightarrow> PoolRegistry" where
  "reg_update r i r0 r1 =
     (case hget (reg_pools r) i of
        None \<Rightarrow> r
      | Some p \<Rightarrow> r\<lparr>reg_pools := hinsert i (pool_update_state p r0 r1) (reg_pools r)\<rparr>)"

definition pools_for_pair :: "PoolRegistry \<Rightarrow> address \<Rightarrow> address \<Rightarrow> dyn_pool list" where
  "pools_for_pair r token_a token_b =
     (case hget (reg_pair_index r) (token_a, token_b) of
        None \<Rightarrow> []
      | Some ids \<Rightarrow> List.map_filter (hget (reg_pools r)) ids)"

definition all_pool_ids :: "PoolRegistry \<Rightarrow> PoolId list" where
  "all_pool_ids r = hkeys (reg_pools r)"

definition pool_count :: "PoolRegistry \<Rightarrow> nat" where
  "pool_count r = hlen (reg_pools r)"

definition reg_tier :: "PoolRegistry \<Rightarrow> PoolId \<Rightarrow> PoolTier option" where
  "reg_tier r i = hget (reg_tiers r) i"

definition hot_pools :: "PoolRegistry \<Rightarrow> PoolId list" where
  "hot_pools r = map fst (filter (\<lambda>(_, t). t = Hot) (reg_tiers r))"

definition qualifies :: "PoolRegistry \<Rightarrow> f64 \<Rightarrow> f64 \<Rightarrow> u64 \<Rightarrow> f64 \<Rightarrow> bool" where
  "qualifies r liquidity_usd volume_24h_usd age_blocks rug_score \<longleftrightarrow>
     f64_le (qc_min_liquidity_usd (reg_criteria r)) liquidity_usd
     \<and> f64_le (qc_min_volume_24h_usd (reg_criteria r)) volume_24h_usd
     \<and> qc_min_age_blocks (reg_criteria r) \<le> age_blocks
     \<and> f64_le rug_score (qc_max_rug_score (reg_criteria r))"

text \<open>\<^verbatim>\<open>if let Some(ids) = get_mut(..) { ids.retain(..) }\<close> for both orders of a pair.\<close>

definition index_drop1 :: "PoolId \<Rightarrow> (address \<times> address) \<Rightarrow> (address \<times> address, PoolId list) hmap
    \<Rightarrow> (address \<times> address, PoolId list) hmap" where
  "index_drop1 i k m =
     (case hget m k of None \<Rightarrow> m | Some ids \<Rightarrow> hinsert k (filter (\<lambda>pid. pid \<noteq> i) ids) m)"

definition index_drop :: "PoolId \<Rightarrow> (address \<times> address) \<Rightarrow> (address \<times> address, PoolId list) hmap
    \<Rightarrow> (address \<times> address, PoolId list) hmap" where
  "index_drop i pair m = (case pair of (x, y) \<Rightarrow> index_drop1 i (y, x) (index_drop1 i (x, y) m))"

definition reg_remove :: "PoolRegistry \<Rightarrow> PoolId \<Rightarrow> dyn_pool option \<times> PoolRegistry" where
  "reg_remove r i =
     (let r1 = r\<lparr>reg_tiers := hremove i (reg_tiers r)\<rparr>
      in case hget (reg_pools r1) i of
           None \<Rightarrow> (None, r1)
         | Some pool \<Rightarrow>
             (Some pool,
              r1\<lparr>reg_pools := hremove i (reg_pools r1),
                 reg_pair_index := fold (index_drop i) (token_pairs (pool_tokens pool)) (reg_pair_index r1)\<rparr>))"

section \<open>The pair index\<close>

definition ids_at :: "(address \<times> address, PoolId list) hmap \<Rightarrow> address \<times> address \<Rightarrow> PoolId list" where
  "ids_at m k = (case hget m k of None \<Rightarrow> [] | Some ids \<Rightarrow> ids)"

text \<open>The pairs a token list trades, in both directions.\<close>

definition trades :: "address list \<Rightarrow> address \<times> address \<Rightarrow> bool" where
  "trades ts k \<longleftrightarrow> k \<in> set (token_pairs ts) \<or> (snd k, fst k) \<in> set (token_pairs ts)"

lemma ids_at_entry:
  "ids_at (hentry k' [] (\<lambda>ids. ids @ [i]) m) k = (if k = k' then ids_at m k @ [i] else ids_at m k)"
  by (simp add: ids_at_def split: option.split)

lemma mem_ids_at_push:
  "j \<in> set (ids_at (index_push i pair m) k) \<longleftrightarrow>
     j \<in> set (ids_at m k) \<or> j = i \<and> (k = pair \<or> (snd k, fst k) = pair)"
proof -
  obtain x y u v where p: "pair = (x, y)" "k = (u, v)" by (cases pair; cases k)
  show ?thesis unfolding p index_push_def
    by (simp only: prod.case ids_at_entry prod.inject fst_conv snd_conv)
      (cases "u = x"; cases "v = y"; cases "u = y"; cases "v = x"; auto)
qed

lemma mem_ids_at_pushes:
  "j \<in> set (ids_at (fold (index_push i) pairs m) k) \<longleftrightarrow>
     j \<in> set (ids_at m k) \<or> j = i \<and> (k \<in> set pairs \<or> (snd k, fst k) \<in> set pairs)"
  by (induction pairs arbitrary: m) (simp_all add: mem_ids_at_push, blast)

lemma ids_at_drop1:
  "ids_at (index_drop1 i k' m) k = (if k = k' then filter (\<lambda>j. j \<noteq> i) (ids_at m k) else ids_at m k)"
  by (cases "hget m k'") (auto simp: index_drop1_def ids_at_def)

lemma mem_ids_at_drop:
  "j \<in> set (ids_at (index_drop i pair m) k) \<longleftrightarrow>
     j \<in> set (ids_at m k) \<and> \<not> (j = i \<and> (k = pair \<or> (snd k, fst k) = pair))"
proof -
  obtain x y u v where p: "pair = (x, y)" "k = (u, v)" by (cases pair; cases k)
  show ?thesis unfolding p index_drop_def
    by (simp only: prod.case ids_at_drop1 prod.inject fst_conv snd_conv)
      (cases "u = x"; cases "v = y"; cases "u = y"; cases "v = x"; auto)
qed

lemma mem_ids_at_drops:
  "j \<in> set (ids_at (fold (index_drop i) pairs m) k) \<longleftrightarrow>
     j \<in> set (ids_at m k) \<and> \<not> (j = i \<and> (k \<in> set pairs \<or> (snd k, fst k) \<in> set pairs))"
  by (induction pairs arbitrary: m) (simp_all add: mem_ids_at_drop, blast)

section \<open>Invariant\<close>

text \<open>
  Every pool is filed under its own id with a tier, and the pair index lists exactly the pools
  that trade each pair.
\<close>

definition reg_inv :: "PoolRegistry \<Rightarrow> bool" where
  "reg_inv r \<longleftrightarrow>
     hmap_ok (reg_pools r)
     \<and> (\<forall>i. hget (reg_tiers r) i = None \<longleftrightarrow> hget (reg_pools r) i = None)
     \<and> (\<forall>i p. hget (reg_pools r) i = Some p \<longrightarrow> pool_id p = i)
     \<and> (\<forall>k i. i \<in> set (ids_at (reg_pair_index r) k) \<longleftrightarrow>
          (\<exists>p. hget (reg_pools r) i = Some p \<and> trades (pool_tokens p) k))"

lemma reg_inv_new: "reg_inv (registry_new c)"
  by (simp add: reg_inv_def registry_new_def ids_at_def hm.ok_new)

lemma reg_inv_register:
  assumes "reg_inv r" and "hget (reg_pools r) (pool_id p) = None"
  shows "reg_inv (register r p tier)"
  using assms unfolding reg_inv_def
  by (auto simp: register_def Let_def mem_ids_at_pushes trades_def [symmetric] hm.ok_insert
      split: if_splits)

lemma reg_inv_update: "reg_inv r \<Longrightarrow> reg_inv (reg_update r i r0 r1)"
  unfolding reg_inv_def
  by (auto simp: reg_update_def pool_id_def hm.ok_insert split: option.splits if_splits)

lemma reg_inv_remove: "reg_inv r \<Longrightarrow> reg_inv (snd (reg_remove r i))"
  unfolding reg_inv_def
  by (auto simp: reg_remove_def Let_def mem_ids_at_drops trades_def hm.ok_remove
      split: option.splits if_splits)

text \<open>The operations the engine performs; a pool is registered at most once at a time.\<close>

inductive reg_reach :: "QualificationCriteria \<Rightarrow> PoolRegistry \<Rightarrow> bool" for c where
  new: "reg_reach c (registry_new c)"
| register: "reg_reach c r \<Longrightarrow> hget (reg_pools r) (pool_id p) = None \<Longrightarrow> reg_reach c (register r p tier)"
| update: "reg_reach c r \<Longrightarrow> reg_reach c (reg_update r i r0 r1)"
| remove: "reg_reach c r \<Longrightarrow> reg_reach c (snd (reg_remove r i))"

lemma reg_reach_inv: "reg_reach c r \<Longrightarrow> reg_inv r"
  by (induction rule: reg_reach.induct)
    (auto intro: reg_inv_new reg_inv_register reg_inv_update reg_inv_remove)

lemma set_pools_for_pair:
  "set (pools_for_pair r x y) = {p. \<exists>i \<in> set (ids_at (reg_pair_index r) (x, y)). hget (reg_pools r) i = Some p}"
  by (auto simp: pools_for_pair_def ids_at_def List.map_filter_def split: option.splits)
    (force split: option.splits)+

section \<open>Properties\<close>

text \<open>
  C13: in every registry reached by registering new pools, updating reserves and removing pools,
  \<^verbatim>\<open>pools_for_pair\<close> returns exactly the registered pools that trade the pair, whichever way round it is
  asked, and a pool has a monitoring tier exactly while it is registered.
\<close>
theorem pools_for_pair_exact:
  assumes "reg_reach c r"
  shows "(p \<in> set (pools_for_pair r x y) \<longleftrightarrow> reg_get r (pool_id p) = Some p \<and> trades (pool_tokens p) (x, y))
    \<and> set (pools_for_pair r x y) = set (pools_for_pair r y x)
    \<and> (reg_tier r i = None \<longleftrightarrow> reg_get r i = None)"
proof -
  have inv: "reg_inv r" by (rule reg_reach_inv [OF assms])
  have own: "hget (reg_pools r) i = Some q \<Longrightarrow> pool_id q = i"
    and mem: "i \<in> set (ids_at (reg_pair_index r) k) \<longleftrightarrow>
      (\<exists>p. hget (reg_pools r) i = Some p \<and> trades (pool_tokens p) k)" for i q k
    using inv unfolding reg_inv_def by metis+
  have iff: "q \<in> set (pools_for_pair r u v) \<longleftrightarrow> reg_get r (pool_id q) = Some q \<and> trades (pool_tokens q) (u, v)" for q u v
    unfolding set_pools_for_pair reg_get_def mem_Collect_eq Bex_def mem
    using own by (metis option.inject)
  have "trades ts (x, y) \<longleftrightarrow> trades ts (y, x)" for ts by (simp add: trades_def disj_commute)
  with iff have "set (pools_for_pair r x y) = set (pools_for_pair r y x)" by blast
  with iff inv show ?thesis unfolding reg_inv_def reg_tier_def reg_get_def by metis
qed

theorem pools_for_pair_exact_witness:
  "DynUniswapV2 v2_sample \<in> set (pools_for_pair (register with_defaults (DynUniswapV2 v2_sample) Hot) 3 2)"
proof -
  have "reg_reach criteria_default (register with_defaults (DynUniswapV2 v2_sample) Hot)"
    unfolding with_defaults_def by (rule reg_reach.register [OF reg_reach.new]) (simp add: registry_new_def)
  moreover have "reg_get (register with_defaults (DynUniswapV2 v2_sample) Hot) (pool_id (DynUniswapV2 v2_sample))
      = Some (DynUniswapV2 v2_sample)"
    by (simp add: register_def reg_get_def Let_def)
  moreover have "trades (pool_tokens (DynUniswapV2 v2_sample)) (3, 2)" by code_simp
  ultimately show ?thesis using pools_for_pair_exact by blast
qed

text \<open>
  Registering a pool that is already present appends its id to the pair index again, so
  \<^verbatim>\<open>pools_for_pair\<close> then returns the same pool twice.
\<close>
theorem register_twice_duplicates:
  "pools_for_pair (register (register with_defaults (DynUniswapV2 v2_sample) Hot)
       (DynUniswapV2 v2_sample) Hot) 2 3 = [DynUniswapV2 v2_sample, DynUniswapV2 v2_sample]"
proof -
  have "token_pairs (pool_tokens (DynUniswapV2 v2_sample)) = [(2, 3)]" by code_simp
  then show ?thesis
    by (simp add: pools_for_pair_def register_def with_defaults_def registry_new_def index_push_def
        Let_def List.map_filter_simps)
qed

end
