(* ===== verification/Token_Index.thy ===== *)
theory Token_Index
  imports Hash_Map Common_Types
begin

text \<open>
  \<^verbatim>\<open>crates/state/src/token_index.rs\<close>: the bijection between token addresses and graph vertices.
\<close>

record TokenIndex =
  addr_to_idx :: "(address, nat) hmap"
  idx_to_addr :: "address list"

definition ti_new :: TokenIndex where
  "ti_new = \<lparr>addr_to_idx = hnew, idx_to_addr = []\<rparr>"

definition get_or_insert :: "TokenIndex \<Rightarrow> address \<Rightarrow> nat \<times> TokenIndex" where
  "get_or_insert ti addr =
     (case hget (addr_to_idx ti) addr of
        Some idx \<Rightarrow> (idx, ti)
      | None \<Rightarrow>
          let idx = length (idx_to_addr ti)
          in (idx, ti\<lparr>addr_to_idx := hinsert addr idx (addr_to_idx ti),
                      idx_to_addr := idx_to_addr ti @ [addr]\<rparr>))"

definition get_index :: "TokenIndex \<Rightarrow> address \<Rightarrow> nat option" where
  "get_index ti addr = hget (addr_to_idx ti) addr"

definition get_address :: "TokenIndex \<Rightarrow> nat \<Rightarrow> address option" where
  "get_address ti i = list_get (idx_to_addr ti) i"

definition ti_len :: "TokenIndex \<Rightarrow> nat" where
  "ti_len ti = length (idx_to_addr ti)"

definition ti_is_empty :: "TokenIndex \<Rightarrow> bool" where
  "ti_is_empty ti \<longleftrightarrow> idx_to_addr ti = []"

definition all_addresses :: "TokenIndex \<Rightarrow> address list" where
  "all_addresses ti = idx_to_addr ti"

definition ti_contains :: "TokenIndex \<Rightarrow> address \<Rightarrow> bool" where
  "ti_contains ti addr = hcontains (addr_to_idx ti) addr"

definition ti_inv :: "TokenIndex \<Rightarrow> bool" where
  "ti_inv ti \<longleftrightarrow> distinct (idx_to_addr ti)
     \<and> (\<forall>addr i. get_index ti addr = Some i \<longleftrightarrow> get_address ti i = Some addr)"

lemma ti_inv_new: "ti_inv ti_new"
  by (simp add: ti_inv_def ti_new_def get_index_def get_address_def list_get_def)

lemma get_or_insert_known:
  "get_index ti addr = Some i \<Longrightarrow> get_or_insert ti addr = (i, ti)"
  by (simp add: get_or_insert_def get_index_def)

lemma get_or_insert_fresh:
  "get_index ti addr = None \<Longrightarrow> get_or_insert ti addr =
     (ti_len ti, ti\<lparr>addr_to_idx := hinsert addr (ti_len ti) (addr_to_idx ti),
                    idx_to_addr := idx_to_addr ti @ [addr]\<rparr>)"
  by (simp add: get_or_insert_def get_index_def ti_len_def Let_def)

lemma ti_inv_insert:
  assumes "ti_inv ti"
  shows "ti_inv (snd (get_or_insert ti addr))"
proof (cases "get_index ti addr")
  case None
  have iff: "hget (addr_to_idx ti) b = Some i \<longleftrightarrow> i < length (idx_to_addr ti) \<and> idx_to_addr ti ! i = b" for b i
    using assms by (auto simp: ti_inv_def get_index_def get_address_def list_get_Some_iff)
  have fresh: "addr \<notin> set (idx_to_addr ti)"
  proof
    assume "addr \<in> set (idx_to_addr ti)"
    then obtain i where "i < length (idx_to_addr ti)" "idx_to_addr ti ! i = addr"
      by (auto simp: in_set_conv_nth)
    with iff [of addr i] None show False by (simp add: get_index_def)
  qed
  show ?thesis
    using assms fresh iff unfolding get_or_insert_fresh [OF None] ti_inv_def
    by (auto simp: get_index_def get_address_def list_get_Some_iff nth_append ti_len_def
        less_Suc_eq split: if_splits)
qed (simp add: get_or_insert_known assms)

fun insert_all :: "TokenIndex \<Rightarrow> address list \<Rightarrow> TokenIndex" where
  "insert_all ti [] = ti"
| "insert_all ti (a # as) = insert_all (snd (get_or_insert ti a)) as"

lemma insert_all_inv: "ti_inv ti \<Longrightarrow> ti_inv (insert_all ti as)"
  by (induction as arbitrary: ti) (simp_all add: ti_inv_insert)

lemma get_or_insert_stable:
  assumes "get_address ti i = Some b"
  shows "get_address (snd (get_or_insert ti a)) i = Some b"
  using assms by (cases "get_index ti a")
    (auto simp: get_or_insert_known get_or_insert_fresh get_address_def list_get_Some_iff nth_append)

lemma insert_all_stable: "get_address ti i = Some b \<Longrightarrow> get_address (insert_all ti as) i = Some b"
  by (induction as arbitrary: ti) (simp_all add: get_or_insert_stable)

lemma get_or_insert_returns:
  assumes "ti_inv ti"
  shows "get_address (snd (get_or_insert ti a)) (fst (get_or_insert ti a)) = Some a"
proof (cases "get_index ti a")
  case None
  then show ?thesis by (simp add: get_or_insert_fresh get_address_def list_get_def ti_len_def)
next
  case (Some i)
  then show ?thesis using assms by (simp add: get_or_insert_known ti_inv_def)
qed

text \<open>
  C26: the token index is a stable bijection: whatever tokens were inserted before, the vertex
  returned for a token resolves back to it, the token resolves to that vertex, and both stay so
  after any further insertions.
\<close>
theorem token_index_stable_bijection:
  assumes "ti = insert_all ti_new as" and "get_or_insert ti a = (i, ti')"
  shows "i < ti_len ti' \<and> get_address (insert_all ti' bs) i = Some a \<and> get_index (insert_all ti' bs) a = Some i
    \<and> (\<forall>b j. get_index (insert_all ti' bs) b = Some j \<longleftrightarrow> get_address (insert_all ti' bs) j = Some b)"
proof -
  have inv: "ti_inv ti" using assms(1) insert_all_inv [OF ti_inv_new] by simp
  have ret: "get_address ti' i = Some a" using get_or_insert_returns [OF inv, of a] assms(2) by simp
  have inv': "ti_inv (insert_all ti' bs)"
    using ti_inv_insert [OF inv, of a] assms(2) by (simp add: insert_all_inv)
  have "get_address (insert_all ti' bs) i = Some a" by (rule insert_all_stable [OF ret])
  with inv' ret show ?thesis
    unfolding ti_inv_def by (simp add: ti_len_def get_address_def list_get_Some_iff)
qed

theorem token_index_stable_bijection_witness:
  "get_or_insert (insert_all ti_new [5, 7]) 9 = (2, insert_all ti_new [5, 7, 9])
   \<and> get_index (insert_all (insert_all ti_new [5, 7, 9]) [5, 11]) 9 = Some 2"
proof -
  have eq: "get_or_insert (insert_all ti_new [5, 7]) 9 = (2, insert_all ti_new [5, 7, 9])" by code_simp
  from token_index_stable_bijection [OF refl this, of "[5, 11]"] eq show ?thesis by blast
qed

end
