(* ===== verification/Price_Graph.thy ===== *)
theory Price_Graph
  imports F64 Hash_Map Common_Types
begin

text \<open>
  \<^verbatim>\<open>crates/state/src/price_graph.rs\<close>: the price graph with its three mirrored edge stores (adjacency
  lists, flat list, key index) and the dirty flags.  Indexing is explicit, so a store that fell out
  of step would show as a panic.  \<open>lnf\<close> and \<open>pow10\<close> stand for \<^verbatim>\<open>f64::ln\<close> and \<^verbatim>\<open>10f64.powi\<close>.
\<close>

definition DEFAULT_TOKEN_DECIMALS :: u8 where
  "DEFAULT_TOKEN_DECIMALS = 18"

record PriceEdge =
  pe_from :: nat
  pe_to :: nat
  pe_weight :: f64
  pe_pool_id :: PoolId
  pe_pool_address :: address
  pe_protocol :: ProtocolType
  pe_liquidity :: u256
  pe_reserve_in :: f64
  pe_reserve_out :: f64
  pe_filtered :: bool

type_synonym edge_key = "nat \<times> nat \<times> PoolId"

record PriceGraph =
  pg_num_vertices :: nat
  pg_edges :: "PriceEdge list list"
  pg_all_edges :: "PriceEdge list"
  pg_edge_index :: "(edge_key, nat) hmap"
  pg_dirty :: "bool list"
  pg_token_decimals :: "u8 list"
  pg_weth_vertex :: "nat option"
  pg_min_liquidity_weth :: f64

definition pg_new :: "nat \<Rightarrow> PriceGraph" where
  "pg_new n = \<lparr>pg_num_vertices = n, pg_edges = replicate n [], pg_all_edges = [], pg_edge_index = hnew,
     pg_dirty = [], pg_token_decimals = replicate n DEFAULT_TOKEN_DECIMALS, pg_weth_vertex = None,
     pg_min_liquidity_weth = Num 0\<rparr>"

text \<open>\<^verbatim>\<open>iter_mut().find(P)\<close> followed by assignments to the element found.\<close>

fun find_update :: "('a \<Rightarrow> bool) \<Rightarrow> ('a \<Rightarrow> 'a) \<Rightarrow> 'a list \<Rightarrow> 'a list option" where
  "find_update P f [] = None"
| "find_update P f (x # xs) = (if P x then Some (f x # xs) else map_option (Cons x) (find_update P f xs))"

text \<open>
  The update-in-place branch shared by \<^verbatim>\<open>add_edge\<close>, \<^verbatim>\<open>update_edge_from_reserves\<close> and
  \<^verbatim>\<open>set_edge_filtered\<close>: assign in the adjacency list, then mirror into the flat list through the
  index and set the dirty flag; \<open>None\<close> when no edge matches.
\<close>

definition mirror_edge ::
    "PriceGraph \<Rightarrow> nat \<Rightarrow> nat \<Rightarrow> PoolId \<Rightarrow> (PriceEdge \<Rightarrow> PriceEdge) \<Rightarrow> PriceGraph option exec" where
  "mirror_edge g src dst i f =
     ebind (index (pg_edges g) src) (\<lambda>adj.
       case find_update (\<lambda>e. pe_to e = dst \<and> pe_pool_id e = i) f adj of
         None \<Rightarrow> Ret None
       | Some adj' \<Rightarrow>
           (case hget (pg_edge_index g) (src, dst, i) of
              None \<Rightarrow> Panic MissingKey
            | Some idx \<Rightarrow>
                ebind (index (pg_all_edges g) idx) (\<lambda>e.
                ebind (index (pg_dirty g) idx) (\<lambda>_.
                  Ret (Some (g\<lparr>pg_edges := (pg_edges g)[src := adj'],
                               pg_all_edges := (pg_all_edges g)[idx := f e],
                               pg_dirty := (pg_dirty g)[idx := True]\<rparr>))))))"

definition add_edge ::
    "(f64 \<Rightarrow> f64) \<Rightarrow> PriceGraph \<Rightarrow> nat \<Rightarrow> nat \<Rightarrow> f64 \<Rightarrow> PoolId \<Rightarrow> address \<Rightarrow> ProtocolType \<Rightarrow> u256
      \<Rightarrow> PriceGraph exec" where
  "add_edge lnf g src dst exchange_rate i pool_address protocol liquidity =
     (let weight = f64_neg (lnf exchange_rate);
          edge = \<lparr>pe_from = src, pe_to = dst, pe_weight = weight, pe_pool_id = i,
                  pe_pool_address = pool_address, pe_protocol = protocol, pe_liquidity = liquidity,
                  pe_reserve_in = Num 0, pe_reserve_out = Num 0, pe_filtered = False\<rparr>
      in ebind (mirror_edge g src dst i (\<lambda>e. e\<lparr>pe_weight := weight, pe_liquidity := liquidity\<rparr>)) (\<lambda>r.
           case r of
             Some g' \<Rightarrow> Ret g'
           | None \<Rightarrow>
               ebind (index (pg_edges g) src) (\<lambda>adj.
                 Ret (g\<lparr>pg_edges := (pg_edges g)[src := adj @ [edge]],
                        pg_all_edges := pg_all_edges g @ [edge],
                        pg_edge_index := hinsert (src, dst, i) (length (pg_all_edges g)) (pg_edge_index g),
                        pg_dirty := pg_dirty g @ [True]\<rparr>))))"

definition token_decimals :: "PriceGraph \<Rightarrow> nat \<Rightarrow> u8" where
  "token_decimals g v =
     (case list_get (pg_token_decimals g) v of None \<Rightarrow> DEFAULT_TOKEN_DECIMALS | Some d \<Rightarrow> d)"

text \<open>The verdict of the minimum-liquidity floor.\<close>

definition below_floor :: "(int \<Rightarrow> f64) \<Rightarrow> PriceGraph \<Rightarrow> nat \<Rightarrow> nat \<Rightarrow> PoolId \<Rightarrow> f64 \<Rightarrow> f64 \<Rightarrow> bool" where
  "below_floor pow10 g src dst i reserve_in reserve_out =
     (case pg_weth_vertex g of
        Some weth \<Rightarrow>
          if f64_lt (Num 0) (pg_min_liquidity_weth g) \<and> pid_protocol i \<noteq> UniswapV3 then
            (case (if src = weth then Some (f64_div reserve_in (pow10 (uint (token_decimals g src))))
                   else if dst = weth then Some (f64_div reserve_out (pow10 (uint (token_decimals g dst))))
                   else None)
             of Some human \<Rightarrow> f64_lt human (pg_min_liquidity_weth g)
              | None \<Rightarrow> False)
          else False
      | None \<Rightarrow> False)"

definition update_edge_from_reserves ::
    "(f64 \<Rightarrow> f64) \<Rightarrow> (int \<Rightarrow> f64) \<Rightarrow> PriceGraph \<Rightarrow> nat \<Rightarrow> nat \<Rightarrow> PoolId \<Rightarrow> f64 \<Rightarrow> f64 \<Rightarrow> f64 \<Rightarrow> PriceGraph exec" where
  "update_edge_from_reserves lnf pow10 g src dst i reserve_in reserve_out fee_factor =
     (if f64_le reserve_in (Num 0) \<or> f64_le reserve_out (Num 0) then Ret g
      else
        let dec_in = uint (token_decimals g src);
            dec_out = uint (token_decimals g dst);
            rate = f64_mul (f64_mul (f64_div reserve_out reserve_in) fee_factor) (pow10 (dec_in - dec_out));
            filtered = below_floor pow10 g src dst i reserve_in reserve_out
        in emap (\<lambda>r. case r of Some g' \<Rightarrow> g' | None \<Rightarrow> g)
             (mirror_edge g src dst i (\<lambda>e. e\<lparr>pe_weight := f64_neg (lnf rate), pe_reserve_in := reserve_in,
                pe_reserve_out := reserve_out, pe_filtered := filtered\<rparr>)))"

definition set_edge_filtered :: "PriceGraph \<Rightarrow> nat \<Rightarrow> nat \<Rightarrow> PoolId \<Rightarrow> bool \<Rightarrow> PriceGraph exec" where
  "set_edge_filtered g src dst i filtered =
     emap (\<lambda>r. case r of Some g' \<Rightarrow> g' | None \<Rightarrow> g)
       (mirror_edge g src dst i (\<lambda>e. e\<lparr>pe_filtered := filtered\<rparr>))"

definition edges_from :: "PriceGraph \<Rightarrow> nat \<Rightarrow> PriceEdge list" where
  "edges_from g v = (if v < length (pg_edges g) then pg_edges g ! v else [])"

definition num_edges :: "PriceGraph \<Rightarrow> nat" where
  "num_edges g = length (pg_all_edges g)"

definition has_dirty_edges :: "PriceGraph \<Rightarrow> bool" where
  "has_dirty_edges g = list_ex id (pg_dirty g)"

definition dirty_edge_indices :: "PriceGraph \<Rightarrow> nat list" where
  "dirty_edge_indices g = map fst (filter snd (zip [0..<length (pg_dirty g)] (pg_dirty g)))"

definition clear_dirty :: "PriceGraph \<Rightarrow> PriceGraph" where
  "clear_dirty g = g\<lparr>pg_dirty := map (\<lambda>_. False) (pg_dirty g)\<rparr>"

text \<open>The set of endpoints of dirty edges, sorted.\<close>

definition affected_vertices :: "PriceGraph \<Rightarrow> nat list" where
  "affected_vertices g =
     sort (remdups (concat (map (\<lambda>i. case list_get (pg_all_edges g) i of
         Some e \<Rightarrow> [pe_from e, pe_to e] | None \<Rightarrow> []) (dirty_edge_indices g))))"

definition edge_key :: "PriceEdge \<Rightarrow> edge_key" where
  "edge_key e = (pe_from e, pe_to e, pe_pool_id e)"

text \<open>The rebuild loop of \<^verbatim>\<open>remove_pool_edges\<close>: the survivors are re-indexed from zero.\<close>

fun reindex :: "nat \<Rightarrow> PriceEdge list \<Rightarrow> (edge_key, nat) hmap \<Rightarrow> (edge_key, nat) hmap" where
  "reindex idx [] m = m"
| "reindex idx (e # es) m = reindex (Suc idx) es (hinsert (edge_key e) idx m)"

definition remove_pool_edges :: "PriceGraph \<Rightarrow> PoolId \<Rightarrow> PriceGraph" where
  "remove_pool_edges g i =
     (let surviving = filter (\<lambda>(e, _). pe_pool_id e \<noteq> i) (zip (pg_all_edges g) (pg_dirty g))
      in g\<lparr>pg_edges := map (filter (\<lambda>e. pe_pool_id e \<noteq> i)) (pg_edges g),
           pg_all_edges := map fst surviving,
           pg_edge_index := reindex 0 (map fst surviving) hnew,
           pg_dirty := map snd surviving\<rparr>)"

definition clone_retaining_pools :: "PriceGraph \<Rightarrow> address list \<Rightarrow> PriceGraph" where
  "clone_retaining_pools g allowed =
     (if allowed = [] then g
      else
        let to_remove = remdups (map pe_pool_id (filter (\<lambda>e. pe_pool_address e \<notin> set allowed) (pg_all_edges g)))
        in foldl remove_pool_edges g to_remove)"

text \<open>\<^verbatim>\<open>Vec::resize\<close> truncates as well as grows.\<close>

definition vec_resize :: "nat \<Rightarrow> 'a \<Rightarrow> 'a list \<Rightarrow> 'a list" where
  "vec_resize n x xs = take n xs @ replicate (n - length xs) x"

definition pg_resize :: "PriceGraph \<Rightarrow> nat \<Rightarrow> PriceGraph" where
  "pg_resize g n =
     (if n > pg_num_vertices g
      then g\<lparr>pg_edges := vec_resize n [] (pg_edges g),
             pg_token_decimals := vec_resize n DEFAULT_TOKEN_DECIMALS (pg_token_decimals g),
             pg_num_vertices := n\<rparr>
      else g)"

definition set_token_decimals :: "PriceGraph \<Rightarrow> nat \<Rightarrow> u8 \<Rightarrow> PriceGraph" where
  "set_token_decimals g v decimals =
     (let table = (if v \<ge> length (pg_token_decimals g)
                   then vec_resize (v + 1) DEFAULT_TOKEN_DECIMALS (pg_token_decimals g)
                   else pg_token_decimals g)
      in g\<lparr>pg_token_decimals := table[v := decimals]\<rparr>)"

definition set_weth_vertex :: "PriceGraph \<Rightarrow> nat \<Rightarrow> PriceGraph" where
  "set_weth_vertex g v = g\<lparr>pg_weth_vertex := Some v\<rparr>"

definition set_min_liquidity_weth :: "PriceGraph \<Rightarrow> f64 \<Rightarrow> PriceGraph" where
  "set_min_liquidity_weth g floor_weth = g\<lparr>pg_min_liquidity_weth := floor_weth\<rparr>"

section \<open>In-place updates by key\<close>

definition on_key :: "edge_key \<Rightarrow> (PriceEdge \<Rightarrow> PriceEdge) \<Rightarrow> PriceEdge \<Rightarrow> PriceEdge" where
  "on_key k f e = (if edge_key e = k then f e else e)"

lemma map_update_absent: "k \<notin> key ` set xs \<Longrightarrow> map (\<lambda>x. if key x = k then f x else x) xs = xs"
  by (induction xs) auto

lemma find_update_by_key:
  assumes "distinct (map key xs)" and "\<And>x. x \<in> set xs \<Longrightarrow> P x \<longleftrightarrow> key x = k"
  shows "find_update P f xs =
    (if k \<in> key ` set xs then Some (map (\<lambda>x. if key x = k then f x else x) xs) else None)"
  using assms
proof (induction xs)
  case (Cons x xs)
  then show ?case by (cases "key x = k") (auto simp: map_update_absent)
qed simp

lemma list_update_by_key:
  assumes "distinct (map key xs)" and "i < length xs"
  shows "xs[i := f (xs ! i)] = map (\<lambda>x. if key x = key (xs ! i) then f x else x) xs"
proof (rule nth_equalityI)
  fix j assume "j < length (xs[i := f (xs ! i)])"
  moreover have "key (xs ! j) = key (xs ! i) \<longleftrightarrow> j = i" if "j < length xs"
    using that assms by (metis length_map nth_eq_iff_index_eq nth_map)
  ultimately show "xs[i := f (xs ! i)] ! j = map (\<lambda>x. if key x = key (xs ! i) then f x else x) xs ! j"
    by (auto simp: nth_list_update)
qed simp

section \<open>Invariant\<close>

text \<open>
  The adjacency list of a vertex is the flat list restricted to its outgoing edges, no two edges
  share a key, and the index maps each key to the position of its edge.
\<close>

definition pg_inv :: "PriceGraph \<Rightarrow> bool" where
  "pg_inv g \<longleftrightarrow>
     length (pg_edges g) = pg_num_vertices g
     \<and> length (pg_dirty g) = length (pg_all_edges g)
     \<and> distinct (map edge_key (pg_all_edges g))
     \<and> (\<forall>e \<in> set (pg_all_edges g). pe_from e < pg_num_vertices g \<and> pe_to e < pg_num_vertices g)
     \<and> (\<forall>v < pg_num_vertices g. pg_edges g ! v = filter (\<lambda>e. pe_from e = v) (pg_all_edges g))
     \<and> (\<forall>k i. hget (pg_edge_index g) k = Some i \<longleftrightarrow>
          i < length (pg_all_edges g) \<and> edge_key (pg_all_edges g ! i) = k)"

lemma pg_invD:
  assumes "pg_inv g"
  shows "length (pg_edges g) = pg_num_vertices g"
    and "length (pg_dirty g) = length (pg_all_edges g)"
    and "distinct (map edge_key (pg_all_edges g))"
    and "e \<in> set (pg_all_edges g) \<Longrightarrow> pe_from e < pg_num_vertices g \<and> pe_to e < pg_num_vertices g"
    and "v < pg_num_vertices g \<Longrightarrow> pg_edges g ! v = filter (\<lambda>e. pe_from e = v) (pg_all_edges g)"
    and "hget (pg_edge_index g) k = Some i \<longleftrightarrow> i < length (pg_all_edges g) \<and> edge_key (pg_all_edges g ! i) = k"
  using assms unfolding pg_inv_def by blast+

text \<open>The abstract graph: at most one edge per key.\<close>

definition pg_abs :: "PriceGraph \<Rightarrow> edge_key \<Rightarrow> PriceEdge option" where
  "pg_abs g = map_of (map (\<lambda>e. (edge_key e, e)) (pg_all_edges g))"

lemma pg_abs_Some: "pg_inv g \<Longrightarrow> pg_abs g k = Some e \<longleftrightarrow> e \<in> set (pg_all_edges g) \<and> edge_key e = k"
  unfolding pg_abs_def by (subst map_of_eq_Some_iff) (auto simp: pg_inv_def o_def)

lemma pg_abs_None: "pg_abs g k = None \<longleftrightarrow> k \<notin> edge_key ` set (pg_all_edges g)"
  unfolding pg_abs_def by (auto simp: map_of_eq_None_iff image_image)

text \<open>The effect of a mirrored update.\<close>

definition pg_touch :: "PriceGraph \<Rightarrow> edge_key \<Rightarrow> (PriceEdge \<Rightarrow> PriceEdge) \<Rightarrow> PriceGraph" where
  "pg_touch g k f = g\<lparr>pg_edges := map (map (on_key k f)) (pg_edges g),
     pg_all_edges := map (on_key k f) (pg_all_edges g),
     pg_dirty := map2 (\<lambda>e d. edge_key e = k \<or> d) (pg_all_edges g) (pg_dirty g)\<rparr>"

lemma filter_on_key:
  assumes "\<And>e. edge_key (f e) = edge_key e"
  shows "filter (\<lambda>e. pe_from e = v) (map (on_key k f) es) = map (on_key k f) (filter (\<lambda>e. pe_from e = v) es)"
proof -
  have "pe_from (on_key k f e) = pe_from e" for e
    using assms [of e] by (simp add: on_key_def edge_key_def)
  then show ?thesis by (simp add: filter_map o_def)
qed

lemma map_key_on_key:
  "(\<And>e. edge_key (f e) = edge_key e) \<Longrightarrow> map edge_key (map (on_key k f) es) = map edge_key es"
  by (simp add: on_key_def)

lemma pg_inv_touch:
  assumes "pg_inv g" and "\<And>e. edge_key (f e) = edge_key e"
  shows "pg_inv (pg_touch g k f)"
proof -
  note inv = pg_invD [OF assms(1)]
  have key: "edge_key (on_key k f e) = edge_key e" for e using assms(2) by (simp add: on_key_def)
  then have ends: "pe_from (on_key k f e) = pe_from e" "pe_to (on_key k f e) = pe_to e" for e
    by (simp_all add: edge_key_def)
  show ?thesis
    unfolding pg_inv_def
  proof (intro conjI allI impI ballI)
    fix v assume "v < pg_num_vertices (pg_touch g k f)"
    then show "pg_edges (pg_touch g k f) ! v = filter (\<lambda>e. pe_from e = v) (pg_all_edges (pg_touch g k f))"
      using inv(1,5) by (simp add: pg_touch_def filter_on_key [OF assms(2)])
  next
    show "distinct (map edge_key (pg_all_edges (pg_touch g k f)))"
      using inv(3) unfolding pg_touch_def by (simp add: map_key_on_key [OF assms(2)] del: map_map)
  qed (use inv in \<open>auto simp: pg_touch_def key ends\<close>)
qed

lemma mirror_edge_spec:
  assumes "pg_inv g" and "src < pg_num_vertices g"
  shows "mirror_edge g src dst i f =
    Ret (if (src, dst, i) \<in> edge_key ` set (pg_all_edges g) then Some (pg_touch g (src, dst, i) f) else None)"
proof -
  define k where "k = (src, dst, i)"
  note inv = pg_invD [OF assms(1)]
  have adj: "pg_edges g ! src = filter (\<lambda>e. pe_from e = src) (pg_all_edges g)" using inv(5) assms(2) .
  have dist: "distinct (map edge_key (pg_edges g ! src))"
    unfolding adj using inv(3) by (rule distinct_map_filter)
  have key: "pe_to e = dst \<and> pe_pool_id e = i \<longleftrightarrow> edge_key e = k" if "e \<in> set (pg_edges g ! src)" for e
    using that unfolding adj by (auto simp: edge_key_def k_def)
  have mem: "k \<in> edge_key ` set (pg_edges g ! src) \<longleftrightarrow> k \<in> edge_key ` set (pg_all_edges g)"
    unfolding adj by (auto simp: edge_key_def k_def)
  have fu: "find_update (\<lambda>e. pe_to e = dst \<and> pe_pool_id e = i) f (pg_edges g ! src) =
      (if k \<in> edge_key ` set (pg_all_edges g) then Some (map (on_key k f) (pg_edges g ! src)) else None)"
    unfolding mem [symmetric] on_key_def [abs_def] by (rule find_update_by_key [OF dist key])
  have idx: "index (pg_edges g) src = Ret (pg_edges g ! src)" using assms(2) inv(1) by simp
  show ?thesis
  proof (cases "k \<in> edge_key ` set (pg_all_edges g)")
    case False
    then show ?thesis unfolding mirror_edge_def idx using fu by (simp add: k_def)
  next
    case True
    then obtain n where n: "n < length (pg_all_edges g)" "edge_key (pg_all_edges g ! n) = k"
      by (auto simp: in_set_conv_nth)
    have other: "map (on_key k f) (pg_edges g ! v) = pg_edges g ! v" if "v < pg_num_vertices g" "v \<noteq> src" for v
      using that inv(5) by (auto simp: on_key_def edge_key_def k_def intro!: map_idI)
    have edges: "(pg_edges g)[src := map (on_key k f) (pg_edges g ! src)] = map (map (on_key k f)) (pg_edges g)"
      using inv(1) assms(2) other by (intro nth_equalityI) (auto simp: nth_list_update)
    have all: "(pg_all_edges g)[n := f (pg_all_edges g ! n)] = map (on_key k f) (pg_all_edges g)"
      using list_update_by_key [OF inv(3) n(1), of f] n(2) by (simp add: on_key_def [abs_def])
    have dirty: "(pg_dirty g)[n := True] = map2 (\<lambda>e d. edge_key e = k \<or> d) (pg_all_edges g) (pg_dirty g)"
    proof (rule nth_equalityI)
      fix j assume "j < length ((pg_dirty g)[n := True])"
      moreover have "edge_key (pg_all_edges g ! j) = k \<longleftrightarrow> j = n" if "j < length (pg_all_edges g)"
        using that n inv(3) by (metis length_map nth_eq_iff_index_eq nth_map)
      ultimately show "(pg_dirty g)[n := True] ! j =
          map2 (\<lambda>e d. edge_key e = k \<or> d) (pg_all_edges g) (pg_dirty g) ! j"
        using inv(2) by (auto simp: nth_list_update)
    qed (use inv(2) in simp)
    have "hget (pg_edge_index g) (src, dst, i) = Some n" using inv(6) n by (simp add: k_def)
    then show ?thesis using True n inv(2) unfolding mirror_edge_def idx
      by (simp add: fu k_def [symmetric] pg_touch_def edges all dirty)
  qed
qed

end
