(* ===== verification/Price_Graph_Refine.thy ===== *)
theory Price_Graph_Refine
  imports Price_Graph
begin

text \<open>
  The operations of the price graph against an abstract specification: a finite map from edge keys
  to edges together with the set of keys whose edge changed since the last detection pass.
\<close>

section \<open>The dirty set\<close>

definition pg_dirty_keys :: "PriceGraph \<Rightarrow> edge_key set" where
  "pg_dirty_keys g = {edge_key e | e. (e, True) \<in> set (zip (pg_all_edges g) (pg_dirty g))}"

lemma pg_dirty_keys_iff:
  assumes "length (pg_dirty g) = length (pg_all_edges g)"
  shows "k \<in> pg_dirty_keys g \<longleftrightarrow>
    (\<exists>i < length (pg_all_edges g). edge_key (pg_all_edges g ! i) = k \<and> pg_dirty g ! i)"
  using assms unfolding pg_dirty_keys_def by (force simp: set_zip)

section \<open>Mirrored updates\<close>

lemma pg_abs_touch:
  assumes "pg_inv g" and "\<And>e. edge_key (f e) = edge_key e"
  shows "pg_abs (pg_touch g k f) = (pg_abs g)(k := map_option f (pg_abs g k))"
proof
  fix k'
  have inv': "pg_inv (pg_touch g k f)" by (rule pg_inv_touch [OF assms])
  have key: "edge_key (on_key j f e) = edge_key e" for j e using assms(2) by (simp add: on_key_def)
  have "pg_abs (pg_touch g k f) k' = Some e' \<longleftrightarrow>
      ((pg_abs g)(k := map_option f (pg_abs g k))) k' = Some e'" for e'
    unfolding pg_abs_Some [OF inv']
    by (auto simp: pg_touch_def on_key_def assms(2) pg_abs_Some [OF assms(1)])
  then show "pg_abs (pg_touch g k f) k' = ((pg_abs g)(k := map_option f (pg_abs g k))) k'"
    by (metis not_Some_eq)
qed

lemma pg_dirty_touch:
  assumes "pg_inv g" and "\<And>e. edge_key (f e) = edge_key e" and "k \<in> edge_key ` set (pg_all_edges g)"
  shows "pg_dirty_keys (pg_touch g k f) = insert k (pg_dirty_keys g)"
proof -
  note len = pg_invD(2) [OF assms(1)]
  have key: "edge_key (on_key j f e) = edge_key e" for j e using assms(2) by (simp add: on_key_def)
  have len': "length (pg_dirty (pg_touch g k f)) = length (pg_all_edges (pg_touch g k f))"
    using len by (simp add: pg_touch_def)
  have L: "k' \<in> pg_dirty_keys (pg_touch g k f) \<longleftrightarrow>
      (\<exists>i < length (pg_all_edges g). edge_key (pg_all_edges g ! i) = k'
        \<and> (edge_key (pg_all_edges g ! i) = k \<or> pg_dirty g ! i))" for k'
    unfolding pg_dirty_keys_iff [OF len'] using len by (auto simp: pg_touch_def key)
  obtain n where "n < length (pg_all_edges g)" "edge_key (pg_all_edges g ! n) = k"
    using assms(3) by (metis image_iff in_set_conv_nth)
  then have "k' \<in> pg_dirty_keys (pg_touch g k f) \<longleftrightarrow> k' = k \<or> k' \<in> pg_dirty_keys g" for k'
    unfolding L pg_dirty_keys_iff [OF len] by blast
  then show ?thesis by blast
qed

section \<open>Appending an edge\<close>

definition pg_append :: "PriceGraph \<Rightarrow> PriceEdge \<Rightarrow> PriceGraph" where
  "pg_append g e = g\<lparr>pg_edges := (pg_edges g)[pe_from e := pg_edges g ! pe_from e @ [e]],
     pg_all_edges := pg_all_edges g @ [e],
     pg_edge_index := hinsert (edge_key e) (length (pg_all_edges g)) (pg_edge_index g),
     pg_dirty := pg_dirty g @ [True]\<rparr>"

lemma pg_inv_append:
  assumes "pg_inv g" and "pe_from e < pg_num_vertices g" and "pe_to e < pg_num_vertices g"
    and "edge_key e \<notin> edge_key ` set (pg_all_edges g)"
  shows "pg_inv (pg_append g e)"
proof -
  note inv = pg_invD [OF assms(1)]
  show ?thesis
    unfolding pg_inv_def
  proof (intro conjI allI impI ballI)
    fix v assume "v < pg_num_vertices (pg_append g e)"
    then show "pg_edges (pg_append g e) ! v = filter (\<lambda>e. pe_from e = v) (pg_all_edges (pg_append g e))"
      using inv(1,5) assms(2) by (auto simp: pg_append_def nth_list_update)
  next
    fix k i
    have "edge_key (pg_all_edges g ! i) \<noteq> edge_key e" if "i < length (pg_all_edges g)"
      using assms(4) that by (metis image_eqI nth_mem)
    then show "hget (pg_edge_index (pg_append g e)) k = Some i \<longleftrightarrow>
        i < length (pg_all_edges (pg_append g e)) \<and> edge_key (pg_all_edges (pg_append g e) ! i) = k"
      using inv(6) [of k i] by (auto simp: pg_append_def nth_append less_Suc_eq)
  qed (use inv assms in \<open>auto simp: pg_append_def\<close>)
qed

lemma pg_abs_append:
  assumes "edge_key e \<notin> edge_key ` set (pg_all_edges g)"
  shows "pg_abs (pg_append g e) = (pg_abs g)(edge_key e \<mapsto> e)"
proof -
  have "pg_abs g (edge_key e) = None" using assms by (simp add: pg_abs_None)
  then show ?thesis
    unfolding pg_abs_def pg_append_def by (auto simp: map_add_def fun_eq_iff split: option.split)
qed

lemma pg_dirty_append:
  "length (pg_dirty g) = length (pg_all_edges g) \<Longrightarrow>
     pg_dirty_keys (pg_append g e) = insert (edge_key e) (pg_dirty_keys g)"
  by (auto simp: pg_dirty_keys_def pg_append_def)

section \<open>Removing a pool\<close>

lemma map_fst_filter_zip:
  "length ys = length xs \<Longrightarrow> map fst (filter (\<lambda>(x, _). P x) (zip xs ys)) = filter P xs"
  by (induction xs ys rule: list_induct2') auto

lemma hget_reindex:
  assumes "distinct (map edge_key es)"
  shows "hget (reindex n es m) k =
    (case position (\<lambda>e. edge_key e = k) es of Some j \<Rightarrow> Some (n + j) | None \<Rightarrow> hget m k)"
  using assms
proof (induction es arbitrary: n m)
  case (Cons e es)
  have "position (\<lambda>x. edge_key x = k) es = None" if "edge_key e = k"
    using that Cons.prems unfolding position_None_iff by (metis distinct.simps(2) image_eqI list.map(2) list.set_map)
  with Cons show ?case by (auto split: option.split)
qed simp

lemma position_key_iff:
  assumes "distinct (map edge_key es)"
  shows "position (\<lambda>e. edge_key e = k) es = Some i \<longleftrightarrow> i < length es \<and> edge_key (es ! i) = k"
proof
  assume "i < length es \<and> edge_key (es ! i) = k"
  then obtain j where j: "position (\<lambda>e. edge_key e = k) es = Some j"
    using position_None_iff [of "\<lambda>e. edge_key e = k" es] by (metis nth_mem option.exhaust)
  with position_Some [OF j] \<open>i < length es \<and> edge_key (es ! i) = k\<close> assms
  have "j = i" by (metis length_map nth_eq_iff_index_eq nth_map)
  with j show "position (\<lambda>e. edge_key e = k) es = Some i" by simp
qed (use position_Some in fastforce)

lemma pg_remove_simps:
  assumes "pg_inv g"
  shows "pg_all_edges (remove_pool_edges g i) = filter (\<lambda>e. pe_pool_id e \<noteq> i) (pg_all_edges g)"
    and "length (pg_dirty (remove_pool_edges g i)) = length (pg_all_edges (remove_pool_edges g i))"
    and "pg_num_vertices (remove_pool_edges g i) = pg_num_vertices g"
  using map_fst_filter_zip [OF pg_invD(2) [OF assms], of "\<lambda>e. pe_pool_id e \<noteq> i"]
  by (simp_all add: remove_pool_edges_def Let_def) (metis length_map)

lemma pg_inv_remove:
  assumes "pg_inv g"
  shows "pg_inv (remove_pool_edges g i)"
proof -
  note inv = pg_invD [OF assms] and rem = pg_remove_simps [OF assms]
  have dist: "distinct (map edge_key (filter (\<lambda>e. pe_pool_id e \<noteq> i) (pg_all_edges g)))"
    using inv(3) by (rule distinct_map_filter)
  have idx: "pg_edge_index (remove_pool_edges g i) =
      reindex 0 (filter (\<lambda>e. pe_pool_id e \<noteq> i) (pg_all_edges g)) hnew"
    using map_fst_filter_zip [OF inv(2), of "\<lambda>e. pe_pool_id e \<noteq> i"]
    by (simp add: remove_pool_edges_def Let_def)
  have edges: "pg_edges (remove_pool_edges g i) = map (filter (\<lambda>e. pe_pool_id e \<noteq> i)) (pg_edges g)"
    by (simp add: remove_pool_edges_def Let_def)
  show ?thesis
    unfolding pg_inv_def rem(1,3) idx edges
  proof (intro conjI allI impI ballI)
    fix k j
    show "hget (reindex 0 (filter (\<lambda>e. pe_pool_id e \<noteq> i) (pg_all_edges g)) hnew) k = Some j \<longleftrightarrow>
      j < length (filter (\<lambda>e. pe_pool_id e \<noteq> i) (pg_all_edges g))
      \<and> edge_key (filter (\<lambda>e. pe_pool_id e \<noteq> i) (pg_all_edges g) ! j) = k"
      unfolding hget_reindex [OF dist] position_key_iff [OF dist, symmetric]
      by (simp split: option.split)
  next
    fix v assume "v < pg_num_vertices g"
    then show "map (filter (\<lambda>e. pe_pool_id e \<noteq> i)) (pg_edges g) ! v =
      filter (\<lambda>e. pe_from e = v) (filter (\<lambda>e. pe_pool_id e \<noteq> i) (pg_all_edges g))"
      using inv(1,5) by (simp add: conj_commute)
  qed (use inv dist rem in \<open>simp_all\<close>)
qed

lemma pg_abs_remove:
  assumes "pg_inv g"
  shows "pg_abs (remove_pool_edges g i) = (\<lambda>k. if snd (snd k) = i then None else pg_abs g k)"
proof
  fix k
  have "pg_abs (remove_pool_edges g i) k = Some e \<longleftrightarrow> (if snd (snd k) = i then None else pg_abs g k) = Some e" for e
    unfolding pg_abs_Some [OF pg_inv_remove [OF assms]] pg_remove_simps(1) [OF assms]
    by (auto simp: pg_abs_Some [OF assms] edge_key_def)
  then show "pg_abs (remove_pool_edges g i) k = (if snd (snd k) = i then None else pg_abs g k)"
    by (metis not_Some_eq)
qed

text \<open>The flags of the surviving edges are carried through the rebuild.\<close>

lemma pg_dirty_remove: "pg_dirty_keys (remove_pool_edges g i) = {k \<in> pg_dirty_keys g. snd (snd k) \<noteq> i}"
proof -
  have "zip (map fst xs) (map snd xs) = xs" for xs :: "(PriceEdge \<times> bool) list" by (rule zip_map_fst_snd)
  then have "zip (pg_all_edges (remove_pool_edges g i)) (pg_dirty (remove_pool_edges g i)) =
      filter (\<lambda>(e, _). pe_pool_id e \<noteq> i) (zip (pg_all_edges g) (pg_dirty g))"
    by (simp add: remove_pool_edges_def Let_def)
  then show ?thesis unfolding pg_dirty_keys_def by (auto simp: edge_key_def)
qed

section \<open>The remaining operations\<close>

lemma pg_frame:
  assumes "pg_inv g" and "pg_all_edges g' = pg_all_edges g" and "pg_edges g' = pg_edges g"
    and "pg_edge_index g' = pg_edge_index g" and "pg_num_vertices g' = pg_num_vertices g"
    and "length (pg_dirty g') = length (pg_dirty g)"
  shows "pg_inv g'" and "pg_abs g' = pg_abs g"
  using assms by (simp_all add: pg_inv_def pg_abs_def)

lemma pg_inv_new: "pg_inv (pg_new n)"
  by (simp add: pg_inv_def pg_new_def)

lemma pg_inv_resize:
  assumes "pg_inv g"
  shows "pg_inv (pg_resize g n)"
proof (cases "n > pg_num_vertices g")
  case True
  note inv = pg_invD [OF assms]
  have edges: "pg_edges (pg_resize g n) = pg_edges g @ replicate (n - pg_num_vertices g) []"
    using True inv(1) by (simp add: pg_resize_def vec_resize_def)
  have none: "filter (\<lambda>e. pe_from e = v) (pg_all_edges g) = []" if "\<not> v < pg_num_vertices g" for v
    using inv(4) that by (auto simp: filter_empty_conv)
  show ?thesis
    unfolding pg_inv_def edges
  proof (intro conjI allI impI ballI)
    fix v assume "v < pg_num_vertices (pg_resize g n)"
    then show "(pg_edges g @ replicate (n - pg_num_vertices g) []) ! v =
        filter (\<lambda>e. pe_from e = v) (pg_all_edges (pg_resize g n))"
      using True inv(1,5) none by (cases "v < pg_num_vertices g") (auto simp: pg_resize_def nth_append)
  qed (use True inv in \<open>auto simp: pg_resize_def dest: less_trans\<close>)
qed (simp add: pg_resize_def assms)

lemma pg_retain:
  assumes "pg_inv g"
  shows "pg_inv (foldl remove_pool_edges g is)"
    and "pg_abs (foldl remove_pool_edges g is) = (\<lambda>k. if snd (snd k) \<in> set is then None else pg_abs g k)"
    and "pg_dirty_keys (foldl remove_pool_edges g is) = {k \<in> pg_dirty_keys g. snd (snd k) \<notin> set is}"
  using assms
  by (induction "is" arbitrary: g) (auto simp: pg_inv_remove pg_abs_remove pg_dirty_remove)

section \<open>One step of the graph\<close>

datatype pg_op =
    AddEdge nat nat f64 PoolId address ProtocolType u256
  | UpdateFromReserves nat nat PoolId f64 f64 f64
  | SetFiltered nat nat PoolId bool
  | ClearDirty
  | RemovePool PoolId
  | RetainPools "address list"
  | Resize nat
  | SetDecimals nat u8
  | SetWeth nat
  | SetFloor f64

fun pg_step :: "(f64 \<Rightarrow> f64) \<Rightarrow> (int \<Rightarrow> f64) \<Rightarrow> PriceGraph \<Rightarrow> pg_op \<Rightarrow> PriceGraph exec" where
  "pg_step lnf pow10 g (AddEdge src dst rate i addr proto liq) = add_edge lnf g src dst rate i addr proto liq"
| "pg_step lnf pow10 g (UpdateFromReserves src dst i rin rout fee) =
     update_edge_from_reserves lnf pow10 g src dst i rin rout fee"
| "pg_step lnf pow10 g (SetFiltered src dst i b) = set_edge_filtered g src dst i b"
| "pg_step lnf pow10 g ClearDirty = Ret (clear_dirty g)"
| "pg_step lnf pow10 g (RemovePool i) = Ret (remove_pool_edges g i)"
| "pg_step lnf pow10 g (RetainPools allowed) = Ret (clone_retaining_pools g allowed)"
| "pg_step lnf pow10 g (Resize n) = Ret (pg_resize g n)"
| "pg_step lnf pow10 g (SetDecimals v d) = Ret (set_token_decimals g v d)"
| "pg_step lnf pow10 g (SetWeth v) = Ret (set_weth_vertex g v)"
| "pg_step lnf pow10 g (SetFloor x) = Ret (set_min_liquidity_weth g x)"

text \<open>What a caller owes: vertices of an edge have been allocated.\<close>

fun pg_op_ok :: "PriceGraph \<Rightarrow> pg_op \<Rightarrow> bool" where
  "pg_op_ok g (AddEdge src dst _ _ _ _ _) \<longleftrightarrow> src < pg_num_vertices g \<and> dst < pg_num_vertices g"
| "pg_op_ok g (UpdateFromReserves src _ _ _ _ _) \<longleftrightarrow> src < pg_num_vertices g"
| "pg_op_ok g (SetFiltered src _ _ _) \<longleftrightarrow> src < pg_num_vertices g"
| "pg_op_ok g _ \<longleftrightarrow> True"

text \<open>The same step on the abstract graph: a map of edges and the set of dirty keys.\<close>

type_synonym abs_graph = "(edge_key \<rightharpoonup> PriceEdge) \<times> edge_key set"

definition abs_modify :: "edge_key \<Rightarrow> (PriceEdge \<Rightarrow> PriceEdge) \<Rightarrow> abs_graph \<Rightarrow> abs_graph" where
  "abs_modify k f = (\<lambda>(m, dirty). case m k of None \<Rightarrow> (m, dirty) | Some e \<Rightarrow> (m(k \<mapsto> f e), insert k dirty))"

definition abs_drop :: "PoolId set \<Rightarrow> abs_graph \<Rightarrow> abs_graph" where
  "abs_drop is = (\<lambda>(m, dirty).
     (\<lambda>k. if snd (snd k) \<in> is then None else m k, {k \<in> dirty. snd (snd k) \<notin> is}))"

text \<open>The edge an update from reserves stores.\<close>

definition priced ::
    "(f64 \<Rightarrow> f64) \<Rightarrow> (int \<Rightarrow> f64) \<Rightarrow> PriceGraph \<Rightarrow> nat \<Rightarrow> nat \<Rightarrow> PoolId \<Rightarrow> f64 \<Rightarrow> f64 \<Rightarrow> f64 \<Rightarrow> PriceEdge \<Rightarrow> PriceEdge" where
  "priced lnf pow10 g src dst i rin rout fee e =
     e\<lparr>pe_weight := f64_neg (lnf (f64_mul (f64_mul (f64_div rout rin) fee)
          (pow10 (uint (token_decimals g src) - uint (token_decimals g dst))))),
       pe_reserve_in := rin, pe_reserve_out := rout,
       pe_filtered := below_floor pow10 g src dst i rin rout\<rparr>"

fun abs_step :: "(f64 \<Rightarrow> f64) \<Rightarrow> (int \<Rightarrow> f64) \<Rightarrow> PriceGraph \<Rightarrow> pg_op \<Rightarrow> abs_graph \<Rightarrow> abs_graph" where
  "abs_step lnf pow10 g (AddEdge src dst rate i addr proto liq) (m, dirty) =
     (case m (src, dst, i) of
        Some _ \<Rightarrow> abs_modify (src, dst, i) (\<lambda>e. e\<lparr>pe_weight := f64_neg (lnf rate), pe_liquidity := liq\<rparr>) (m, dirty)
      | None \<Rightarrow>
          (m((src, dst, i) \<mapsto> \<lparr>pe_from = src, pe_to = dst, pe_weight = f64_neg (lnf rate), pe_pool_id = i,
               pe_pool_address = addr, pe_protocol = proto, pe_liquidity = liq, pe_reserve_in = Num 0,
               pe_reserve_out = Num 0, pe_filtered = False\<rparr>),
           insert (src, dst, i) dirty))"
| "abs_step lnf pow10 g (UpdateFromReserves src dst i rin rout fee) a =
     (if f64_le rin (Num 0) \<or> f64_le rout (Num 0) then a
      else abs_modify (src, dst, i) (priced lnf pow10 g src dst i rin rout fee) a)"
| "abs_step lnf pow10 g (SetFiltered src dst i b) a = abs_modify (src, dst, i) (\<lambda>e. e\<lparr>pe_filtered := b\<rparr>) a"
| "abs_step lnf pow10 g ClearDirty (m, dirty) = (m, {})"
| "abs_step lnf pow10 g (RemovePool i) a = abs_drop {i} a"
| "abs_step lnf pow10 g (RetainPools allowed) (m, dirty) =
     (if allowed = [] then (m, dirty)
      else abs_drop (pe_pool_id ` {e \<in> ran m. pe_pool_address e \<notin> set allowed}) (m, dirty))"
| "abs_step lnf pow10 g (Resize n) a = a"
| "abs_step lnf pow10 g (SetDecimals v d) a = a"
| "abs_step lnf pow10 g (SetWeth v) a = a"
| "abs_step lnf pow10 g (SetFloor x) a = a"

definition pg_view :: "PriceGraph \<Rightarrow> abs_graph" where
  "pg_view g = (pg_abs g, pg_dirty_keys g)"

lemma mirror_edge_view:
  assumes "pg_inv g" and "src < pg_num_vertices g" and "\<And>e. edge_key (f e) = edge_key e"
  shows "\<exists>g'. emap (\<lambda>r. case r of Some g' \<Rightarrow> g' | None \<Rightarrow> g) (mirror_edge g src dst i f) = Ret g'
    \<and> pg_inv g' \<and> pg_view g' = abs_modify (src, dst, i) f (pg_view g)"
proof (cases "(src, dst, i) \<in> edge_key ` set (pg_all_edges g)")
  case True
  then obtain e where e: "pg_abs g (src, dst, i) = Some e" using pg_abs_None by (metis not_None_eq)
  then have "pg_view (pg_touch g (src, dst, i) f) = abs_modify (src, dst, i) f (pg_view g)"
    using pg_abs_touch [OF assms(1,3)] pg_dirty_touch [OF assms(1,3) True]
    by (simp add: pg_view_def abs_modify_def)
  with True show ?thesis
    using mirror_edge_spec [OF assms(1,2), of dst i f] pg_inv_touch [OF assms(1,3)] by simp
next
  case False
  then have "pg_abs g (src, dst, i) = None" by (simp add: pg_abs_None)
  with False show ?thesis
    using mirror_edge_spec [OF assms(1,2), of dst i f] assms(1) by (simp add: pg_view_def abs_modify_def)
qed

lemma add_edge_view:
  assumes "pg_inv g" and "src < pg_num_vertices g" and "dst < pg_num_vertices g"
  shows "\<exists>g'. add_edge lnf g src dst rate i addr proto liq = Ret g' \<and> pg_inv g'
    \<and> pg_view g' = abs_step lnf pow10 h (AddEdge src dst rate i addr proto liq) (pg_view g)"
proof -
  define f :: "PriceEdge \<Rightarrow> PriceEdge" where "f = (\<lambda>e. e\<lparr>pe_weight := f64_neg (lnf rate), pe_liquidity := liq\<rparr>)"
  define e where "e = \<lparr>pe_from = src, pe_to = dst, pe_weight = f64_neg (lnf rate), pe_pool_id = i,
    pe_pool_address = addr, pe_protocol = proto, pe_liquidity = liq, pe_reserve_in = Num 0,
    pe_reserve_out = Num 0, pe_filtered = False\<rparr>"
  have f: "edge_key (f x) = edge_key x" for x by (simp add: f_def edge_key_def)
  have key: "edge_key e = (src, dst, i)" by (simp add: e_def edge_key_def)
  note spec = mirror_edge_spec [OF assms(1,2), of dst i f]
  note unf = add_edge_def Let_def f_def [symmetric] e_def [symmetric] spec
  show ?thesis
  proof (cases "(src, dst, i) \<in> edge_key ` set (pg_all_edges g)")
    case True
    then obtain x where "pg_abs g (src, dst, i) = Some x" using pg_abs_None by (metis not_None_eq)
    with True show ?thesis
      using mirror_edge_view [OF assms(1,2) f, of dst i] unfolding unf
      by (simp add: pg_view_def f_def [symmetric])
  next
    case False
    have "add_edge lnf g src dst rate i addr proto liq = Ret (pg_append g e)"
      using False assms(2) pg_invD(1) [OF assms(1)] unfolding unf
      by (simp add: pg_append_def key) (simp add: e_def)
    moreover have "pg_inv (pg_append g e)"
      using False assms key by (intro pg_inv_append) (auto simp: e_def)
    moreover have "pg_abs g (src, dst, i) = None" using False by (simp add: pg_abs_None)
    ultimately show ?thesis
      using pg_abs_append [of e g] pg_dirty_append [OF pg_invD(2) [OF assms(1)], of e] False
      by (simp add: pg_view_def key e_def [symmetric])
  qed
qed

lemma ran_pg_abs: "pg_inv g \<Longrightarrow> ran (pg_abs g) = set (pg_all_edges g)"
  by (auto simp: ran_def pg_abs_Some edge_key_def)

lemma pg_dirty_clear: "pg_dirty_keys (clear_dirty g) = {}"
  by (auto simp: pg_dirty_keys_def clear_dirty_def dest: set_zip_rightD)

lemma pg_view_frame:
  assumes "pg_inv g" and "pg_all_edges g' = pg_all_edges g" and "pg_edges g' = pg_edges g"
    and "pg_edge_index g' = pg_edge_index g" and "pg_num_vertices g' = pg_num_vertices g"
    and "pg_dirty g' = pg_dirty g"
  shows "pg_inv g' \<and> pg_view g' = pg_view g"
  using assms pg_frame [OF assms(1-5)] by (simp add: pg_view_def pg_dirty_keys_def)

lemma pg_resize_view: "pg_inv g \<Longrightarrow> pg_inv (pg_resize g n) \<and> pg_view (pg_resize g n) = pg_view g"
  using pg_inv_resize [of g n] by (simp add: pg_view_def pg_abs_def pg_dirty_keys_def pg_resize_def)

lemma retain_view:
  assumes "pg_inv g"
  shows "pg_inv (clone_retaining_pools g allowed)
    \<and> pg_view (clone_retaining_pools g allowed) = abs_step lnf pow10 h (RetainPools allowed) (pg_view g)"
proof -
  define gone where "gone = remdups (map pe_pool_id (filter (\<lambda>e. pe_pool_address e \<notin> set allowed) (pg_all_edges g)))"
  have "set gone = pe_pool_id ` {e \<in> ran (pg_abs g). pe_pool_address e \<notin> set allowed}"
    using assms by (simp add: gone_def ran_pg_abs)
  then show ?thesis
    using pg_retain [OF assms, of gone] assms
    by (simp add: clone_retaining_pools_def pg_view_def abs_drop_def gone_def [symmetric])
qed

lemma pg_step_refines_aux:
  assumes "pg_inv g" and "pg_op_ok g op"
  shows "\<exists>g'. pg_step lnf pow10 g op = Ret g' \<and> pg_inv g' \<and> pg_view g' = abs_step lnf pow10 g op (pg_view g)"
proof (cases op)
  case (AddEdge src dst rate i addr proto liq)
  then show ?thesis using add_edge_view [OF assms(1)] assms(2) by (simp del: abs_step.simps)
next
  case (UpdateFromReserves src dst i rin rout fee)
  define f where "f = priced lnf pow10 g src dst i rin rout fee"
  have "edge_key (f e) = edge_key e" for e by (simp add: f_def priced_def edge_key_def)
  then show ?thesis
    using UpdateFromReserves assms mirror_edge_view [OF assms(1), of src f dst i]
    by (simp add: update_edge_from_reserves_def Let_def f_def priced_def [abs_def])
next
  case (SetFiltered src dst i b)
  then show ?thesis
    using assms mirror_edge_view [OF assms(1), of src "\<lambda>e. e\<lparr>pe_filtered := b\<rparr>" dst i]
    by (simp add: set_edge_filtered_def edge_key_def)
next
  case ClearDirty
  then show ?thesis
    using pg_frame [OF assms(1), of "clear_dirty g"] pg_dirty_clear [of g]
    by (simp add: pg_view_def clear_dirty_def)
next
  case (RemovePool i)
  then show ?thesis
    using pg_retain [OF assms(1), of "[i]"] by (simp add: pg_view_def abs_drop_def)
next
  case (RetainPools allowed)
  then show ?thesis using retain_view [OF assms(1)] by (simp del: abs_step.simps)
next
  case (Resize n)
  then show ?thesis using pg_resize_view [OF assms(1)] by simp
next
  case (SetDecimals v d)
  then show ?thesis using pg_view_frame [OF assms(1), of "set_token_decimals g v d"]
    by (simp add: set_token_decimals_def Let_def)
next
  case (SetWeth v)
  then show ?thesis using pg_view_frame [OF assms(1), of "set_weth_vertex g v"]
    by (simp add: set_weth_vertex_def)
next
  case (SetFloor x)
  then show ?thesis using pg_view_frame [OF assms(1), of "set_min_liquidity_weth g x"]
    by (simp add: set_min_liquidity_weth_def)
qed

text \<open>C2: from a consistent price graph every mutating operation whose source and target vertices are
  allocated returns without panicking, leaves the adjacency lists, the flat edge list, the key index and
  the dirty flags consistent with each other, and acts on the graph seen as a map from
  (from, to, pool) to edges plus a set of dirty keys exactly as the abstract step does.\<close>

theorem price_graph_step_refines:
  assumes "pg_inv g" and "pg_op_ok g op"
  shows "\<exists>g'. pg_step lnf pow10 g op = Ret g' \<and> pg_inv g' \<and> pg_view g' = abs_step lnf pow10 g op (pg_view g)"
  by (rule pg_step_refines_aux [OF assms])

definition pid_demo :: PoolId where
  "pid_demo = \<lparr>pid_address = 7, pid_protocol = UniswapV2\<rparr>"

theorem price_graph_step_refines_witness:
  "\<exists>g'. pg_step id (\<lambda>_. Num 1) (pg_new 2) (AddEdge 0 1 (Num 2) pid_demo 7 UniswapV2 5) = Ret g' \<and> pg_inv g'
    \<and> pg_view g' = abs_step id (\<lambda>_. Num 1) (pg_new 2) (AddEdge 0 1 (Num 2) pid_demo 7 UniswapV2 5) (pg_view (pg_new 2))"
  by (rule price_graph_step_refines [OF pg_inv_new]) (simp add: pg_new_def)

section \<open>Reachable graphs\<close>

inductive pg_reach :: "(f64 \<Rightarrow> f64) \<Rightarrow> (int \<Rightarrow> f64) \<Rightarrow> PriceGraph \<Rightarrow> bool"
  for lnf :: "f64 \<Rightarrow> f64" and pow10 :: "int \<Rightarrow> f64" where
  reach_new: "pg_reach lnf pow10 (pg_new n)"
| reach_step: "pg_reach lnf pow10 g \<Longrightarrow> pg_op_ok g op \<Longrightarrow> pg_step lnf pow10 g op = Ret g' \<Longrightarrow> pg_reach lnf pow10 g'"

inductive_cases pg_reachE: "pg_reach lnf pow10 g"

lemma pg_reach_inv: "pg_reach lnf pow10 g \<Longrightarrow> pg_inv g"
proof (induction rule: pg_reach.induct)
  case (reach_step g op g')
  then show ?case using pg_step_refines_aux [of g op lnf pow10] by auto
qed (rule pg_inv_new)

lemma dirty_edge_indices_set: "set (dirty_edge_indices g) = {i. i < length (pg_dirty g) \<and> pg_dirty g ! i}"
  by (force simp: dirty_edge_indices_def in_set_zip image_iff)

lemma set_affected_vertices:
  assumes "pg_inv g"
  shows "set (affected_vertices g) = {v. \<exists>k. k \<in> pg_dirty_keys g \<and> (v = fst k \<or> v = fst (snd k))}"
proof -
  note len = pg_invD(2) [OF assms]
  have "v \<in> set (affected_vertices g) \<longleftrightarrow> (\<exists>i < length (pg_all_edges g). pg_dirty g ! i
      \<and> (v = pe_from (pg_all_edges g ! i) \<or> v = pe_to (pg_all_edges g ! i)))" for v
    unfolding affected_vertices_def using len
    by (auto simp: dirty_edge_indices_set list_get_def)
  moreover have "fst (edge_key e) = pe_from e" "fst (snd (edge_key e)) = pe_to e" for e
    by (simp_all add: edge_key_def)
  ultimately show ?thesis
    unfolding pg_dirty_keys_iff [OF len] set_eq_iff mem_Collect_eq by metis
qed

lemma affected_bound:
  assumes "pg_inv g"
  shows "list_all (\<lambda>v. v < pg_num_vertices g) (affected_vertices g)"
  unfolding list_all_iff set_affected_vertices [OF assms] pg_dirty_keys_iff [OF pg_invD(2) [OF assms]]
  using pg_invD(4) [OF assms] by (fastforce simp: edge_key_def)

text \<open>On every graph reachable by the mutating operations, the vertices handed to the incremental
  detector are allocated vertices, in increasing order without repetition, and are exactly the endpoints
  of the edges touched since the dirty flags were last cleared; there are none exactly when no
  edge is dirty.\<close>

theorem affected_vertices_exact:
  assumes "pg_reach lnf pow10 g"
  shows "sorted (affected_vertices g) \<and> distinct (affected_vertices g)
    \<and> set (affected_vertices g) = {v. \<exists>k. k \<in> pg_dirty_keys g \<and> (v = fst k \<or> v = fst (snd k))}
    \<and> list_all (\<lambda>v. v < pg_num_vertices g) (affected_vertices g)
    \<and> (affected_vertices g = [] \<longleftrightarrow> \<not> has_dirty_edges g)"
proof -
  have inv: "pg_inv g" by (rule pg_reach_inv [OF assms])
  note len = pg_invD(2) [OF inv]
  have "affected_vertices g = [] \<longleftrightarrow> pg_dirty_keys g = {}"
    unfolding set_empty [symmetric] set_affected_vertices [OF inv] by auto
  also have "\<dots> \<longleftrightarrow> \<not> has_dirty_edges g"
    unfolding set_eq_iff pg_dirty_keys_iff [OF len] has_dirty_edges_def list_ex_iff
    using len by (metis empty_iff id_apply in_set_conv_nth)
  finally show ?thesis
    using affected_bound [OF inv] set_affected_vertices [OF inv] by (simp add: affected_vertices_def)
qed

theorem affected_vertices_exact_witness:
  "\<exists>g. pg_step id (\<lambda>_. Num 1) (pg_new 2) (AddEdge 0 1 (Num 2) pid_demo 7 UniswapV2 5) = Ret g
    \<and> sorted (affected_vertices g) \<and> affected_vertices g = [0, 1]"
proof -
  obtain g where g: "pg_step id (\<lambda>_. Num 1) (pg_new 2) (AddEdge 0 1 (Num 2) pid_demo 7 UniswapV2 5) = Ret g"
    using pg_step_refines_aux [OF pg_inv_new, of 2 "AddEdge 0 1 (Num 2) pid_demo 7 UniswapV2 5"]
    by (auto simp: pg_new_def simp del: pg_step.simps)
  have "pg_reach id (\<lambda>_. Num 1) g"
    by (intro reach_step [OF reach_new _ g]) (simp add: pg_new_def)
  then have "sorted (affected_vertices g)" using affected_vertices_exact by blast
  moreover have "affected_vertices g = [0, 1]"
    using g by (auto simp: add_edge_def mirror_edge_def pg_new_def affected_vertices_def
        dirty_edge_indices_def list_get_def Let_def)
  ultimately show ?thesis using g by blast
qed

end
