(* ===== verification/Snapshot.thy ===== *)
theory Snapshot
  imports Price_Graph
begin

text \<open>
  Published graph snapshots (\<^verbatim>\<open>state/src/snapshot.rs\<close>). \<^verbatim>\<open>publish\<close> performs two atomic actions, the
  increment of the version counter and the pointer swap; the step relation interleaves the
  actions of concurrent writers with loads.
\<close>

section \<open>Model\<close>

record GraphSnapshot =
  gs_graph :: PriceGraph
  gs_block_number :: u64
  gs_timestamp_ns :: int
  gs_version :: u64

definition snapshot_new :: "PriceGraph \<Rightarrow> u64 \<Rightarrow> int \<Rightarrow> u64 \<Rightarrow> GraphSnapshot" where
  "snapshot_new graph block_number timestamp_ns version =
     \<lparr>gs_graph = graph, gs_block_number = block_number, gs_timestamp_ns = timestamp_ns, gs_version = version\<rparr>"

record SnapshotManager =
  sm_current :: GraphSnapshot
  sm_version_counter :: u64

definition manager_new :: "PriceGraph \<Rightarrow> SnapshotManager" where
  "manager_new initial_graph = \<lparr>sm_current = snapshot_new initial_graph 0 0 0, sm_version_counter = 0\<rparr>"

definition sm_load :: "SnapshotManager \<Rightarrow> GraphSnapshot" where
  "sm_load m = sm_current m"

definition load_full :: "SnapshotManager \<Rightarrow> GraphSnapshot" where
  "load_full m = sm_current m"

definition sm_version :: "SnapshotManager \<Rightarrow> u64" where
  "sm_version m = sm_version_counter m"

text \<open>The two atomic actions of \<^verbatim>\<open>publish\<close>: \<^verbatim>\<open>fetch_add\<close> with the snapshot built from its result, and \<^verbatim>\<open>store\<close>.\<close>

definition publish_fetch :: "SnapshotManager \<Rightarrow> PriceGraph \<Rightarrow> u64 \<Rightarrow> int \<Rightarrow> GraphSnapshot \<times> SnapshotManager" where
  "publish_fetch m graph block_number timestamp_ns =
     (let version = sm_version_counter m + 1
      in (snapshot_new graph block_number timestamp_ns version, m\<lparr>sm_version_counter := version\<rparr>))"

definition publish_store :: "SnapshotManager \<Rightarrow> GraphSnapshot \<Rightarrow> SnapshotManager" where
  "publish_store m snapshot = m\<lparr>sm_current := snapshot\<rparr>"

definition publish :: "SnapshotManager \<Rightarrow> PriceGraph \<Rightarrow> u64 \<Rightarrow> int \<Rightarrow> SnapshotManager" where
  "publish m graph block_number timestamp_ns =
     (let (snapshot, m') = publish_fetch m graph block_number timestamp_ns in publish_store m' snapshot)"

section \<open>Interleaving of writers\<close>

text \<open>The manager with the snapshot each writer has built but not yet stored.\<close>

record shared =
  sh_manager :: SnapshotManager
  sh_pending :: "nat \<rightharpoonup> GraphSnapshot"

datatype act = Fetch nat PriceGraph u64 int | Store nat

inductive sh_step :: "shared \<Rightarrow> act \<Rightarrow> shared \<Rightarrow> bool" where
  fetch: "sh_pending s w = None \<Longrightarrow> publish_fetch (sh_manager s) g b t = (snap, m') \<Longrightarrow>
    sh_step s (Fetch w g b t) \<lparr>sh_manager = m', sh_pending = (sh_pending s)(w \<mapsto> snap)\<rparr>"
| store: "sh_pending s w = Some snap \<Longrightarrow>
    sh_step s (Store w) \<lparr>sh_manager = publish_store (sh_manager s) snap, sh_pending = (sh_pending s)(w := None)\<rparr>"

inductive_cases sh_fetchE: "sh_step s (Fetch w g b t) s'"
inductive_cases sh_storeE: "sh_step s (Store w) s'"

inductive sh_steps :: "shared \<Rightarrow> act list \<Rightarrow> shared \<Rightarrow> bool" where
  sh_nil: "sh_steps s [] s"
| sh_cons: "sh_step s a s' \<Longrightarrow> sh_steps s' as s'' \<Longrightarrow> sh_steps s (a # as) s''"

inductive_cases sh_consE: "sh_steps s (a # as) s'"
inductive_cases sh_nilE: "sh_steps s [] s'"

definition sh_init :: "PriceGraph \<Rightarrow> shared" where
  "sh_init g = \<lparr>sh_manager = manager_new g, sh_pending = Map.empty\<rparr>"

fun act_writer :: "act \<Rightarrow> nat" where
  "act_writer (Fetch w g b t) = w"
| "act_writer (Store w) = w"

fun is_fetch :: "act \<Rightarrow> bool" where
  "is_fetch (Fetch w g b t) = True"
| "is_fetch (Store w) = False"

lemma sh_fetchI:
  "sh_pending s w = None \<Longrightarrow> sh_step s (Fetch w g b t)
     \<lparr>sh_manager = snd (publish_fetch (sh_manager s) g b t),
      sh_pending = (sh_pending s)(w \<mapsto> fst (publish_fetch (sh_manager s) g b t))\<rparr>"
  by (rule fetch) simp_all

lemmas publish_unfold = sh_init_def manager_new_def snapshot_new_def publish_fetch_def publish_store_def
  sm_load_def sm_version_def Let_def

text \<open>With one writer: the stored version trails the counter by at most the publish in flight.\<close>

definition solo_inv :: "nat \<Rightarrow> nat \<Rightarrow> shared \<Rightarrow> bool" where
  "solo_inv w n s \<longleftrightarrow>
     unat (sm_version_counter (sh_manager s)) = n
     \<and> dom (sh_pending s) \<subseteq> {w}
     \<and> (case sh_pending s w of
          None \<Rightarrow> unat (gs_version (sm_current (sh_manager s))) = n
        | Some snap \<Rightarrow> unat (gs_version snap) = n \<and> Suc (unat (gs_version (sm_current (sh_manager s)))) = n)"

lemma solo_fetch:
  assumes "solo_inv w n s" and "sh_step s (Fetch w g b t) s'" and "Suc n < 2 ^ 64"
  shows "solo_inv w (Suc n) s' \<and> sm_current (sh_manager s') = sm_current (sh_manager s)"
proof -
  have n: "unat (sm_version_counter (sh_manager s)) = n" using assms(1) by (simp add: solo_inv_def)
  then have inc: "unat (sm_version_counter (sh_manager s) + 1) = Suc n"
    using assms(3) unat_add_lem [of "sm_version_counter (sh_manager s)" 1] by simp
  from assms(2) show ?thesis
    by (rule sh_fetchE) (use assms(1) inc in \<open>auto simp: solo_inv_def publish_fetch_def snapshot_new_def Let_def\<close>)
qed

lemma solo_store:
  assumes "solo_inv w n s" and "sh_step s (Store w) s'"
  shows "solo_inv w n s' \<and> unat (gs_version (sm_current (sh_manager s))) \<le> unat (gs_version (sm_current (sh_manager s')))"
  using assms(2) by (rule sh_storeE) (use assms(1) in \<open>auto simp: solo_inv_def publish_store_def\<close>)

lemma solo_steps:
  assumes "sh_steps s as s'" and "solo_inv w n s" and "list_all (\<lambda>a. act_writer a = w) as"
    and "n + length (filter is_fetch as) < 2 ^ 64"
  shows "solo_inv w (n + length (filter is_fetch as)) s'
    \<and> unat (gs_version (sm_current (sh_manager s))) \<le> unat (gs_version (sm_current (sh_manager s')))"
  using assms
proof (induction arbitrary: n rule: sh_steps.induct)
  case (sh_cons s a s' as s'')
  show ?case
  proof (cases a)
    case (Fetch w' g b t)
    with sh_cons.prems have "solo_inv w (Suc n) s' \<and> sm_current (sh_manager s') = sm_current (sh_manager s)"
      using solo_fetch [of w n s g b t s'] sh_cons.hyps(1) by simp
    then show ?thesis using sh_cons.IH [of "Suc n"] sh_cons.prems Fetch by simp
  next
    case (Store w')
    with sh_cons.prems have "solo_inv w n s'
        \<and> unat (gs_version (sm_current (sh_manager s))) \<le> unat (gs_version (sm_current (sh_manager s')))"
      using solo_store [of w n s s'] sh_cons.hyps(1) by simp
    then show ?thesis using sh_cons.IH [of n] sh_cons.prems Store by auto
  qed
qed simp

lemma solo_init: "solo_inv w 0 (sh_init g)"
  by (simp add: solo_inv_def sh_init_def manager_new_def snapshot_new_def)

text \<open>C31: with a single writer, however its publishes interleave with loads, the version a reader loads
  never decreases, never exceeds the counter, and equals the number of publishes so far whenever no
  publish is in flight.\<close>

theorem single_writer_monotone:
  assumes "sh_steps (sh_init g) as s" and "sh_steps s bs s'"
    and "list_all (\<lambda>a. act_writer a = w) (as @ bs)"
    and "length (filter is_fetch (as @ bs)) < 2 ^ 64"
  shows "gs_version (sm_load (sh_manager s)) \<le> gs_version (sm_load (sh_manager s'))
    \<and> gs_version (sm_load (sh_manager s')) \<le> sm_version (sh_manager s')
    \<and> (sh_pending s' w = None \<longrightarrow>
         unat (gs_version (sm_load (sh_manager s'))) = length (filter is_fetch (as @ bs)))"
proof -
  have "solo_inv w (length (filter is_fetch as)) s"
    using solo_steps [OF assms(1) solo_init [of w g]] assms(3,4) by simp
  from solo_steps [OF assms(2) this] assms(3,4)
  have "solo_inv w (length (filter is_fetch as) + length (filter is_fetch bs)) s'"
    and "unat (gs_version (sm_current (sh_manager s))) \<le> unat (gs_version (sm_current (sh_manager s')))"
    by simp_all
  then show ?thesis
    by (auto simp: solo_inv_def sm_load_def sm_version_def word_le_nat_alt split: option.splits)
qed

theorem single_writer_monotone_witness:
  "\<exists>s s'. sh_steps (sh_init (pg_new 0)) [Fetch 1 (pg_new 2) 10 5] s \<and> sh_steps s [Store 1] s'
    \<and> gs_version (sm_load (sh_manager s)) \<le> gs_version (sm_load (sh_manager s'))"
proof -
  obtain s where s: "sh_steps (sh_init (pg_new 0)) [Fetch 1 (pg_new 2) 10 5] s" "sh_pending s 1 \<noteq> None"
    using sh_cons [OF sh_fetchI sh_nil, of "sh_init (pg_new 0)" 1 "pg_new 2" 10 5] by (fastforce simp: sh_init_def)
  then obtain s' where "sh_steps s [Store 1] s'" using sh_cons [OF store sh_nil] by blast
  with single_writer_monotone [OF s(1) this, of 1] s(1) show ?thesis by auto
qed

text \<open>With two writers the published version can go backwards: the writer that drew the smaller
  version may store last, after which readers are served the older snapshot although the counter is
  ahead of it and no publish is in flight.\<close>

theorem two_writers_regress:
  "\<exists>s s'. sh_steps (sh_init g0) [Fetch 1 g1 10 5, Fetch 2 g2 11 6, Store 2] s \<and> sh_steps s [Store 1] s'
    \<and> gs_version (sm_load (sh_manager s)) = 2 \<and> gs_version (sm_load (sh_manager s')) = 1
    \<and> sm_version (sh_manager s') = 2 \<and> sh_pending s' = Map.empty"
  apply (intro exI conjI)
       apply (rule sh_cons, rule sh_fetchI)
        apply (simp add: sh_init_def)
       apply (rule sh_cons, rule sh_fetchI)
        apply (simp add: sh_init_def)
       apply (rule sh_cons [OF store sh_nil], simp)
      apply (rule sh_cons [OF store sh_nil], simp)
  by (auto simp: publish_unfold)

end
