(* ===== verification/Opportunity.thy ===== *)
theory Opportunity
  imports F64 Common_Types "HOL-Library.Multiset"
begin

text \<open>
  Ranked opportunities (\<^verbatim>\<open>detector/src/opportunity.rs\<close>): the detected cycle, the score of an
  opportunity and the top-\<open>k\<close> collector. \<^verbatim>\<open>U256::to::<u128>()\<close> panics from \<open>2 ^ 128\<close> on. The
  exponential function is a parameter.
\<close>

section \<open>Model\<close>

record DetectedCycle =
  dc_path :: "nat list"
  dc_total_weight :: f64

definition is_profitable :: "DetectedCycle \<Rightarrow> bool" where
  "is_profitable c \<longleftrightarrow> f64_lt (dc_total_weight c) (Num 0)"

definition profit_factor :: "(f64 \<Rightarrow> f64) \<Rightarrow> DetectedCycle \<Rightarrow> f64" where
  "profit_factor expf c = f64_sub (expf (f64_neg (dc_total_weight c))) (Num 1)"

definition num_hops :: "DetectedCycle \<Rightarrow> nat" where
  "num_hops c = (if length (dc_path c) \<le> 1 then 0 else length (dc_path c) - 1)"

record RankedOpportunity =
  ro_opportunity :: ArbOpportunity
  ro_score :: f64

definition to_u128 :: "u256 \<Rightarrow> u128 exec" where
  "to_u128 x = (if uint x < 2 ^ 128 then Ret (ucast x) else Panic CastOverflow)"

definition ranked_new :: "ArbOpportunity \<Rightarrow> RankedOpportunity exec" where
  "ranked_new opp =
     ebind (to_u128 (opp_gas_cost_wei opp)) (\<lambda>gas.
     ebind (to_u128 (opp_net_profit_wei opp)) (\<lambda>net.
       let gas_cost = f64_of_word gas;
           net_profit = f64_of_word net;
           score = (if f64_lt (Num 0) gas_cost then f64_div net_profit gas_cost else Num 0)
       in Ret \<lparr>ro_opportunity = opp, ro_score = score\<rparr>))"

record TopKCollector =
  tk_opportunities :: "RankedOpportunity list"
  tk_k :: nat

definition topk_new :: "nat \<Rightarrow> TopKCollector" where
  "topk_new k = \<lparr>tk_opportunities = [], tk_k = k\<rparr>"

definition by_score :: "RankedOpportunity \<Rightarrow> RankedOpportunity \<Rightarrow> ordering" where
  "by_score a b = f64_cmp (ro_score b) (ro_score a)"

definition topk_insert :: "TopKCollector \<Rightarrow> RankedOpportunity \<Rightarrow> TopKCollector" where
  "topk_insert c opp =
     (let os = tk_opportunities c in
      if length os < tk_k c then c\<lparr>tk_opportunities := sort_by by_score (os @ [opp])\<rparr>
      else if os = [] then c
      else if f64_lt (ro_score (last os)) (ro_score opp)
        then c\<lparr>tk_opportunities := sort_by by_score (butlast os @ [opp])\<rparr>
      else c)"

definition topk_results :: "TopKCollector \<Rightarrow> RankedOpportunity list" where
  "topk_results c = tk_opportunities c"

definition into_results :: "TopKCollector \<Rightarrow> RankedOpportunity list" where
  "into_results c = tk_opportunities c"

definition topk_len :: "TopKCollector \<Rightarrow> nat" where
  "topk_len c = length (tk_opportunities c)"

definition topk_is_empty :: "TopKCollector \<Rightarrow> bool" where
  "topk_is_empty c \<longleftrightarrow> tk_opportunities c = []"

section \<open>Scores\<close>

lemma to_u128_Ret_iff: "to_u128 x = Ret y \<longleftrightarrow> unat x < 2 ^ 128 \<and> y = ucast x"
  unfolding to_u128_def uint_nat of_nat_less_numeral_power_cancel_iff by auto

lemma ranked_new_score:
  assumes "ranked_new opp = Ret r"
  shows "ro_score r \<noteq> NaN"
  using assms unfolding ranked_new_def
  by (auto simp: exec_simps Let_def f64_div_not_NaN f64_of_word_finite split: if_splits)

section \<open>The collector keeps the best\<close>

text \<open>Invariant of a collector that has been offered the multiset \<open>M\<close>.\<close>

definition topk_inv :: "RankedOpportunity multiset \<Rightarrow> TopKCollector \<Rightarrow> bool" where
  "topk_inv M c \<longleftrightarrow>
     mset (tk_opportunities c) \<subseteq># M
     \<and> length (tk_opportunities c) = min (tk_k c) (size M)
     \<and> sorted_wrt (\<lambda>a b. f64_le (ro_score b) (ro_score a)) (tk_opportunities c)
     \<and> (\<forall>x \<in> set (tk_opportunities c). \<forall>y \<in># M - mset (tk_opportunities c). f64_le (ro_score y) (ro_score x))"

lemma sort_by_score:
  assumes "\<forall>x \<in> set xs. ro_score x \<noteq> NaN"
  shows "sorted_wrt (\<lambda>a b. f64_le (ro_score b) (ro_score a)) (sort_by by_score xs)"
  unfolding by_score_def [abs_def] using assms by (rule sort_by_desc)

lemma topk_inv_insert:
  assumes inv: "topk_inv M c" and nan: "\<forall>x \<in># add_mset opp M. ro_score x \<noteq> NaN"
  shows "topk_inv (add_mset opp M) (topk_insert c opp)"
proof -
  define os where "os = tk_opportunities c"
  have sub: "mset os \<subseteq># M" and len: "length os = min (tk_k c) (size M)"
    and sorted: "sorted_wrt (\<lambda>a b. f64_le (ro_score b) (ro_score a)) os"
    and best: "\<And>x y. x \<in> set os \<Longrightarrow> y \<in># M - mset os \<Longrightarrow> f64_le (ro_score y) (ro_score x)"
    using inv by (auto simp: topk_inv_def os_def)
  have mem: "ro_score x \<noteq> NaN" if "x \<in> set os" for x using nan that sub by (auto dest: mset_subset_eqD)
  consider (room) "length os < tk_k c" | (none) "tk_k c = 0" "os = []"
    | (full) bs w where "os = bs @ [w]" "length os = tk_k c"
    using len by (cases os rule: rev_cases) fastforce+
  then show ?thesis
  proof cases
    case room
    then have "size (mset os) = size M" using len by auto
    then have "mset os = M" using sub by (metis less_irrefl mset_subset_size subset_mset.le_imp_less_or_eq)
    moreover have "sorted_wrt (\<lambda>a b. f64_le (ro_score b) (ro_score a)) (sort_by by_score (os @ [opp]))"
      using nan mem by (intro sort_by_score) auto
    moreover have "length os = size M" using room len by auto
    ultimately show ?thesis using room by (simp add: topk_inv_def topk_insert_def os_def [symmetric])
  next
    case none
    then show ?thesis by (simp add: topk_inv_def topk_insert_def os_def [symmetric])
  next
    case full
    have kmax: "tk_k c \<le> size M" using full len by simp
    have low: "f64_le (ro_score w) (ro_score x)" if "x \<in> set os" for x
      using that sorted mem full(1) by (auto simp: sorted_wrt_append)
    show ?thesis
    proof (cases "f64_lt (ro_score w) (ro_score opp)")
      case True
      define rest where "rest = M - mset os"
      have M: "M = rest + mset os" using sub by (simp add: rest_def)
      have "f64_le (ro_score w) (ro_score opp)" using True by (rule f64_lt_imp_le)
      then have "f64_le (ro_score y) (ro_score x)" if "x \<in> insert opp (set bs)" "y \<in># add_mset w rest" for x y
        using that low best full(1) f64_le_trans unfolding rest_def by (auto; blast)
      moreover have "add_mset opp M - add_mset opp (mset bs) = add_mset w rest" using full(1) by (simp add: M)
      moreover have "sorted_wrt (\<lambda>a b. f64_le (ro_score b) (ro_score a)) (sort_by by_score (bs @ [opp]))"
        using nan mem full(1) by (intro sort_by_score) auto
      moreover have "mset bs \<subseteq># M" using full(1) by (simp add: M subset_mset.add_increasing)
      ultimately show ?thesis
        using full True kmax by (simp add: topk_inv_def topk_insert_def os_def [symmetric])
    next
      case False
      have opp: "f64_le (ro_score opp) (ro_score x)" if "x \<in> set os" for x
        using False nan mem [of w] low [OF that] full(1) f64_not_lt f64_le_trans by auto
      have "add_mset opp M - mset os = add_mset opp (M - mset os)"
        using multiset_diff_union_assoc [OF sub, of "{#opp#}"] by simp
      then show ?thesis
        using full False kmax sub sorted best opp
        by (auto simp: topk_inv_def topk_insert_def os_def [symmetric] subset_mset.add_increasing2
            intro: subset_mset.order_trans)
    qed
  qed
qed

lemma topk_inv_run:
  assumes "topk_inv M c" and "\<forall>x \<in># M + mset rs. ro_score x \<noteq> NaN"
  shows "topk_inv (M + mset rs) (foldl topk_insert c rs)"
  using assms
proof (induction rs arbitrary: M c)
  case (Cons r rs)
  have "topk_inv (add_mset r M) (topk_insert c r)" using Cons.prems by (intro topk_inv_insert) auto
  from Cons.IH [OF this] Cons.prems show ?case by simp
qed simp

lemma tk_k_run: "tk_k (foldl topk_insert c rs) = tk_k c"
  by (induction rs arbitrary: c) (auto simp: topk_insert_def Let_def)

text \<open>C20: after any sequence of scored opportunities the collector holds, best score first, a
  sub-multiset of them of size \<open>min k n\<close>, and every opportunity it dropped scores no
  better than any it kept. Scores computed from an opportunity are never NaN.\<close>

theorem topk_keeps_best:
  assumes "list_all (\<lambda>r. ranked_new (ro_opportunity r) = Ret r) rs"
  shows "sorted_wrt (\<lambda>a b. f64_le (ro_score b) (ro_score a)) (topk_results (foldl topk_insert (topk_new k) rs))
    \<and> length (topk_results (foldl topk_insert (topk_new k) rs)) = min k (length rs)
    \<and> mset (topk_results (foldl topk_insert (topk_new k) rs)) \<subseteq># mset rs
    \<and> (\<forall>x \<in> set (topk_results (foldl topk_insert (topk_new k) rs)).
         \<forall>y \<in># mset rs - mset (topk_results (foldl topk_insert (topk_new k) rs)).
           f64_le (ro_score y) (ro_score x))"
proof -
  have "\<forall>x \<in> set rs. ro_score x \<noteq> NaN" using assms ranked_new_score by (auto simp: list_all_iff)
  then have "topk_inv (mset rs) (foldl topk_insert (topk_new k) rs)"
    using topk_inv_run [of "{#}" "topk_new k" rs] by (simp add: topk_inv_def topk_new_def)
  moreover have "tk_k (foldl topk_insert (topk_new k) rs) = k" by (simp add: tk_k_run topk_new_def)
  ultimately show ?thesis unfolding topk_inv_def topk_results_def by simp
qed

definition opp_demo :: "nat \<Rightarrow> u256 \<Rightarrow> ArbOpportunity" where
  "opp_demo n net = \<lparr>opp_id = replicate n CHR ''a'', opp_hops = [], opp_total_profit_wei = net, opp_total_gas = 0,
     opp_gas_cost_wei = 0, opp_net_profit_wei = net, opp_block_number = 1, opp_timestamp_ns = 0\<rparr>"

theorem topk_keeps_best_witness:
  "\<exists>r1 r2. ranked_new (opp_demo 1 5) = Ret r1 \<and> ranked_new (opp_demo 2 6) = Ret r2
    \<and> length (topk_results (foldl topk_insert (topk_new 1) [r1, r2])) = 1"
proof -
  define r1 where "r1 = \<lparr>ro_opportunity = opp_demo 1 5, ro_score = Num 0\<rparr>"
  define r2 where "r2 = \<lparr>ro_opportunity = opp_demo 2 6, ro_score = Num 0\<rparr>"
  have r: "ranked_new (opp_demo 1 5) = Ret r1" "ranked_new (opp_demo 2 6) = Ret r2"
    by (simp_all add: ranked_new_def r1_def r2_def opp_demo_def to_u128_def f64_of_word_def f64_of_rat_def Let_def)
  then have "list_all (\<lambda>r. ranked_new (ro_opportunity r) = Ret r) [r1, r2]" by (simp add: r1_def r2_def)
  from topk_keeps_best [OF this, of 1] r show ?thesis by auto
qed

end
