(* ===== verification/Bellman_Ford.thy ===== *)
theory Bellman_Ford
  imports Price_Graph_Refine Opportunity
begin

text \<open>
  Negative-cycle detection (\<^verbatim>\<open>detector/src/bellman_ford.rs\<close>): the queue-based relaxation with the
  small-label-first rule, the extraction of a cycle from the predecessor array and the two entry
  points. Every indexed access is checked, the relaxation counters are 32-bit words, and the wall
  clock is the parameter \<open>elapsed\<close>: the microseconds read at the \<open>k\<close>-th iteration of the loop. The loop takes
  fuel; \<^term>\<open>None\<close> means it ran out.
\<close>

section \<open>Model\<close>

record BellmanFord =
  bf_max_hops :: nat
  bf_max_time_us :: u64

definition bf_new :: "nat \<Rightarrow> u64 \<Rightarrow> BellmanFord" where
  "bf_new max_hops max_time_us = \<lparr>bf_max_hops = max_hops, bf_max_time_us = max_time_us\<rparr>"

type_synonym out_edges = "nat \<Rightarrow> PriceEdge list"

definition index_set :: "'a list \<Rightarrow> nat \<Rightarrow> 'a \<Rightarrow> 'a list exec" where
  "index_set xs i x = (if i < length xs then Ret (xs[i := x]) else Panic IndexOutOfBounds)"

fun walk_back :: "nat option list \<Rightarrow> nat \<Rightarrow> nat \<Rightarrow> nat option exec" where
  "walk_back pred 0 v = Ret (Some v)"
| "walk_back pred (Suc k) v = eobind (index pred v) (walk_back pred k)"

fun trace_cycle :: "nat option list \<Rightarrow> nat \<Rightarrow> nat \<Rightarrow> nat \<Rightarrow> nat list \<Rightarrow> (nat list \<times> nat) option exec" where
  "trace_cycle pred cycle_start 0 current path = Ret (Some (path, current))"
| "trace_cycle pred cycle_start (Suc k) current path =
     (if current = cycle_start then Ret (Some (path, current))
      else eobind (index pred current) (\<lambda>next. trace_cycle pred cycle_start k next (path @ [current])))"

definition best_edge :: "out_edges \<Rightarrow> nat \<Rightarrow> nat \<Rightarrow> PriceEdge option" where
  "best_edge out src dst =
     min_by (\<lambda>a b. f64_cmp (pe_weight a) (pe_weight b)) (filter (\<lambda>e. pe_to e = dst \<and> \<not> pe_filtered e) (out src))"

fun path_weight :: "out_edges \<Rightarrow> nat list \<Rightarrow> f64 \<Rightarrow> f64 option" where
  "path_weight out (a # b # rest) acc =
     (case best_edge out a b of
        None \<Rightarrow> None
      | Some e \<Rightarrow> path_weight out (b # rest) (f64_add acc (pe_weight e)))"
| "path_weight out _ acc = Some acc"

definition extract_cycle ::
    "BellmanFord \<Rightarrow> nat \<Rightarrow> out_edges \<Rightarrow> nat option list \<Rightarrow> nat \<Rightarrow> DetectedCycle option exec" where
  "extract_cycle bf n out pred start =
     eobind (walk_back pred n start) (\<lambda>cycle_start.
     eobind (index pred cycle_start) (\<lambda>current.
     eobind (trace_cycle pred cycle_start n current [cycle_start]) (\<lambda>(path, current).
       if current \<noteq> cycle_start then Ret None
       else
         let path = rev path;
             path = path @ [hd path]
         in if length path - 1 > bf_max_hops bf then Ret None
            else
              (case path_weight out path (Num 0) of
                 None \<Rightarrow> Ret None
               | Some w \<Rightarrow> Ret (Some \<lparr>dc_path = path, dc_total_weight = w\<rparr>)))))"

record spfa =
  sp_dist :: "f64 list"
  sp_pred :: "nat option list"
  sp_inq :: "bool list"
  sp_count :: "u32 list"
  sp_queue :: "nat list"
  sp_cycles :: "DetectedCycle list"
  sp_visited :: "bool list"

definition EPS :: f64 where
  "EPS = f64_of_rat (1 / 10000000000)"

fun mark_all :: "bool list \<Rightarrow> nat list \<Rightarrow> bool list exec" where
  "mark_all visited [] = Ret visited"
| "mark_all visited (v # vs) = ebind (index_set visited v True) (\<lambda>visited. mark_all visited vs)"

fun enqueue :: "f64 list \<Rightarrow> nat list \<Rightarrow> nat \<Rightarrow> nat list exec" where
  "enqueue ds [] v = Ret [v]"
| "enqueue ds (front # q) v =
     ebind (index ds v) (\<lambda>dv. ebind (index ds front) (\<lambda>df.
       Ret (if f64_lt dv df then v # front # q else front # q @ [v])))"

text \<open>A vertex relaxed \<open>n\<close> times: extract and record the cycle unless the vertex is on a reported one.\<close>

definition report_cycle :: "BellmanFord \<Rightarrow> nat \<Rightarrow> out_edges \<Rightarrow> nat \<Rightarrow> spfa \<Rightarrow> spfa exec" where
  "report_cycle bf n out v st =
     ebind (index (sp_visited st) v) (\<lambda>seen.
       if seen then Ret st
       else ebind (extract_cycle bf n out (sp_pred st) v) (\<lambda>r.
         case r of
           None \<Rightarrow> Ret st
         | Some c \<Rightarrow> ebind (mark_all (sp_visited st) (dc_path c)) (\<lambda>visited.
             Ret (st\<lparr>sp_visited := visited, sp_cycles := sp_cycles st @ [c]\<rparr>))))"

text \<open>Otherwise the vertex joins the queue, at the front when its label is smaller than the front's.\<close>

definition requeue :: "nat \<Rightarrow> spfa \<Rightarrow> spfa exec" where
  "requeue v st =
     ebind (index (sp_inq st) v) (\<lambda>queued.
       if queued then Ret st
       else ebind (enqueue (sp_dist st) (sp_queue st) v) (\<lambda>queue.
         ebind (index_set (sp_inq st) v True) (\<lambda>inq.
           Ret (st\<lparr>sp_queue := queue, sp_inq := inq\<rparr>))))"

text \<open>The body of the inner loop for one outgoing edge of \<open>u\<close>.\<close>

definition relax :: "BellmanFord \<Rightarrow> nat \<Rightarrow> out_edges \<Rightarrow> nat \<Rightarrow> spfa \<Rightarrow> PriceEdge \<Rightarrow> spfa exec" where
  "relax bf n out u st e =
     (if pe_filtered e then Ret st
      else
        let v = pe_to e in
        ebind (index (sp_dist st) u) (\<lambda>du.
        ebind (index (sp_dist st) v) (\<lambda>dv.
        let new_dist = f64_add du (pe_weight e) in
        if f64_lt new_dist (f64_sub dv EPS) then
          ebind (index_set (sp_dist st) v new_dist) (\<lambda>dist.
          ebind (index_set (sp_pred st) v (Some u)) (\<lambda>pred.
          ebind (index (sp_count st) v) (\<lambda>c.
          ebind (index_set (sp_count st) v (c + 1)) (\<lambda>count.
          let st = st\<lparr>sp_dist := dist, sp_pred := pred, sp_count := count\<rparr> in
          if c + 1 \<ge> of_nat n then report_cycle bf n out v st else requeue v st))))
        else Ret st)))"

fun scan :: "BellmanFord \<Rightarrow> nat \<Rightarrow> out_edges \<Rightarrow> nat \<Rightarrow> PriceEdge list \<Rightarrow> spfa \<Rightarrow> spfa exec" where
  "scan bf n out u [] st = Ret st"
| "scan bf n out u (e # es) st = ebind (relax bf n out u st e) (scan bf n out u es)"

fun spfa_loop ::
    "BellmanFord \<Rightarrow> nat \<Rightarrow> out_edges \<Rightarrow> (nat \<Rightarrow> u64) \<Rightarrow> nat \<Rightarrow> nat \<Rightarrow> spfa \<Rightarrow> spfa option exec" where
  "spfa_loop bf n out elapsed fuel k st =
     (case sp_queue st of
        [] \<Rightarrow> Ret (Some st)
      | u # queue \<Rightarrow>
          (case fuel of
             0 \<Rightarrow> Ret None
           | Suc fuel' \<Rightarrow>
               ebind (index_set (sp_inq st) u False) (\<lambda>inq.
               let st = st\<lparr>sp_queue := queue, sp_inq := inq\<rparr> in
               if elapsed k > bf_max_time_us bf then Ret (Some st)
               else ebind (scan bf n out u (out u) st) (spfa_loop bf n out elapsed fuel' (Suc k)))))"

declare spfa_loop.simps [simp del]

definition by_weight :: "DetectedCycle \<Rightarrow> DetectedCycle \<Rightarrow> ordering" where
  "by_weight a b = f64_cmp (dc_total_weight a) (dc_total_weight b)"

definition spfa_full :: "nat \<Rightarrow> spfa" where
  "spfa_full n =
     \<lparr>sp_dist = replicate n (Num 0), sp_pred = replicate n None, sp_inq = replicate n True,
      sp_count = replicate n 0, sp_queue = [0..<n], sp_cycles = [], sp_visited = replicate n False\<rparr>"

definition detect_negative_cycles ::
    "BellmanFord \<Rightarrow> (nat \<Rightarrow> u64) \<Rightarrow> PriceGraph \<Rightarrow> DetectedCycle list option exec" where
  "detect_negative_cycles bf elapsed g =
     (let n = pg_num_vertices g in
      if n = 0 then Ret (Some [])
      else emap (map_option (\<lambda>st. sort_by by_weight (sp_cycles st)))
             (spfa_loop bf n (edges_from g) elapsed (n + n * n) 0 (spfa_full n)))"

fun seed :: "nat \<Rightarrow> nat list \<Rightarrow> spfa \<Rightarrow> spfa" where
  "seed n [] st = st"
| "seed n (v # vs) st =
     seed n vs (if v < n then st\<lparr>sp_dist := (sp_dist st)[v := Num 0], sp_queue := sp_queue st @ [v],
                                 sp_inq := (sp_inq st)[v := True]\<rparr> else st)"

definition spfa_partial :: "nat \<Rightarrow> nat list \<Rightarrow> spfa" where
  "spfa_partial n affected =
     seed n affected
       \<lparr>sp_dist = replicate n PInf, sp_pred = replicate n None, sp_inq = replicate n False,
        sp_count = replicate n 0, sp_queue = [], sp_cycles = [], sp_visited = replicate n False\<rparr>"

definition detect_from_affected ::
    "BellmanFord \<Rightarrow> (nat \<Rightarrow> u64) \<Rightarrow> PriceGraph \<Rightarrow> nat list \<Rightarrow> DetectedCycle list option exec" where
  "detect_from_affected bf elapsed g affected =
     (if affected = [] then Ret (Some [])
      else
        let n = pg_num_vertices g in
        if n = 0 then Ret (Some [])
        else emap (map_option (\<lambda>st. sort_by by_weight (sp_cycles st)))
               (spfa_loop bf n (edges_from g) elapsed (length affected + n * n) 0 (spfa_partial n affected)))"

section \<open>Extracted cycles\<close>

text \<open>What a reported cycle promises.\<close>

definition cycle_ok :: "BellmanFord \<Rightarrow> nat \<Rightarrow> out_edges \<Rightarrow> DetectedCycle \<Rightarrow> bool" where
  "cycle_ok bf n out c \<longleftrightarrow>
     2 \<le> length (dc_path c) \<and> hd (dc_path c) = last (dc_path c)
     \<and> distinct (butlast (dc_path c)) \<and> num_hops c \<le> bf_max_hops bf
     \<and> list_all (\<lambda>v. v < n) (dc_path c)
     \<and> path_weight out (dc_path c) (Num 0) = Some (dc_total_weight c)"

definition pred_ok :: "nat \<Rightarrow> nat option list \<Rightarrow> bool" where
  "pred_ok n pred \<longleftrightarrow> length pred = n \<and> (\<forall>v < n. \<forall>u. pred ! v = Some u \<longrightarrow> u < n)"

lemma walk_back_ok:
  assumes "pred_ok n pred" and "v < n"
  shows "\<exists>r. walk_back pred k v = Ret r \<and> (\<forall>u. r = Some u \<longrightarrow> u < n)"
  using assms(2)
proof (induction k arbitrary: v)
  case (Suc k)
  then have "index pred v = Ret (pred ! v)" using assms(1) by (simp add: pred_ok_def)
  then show ?case using Suc assms(1) by (cases "pred ! v") (auto simp: pred_ok_def)
qed simp

text \<open>The predecessor as a function; the trace follows its iterates.\<close>

definition prev :: "nat option list \<Rightarrow> nat \<Rightarrow> nat" where
  "prev pred v = (case pred ! v of Some u \<Rightarrow> u | None \<Rightarrow> v)"

lemma trace_cycle_ok:
  assumes "pred_ok n pred" and "s < n" and "(prev pred ^^ i) s < n" and "0 < i"
    and "\<forall>j < i. (prev pred ^^ j) s < n" and "\<forall>j. 0 < j \<and> j < i \<longrightarrow> (prev pred ^^ j) s \<noteq> s"
  shows "\<exists>r. trace_cycle pred s k ((prev pred ^^ i) s) (map (\<lambda>j. (prev pred ^^ j) s) [0..<i]) = Ret r
    \<and> (\<forall>path cur. r = Some (path, cur) \<longrightarrow> (\<exists>m > 0. path = map (\<lambda>j. (prev pred ^^ j) s) [0..<m]
        \<and> cur = (prev pred ^^ m) s \<and> (\<forall>j < m. (prev pred ^^ j) s < n)
        \<and> (\<forall>j. 0 < j \<and> j < m \<longrightarrow> (prev pred ^^ j) s \<noteq> s)))"
  using assms(3-6)
proof (induction k arbitrary: i)
  case 0
  then show ?case by auto
next
  case (Suc k)
  define cur where "cur = (prev pred ^^ i) s"
  have idx: "index pred cur = Ret (pred ! cur)" using assms(1) Suc.prems(1) by (simp add: cur_def pred_ok_def)
  show ?case
  proof (cases "cur = s")
    case True
    then show ?thesis using Suc.prems unfolding cur_def by auto
  next
    case False
    show ?thesis
    proof (cases "pred ! cur")
      case None
      then show ?thesis using False idx by (simp add: cur_def [symmetric])
    next
      case (Some u)
      then have u: "u = (prev pred ^^ Suc i) s" by (simp add: prev_def cur_def)
      have "u < n" using assms(1) Suc.prems(1) Some by (auto simp: pred_ok_def cur_def)
      moreover have "(prev pred ^^ j) s < n" if "j < Suc i" for j using that Suc.prems by (auto simp: less_Suc_eq)
      moreover have "(prev pred ^^ j) s \<noteq> s" if "0 < j" "j < Suc i" for j
        using that Suc.prems(4) False by (auto simp: less_Suc_eq cur_def)
      ultimately show ?thesis
        using Suc.IH [of "Suc i"] False idx Some u by (simp add: cur_def [symmetric])
    qed
  qed
qed

text \<open>The iterates up to the first return are distinct.\<close>

lemma orbit_distinct:
  assumes "(f ^^ m) s = s" and "\<And>j. 0 < j \<Longrightarrow> j < m \<Longrightarrow> (f ^^ j) s \<noteq> s"
  shows "distinct (map (\<lambda>j. (f ^^ j) s) [0..<m])"
proof -
  have "i = j" if "i \<le> j" "j < m" "(f ^^ i) s = (f ^^ j) s" for i j
  proof (rule ccontr)
    assume "i \<noteq> j"
    have "(f ^^ (m - j + i)) s = (f ^^ (m - j)) ((f ^^ i) s)" by (simp add: funpow_add)
    also have "\<dots> = (f ^^ (m - j + j)) s" using that(3) by (simp add: funpow_add)
    also have "\<dots> = s" using that assms(1) by simp
    finally show False using assms(2) [of "m - j + i"] that \<open>i \<noteq> j\<close> by linarith
  qed
  then show ?thesis unfolding distinct_map inj_on_def by (auto, metis nat_le_linear)
qed

text \<open>Closing the reversed trace gives a simple closed path.\<close>

lemma closed_path_ok:
  assumes "m > 0" and "(prev pred ^^ m) s = s" and "\<forall>j < m. (prev pred ^^ j) s < n"
    and "\<And>j. 0 < j \<Longrightarrow> j < m \<Longrightarrow> (prev pred ^^ j) s \<noteq> s"
    and path: "path = rev (map (\<lambda>j. (prev pred ^^ j) s) [0..<m])"
    and "length (path @ [hd path]) - 1 \<le> bf_max_hops bf"
    and "path_weight out (path @ [hd path]) (Num 0) = Some w"
  shows "cycle_ok bf n out \<lparr>dc_path = path @ [hd path], dc_total_weight = w\<rparr>"
proof -
  have "path \<noteq> []" "length path = m" using assms(1) path by auto
  moreover have "distinct path" unfolding path using orbit_distinct [OF assms(2,4)] by simp
  moreover have "v < n" if "v \<in> set path" for v using that assms(3) by (auto simp: path)
  ultimately show ?thesis
    using assms(6,7) by (auto simp: cycle_ok_def num_hops_def list_all_iff neq_Nil_conv)
qed

lemma extract_cycle_ok:
  assumes "pred_ok n pred" and "v < n"
  shows "\<exists>r. extract_cycle bf n out pred v = Ret r \<and> (\<forall>c. r = Some c \<longrightarrow> cycle_ok bf n out c)"
proof -
  obtain r where r: "walk_back pred n v = Ret r" "\<And>u. r = Some u \<Longrightarrow> u < n"
    using walk_back_ok [OF assms] by blast
  show ?thesis
  proof (cases r)
    case (Some s)
    then have s: "s < n" using r by simp
    then have idx: "index pred s = Ret (pred ! s)" using assms(1) by (simp add: pred_ok_def)
    show ?thesis
    proof (cases "pred ! s")
      case (Some u)
      then have u: "u = (prev pred ^^ 1) s" "u < n" using assms(1) s by (auto simp: prev_def pred_ok_def)
      have first: "\<forall>j. 0 < j \<and> j < 1 \<longrightarrow> (prev pred ^^ j) s \<noteq> s" by auto
      obtain t where t: "trace_cycle pred s n u [s] = Ret t"
        "\<And>path cur. t = Some (path, cur) \<Longrightarrow> \<exists>m > 0. path = map (\<lambda>j. (prev pred ^^ j) s) [0..<m]
          \<and> cur = (prev pred ^^ m) s \<and> (\<forall>j < m. (prev pred ^^ j) s < n)
          \<and> (\<forall>j. 0 < j \<and> j < m \<longrightarrow> (prev pred ^^ j) s \<noteq> s)"
        using trace_cycle_ok [OF assms(1) s _ _ _ first, of n] u s by auto
      have eq: "extract_cycle bf n out pred v = eobind (Ret t) (\<lambda>(path, current).
          if current \<noteq> s then Ret None
          else let path = rev path; path = path @ [hd path]
               in if length path - 1 > bf_max_hops bf then Ret None
                  else (case path_weight out path (Num 0) of
                      None \<Rightarrow> Ret None | Some w \<Rightarrow> Ret (Some \<lparr>dc_path = path, dc_total_weight = w\<rparr>)))"
        unfolding extract_cycle_def using r(1) \<open>r = Some s\<close> idx Some t(1) by simp
      show ?thesis
      proof (cases t)
        case (Some pc)
        obtain path cur where pc: "pc = (path, cur)" by fastforce
        obtain m where m: "m > 0" "path = map (\<lambda>j. (prev pred ^^ j) s) [0..<m]" "cur = (prev pred ^^ m) s"
          "\<forall>j < m. (prev pred ^^ j) s < n" "\<And>j. 0 < j \<Longrightarrow> j < m \<Longrightarrow> (prev pred ^^ j) s \<noteq> s"
          using t(2) [OF Some [unfolded pc]] by blast
        define p where "p = rev path"
        have "cycle_ok bf n out \<lparr>dc_path = p @ [hd p], dc_total_weight = w\<rparr>"
          if "cur = s" "length (p @ [hd p]) - 1 \<le> bf_max_hops bf" "path_weight out (p @ [hd p]) (Num 0) = Some w" for w
          using that m by (intro closed_path_ok [of m pred s]) (simp_all add: p_def)
        then show ?thesis
          unfolding eq Some pc p_def Let_def by (auto split: option.split simp del: length_append)
      qed (simp add: eq)
    qed (use r Some idx in \<open>simp add: extract_cycle_def\<close>)
  qed (use r in \<open>simp add: extract_cycle_def\<close>)
qed

end
