(* ===== verification/Spfa_Correct.thy ===== *)
theory Spfa_Correct
  imports Bellman_Ford
begin

text \<open>
  Correctness of the detector: it never indexes out of range, its relaxation counters do not wrap, it
  stops within the fuel, and every cycle it reports is a closed simple path over unfiltered edges.
\<close>

section \<open>State invariant and potential\<close>

definition spfa_ok :: "BellmanFord \<Rightarrow> nat \<Rightarrow> out_edges \<Rightarrow> spfa \<Rightarrow> bool" where
  "spfa_ok bf n out st \<longleftrightarrow>
     length (sp_dist st) = n \<and> pred_ok n (sp_pred st) \<and> length (sp_inq st) = n \<and> length (sp_count st) = n
     \<and> length (sp_visited st) = n \<and> list_all (\<lambda>v. v < n) (sp_queue st)
     \<and> list_all (cycle_ok bf n out) (sp_cycles st)"

lemma spfa_okD:
  assumes "spfa_ok bf n out st"
  shows "length (sp_dist st) = n" "pred_ok n (sp_pred st)" "length (sp_inq st) = n" "length (sp_count st) = n"
    "length (sp_visited st) = n" "list_all (\<lambda>v. v < n) (sp_queue st)" "list_all (cycle_ok bf n out) (sp_cycles st)"
    "length (sp_pred st) = n"
  using assms by (simp_all add: spfa_ok_def pred_ok_def)

text \<open>An upper bound on the number of vertices still to be taken from the queue.\<close>

definition potential :: "nat \<Rightarrow> spfa \<Rightarrow> nat" where
  "potential n st = length (sp_queue st) + (\<Sum>c \<leftarrow> sp_count st. n - unat c)"

text \<open>\<open>r\<close> edges of the current vertex are still to be relaxed, then \<open>D\<close> for each further vertex.\<close>

definition counts_fit :: "nat \<Rightarrow> nat \<Rightarrow> nat \<Rightarrow> nat \<Rightarrow> spfa \<Rightarrow> bool" where
  "counts_fit n D B r st \<longleftrightarrow> (\<forall>c \<in> set (sp_count st). unat c + r + potential n st * D \<le> B)"

lemma sum_count_update:
  fixes cs :: "u32 list"
  assumes "v < length cs" and "unat c' = Suc (unat (cs ! v))"
  shows "(\<Sum>c \<leftarrow> cs[v := c']. n - unat c) + (if unat c' \<le> n then 1 else 0) = (\<Sum>c \<leftarrow> cs. n - unat c)"
proof -
  define f :: "u32 \<Rightarrow> nat" where "f = (\<lambda>c. n - unat c)"
  have "sum_list (map f (cs[v := c'])) = sum_list (map f cs) + f c' - f (cs ! v)"
    using assms(1) by (simp add: map_update sum_list_update)
  moreover have "f (cs ! v) \<le> sum_list (map f cs)"
    using assms(1) elem_le_sum_list [of v "map f cs"] by simp
  moreover have "f c' + (if unat c' \<le> n then 1 else 0) = f (cs ! v)" using assms(2) by (simp add: f_def) arith
  ultimately have "sum_list (map f (cs[v := c'])) + (if unat c' \<le> n then 1 else 0) = sum_list (map f cs)" by linarith
  then show ?thesis unfolding f_def .
qed

lemma index_set_in [simp]: "i < length xs \<Longrightarrow> index_set xs i x = Ret (xs[i := x])"
  by (simp add: index_set_def)

lemma mark_all_ok: "list_all (\<lambda>v. v < length visited) vs \<Longrightarrow>
    \<exists>visited'. mark_all visited vs = Ret visited' \<and> length visited' = length visited"
proof (induction vs arbitrary: visited)
  case (Cons v vs)
  then show ?case using Cons.IH [of "visited[v := True]"] by simp
qed simp

lemma enqueue_ok:
  assumes "v < length ds" and "list_all (\<lambda>v. v < length ds) q"
  shows "\<exists>q'. enqueue ds q v = Ret q' \<and> length q' = Suc (length q) \<and> set q' = insert v (set q)"
  using assms by (cases q) auto

lemma pred_ok_update: "pred_ok n pred \<Longrightarrow> u < n \<Longrightarrow> pred_ok n (pred[v := Some u])"
  by (cases "v < length pred") (auto simp: pred_ok_def nth_list_update list_update_beyond split: if_splits)

section \<open>Relaxing one edge\<close>

definition bump :: "nat \<Rightarrow> nat \<Rightarrow> f64 \<Rightarrow> spfa \<Rightarrow> spfa" where
  "bump u v d st = st\<lparr>sp_dist := (sp_dist st)[v := d], sp_pred := (sp_pred st)[v := Some u],
     sp_count := (sp_count st)[v := sp_count st ! v + 1]\<rparr>"

lemma bump_ok: "spfa_ok bf n out st \<Longrightarrow> u < n \<Longrightarrow> spfa_ok bf n out (bump u v d st)"
  by (simp add: spfa_ok_def bump_def pred_ok_update)

lemma counts_fit_weaken:
  assumes "counts_fit n D B r st" and "sp_count st' = sp_count st" and "potential n st' \<le> potential n st" and "r' \<le> r"
  shows "counts_fit n D B r' st'"
  unfolding counts_fit_def
proof
  fix c assume "c \<in> set (sp_count st')"
  then have "unat c + r + potential n st * D \<le> B" using assms(1,2) by (simp add: counts_fit_def)
  moreover have "potential n st' * D \<le> potential n st * D" using assms(3) by (rule mult_le_mono1)
  ultimately show "unat c + r' + potential n st' * D \<le> B" using assms(4) by linarith
qed

lemma bump_counts:
  assumes "spfa_ok bf n out st" and "v < n" and "counts_fit n D B (Suc r) st" and "B < 2 ^ 32"
  shows "unat (sp_count st ! v + 1) = Suc (unat (sp_count st ! v))"
    and "potential n (bump u v d st) + (if unat (sp_count st ! v + 1) \<le> n then 1 else 0) = potential n st"
    and "sp_count st' = sp_count (bump u v d st) \<Longrightarrow> potential n st' \<le> potential n st \<Longrightarrow> counts_fit n D B r st'"
proof -
  have v: "v < length (sp_count st)" using assms(1,2) by (simp add: spfa_okD)
  then have *: "unat (sp_count st ! v) + Suc r + potential n st * D \<le> B" using assms(3) by (simp add: counts_fit_def)
  then have small: "unat (sp_count st ! v) + 1 < 2 ^ 32" using assms(4) by linarith
  then show inc: "unat (sp_count st ! v + 1) = Suc (unat (sp_count st ! v))"
    using unat_add_lem [of "sp_count st ! v" 1] by simp
  show pot: "potential n (bump u v d st) + (if unat (sp_count st ! v + 1) \<le> n then 1 else 0) = potential n st"
    using sum_count_update [OF v inc, of n] by (simp add: potential_def bump_def)
  assume st': "sp_count st' = sp_count (bump u v d st)" "potential n st' \<le> potential n st"
  have le: "potential n st' * D \<le> potential n st * D" using st'(2) by (rule mult_le_mono1)
  show "counts_fit n D B r st'"
    unfolding counts_fit_def st'(1)
  proof
    fix c assume "c \<in> set (sp_count (bump u v d st))"
    then consider "c \<in> set (sp_count st)" | "c = sp_count st ! v + 1"
      using set_update_subset_insert [of "sp_count st" v] by (auto simp: bump_def)
    then have "unat c + r + potential n st * D \<le> B"
    proof cases
      case 1
      then have "unat c + Suc r + potential n st * D \<le> B" using assms(3) by (simp add: counts_fit_def)
      then show ?thesis by linarith
    next
      case 2
      then show ?thesis using * inc by simp
    qed
    then show "unat c + r + potential n st' * D \<le> B" using le by linarith
  qed
qed

lemma report_cycle_ok:
  assumes ok: "spfa_ok bf n out st" and v: "v < n"
  shows "\<exists>st'. report_cycle bf n out v st = Ret st' \<and> spfa_ok bf n out st' \<and> sp_count st' = sp_count st
    \<and> potential n st' = potential n st"
proof (cases "sp_visited st ! v")
  case True
  then show ?thesis using ok v by (simp add: report_cycle_def spfa_okD)
next
  case False
  note len = spfa_okD [OF ok]
  obtain r where r: "extract_cycle bf n out (sp_pred st) v = Ret r" "\<And>c. r = Some c \<Longrightarrow> cycle_ok bf n out c"
    using extract_cycle_ok [OF len(2) v] by blast
  show ?thesis
  proof (cases r)
    case None
    then show ?thesis using False r(1) ok v len(5) by (simp add: report_cycle_def)
  next
    case (Some c)
    then obtain vis where vis: "mark_all (sp_visited st) (dc_path c) = Ret vis" "length vis = n"
      using mark_all_ok [of "sp_visited st" "dc_path c"] r(2) len(5) by (auto simp: cycle_ok_def)
    define st' where "st' = st\<lparr>sp_visited := vis, sp_cycles := sp_cycles st @ [c]\<rparr>"
    have "report_cycle bf n out v st = Ret st'"
      using False r(1) Some vis(1) v len(5) by (simp add: report_cycle_def st'_def)
    moreover have "spfa_ok bf n out st'" using ok vis(2) r(2) Some by (simp add: st'_def spfa_ok_def)
    ultimately show ?thesis by (simp add: st'_def potential_def)
  qed
qed

lemma requeue_ok:
  assumes ok: "spfa_ok bf n out st" and v: "v < n"
  shows "\<exists>st'. requeue v st = Ret st' \<and> spfa_ok bf n out st' \<and> sp_count st' = sp_count st
    \<and> potential n st' \<le> Suc (potential n st)"
proof (cases "sp_inq st ! v")
  case True
  then show ?thesis using ok v by (simp add: requeue_def spfa_okD)
next
  case False
  note len = spfa_okD [OF ok]
  obtain q where q: "enqueue (sp_dist st) (sp_queue st) v = Ret q"
    "length q = Suc (length (sp_queue st))" "set q = insert v (set (sp_queue st))"
    using enqueue_ok [of v "sp_dist st" "sp_queue st"] v len(1,6) by auto
  define st' where "st' = st\<lparr>sp_queue := q, sp_inq := (sp_inq st)[v := True]\<rparr>"
  have "requeue v st = Ret st'" using False q(1) v len(3) by (simp add: requeue_def st'_def)
  moreover have "spfa_ok bf n out st'"
    using ok q(3) len(3,6) v by (simp add: st'_def spfa_ok_def list_all_iff)
  ultimately show ?thesis using q(2) by (simp add: st'_def potential_def)
qed

lemma relax_ok:
  assumes ok: "spfa_ok bf n out st" and un: "u < n" and vn: "pe_to e < n"
    and w: "counts_fit n D B (Suc r) st" and B: "B < 2 ^ 32" and n: "n < 2 ^ 32"
  shows "\<exists>st'. relax bf n out u st e = Ret st' \<and> spfa_ok bf n out st' \<and> counts_fit n D B r st'
    \<and> potential n st' \<le> potential n st"
proof -
  define v where "v = pe_to e"
  define d where "d = f64_add (sp_dist st ! u) (pe_weight e)"
  define st1 where "st1 = bump u v d st"
  define c where "c = sp_count st ! v + 1"
  have v: "v < n" using vn by (simp add: v_def)
  have ok1: "spfa_ok bf n out st1" unfolding st1_def by (rule bump_ok [OF ok un])
  note pot1 = bump_counts(2) [OF ok v w B, of u d, folded st1_def c_def]
  note fit1 = bump_counts(3) [OF ok v w B, of _ u d, folded st1_def]
  have rel: "relax bf n out u st e =
      (if pe_filtered e \<or> \<not> f64_lt d (f64_sub (sp_dist st ! v) EPS) then Ret st
       else if c \<ge> of_nat n then report_cycle bf n out v st1 else requeue v st1)"
    unfolding relax_def using spfa_okD [OF ok] v un
    by (simp add: v_def [symmetric] d_def [symmetric] c_def [symmetric] st1_def bump_def Let_def)
  show ?thesis
  proof (cases "pe_filtered e \<or> \<not> f64_lt d (f64_sub (sp_dist st ! v) EPS)")
    case True
    then show ?thesis using rel ok counts_fit_weaken [OF w, of st r] by auto
  next
    case False
    show ?thesis
    proof (cases "c \<ge> of_nat n")
      case True
      then show ?thesis using False rel report_cycle_ok [OF ok1 v] fit1 pot1 by fastforce
    next
      case room: False
      then have "unat c < n" using n by (simp add: word_le_nat_alt unat_of_nat)
      then have "Suc (potential n st1) = potential n st" using pot1 by simp
      then show ?thesis using False room rel requeue_ok [OF ok1 v] fit1 by fastforce
    qed
  qed
qed

section \<open>The loop\<close>

lemma scan_ok:
  assumes "spfa_ok bf n out st" and "u < n" and "\<And>e. e \<in> set es \<Longrightarrow> pe_to e < n"
    and "counts_fit n D B (length es) st" and "B < 2 ^ 32" and "n < 2 ^ 32"
  shows "\<exists>st'. scan bf n out u es st = Ret st' \<and> spfa_ok bf n out st' \<and> counts_fit n D B 0 st'
    \<and> potential n st' \<le> potential n st"
  using assms(1,3,4)
proof (induction es arbitrary: st)
  case (Cons e es)
  obtain st1 where st1: "relax bf n out u st e = Ret st1" "spfa_ok bf n out st1"
    "counts_fit n D B (length es) st1" "potential n st1 \<le> potential n st"
    using relax_ok [OF Cons.prems(1) assms(2), of e D B "length es"] Cons.prems(2,3) assms(5,6) by auto
  then show ?case using Cons.IH [OF st1(2) _ st1(3)] Cons.prems(2) by fastforce
qed simp

text \<open>
  What the detector needs of the graph it is handed: every outgoing edge of a vertex leads to a vertex.
\<close>

locale graph_source =
  fixes good :: "'g \<Rightarrow> bool" and size_of :: "'g \<Rightarrow> nat" and out :: "'g \<Rightarrow> out_edges"
  assumes out_target: "good g \<Longrightarrow> e \<in> set (out g u) \<Longrightarrow> pe_to e < size_of g"
begin

lemma loop_ok:
  assumes "good g" and "spfa_ok bf (size_of g) (out g) st" and "\<And>u. length (out g u) \<le> D"
    and "counts_fit (size_of g) D B 0 st" and "B < 2 ^ 32" and "size_of g < 2 ^ 32"
    and "potential (size_of g) st \<le> fuel"
  shows "\<exists>st'. spfa_loop bf (size_of g) (out g) elapsed fuel k st = Ret (Some st')
    \<and> spfa_ok bf (size_of g) (out g) st'"
  using assms(2,4,7)
proof (induction fuel arbitrary: k st)
  case 0
  then have "sp_queue st = []" by (simp add: potential_def)
  then show ?case using "0.prems"(1) by (simp add: spfa_loop.simps)
next
  case (Suc fuel)
  define n where "n = size_of g"
  show ?case
  proof (cases "sp_queue st")
    case Nil
    then show ?thesis using Suc.prems(1) by (simp add: spfa_loop.simps)
  next
    case (Cons u q)
    define st1 where "st1 = st\<lparr>sp_queue := q, sp_inq := (sp_inq st)[u := False]\<rparr>"
    have u: "u < n" and len: "length (sp_inq st) = n"
      using spfa_okD(3,6) [OF Suc.prems(1)] Cons by (simp_all add: n_def)
    have ok1: "spfa_ok bf n (out g) st1" using Suc.prems(1) Cons by (simp add: st1_def spfa_ok_def n_def)
    have pot: "potential n st = Suc (potential n st1)" using Cons by (simp add: st1_def potential_def)
    have "counts_fit n D B (length (out g u)) st1"
      using Suc.prems(2) assms(3) [of u] unfolding counts_fit_def n_def [symmetric] pot
      by (fastforce simp: st1_def)
    then obtain st2 where st2: "scan bf n (out g) u (out g u) st1 = Ret st2" "spfa_ok bf n (out g) st2"
      "counts_fit n D B 0 st2" "potential n st2 \<le> potential n st1"
      using scan_ok [OF ok1 u] out_target [OF assms(1)] assms(5,6) unfolding n_def by blast
    have "potential n st2 \<le> fuel" using st2(4) pot Suc.prems(3) by (simp add: n_def)
    from Suc.IH [OF st2(2,3) [unfolded n_def] this [unfolded n_def], of "Suc k"] ok1 st2(1) len u show ?thesis
      by (subst spfa_loop.simps) (auto simp: Cons Let_def st1_def n_def)
  qed
qed

end

lemma edges_from_inv:
  assumes "pg_inv g" and "e \<in> set (edges_from g u)"
  shows "e \<in> set (pg_all_edges g)" "pe_from e = u"
  using assms pg_invD(1,5) [OF assms(1)] by (auto simp: edges_from_def split: if_splits)

interpretation pgs: graph_source pg_inv pg_num_vertices edges_from
  by unfold_locales (use edges_from_inv pg_invD(4) in blast)

section \<open>The entry points\<close>

lemma spfa_full_init:
  "spfa_ok bf n out (spfa_full n)" "potential n (spfa_full n) = n + n * n"
  "counts_fit n D ((n + n * n) * D) 0 (spfa_full n)"
proof -
  show pot: "potential n (spfa_full n) = n + n * n"
    by (simp add: potential_def spfa_full_def sum_list_replicate)
  show "counts_fit n D ((n + n * n) * D) 0 (spfa_full n)"
    unfolding counts_fit_def pot by (auto simp: spfa_full_def)
qed (auto simp: spfa_ok_def spfa_full_def pred_ok_def list_all_iff)

lemma seed_ok:
  assumes "spfa_ok bf n out st" and "\<forall>c \<in> set (sp_count st). c = 0"
  shows "spfa_ok bf n out (seed n vs st) \<and> sp_count (seed n vs st) = sp_count st
    \<and> length (sp_queue (seed n vs st)) \<le> length (sp_queue st) + length vs"
  using assms
proof (induction vs arbitrary: st)
  case (Cons v vs)
  define st1 where "st1 = (if v < n then st\<lparr>sp_dist := (sp_dist st)[v := Num 0], sp_queue := sp_queue st @ [v],
    sp_inq := (sp_inq st)[v := True]\<rparr> else st)"
  have "spfa_ok bf n out st1" "sp_count st1 = sp_count st" "length (sp_queue st1) \<le> Suc (length (sp_queue st))"
    using Cons.prems(1) by (auto simp: st1_def spfa_ok_def)
  then show ?case using Cons.IH [of st1] Cons.prems(2) by (auto simp: st1_def [symmetric])
qed simp

lemma spfa_partial_init:
  "spfa_ok bf n out (spfa_partial n vs)" "potential n (spfa_partial n vs) \<le> length vs + n * n"
  "counts_fit n D ((length vs + n * n) * D) 0 (spfa_partial n vs)"
proof -
  define st where "st = \<lparr>sp_dist = replicate n PInf, sp_pred = replicate n None, sp_inq = replicate n False,
    sp_count = replicate n 0, sp_queue = [], sp_cycles = [], sp_visited = replicate n False\<rparr>"
  have "spfa_ok bf n out st" by (auto simp: st_def spfa_ok_def pred_ok_def)
  from seed_ok [OF this, of vs]
  have seeded: "spfa_ok bf n out (seed n vs st)" "sp_count (seed n vs st) = replicate n 0"
    "length (sp_queue (seed n vs st)) \<le> length vs"
    by (simp_all add: st_def)
  have eq: "spfa_partial n vs = seed n vs st" by (simp add: spfa_partial_def st_def)
  show "spfa_ok bf n out (spfa_partial n vs)" unfolding eq by (rule seeded)
  show pot: "potential n (spfa_partial n vs) \<le> length vs + n * n"
    using seeded(2,3) unfolding eq potential_def by (simp add: sum_list_replicate)
  show "counts_fit n D ((length vs + n * n) * D) 0 (spfa_partial n vs)"
    using mult_le_mono1 [OF pot, of D] seeded(2) unfolding counts_fit_def eq by auto
qed

lemma add_finite_not_NaN: "a \<noteq> NaN \<Longrightarrow> is_finite b \<Longrightarrow> f64_add a b \<noteq> NaN"
  by (auto simp: f64_add_def signed_zero_def f64_of_rat_not_NaN)

lemma best_edge_in: "best_edge out u v = Some e \<Longrightarrow> e \<in> set (out u) \<and> pe_to e = v \<and> \<not> pe_filtered e"
  unfolding best_edge_def using min_by_in by fastforce

lemma path_weight_not_NaN:
  assumes "path_weight out path acc = Some w" and "acc \<noteq> NaN"
    and "\<And>u e. e \<in> set (out u) \<Longrightarrow> is_finite (pe_weight e)"
  shows "w \<noteq> NaN"
  using assms
proof (induction out path acc rule: path_weight.induct)
  case (1 out a b rest acc)
  then obtain e where e: "best_edge out a b = Some e"
    "path_weight out (b # rest) (f64_add acc (pe_weight e)) = Some w"
    by (auto split: option.splits)
  then have "f64_add acc (pe_weight e) \<noteq> NaN"
    using 1 best_edge_in [OF e(1)] by (intro add_finite_not_NaN) auto
  with e 1 show ?case by blast
qed auto

lemma cycles_sorted:
  assumes "list_all (cycle_ok bf n out) cs" and "\<And>u e. e \<in> set (out u) \<Longrightarrow> is_finite (pe_weight e)"
  shows "sorted_wrt (\<lambda>a b. f64_le (dc_total_weight a) (dc_total_weight b)) (sort_by by_weight cs)"
proof -
  have "dc_total_weight c \<noteq> NaN" if "c \<in> set cs" for c
    using that assms(1) path_weight_not_NaN [of out "dc_path c" "Num 0" "dc_total_weight c"] assms(2)
    by (auto simp: list_all_iff cycle_ok_def)
  then show ?thesis unfolding by_weight_def [abs_def] by (intro sort_by_asc) blast
qed

lemma detect_negative_cycles_ok:
  assumes "pg_inv g" and "pg_num_vertices g < 2 ^ 32" and "\<And>u. length (edges_from g u) \<le> D"
    and "(pg_num_vertices g + pg_num_vertices g * pg_num_vertices g) * D < 2 ^ 32"
  shows "\<exists>cs. detect_negative_cycles bf elapsed g = Ret (Some cs)
    \<and> list_all (cycle_ok bf (pg_num_vertices g) (edges_from g)) cs"
proof -
  define n where "n = pg_num_vertices g"
  obtain st where "spfa_loop bf n (edges_from g) elapsed (n + n * n) 0 (spfa_full n) = Ret (Some st)"
    "spfa_ok bf n (edges_from g) st"
    using pgs.loop_ok [OF assms(1) spfa_full_init(1) assms(3) spfa_full_init(3) assms(4,2)
        eq_imp_le [OF spfa_full_init(2)]]
    unfolding n_def by blast
  then show ?thesis
    by (auto simp: detect_negative_cycles_def Let_def n_def [symmetric] list_all_iff dest!: spfa_okD(7))
qed

text \<open>C6: on a consistent graph with \<open>n\<close> vertices and at most \<open>D\<close> outgoing edges per vertex, if
  \<open>(n + n * n) * D\<close> is below the range of the 32-bit relaxation counters, the full scan terminates within
  \<open>n + n * n\<close> queue removals whatever the clock reads, never indexes out of range, and every cycle it reports
  is a closed path over distinct vertices, no longer than the hop limit, whose weight is the floating-point sum
  of the cheapest unfiltered edge of every hop.\<close>

theorem detect_negative_cycles_total:
  assumes "pg_inv g" and "pg_num_vertices g < 2 ^ 32" and "\<And>u. length (edges_from g u) \<le> D"
    and "(pg_num_vertices g + pg_num_vertices g * pg_num_vertices g) * D < 2 ^ 32"
  shows "\<exists>cs. detect_negative_cycles bf elapsed g = Ret (Some cs)
    \<and> list_all (cycle_ok bf (pg_num_vertices g) (edges_from g)) cs"
  by (rule detect_negative_cycles_ok [OF assms])

definition edge_demo :: "nat \<Rightarrow> nat \<Rightarrow> rat \<Rightarrow> PriceEdge" where
  "edge_demo a b w = \<lparr>pe_from = a, pe_to = b, pe_weight = Num w, pe_pool_id = pid_demo, pe_pool_address = 7,
     pe_protocol = UniswapV2, pe_liquidity = 1, pe_reserve_in = Num 1, pe_reserve_out = Num 1, pe_filtered = False\<rparr>"

text \<open>Two vertices joined by edges of weight \<open>-1\<close> and \<open>1/2\<close>.\<close>

definition graph_demo :: PriceGraph where
  "graph_demo = pg_append (pg_append (pg_new 2) (edge_demo 0 1 (- 1))) (edge_demo 1 0 (1 / 2))"

lemma graph_demo_inv: "pg_inv graph_demo"
  unfolding graph_demo_def
  by (intro pg_inv_append pg_inv_new) (auto simp: pg_append_def pg_new_def edge_demo_def edge_key_def)

lemma graph_demo_size: "pg_num_vertices graph_demo = 2" "length (edges_from graph_demo u) \<le> 1"
  by (auto simp: graph_demo_def pg_append_def pg_new_def edges_from_def edge_demo_def less_Suc_eq numeral_2_eq_2)

theorem detect_negative_cycles_total_witness:
  "\<exists>cs. detect_negative_cycles (bf_new 4 1000) (\<lambda>_. 0) graph_demo = Ret (Some cs)
    \<and> list_all (cycle_ok (bf_new 4 1000) 2 (edges_from graph_demo)) cs"
  using detect_negative_cycles_total [OF graph_demo_inv _ graph_demo_size(2)]
  unfolding graph_demo_size(1) by simp

lemma detect_from_affected_ok:
  assumes "pg_inv g" and "pg_num_vertices g < 2 ^ 32" and "\<And>u. length (edges_from g u) \<le> D"
    and "(length affected + pg_num_vertices g * pg_num_vertices g) * D < 2 ^ 32"
  shows "\<exists>cs. detect_from_affected bf elapsed g affected = Ret (Some cs)
    \<and> list_all (cycle_ok bf (pg_num_vertices g) (edges_from g)) cs
    \<and> ((\<forall>u e. e \<in> set (edges_from g u) \<longrightarrow> is_finite (pe_weight e)) \<longrightarrow>
         sorted_wrt (\<lambda>a b. f64_le (dc_total_weight a) (dc_total_weight b)) cs)"
proof -
  define n where "n = pg_num_vertices g"
  obtain st where "spfa_loop bf n (edges_from g) elapsed (length affected + n * n) 0 (spfa_partial n affected) = Ret (Some st)"
    "spfa_ok bf n (edges_from g) st"
    using pgs.loop_ok [OF assms(1) spfa_partial_init(1) assms(3) spfa_partial_init(3) assms(4,2) spfa_partial_init(2)]
    unfolding n_def by blast
  then show ?thesis
    using cycles_sorted [OF spfa_okD(7)] unfolding detect_from_affected_def Let_def n_def [symmetric]
    by (auto simp: list_all_iff dest: spfa_okD(7))
qed

text \<open>The incremental scan has the same guarantees for any list of affected vertices, allocated or not,
  within \<open>k + n * n\<close> queue removals for \<open>k\<close> seeds; and when the weights of the graph are finite
  its result is ordered by weight, most negative first.\<close>

theorem detect_from_affected_total:
  assumes "pg_inv g" and "pg_num_vertices g < 2 ^ 32" and "\<And>u. length (edges_from g u) \<le> D"
    and "(length affected + pg_num_vertices g * pg_num_vertices g) * D < 2 ^ 32"
  shows "\<exists>cs. detect_from_affected bf elapsed g affected = Ret (Some cs)
    \<and> list_all (cycle_ok bf (pg_num_vertices g) (edges_from g)) cs
    \<and> ((\<forall>u e. e \<in> set (edges_from g u) \<longrightarrow> is_finite (pe_weight e)) \<longrightarrow>
         sorted_wrt (\<lambda>a b. f64_le (dc_total_weight a) (dc_total_weight b)) cs)"
  by (rule detect_from_affected_ok [OF assms])

theorem detect_from_affected_total_witness:
  "\<exists>cs. detect_from_affected (bf_new 4 1000) (\<lambda>_. 0) graph_demo [1, 9] = Ret (Some cs)
    \<and> list_all (cycle_ok (bf_new 4 1000) 2 (edges_from graph_demo)) cs"
  using detect_from_affected_total [OF graph_demo_inv _ graph_demo_size(2), of "[1, 9]"]
  unfolding graph_demo_size(1) by fastforce

end
