(* ===== verification/Optimizer.thy ===== *)
theory Optimizer
  imports Prelude
begin

text \<open>
  Input-size optimisation (\<^verbatim>\<open>detector/src/optimizer.rs\<close>): ternary search and grid search over an
  arbitrary profit function with values in \<^verbatim>\<open>i128\<close>. The comparison \<^verbatim>\<open>lo + 2\<close> wraps as in the code.
\<close>

section \<open>Model\<close>

fun ternary_loop :: "nat \<Rightarrow> (u256 \<Rightarrow> int) \<Rightarrow> u256 \<Rightarrow> u256 \<Rightarrow> u256 \<times> u256" where
  "ternary_loop 0 profit_fn lo hi = (lo, hi)"
| "ternary_loop (Suc k) profit_fn lo hi =
     (if hi \<le> lo + 2 then (lo, hi)
      else
        let third = (hi - lo) div 3;
            m1 = lo + third;
            m2 = hi - third
        in if profit_fn m1 < profit_fn m2 then ternary_loop k profit_fn m1 hi
           else ternary_loop k profit_fn lo m2)"

definition ternary_search_optimal_input ::
    "u256 \<Rightarrow> u256 \<Rightarrow> u32 \<Rightarrow> (u256 \<Rightarrow> int) \<Rightarrow> u256 \<times> int" where
  "ternary_search_optimal_input min_input max_input iterations profit_fn =
     (let (lo, hi) = ternary_loop (unat iterations) profit_fn min_input max_input;
          optimal = lo + (hi - lo) div 2
      in (optimal, profit_fn optimal))"

fun grid_loop ::
    "nat \<Rightarrow> (u256 \<Rightarrow> int) \<Rightarrow> u256 \<Rightarrow> u256 \<Rightarrow> u256 \<Rightarrow> u256 \<Rightarrow> int \<Rightarrow> u256 \<times> int" where
  "grid_loop 0 profit_fn max_input step_size current best_amount best_profit = (best_amount, best_profit)"
| "grid_loop (Suc k) profit_fn max_input step_size current best_amount best_profit =
     (let profit = profit_fn current;
          (best_amount, best_profit) =
            (if profit > best_profit then (current, profit) else (best_amount, best_profit));
          current = saturating_add current step_size
      in if current > max_input then (best_amount, best_profit)
         else grid_loop k profit_fn max_input step_size current best_amount best_profit)"

definition grid_search_optimal_input ::
    "u256 \<Rightarrow> u256 \<Rightarrow> u32 \<Rightarrow> (u256 \<Rightarrow> int) \<Rightarrow> u256 \<times> int" where
  "grid_search_optimal_input min_input max_input steps profit_fn =
     (if min_input \<ge> max_input \<or> steps = 0 then (min_input, profit_fn min_input)
      else
        let step_size = (max_input - min_input) div ucast steps
        in if step_size = 0 then (min_input, profit_fn min_input)
           else grid_loop (unat steps + 1) profit_fn max_input step_size min_input min_input
                  (- (170141183460469231731687303715884105728)))"

section \<open>Ternary search\<close>

text \<open>A profit function with a single peak \<open>p\<close> on the range.\<close>

definition unimodal :: "(u256 \<Rightarrow> int) \<Rightarrow> u256 \<Rightarrow> u256 \<Rightarrow> u256 \<Rightarrow> bool" where
  "unimodal f lo p hi \<longleftrightarrow> lo \<le> p \<and> p \<le> hi
     \<and> (\<forall>x y. lo \<le> x \<and> x < y \<and> y \<le> p \<longrightarrow> f x < f y)
     \<and> (\<forall>x y. p \<le> x \<and> x < y \<and> y \<le> hi \<longrightarrow> f y < f x)"

lemma thirds:
  fixes lo hi :: u256
  assumes "lo \<le> hi"
  shows "unat (lo + (hi - lo) div 3) = unat lo + (unat hi - unat lo) div 3"
    and "unat (hi - (hi - lo) div 3) = unat hi - (unat hi - unat lo) div 3"
proof -
  have le: "unat lo \<le> unat hi" using assms by (simp add: word_le_nat_alt)
  have third: "unat ((hi - lo) div 3) = (unat hi - unat lo) div 3"
    using assms by (simp add: unat_div_word unat_sub_le)
  have fits: "unat lo + (unat hi - unat lo) div 3 \<le> unat hi" using le by linarith
  show "unat (lo + (hi - lo) div 3) = unat lo + (unat hi - unat lo) div 3"
    using fits u256_fits_mono [OF u256_fits_unat [of hi]] by (subst unat_add_fits) (simp_all add: third)
  have "(hi - lo) div 3 \<le> hi" using le third by (simp add: word_le_nat_alt)
  then show "unat (hi - (hi - lo) div 3) = unat hi - (unat hi - unat lo) div 3"
    by (simp add: unat_sub_le third)
qed

lemma unimodal_left:
  assumes "unimodal f lo p hi" and "lo \<le> m" and "m < m'" and "m' \<le> hi" and "f m < f m'"
  shows "unimodal f m p hi"
proof -
  have "m \<le> p" using assms unfolding unimodal_def by (metis not_less order.strict_implies_order order.asym)
  with assms show ?thesis unfolding unimodal_def by (meson order_trans)
qed

lemma unimodal_right:
  assumes "unimodal f lo p hi" and "lo \<le> m" and "m < m'" and "m' \<le> hi" and "\<not> f m < f m'"
  shows "unimodal f lo p m'"
proof -
  have "p \<le> m'" using assms unfolding unimodal_def by (metis not_less order.strict_implies_order)
  with assms show ?thesis unfolding unimodal_def by (meson order_trans)
qed

text \<open>One iteration: the window stays inside, keeps the peak and shrinks by a third above two.\<close>

lemma shrink_third:
  fixes r w k :: nat
  assumes "3 ^ k * w \<le> 2 ^ k * (r - r div 3 - 2)"
  shows "3 ^ Suc k * w \<le> 2 ^ Suc k * (r - 2)"
proof -
  have "3 ^ Suc k * w \<le> 2 ^ k * (3 * (r - r div 3 - 2))" using assms by simp
  also have "\<dots> \<le> 2 ^ k * (2 * (r - 2))" by (intro mult_le_mono2) presburger
  finally show ?thesis by simp
qed

lemma ternary_loop_spec:
  assumes "unimodal f lo p hi" and "ternary_loop k f lo hi = (lo', hi')"
  shows "lo \<le> lo' \<and> hi' \<le> hi \<and> unimodal f lo' p hi'
    \<and> 3 ^ k * (unat hi' - unat lo' - 2) \<le> 2 ^ k * (unat hi - unat lo - 2)"
  using assms
proof (induction k arbitrary: lo hi)
  case (Suc k)
  have le: "lo \<le> hi" using Suc.prems(1) unfolding unimodal_def by (blast intro: order_trans)
  define r where "r = unat hi - unat lo"
  define m1 where "m1 = lo + (hi - lo) div 3"
  define m2 where "m2 = hi - (hi - lo) div 3"
  have u: "unat m1 = unat lo + r div 3" "unat m2 = unat hi - r div 3"
    using thirds [OF le] by (simp_all add: m1_def m2_def r_def)
  have ule: "unat lo \<le> unat hi" using le by (simp add: word_le_nat_alt)
  have ord: "lo \<le> m1" "m2 \<le> hi" using u by (simp_all add: word_le_nat_alt)
  have ord': "m1 < m2" if "r \<noteq> 0" using u ule that by (simp add: word_less_nat_alt r_def) linarith
  show ?case
  proof (cases "hi \<le> lo + 2")
    case True
    have "unat (lo + 2) \<le> unat lo + 2" by (simp add: unat_word_ariths(1))
    then have "unat hi - unat lo - 2 = 0" using True unfolding word_le_nat_alt by linarith
    then show ?thesis using True Suc.prems by simp
  next
    case step: False
    show ?thesis
    proof (cases "f m1 < f m2")
      case True
      have "m1 = m2" if "r = 0" using u ule that by (intro word_unat_eq_iff [THEN iffD2]) (simp add: r_def)
      with True have "r \<noteq> 0" by auto
      then have "unimodal f m1 p hi" using unimodal_left [OF Suc.prems(1) ord(1) ord' ord(2) True] by simp
      moreover have "ternary_loop k f m1 hi = (lo', hi')"
        using Suc.prems(2) step True by (simp add: Let_def m1_def m2_def)
      ultimately have "m1 \<le> lo' \<and> hi' \<le> hi \<and> unimodal f lo' p hi'
          \<and> 3 ^ k * (unat hi' - unat lo' - 2) \<le> 2 ^ k * (unat hi - unat m1 - 2)"
        by (rule Suc.IH)
      moreover have "unat hi - unat m1 = r - r div 3" using u by (simp add: r_def)
      ultimately show ?thesis
        using ord(1) shrink_third [of k _ r] unfolding r_def [symmetric] by (auto intro: order_trans)
    next
      case False
      have "unimodal f lo p m2"
      proof (cases "r = 0")
        case True
        then have "m2 = hi" using u by (simp add: word_unat_eq_iff)
        then show ?thesis using Suc.prems(1) by simp
      next
        case r: False
        show ?thesis by (rule unimodal_right [OF Suc.prems(1) ord(1) ord' [OF r] ord(2) False])
      qed
      moreover have "ternary_loop k f lo m2 = (lo', hi')"
        using Suc.prems(2) step False by (simp add: Let_def m1_def m2_def)
      ultimately have "lo \<le> lo' \<and> hi' \<le> m2 \<and> unimodal f lo' p hi'
          \<and> 3 ^ k * (unat hi' - unat lo' - 2) \<le> 2 ^ k * (unat m2 - unat lo - 2)"
        by (rule Suc.IH)
      moreover have "unat m2 - unat lo = r - r div 3" using u unfolding r_def by linarith
      ultimately show ?thesis
        using ord(2) shrink_third [of k _ r] unfolding r_def [symmetric] by (auto intro: order_trans)
    qed
  qed
qed simp

lemma midpoint_near:
  fixes lo hi p :: u256
  assumes "lo \<le> p" and "p \<le> hi" and "unat hi - unat lo \<le> 2"
  shows "lo \<le> lo + (hi - lo) div 2 \<and> lo + (hi - lo) div 2 \<le> hi
    \<and> \<bar>uint (lo + (hi - lo) div 2) - uint p\<bar> \<le> 1"
proof -
  have le: "unat lo \<le> unat p" "unat p \<le> unat hi" using assms by (simp_all add: word_le_nat_alt)
  have half: "unat ((hi - lo) div 2) = (unat hi - unat lo) div 2"
    using le by (simp add: unat_div_word unat_sub_le word_le_nat_alt)
  have "unat lo + (unat hi - unat lo) div 2 \<le> unat hi" using le by linarith
  then have m: "unat (lo + (hi - lo) div 2) = unat lo + (unat hi - unat lo) div 2"
    using u256_fits_mono [OF u256_fits_unat [of hi]] by (subst unat_add_fits) (simp_all add: half)
  have "\<bar>int (unat lo + (unat hi - unat lo) div 2) - int (unat p)\<bar> \<le> 1" using le assms(3) by linarith
  then show ?thesis unfolding word_le_nat_alt uint_nat m using le by linarith
qed

text \<open>C32: when the profit has a single peak on the range and the iteration budget \<open>k\<close> satisfies
  \<open>2^k * (max - min) < 3^k\<close>, the ternary search returns an input inside the range at distance at most one
  wei from the peak, together with its profit. No bound on the range itself is needed: the wrapping
  exit test \<open>lo + 2\<close> is harmless.\<close>

theorem ternary_search_near_peak:
  assumes "unimodal profit_fn min_input p max_input"
    and "2 ^ unat iterations * (unat max_input - unat min_input) < (3 :: nat) ^ unat iterations"
  shows "case ternary_search_optimal_input min_input max_input iterations profit_fn of (x, v) \<Rightarrow>
    v = profit_fn x \<and> min_input \<le> x \<and> x \<le> max_input \<and> \<bar>uint x - uint p\<bar> \<le> 1"
proof -
  obtain lo hi where loop: "ternary_loop (unat iterations) profit_fn min_input max_input = (lo, hi)"
    by fastforce
  note spec = ternary_loop_spec [OF assms(1) loop]
  have "3 ^ unat iterations * (unat hi - unat lo - 2)
      \<le> 2 ^ unat iterations * (unat max_input - unat min_input - 2)"
    using spec by blast
  also have "\<dots> \<le> 2 ^ unat iterations * (unat max_input - unat min_input)" by (rule mult_le_mono2) simp
  also note assms(2)
  finally have "3 ^ unat iterations * (unat hi - unat lo - 2) < (3 :: nat) ^ unat iterations * 1" by simp
  then have "unat hi - unat lo \<le> 2" unfolding mult_less_cancel1 by simp
  moreover have "lo \<le> p" "p \<le> hi" using spec by (auto simp: unimodal_def)
  ultimately have "lo \<le> lo + (hi - lo) div 2 \<and> lo + (hi - lo) div 2 \<le> hi
      \<and> \<bar>uint (lo + (hi - lo) div 2) - uint p\<bar> \<le> 1"
    by (intro midpoint_near)
  with spec loop show ?thesis
    by (auto simp: ternary_search_optimal_input_def Let_def intro: order_trans)
qed

lemma unimodal_demo: "unimodal (\<lambda>x. - \<bar>uint x - 400\<bar>) 0 400 1000"
proof -
  have c: "uint (400 :: u256) = 400" by simp
  show ?thesis unfolding unimodal_def word_le_def word_less_def c by auto
qed

theorem ternary_search_near_peak_witness:
  "unimodal (\<lambda>x. - \<bar>uint x - 400\<bar>) 0 400 1000
    \<and> (case ternary_search_optimal_input 0 1000 20 (\<lambda>x. - \<bar>uint x - 400\<bar>) of (x, v) \<Rightarrow>
        v = - \<bar>uint x - 400\<bar> \<and> x \<le> 1000 \<and> \<bar>uint x - 400\<bar> \<le> 1)"
  using ternary_search_near_peak [OF unimodal_demo, of 20] unimodal_demo by (simp add: case_prod_beta)

section \<open>Grid search\<close>

lemma grid_loop_best:
  assumes "unat current + k * unat step \<le> unat max_input"
    and "b < profit_fn current \<or> b = profit_fn a"
  shows "case grid_loop (Suc k) profit_fn max_input step current a b of (x, v) \<Rightarrow>
    v = profit_fn x \<and> b \<le> v
    \<and> (x = a \<or> (\<exists>i \<le> k. unat x = unat current + i * unat step))
    \<and> (\<forall>i y. i \<le> k \<and> unat y = unat current + i * unat step \<longrightarrow> profit_fn y \<le> v)"
  using assms
proof (induction k arbitrary: current a b)
  case 0
  then show ?case by (auto simp: Let_def simp flip: word_unat_eq_iff)
next
  case (Suc k)
  define next' where "next' = saturating_add current step"
  define a' where "a' = (if b < profit_fn current then current else a)"
  define b' where "b' = max b (profit_fn current)"
  have fits: "unat current + unat step \<le> unat max_input" using Suc.prems(1) by simp
  have nx: "unat next' = unat current + unat step"
    unfolding next'_def by (rule saturating_add_fits [OF le_less_trans [OF fits unsigned_less]])
  have b': "b' = profit_fn a'" using Suc.prems(2) by (auto simp: a'_def b'_def)
  have step: "grid_loop (Suc (Suc k)) profit_fn max_input step current a b =
      grid_loop (Suc k) profit_fn max_input step next' a' b'"
    using nx fits by (auto simp: next'_def [symmetric] a'_def b'_def Let_def word_less_nat_alt
        simp del: grid_loop.simps(2) simp: grid_loop.simps(2) [of "Suc k"])
  obtain x v where xv: "grid_loop (Suc k) profit_fn max_input step next' a' b' = (x, v)" by fastforce
  have "unat next' + k * unat step \<le> unat max_input" using Suc.prems(1) nx by simp
  from Suc.IH [OF this disjI2 [OF b']] xv
  have IH: "v = profit_fn x" "b' \<le> v" "x = a' \<or> (\<exists>i \<le> k. unat x = unat next' + i * unat step)"
    "\<And>i y. i \<le> k \<Longrightarrow> unat y = unat next' + i * unat step \<Longrightarrow> profit_fn y \<le> v"
    by auto
  have "x = a \<or> (\<exists>i \<le> Suc k. unat x = unat current + i * unat step)"
    using IH(3)
  proof
    assume "x = a'"
    then show ?thesis by (auto simp: a'_def)
  next
    assume "\<exists>i \<le> k. unat x = unat next' + i * unat step"
    then obtain i where "i \<le> k" "unat x = unat current + Suc i * unat step" using nx by auto
    then show ?thesis by (intro disjI2 exI [of _ "Suc i"]) simp
  qed
  moreover have "profit_fn y \<le> v" if "i \<le> Suc k" "unat y = unat current + i * unat step" for i y
  proof (cases i)
    case 0
    then have "y = current" using that(2) by (simp add: word_unat_eq_iff)
    then show ?thesis using IH(2) by (simp add: b'_def)
  next
    case (Suc j)
    then show ?thesis using IH(4) [of j y] that nx by simp
  qed
  ultimately show ?case unfolding step xv using IH(1,2) by (auto simp: b'_def)
qed

text \<open>On a non-empty range the grid search evaluates the points \<open>min + i * ((max - min) / steps)\<close> for
  \<open>i\<close> up to \<open>steps\<close>, all inside the range, and returns one of them with the greatest
  profit among them; the saturating addition never distorts a point.\<close>

theorem grid_search_best:
  assumes "min_input \<le> max_input" and "\<And>x. - (2 ^ 127) \<le> profit_fn x"
  shows "case grid_search_optimal_input min_input max_input steps profit_fn of (x, v) \<Rightarrow>
    v = profit_fn x \<and> min_input \<le> x \<and> x \<le> max_input
    \<and> (\<forall>i y. i \<le> unat steps
          \<and> unat y = unat min_input + i * ((unat max_input - unat min_input) div unat steps)
        \<longrightarrow> profit_fn y \<le> v)"
proof -
  define step where "step = (max_input - min_input) div ucast steps"
  define r where "r = (unat max_input - unat min_input) div unat steps"
  have step: "unat step = r"
    using assms(1) unfolding step_def r_def by (simp add: unat_div_word unat_sub_le unat_ucast_widen)
  show ?thesis
  proof (cases "min_input = max_input \<or> steps = 0 \<or> step = 0")
    case True
    then have "r = 0" using step by (auto simp: r_def)
    moreover have "grid_search_optimal_input min_input max_input steps profit_fn = (min_input, profit_fn min_input)"
      using True by (auto simp: grid_search_optimal_input_def step_def [symmetric])
    ultimately show ?thesis using assms(1) unfolding r_def [symmetric] by (simp flip: word_unat_eq_iff)
  next
    case False
    then have gs: "grid_search_optimal_input min_input max_input steps profit_fn =
        grid_loop (Suc (unat steps)) profit_fn max_input step min_input min_input (- (2 ^ 127))"
      using assms(1) by (auto simp: grid_search_optimal_input_def step_def [symmetric] Let_def simp del: grid_loop.simps)
    have le: "unat min_input \<le> unat max_input" using assms(1) by (simp add: word_le_nat_alt)
    have fits: "unat min_input + i * r \<le> unat max_input" if "i \<le> unat steps" for i
    proof -
      have "i * r \<le> unat steps * r" using that by (rule mult_le_mono1)
      also have "\<dots> \<le> unat max_input - unat min_input" by (simp add: r_def)
      finally show ?thesis using le by simp
    qed
    have init: "- (2 ^ 127) < profit_fn min_input \<or> - (2 ^ 127) = profit_fn min_input"
      using assms(2) [of min_input] by linarith
    have "unat min_input + unat steps * unat step \<le> unat max_input" unfolding step by (rule fits) simp
    from grid_loop_best [where profit_fn = profit_fn and a = min_input and b = "- (2 ^ 127)", OF this init]
    obtain x v where xv: "grid_search_optimal_input min_input max_input steps profit_fn = (x, v)"
      and v: "v = profit_fn x" "x = min_input \<or> (\<exists>i \<le> unat steps. unat x = unat min_input + i * r)"
        "\<forall>i y. i \<le> unat steps \<and> unat y = unat min_input + i * r \<longrightarrow> profit_fn y \<le> v"
      unfolding gs step by (auto simp del: grid_loop.simps)
    have "min_input \<le> x \<and> x \<le> max_input"
      using v(2) fits assms(1) by (auto simp: word_le_nat_alt)
    then show ?thesis unfolding xv r_def [symmetric] using v by simp
  qed
qed

theorem grid_search_best_witness:
  "case grid_search_optimal_input 0 100 4 (\<lambda>x. if x = 50 then 7 else 0) of (x, v) \<Rightarrow>
    x \<le> 100 \<and> 7 \<le> v \<and> v = (if x = 50 then 7 else 0)"
proof -
  define f :: "u256 \<Rightarrow> int" where "f = (\<lambda>x. if x = 50 then 7 else 0)"
  have b: "- (2 ^ 127) \<le> f x" for x by (simp add: f_def)
  obtain x v where xv: "grid_search_optimal_input 0 100 4 f = (x, v)" by fastforce
  have all: "v = f x \<and> 0 \<le> x \<and> x \<le> 100 \<and> (\<forall>i y. i \<le> unat (4 :: u32)
      \<and> unat y = unat (0 :: u256) + i * ((unat (100 :: u256) - unat (0 :: u256)) div unat (4 :: u32)) \<longrightarrow> f y \<le> v)"
    using grid_search_best [where profit_fn = f and min_input = 0 and max_input = 100 and steps = 4, OF _ b]
    unfolding xv by auto
  then have "f 50 \<le> v" by (elim conjE) (drule spec [of _ 2], drule spec [of _ 50], simp)
  with all show ?thesis using xv unfolding f_def by simp
qed

end
