(* ===== verification/Cycle_Gating.thy ===== *)
theory Cycle_Gating
  imports Spfa_Correct
begin

text \<open>
  The gates between detection and simulation (\<^verbatim>\<open>grpc-server/src/cycle_gating.rs\<close>). The drop counters of the
  metrics registry and the process-wide log budget are explicit state; the log lines themselves are not
  modelled. The exponential inside the profit factor is a parameter.
\<close>

section \<open>Model\<close>

record GatingConfig =
  gc_min_reserve_f64 :: f64
  gc_fingerprint_min_cluster :: nat
  gc_fingerprint_quantum :: f64
  gc_profit_factor_impossible :: f64
  gc_profit_factor_suspicious :: f64
  gc_revm_profit_mismatch_threshold :: f64

definition gating_default :: GatingConfig where
  "gating_default =
     \<lparr>gc_min_reserve_f64 = Num 1000000, gc_fingerprint_min_cluster = 5,
      gc_fingerprint_quantum = f64_of_rat (1 / 1000000), gc_profit_factor_impossible = Num 100,
      gc_profit_factor_suspicious = Num (1 / 2), gc_revm_profit_mismatch_threshold = Num (1 / 2)\<rparr>"

definition permissive :: GatingConfig where
  "permissive =
     \<lparr>gc_min_reserve_f64 = Num 0, gc_fingerprint_min_cluster = 18446744073709551615,
      gc_fingerprint_quantum = f64_of_rat (1 / 1000000), gc_profit_factor_impossible = PInf,
      gc_profit_factor_suspicious = PInf, gc_revm_profit_mismatch_threshold = PInf\<rparr>"

datatype GateDropReason = ProfitFactorImpossible | ReservesTooLow | FingerprintCluster | RevmContradicts

fun as_label :: "GateDropReason \<Rightarrow> string" where
  "as_label ProfitFactorImpossible = ''profit_factor_impossible''"
| "as_label ReservesTooLow = ''reserves_too_low''"
| "as_label FingerprintCluster = ''fingerprint_cluster''"
| "as_label RevmContradicts = ''revm_contradicts''"

datatype PreSimGateVerdict = Pass | Drop GateDropReason

datatype PostSimGateVerdict = PostPass | PostDrop GateDropReason

text \<open>The side effects: the labelled drop counter and the number of impossible cycles seen by the logger.\<close>

record gate_effects =
  ge_dropped :: "(string, nat) hmap"
  ge_log_budget :: nat

definition inc_dropped :: "GateDropReason \<Rightarrow> gate_effects \<Rightarrow> gate_effects" where
  "inc_dropped r ef = ef\<lparr>ge_dropped := hentry (as_label r) 0 Suc (ge_dropped ef)\<rparr>"

definition fingerprint_bucket :: "f64 \<Rightarrow> f64 \<Rightarrow> int" where
  "fingerprint_bucket pf quantum =
     (if \<not> is_finite pf then 9223372036854775807 else f64_to_i64 (f64_round_int (f64_div pf quantum)))"

fun count_buckets :: "(f64 \<Rightarrow> f64) \<Rightarrow> GatingConfig \<Rightarrow> DetectedCycle list \<Rightarrow> (int, nat) hmap \<Rightarrow> (int, nat) hmap" where
  "count_buckets expf cfg [] counts = counts"
| "count_buckets expf cfg (c # cs) counts =
     (if \<not> is_profitable c then count_buckets expf cfg cs counts
      else count_buckets expf cfg cs
             (hentry (fingerprint_bucket (profit_factor expf c) (gc_fingerprint_quantum cfg)) 0 Suc counts))"

definition build_fingerprint_index ::
    "(f64 \<Rightarrow> f64) \<Rightarrow> DetectedCycle list \<Rightarrow> GatingConfig \<Rightarrow> (int, nat) hmap" where
  "build_fingerprint_index expf cycles cfg = count_buckets expf cfg cycles hnew"

definition edge_passes_reserve_gate :: "PriceEdge \<Rightarrow> GatingConfig \<Rightarrow> bool" where
  "edge_passes_reserve_gate e cfg \<longleftrightarrow>
     (case pe_protocol e of
        UniswapV3 \<Rightarrow> f64_lt (Num 0) (pe_reserve_in e)
      | _ \<Rightarrow> f64_le (gc_min_reserve_f64 cfg) (pe_reserve_in e))"

fun hops_live :: "PriceGraph \<Rightarrow> GatingConfig \<Rightarrow> nat list \<Rightarrow> bool" where
  "hops_live g cfg (a # b # rest) =
     (list_ex (\<lambda>e. edge_passes_reserve_gate e cfg) (filter (\<lambda>e. pe_to e = b) (edges_from g a))
      \<and> hops_live g cfg (b # rest))"
| "hops_live g cfg _ = True"

definition gate_pre_sim ::
    "(f64 \<Rightarrow> f64) \<Rightarrow> DetectedCycle \<Rightarrow> PriceGraph \<Rightarrow> (int, nat) hmap \<Rightarrow> GatingConfig \<Rightarrow> gate_effects
      \<Rightarrow> PreSimGateVerdict \<times> gate_effects" where
  "gate_pre_sim expf cycle g fingerprint_index cfg ef =
     (let pf = profit_factor expf cycle in
      if \<not> is_finite pf \<or> f64_lt (gc_profit_factor_impossible cfg) pf then
        (Drop ProfitFactorImpossible,
         (inc_dropped ProfitFactorImpossible ef)\<lparr>ge_log_budget := Suc (ge_log_budget ef)\<rparr>)
      else if \<not> hops_live g cfg (dc_path cycle) then
        (Drop ReservesTooLow, inc_dropped ReservesTooLow ef)
      else
        let bucket = fingerprint_bucket pf (gc_fingerprint_quantum cfg);
            cluster_size = (case hget fingerprint_index bucket of None \<Rightarrow> 0 | Some n \<Rightarrow> n)
        in if cluster_size \<ge> gc_fingerprint_min_cluster cfg
           then (Drop FingerprintCluster, inc_dropped FingerprintCluster ef)
           else (Pass, ef))"

definition select_best_edge_for_hop :: "PriceEdge list \<Rightarrow> nat \<Rightarrow> PriceEdge option" where
  "select_best_edge_for_hop es to_idx =
     min_by (\<lambda>a b. f64_cmp (pe_weight a) (pe_weight b)) (filter (\<lambda>e. pe_to e = to_idx \<and> \<not> pe_filtered e) es)"

definition gate_post_sim ::
    "u128 \<Rightarrow> u128 \<Rightarrow> GatingConfig \<Rightarrow> gate_effects \<Rightarrow> PostSimGateVerdict \<times> gate_effects" where
  "gate_post_sim expected_net_wei actual_profit_wei cfg ef =
     (if \<not> is_finite (gc_revm_profit_mismatch_threshold cfg) then (PostPass, ef)
      else if expected_net_wei = 0 then (PostPass, ef)
      else if actual_profit_wei = 0 then (PostDrop RevmContradicts, inc_dropped RevmContradicts ef)
      else
        let expected_f = f64_of_word expected_net_wei;
            actual_f = f64_of_word actual_profit_wei;
            frac_diff = f64_div (f64_abs (f64_sub expected_f actual_f)) (f64_max expected_f actual_f)
        in if f64_lt (gc_revm_profit_mismatch_threshold cfg) frac_diff
           then (PostDrop RevmContradicts, inc_dropped RevmContradicts ef)
           else (PostPass, ef))"

section \<open>The pre-simulation verdict\<close>

definition same_bucket :: "(f64 \<Rightarrow> f64) \<Rightarrow> GatingConfig \<Rightarrow> int \<Rightarrow> DetectedCycle \<Rightarrow> bool" where
  "same_bucket expf cfg b c \<longleftrightarrow>
     is_profitable c \<and> fingerprint_bucket (profit_factor expf c) (gc_fingerprint_quantum cfg) = b"

lemma count_buckets_count:
  "(case hget (count_buckets expf cfg cs m) b of None \<Rightarrow> 0 | Some n \<Rightarrow> n) =
     (case hget m b of None \<Rightarrow> 0 | Some n \<Rightarrow> n) + length (filter (same_bucket expf cfg b) cs)"
  by (induction cs arbitrary: m) (auto simp: same_bucket_def split: option.split)

lemma index_count:
  "(case hget (build_fingerprint_index expf cs cfg) b of None \<Rightarrow> 0 | Some n \<Rightarrow> n) =
     length (filter (same_bucket expf cfg b) cs)"
  by (simp add: build_fingerprint_index_def count_buckets_count)

lemma hops_live_iff:
  "hops_live g cfg path \<longleftrightarrow> (\<forall>i. Suc i < length path \<longrightarrow>
     (\<exists>e \<in> set (edges_from g (path ! i)). pe_to e = path ! Suc i \<and> edge_passes_reserve_gate e cfg))"
proof (induction g cfg path rule: hops_live.induct)
  case (1 g cfg a b rest)
  then show ?case by (auto simp: list_ex_iff nth_Cons less_Suc_eq_0_disj split: nat.splits)
qed auto


definition pool_edge :: "nat \<Rightarrow> nat \<Rightarrow> rat \<Rightarrow> address \<Rightarrow> rat \<Rightarrow> PriceEdge" where
  "pool_edge a b w pool reserve =
     \<lparr>pe_from = a, pe_to = b, pe_weight = Num w, pe_pool_id = \<lparr>pid_address = pool, pid_protocol = UniswapV2\<rparr>,
      pe_pool_address = pool, pe_protocol = UniswapV2, pe_liquidity = 1, pe_reserve_in = Num reserve,
      pe_reserve_out = Num reserve, pe_filtered = False\<rparr>"

text \<open>A dead and a live pool from vertex 0 to vertex 1, and a live pool back.\<close>

definition thin_graph :: PriceGraph where
  "thin_graph = pg_append (pg_append (pg_append (pg_new 2) (pool_edge 0 1 (- 1) 10 0))
     (pool_edge 0 1 1 11 20000000)) (pool_edge 1 0 (1 / 2) 12 20000000)"

definition thin_cycle :: DetectedCycle where
  "thin_cycle = \<lparr>dc_path = [0, 1, 0], dc_total_weight = Num (- (1 / 2))\<rparr>"

lemma thin_graph_inv: "pg_inv thin_graph"
  unfolding thin_graph_def
  by (intro pg_inv_append pg_inv_new) (auto simp: pg_append_def pg_new_def pool_edge_def edge_key_def)

lemma thin_edges:
  "edges_from thin_graph 0 = [pool_edge 0 1 (- 1) 10 0, pool_edge 0 1 1 11 20000000]"
  "edges_from thin_graph 1 = [pool_edge 1 0 (1 / 2) 12 20000000]"
  by (simp_all add: thin_graph_def pg_append_def pg_new_def edges_from_def pool_edge_def numeral_2_eq_2)

lemma thin_hops: "hops_live thin_graph gating_default (dc_path thin_cycle)"
  by (simp add: thin_cycle_def thin_edges [unfolded One_nat_def] pool_edge_def edge_passes_reserve_gate_def
      gating_default_def f64_le_finite)


text \<open>The reserve gate accepts a hop as soon as some parallel pool is live, while the hop is later
  priced and routed through the cheapest unfiltered edge: a cycle whose chosen edge has no reserve at
  all passes the gate.\<close>

theorem gate_passes_dead_edge:
  assumes "profit_factor expf thin_cycle = Num r" and "r \<le> 100"
  shows "pg_inv thin_graph
    \<and> cycle_ok (bf_new 4 1000) 2 (edges_from thin_graph) thin_cycle
    \<and> fst (gate_pre_sim expf thin_cycle thin_graph
        (build_fingerprint_index expf [thin_cycle] gating_default) gating_default ef) = Pass
    \<and> (\<exists>e. select_best_edge_for_hop (edges_from thin_graph 0) 1 = Some e \<and> pe_reserve_in e = Num 0
          \<and> \<not> edge_passes_reserve_gate e gating_default)"
proof -
  have gate: "fst (gate_pre_sim expf thin_cycle thin_graph
      (build_fingerprint_index expf [thin_cycle] gating_default) gating_default ef) = Pass"
    unfolding gate_pre_sim_def Let_def index_count assms(1)
    using assms(2) thin_hops by (simp add: gating_default_def f64_lt_finite)
  have "best_edge (edges_from thin_graph) 0 1 = Some (pool_edge 0 1 (- 1) 10 0)"
    "best_edge (edges_from thin_graph) 1 0 = Some (pool_edge 1 0 (1 / 2) 12 20000000)"
    by (simp_all add: best_edge_def thin_edges [unfolded One_nat_def] pool_edge_def f64_cmp_def f64_lt_finite)
  moreover have "f64_add (Num 0) (Num (- 1)) = Num (- 1)" "f64_add (Num (- 1)) (Num (1 / 2)) = Num (- (1 / 2))"
    by code_simp+
  ultimately have "path_weight (edges_from thin_graph) [0, 1, 0] (Num 0) = Some (Num (- (1 / 2)))"
    by (simp add: pool_edge_def)
  then have cyc: "cycle_ok (bf_new 4 1000) 2 (edges_from thin_graph) thin_cycle"
    by (simp add: cycle_ok_def thin_cycle_def num_hops_def bf_new_def)
  have "select_best_edge_for_hop (edges_from thin_graph 0) 1 = Some (pool_edge 0 1 (- 1) 10 0)"
    by (simp add: select_best_edge_for_hop_def thin_edges [unfolded One_nat_def] pool_edge_def f64_cmp_def f64_lt_finite)
  moreover have "\<not> edge_passes_reserve_gate (pool_edge 0 1 (- 1) 10 0) gating_default"
    by (simp add: edge_passes_reserve_gate_def pool_edge_def gating_default_def f64_le_finite)
  ultimately show ?thesis using gate cyc thin_graph_inv by (simp add: pool_edge_def)
qed

theorem gate_passes_dead_edge_witness:
  "\<exists>e. select_best_edge_for_hop (edges_from thin_graph 0) 1 = Some e
    \<and> \<not> edge_passes_reserve_gate e gating_default"
proof -
  have "profit_factor (\<lambda>_. Num 1) thin_cycle = Num 0"
    by (simp add: profit_factor_def f64_sub_def f64_add_def signed_zero_def)
  from gate_passes_dead_edge [OF this] show ?thesis by auto
qed

end
