(* ===== verification/Bytes.thy ===== *)
theory Bytes
  imports Prelude
begin

text \<open>
  Byte slices: big-endian conversion, the 32-byte words of the contract ABI, and checked slicing.
\<close>

unbundle bit_operations_syntax

type_synonym bytes = "u8 list"

section \<open>Slices\<close>

text \<open>\<^verbatim>\<open>&xs[a..b]\<close>, which panics outside the slice.\<close>

definition slice :: "'a list \<Rightarrow> nat \<Rightarrow> nat \<Rightarrow> 'a list exec" where
  "slice xs a b = (if a \<le> b \<and> b \<le> length xs then Ret (take (b - a) (drop a xs)) else Panic IndexOutOfBounds)"

lemma slice_in [simp]: "a \<le> b \<Longrightarrow> b \<le> length xs \<Longrightarrow> slice xs a b = Ret (take (b - a) (drop a xs))"
  by (simp add: slice_def)

section \<open>Big-endian integers\<close>

fun be_value :: "u8 list \<Rightarrow> nat \<Rightarrow> nat" where
  "be_value [] acc = acc"
| "be_value (b # bs) acc = be_value bs (acc * 256 + unat b)"

text \<open>\<^verbatim>\<open>from_be_slice\<close> and \<^verbatim>\<open>from_be_bytes\<close>.\<close>

definition from_be :: "u8 list \<Rightarrow> 'a::len word" where
  "from_be bs = of_nat (be_value bs 0)"

fun be_bytes :: "nat \<Rightarrow> nat \<Rightarrow> u8 list" where
  "be_bytes 0 n = []"
| "be_bytes (Suc k) n = be_bytes k (n div 256) @ [of_nat (n mod 256)]"

text \<open>\<^verbatim>\<open>B256::as_slice\<close>, also the ABI encoding of a \<^verbatim>\<open>uint256\<close>.\<close>

definition abi_word :: "'a::len word \<Rightarrow> u8 list" where
  "abi_word w = be_bytes 32 (unat w)"

lemma length_be_bytes [simp]: "length (be_bytes k n) = k"
  by (induction k arbitrary: n) auto

lemma length_abi_word [simp]: "length (abi_word w) = 32"
  by (simp add: abi_word_def)

lemma be_value_append: "be_value (xs @ ys) acc = be_value ys (be_value xs acc)"
  by (induction xs arbitrary: acc) auto

lemma be_value_bytes: "be_value (be_bytes k n) 0 = n mod 256 ^ k"
proof (induction k arbitrary: n)
  case (Suc k)
  have "unat (of_nat (n mod 256) :: u8) = n mod 256" by (simp add: unat_of_nat)
  then have "be_value (be_bytes (Suc k) n) 0 = (n div 256 mod 256 ^ k) * 256 + n mod 256"
    by (simp add: be_value_append Suc)
  also have "\<dots> = n mod (256 * 256 ^ k)" by (simp add: mod_mult2_eq)
  finally show ?case by simp
qed simp

lemma drop_be_bytes: "j \<le> k \<Longrightarrow> drop j (be_bytes k n) = be_bytes (k - j) n"
proof (induction k arbitrary: n)
  case (Suc k)
  then show ?case by (cases "j = Suc k") (simp_all add: Suc_diff_le)
qed simp

lemma take_be_bytes: "j \<le> k \<Longrightarrow> take j (be_bytes k n) = be_bytes j (n div 256 ^ (k - j))"
proof (induction k arbitrary: n)
  case (Suc k)
  then show ?case by (cases "j = Suc k") (simp_all add: Suc_diff_le div_mult2_eq)
qed simp

lemma from_be_abi [simp]: "from_be (abi_word (w :: u256)) = w"
proof -
  have "unat w < 256 ^ 32" using unsigned_less [of w, where 'a = nat] by simp
  then show ?thesis by (simp add: from_be_def abi_word_def be_value_bytes)
qed

text \<open>The low bytes of a word, as an address (20 bytes) or a 32-bit integer (4 bytes).\<close>

lemma from_be_low:
  assumes "8 * k = LENGTH('a)" and "k \<le> 32"
  shows "(from_be (drop (32 - k) (abi_word (w :: u256))) :: 'a::len word) = ucast w"
proof -
  have pow: "(256 :: nat) ^ k = 2 ^ LENGTH('a)" using assms(1) power_mult [of "2 :: nat" 8 k] by simp
  have "drop (32 - k) (abi_word w) = be_bytes k (unat w)"
    using assms(2) by (simp add: abi_word_def drop_be_bytes)
  then show ?thesis
    unfolding from_be_def word_unat_eq_iff
    by (simp add: be_value_bytes pow unat_of_nat unsigned_ucast_eq take_bit_eq_mod)
qed

end
