(* ===== verification/Event_Decoder.thy ===== *)
theory Event_Decoder
  imports Bytes Common_Types
begin

text \<open>
  Log decoding (\<^verbatim>\<open>ingestion/src/event_decoder.rs\<close>). The signature hashes produced by the \<^verbatim>\<open>sol!\<close> macro are the
  fields of the parameter \<open>sigs\<close>; the macro's own log decoder, used for two of the discovery events, is the
  parameter \<open>raw\<close>. Everything else works on the raw bytes of the log.
\<close>

unbundle bit_operations_syntax

section \<open>Model\<close>

record EventSignatures =
  sync_topic :: b256
  swap_v2_topic :: b256
  swap_v3_topic :: b256
  token_exchange_topic :: b256
  pair_created_topic :: b256
  pool_created_v3_topic :: b256
  plain_pool_deployed_topic :: b256
  pool_registered_v3_topic :: b256

datatype PoolEvent =
    ReserveUpdate address ProtocolType u256 u256
  | V2Swap address address address u256 u256 u256 u256
  | V3Update address u256 u128 int
  | PoolCreated address address address

datatype DecodeReason = UnknownTopic | MalformedPayload | InsufficientTopics

fun reason_str :: "DecodeReason \<Rightarrow> string" where
  "reason_str UnknownTopic = ''unknown_topic''"
| "reason_str MalformedPayload = ''malformed_payload''"
| "reason_str InsufficientTopics = ''insufficient_topics''"

type_synonym decoded = "(DecodeReason + PoolEvent) exec"

text \<open>\<^verbatim>\<open>Address::from_slice(&topic.as_slice()[12..])\<close>\<close>

definition topic_address :: "b256 \<Rightarrow> address exec" where
  "topic_address t = emap from_be (slice (abi_word t) 12 32)"

definition word_at :: "bytes \<Rightarrow> nat \<Rightarrow> u256 exec" where
  "word_at bs i = emap from_be (slice bs i (i + 32))"

definition decode_swap_v2 :: "b256 list \<Rightarrow> bytes \<Rightarrow> address \<Rightarrow> decoded" where
  "decode_swap_v2 topics bs pool =
     (if length topics < 3 then Ret (Inl InsufficientTopics)
      else if length bs < 128 then Ret (Inl MalformedPayload)
      else
        ebind (ebind (index topics 1) topic_address) (\<lambda>sender.
        ebind (ebind (index topics 2) topic_address) (\<lambda>to.
        ebind (word_at bs 0) (\<lambda>amount0_in.
        ebind (word_at bs 32) (\<lambda>amount1_in.
        ebind (word_at bs 64) (\<lambda>amount0_out.
        ebind (word_at bs 96) (\<lambda>amount1_out.
          Ret (Inr (V2Swap pool sender to amount0_in amount1_in amount0_out amount1_out)))))))))"

definition decode_sync :: "bytes \<Rightarrow> address \<Rightarrow> ProtocolType option \<Rightarrow> decoded" where
  "decode_sync bs pool protocol_hint =
     (if length bs < 64 then Ret (Inl MalformedPayload)
      else
        ebind (word_at bs 0) (\<lambda>reserve0.
        ebind (word_at bs 32) (\<lambda>reserve1.
          Ret (Inr (ReserveUpdate pool (case protocol_hint of None \<Rightarrow> UniswapV2 | Some p \<Rightarrow> p) reserve0 reserve1)))))"

text \<open>Sign extension of the 24-bit tick, on the low four bytes of its word.\<close>

definition sign_extend_tick :: "u32 \<Rightarrow> int" where
  "sign_extend_tick t = sint (if t AND 0x800000 \<noteq> 0 then t OR NOT 0xFFFFFF else t AND 0xFFFFFF)"

definition decode_swap_v3 :: "b256 list \<Rightarrow> bytes \<Rightarrow> address \<Rightarrow> decoded" where
  "decode_swap_v3 topics bs pool =
     (if length bs < 160 then Ret (Inl MalformedPayload)
      else
        ebind (word_at bs 64) (\<lambda>sqrt_price_x96.
        ebind (word_at bs 96) (\<lambda>liquidity_u256.
        if 2 ^ 128 \<le> uint liquidity_u256 then Panic CastOverflow
        else
          ebind (slice bs 128 160) (\<lambda>tick_bytes.
          ebind (slice tick_bytes 28 32) (\<lambda>low.
            Ret (Inr (V3Update pool sqrt_price_x96 (ucast liquidity_u256) (sign_extend_tick (from_be low)))))))))"

definition decode_token_exchange :: "b256 list \<Rightarrow> bytes \<Rightarrow> address \<Rightarrow> decoded" where
  "decode_token_exchange topics bs pool = Ret (Inr (ReserveUpdate pool Curve 0 0))"

definition decode_pair_created :: "b256 list \<Rightarrow> bytes \<Rightarrow> decoded" where
  "decode_pair_created topics bs =
     (if length topics < 3 then Ret (Inl InsufficientTopics)
      else if length bs < 64 then Ret (Inl MalformedPayload)
      else
        ebind (ebind (index topics 1) topic_address) (\<lambda>token0.
        ebind (ebind (index topics 2) topic_address) (\<lambda>token1.
        ebind (slice bs 12 32) (\<lambda>pool. Ret (Inr (PoolCreated token0 token1 (from_be pool)))))))"

definition decode_pool_created_v3 :: "b256 list \<Rightarrow> bytes \<Rightarrow> decoded" where
  "decode_pool_created_v3 topics bs =
     (if length topics < 4 then Ret (Inl InsufficientTopics)
      else if length bs < 64 then Ret (Inl MalformedPayload)
      else
        ebind (ebind (index topics 1) topic_address) (\<lambda>token0.
        ebind (ebind (index topics 2) topic_address) (\<lambda>token1.
        ebind (slice bs 32 52) (\<lambda>pool. Ret (Inr (PoolCreated token0 token1 (from_be pool)))))))"

definition decode_log ::
    "EventSignatures \<Rightarrow> b256 list \<Rightarrow> bytes \<Rightarrow> address \<Rightarrow> ProtocolType option \<Rightarrow> decoded" where
  "decode_log sigs topics bs source_address protocol_hint =
     (case topics of
        [] \<Rightarrow> Ret (Inl UnknownTopic)
      | topic0 # _ \<Rightarrow>
          if topic0 = sync_topic sigs then decode_sync bs source_address protocol_hint
          else if topic0 = swap_v2_topic sigs then decode_swap_v2 topics bs source_address
          else if topic0 = swap_v3_topic sigs then decode_swap_v3 topics bs source_address
          else if topic0 = token_exchange_topic sigs then decode_token_exchange topics bs source_address
          else if topic0 = pair_created_topic sigs then decode_pair_created topics bs
          else if topic0 = pool_created_v3_topic sigs then decode_pool_created_v3 topics bs
          else Ret (Inl UnknownTopic))"

definition v3_fee_bps_from_topic :: "b256 \<Rightarrow> u32" where
  "v3_fee_bps_from_topic fee_topic = ucast (ucast ((from_be (abi_word fee_topic) :: u256) div 100) :: u64)"

definition clamp_bps :: "u256 \<Rightarrow> u32" where
  "clamp_bps bps = ucast (min (ucast bps :: u64) 4294967295)"

definition curve_fee_to_bps :: "u256 \<Rightarrow> u32" where
  "curve_fee_to_bps fee = clamp_bps (saturating_mul fee 10000 div 10000000000)"

definition balancer_v3_fee_to_bps :: "u256 \<Rightarrow> u32" where
  "balancer_v3_fee_to_bps swap_fee = clamp_bps (saturating_mul swap_fee 10000 div 1000000000000000000)"

definition decode_plain_pool_deployed ::
    "EventSignatures \<Rightarrow> (b256 list \<Rightarrow> bytes \<Rightarrow> (address \<times> address list \<times> u256) option) \<Rightarrow> b256 list \<Rightarrow> bytes
      \<Rightarrow> (address \<times> address \<times> address \<times> u32) option exec" where
  "decode_plain_pool_deployed sigs raw topics bs =
     (if topics = [] \<or> hd topics \<noteq> plain_pool_deployed_topic sigs then Ret None
      else
        obind (raw topics bs) (\<lambda>(pool, coins, fee).
          if length coins < 2 then Ret None
          else
            ebind (index coins 0) (\<lambda>c0. ebind (index coins 1) (\<lambda>c1.
              Ret (Some (pool, c0, c1, curve_fee_to_bps fee))))))"

definition decode_pool_registered_v3 ::
    "EventSignatures \<Rightarrow> (b256 list \<Rightarrow> bytes \<Rightarrow> (address \<times> address list \<times> u256) option) \<Rightarrow> b256 list \<Rightarrow> bytes
      \<Rightarrow> (address \<times> address \<times> address \<times> u32) option" where
  "decode_pool_registered_v3 sigs raw topics bs =
     (if length topics < 3 \<or> hd topics \<noteq> pool_registered_v3_topic sigs then None
      else
        case raw topics bs of
          None \<Rightarrow> None
        | Some (pool, tokens, swap_fee) \<Rightarrow>
            if length tokens < 2 then None
            else
              case (list_get tokens 0, list_get tokens 1) of
                (Some t0, Some t1) \<Rightarrow> Some (pool, t0, t1, balancer_v3_fee_to_bps swap_fee)
              | _ \<Rightarrow> None)"

section \<open>Fields of an encoded log\<close>

lemma topic_address_eq [simp]: "topic_address t = Ret (ucast t)"
  using from_be_low [of 20, where 'a = 160] by (simp add: topic_address_def)

lemma ucast_ucast_address [simp]: "ucast (ucast a :: u256) = (a :: address)"
  by (rule bit_word_eqI) (simp add: bit_simps)

lemma word_at_first [simp]: "word_at (abi_word w @ rest) 0 = Ret w"
  by (simp add: word_at_def)

lemma word_at_only [simp]: "word_at (abi_word w) 0 = Ret w"
  by (simp add: word_at_def)

lemma word_at_skip [simp]:
  "32 \<le> i \<Longrightarrow> word_at (abi_word w @ rest) i = word_at rest (i - 32)"
  by (simp add: word_at_def slice_def)

lemma tick_bits:
  assumes "- (2 ^ 23) \<le> t" and "t < 2 ^ 23" and "23 \<le> n"
  shows "bit t n \<longleftrightarrow> bit (t :: int) 23"
proof -
  have "signed_take_bit 23 t = t" using assms by (intro signed_take_bit_int_eq_self)
  then show ?thesis using assms(3) bit_signed_take_bit_iff [of 23 t n] by (simp add: min_def split: if_splits)
qed

text \<open>Sign extension recovers every 24-bit tick.\<close>

lemma sign_extend_tick_of_int:
  assumes "- (2 ^ 23) \<le> t" and "t < 2 ^ 23"
  shows "sign_extend_tick (of_int t) = t"
proof -
  have bits: "bit (of_int t :: u32) n \<longleftrightarrow> bit t 23" if "23 \<le> n" "n < 32" for n
    using that tick_bits [OF assms that(1)] by (simp add: bit_word_of_int_iff)
  have flag: "(of_int t :: u32) AND 0x800000 \<noteq> 0 \<longleftrightarrow> bit t 23"
    using and_exp_eq_0_iff_not_bit [of "of_int t :: u32" 23] bits [of 23] by simp
  have mask: "(0xFFFFFF :: u32) = mask 24" by (simp add: mask_eq_exp_minus_1)
  have "sint (of_int t :: u32) = t"
    using assms by (simp add: signed_of_int signed_take_bit_int_eq_self)
  moreover have "(if bit t 23 then (of_int t :: u32) OR NOT 0xFFFFFF else of_int t AND 0xFFFFFF) = of_int t"
  proof (rule bit_word_eqI)
    fix n assume "n < LENGTH(32)"
    then show "bit (if bit t 23 then (of_int t :: u32) OR NOT 0xFFFFFF else of_int t AND 0xFFFFFF) n = bit (of_int t :: u32) n"
      unfolding mask using tick_bits [OF assms, of n] by (cases "n < 24") (auto simp: bit_simps)
  qed
  ultimately show ?thesis by (simp add: sign_extend_tick_def flag)
qed

text \<open>The low four bytes of a word, and the leading twenty bytes of a word that holds an address.\<close>

lemma low_u32: "(from_be (drop 28 (abi_word (w :: u256))) :: u32) = ucast w"
  using from_be_low [of 4, where 'a = 32] by simp

lemma ucast_of_int_u32: "ucast (of_int t :: u256) = (of_int t :: u32)"
  by (rule bit_word_eqI) (simp add: bit_simps)

lemma high_address: "(from_be (take 20 (abi_word (ucast (a :: address) :: u256))) :: address) = drop_bit 96 a"
proof -
  have "take 20 (abi_word (ucast a :: u256)) = be_bytes 20 (unat a div 2 ^ 96)"
    by (simp add: abi_word_def take_be_bytes unat_ucast_widen)
  moreover have "unat a div 2 ^ 96 < 256 ^ 20" using unsigned_less [of a, where 'a = nat] by (simp add: div_less_dividend less_mult_imp_div_less)
  ultimately show ?thesis
    by (simp add: from_be_def be_value_bytes word_unat_eq_iff drop_bit_eq_div unat_of_nat unat_div_distrib)
qed

definition topics_distinct :: "EventSignatures \<Rightarrow> bool" where
  "topics_distinct sigs \<longleftrightarrow>
     distinct [sync_topic sigs, swap_v2_topic sigs, swap_v3_topic sigs, token_exchange_topic sigs,
       pair_created_topic sigs, pool_created_v3_topic sigs]"

lemma topics_ne:
  assumes "topics_distinct sigs"
  shows "swap_v2_topic sigs \<noteq> sync_topic sigs" "swap_v3_topic sigs \<noteq> sync_topic sigs"
    "swap_v3_topic sigs \<noteq> swap_v2_topic sigs" "pair_created_topic sigs \<noteq> sync_topic sigs"
    "pair_created_topic sigs \<noteq> swap_v2_topic sigs" "pair_created_topic sigs \<noteq> swap_v3_topic sigs"
    "pair_created_topic sigs \<noteq> token_exchange_topic sigs" "pool_created_v3_topic sigs \<noteq> sync_topic sigs"
    "pool_created_v3_topic sigs \<noteq> swap_v2_topic sigs" "pool_created_v3_topic sigs \<noteq> swap_v3_topic sigs"
    "pool_created_v3_topic sigs \<noteq> token_exchange_topic sigs"
    "pool_created_v3_topic sigs \<noteq> pair_created_topic sigs"
  using assms by (auto simp: topics_distinct_def)

lemma u128_widen: "uint (ucast (x :: u128) :: u256) < 2 ^ 128" "ucast (ucast x :: u256) = x"
proof -
  have "uint x < 2 ^ 128" using unsigned_less [of x, where 'a = int] by simp
  then show "uint (ucast x :: u256) < 2 ^ 128" by (simp add: unsigned_ucast_eq take_bit_int_eq_self)
qed (rule bit_word_eqI, simp add: bit_simps)


definition sigs_demo :: EventSignatures where
  "sigs_demo = \<lparr>sync_topic = 1, swap_v2_topic = 2, swap_v3_topic = 3, token_exchange_topic = 4, pair_created_topic = 5,
     pool_created_v3_topic = 6, plain_pool_deployed_topic = 7, pool_registered_v3_topic = 8\<rparr>"

lemma sigs_demo_distinct: "topics_distinct sigs_demo"
  by (simp add: topics_distinct_def sigs_demo_def)


text \<open>The Uniswap V3 \<open>PoolCreated\<close> decoder reads the pool address from the first twenty bytes of its
  left-padded word, so the ABI encoding of a creation decodes to the address shifted right by 96 bits.\<close>

theorem pool_created_v3_misread:
  assumes "topics_distinct sigs"
  shows "decode_log sigs [pool_created_v3_topic sigs, ucast token0, ucast token1, fee]
      (abi_word (spacing :: u256) @ abi_word (ucast created :: u256)) source hint =
    Ret (Inr (PoolCreated token0 token1 (drop_bit 96 created)))"
  using topics_ne [OF assms] by (simp add: decode_log_def decode_pool_created_v3_def high_address)

theorem pool_created_v3_misread_witness:
  "decode_log sigs_demo [6, ucast (1 :: address), ucast (2 :: address), 3000]
      (abi_word (60 :: u256) @ abi_word (ucast (0x88e6A0c2dDD26FEEb64F039a2c41296FcB3f5640 :: address) :: u256)) 0 None =
    Ret (Inr (PoolCreated 1 2 0x88e6A0c2dDD26FEE))"
  using pool_created_v3_misread [OF sigs_demo_distinct, of 1 2 3000 60 "0x88e6A0c2dDD26FEEb64F039a2c41296FcB3f5640"]
  by (simp add: sigs_demo_def)

text \<open>Decoding panics exactly on a V3 Swap log of full length whose liquidity word does not fit
  128 bits; every other log, however short or long, is decoded or rejected with a reason.\<close>

theorem decode_log_panics_iff:
  "(\<exists>p. decode_log sigs topics bs source hint = Panic p) \<longleftrightarrow>
     topics \<noteq> [] \<and> hd topics \<notin> {sync_topic sigs, swap_v2_topic sigs} \<and> hd topics = swap_v3_topic sigs
     \<and> 160 \<le> length bs \<and> 2 ^ 128 \<le> uint (from_be (take 32 (drop 96 bs)) :: u256)"
  by (auto simp: decode_log_def decode_sync_def decode_swap_v2_def decode_swap_v3_def decode_token_exchange_def
      decode_pair_created_def decode_pool_created_v3_def word_at_def split: list.splits)

end
