(* ===== verification/Node_Pool.thy ===== *)
theory Node_Pool
  imports Common_Types
begin

text \<open>
  The pool of node connections (\<^verbatim>\<open>ingestion/src/node_pool.rs\<close>): the per-node health state machine, the choice of
  the best node and the reconnect backoff. The instant of a health check is an argument; durations are in
  milliseconds.
\<close>

section \<open>Model\<close>

datatype NodeType = WebSocket | Ipc | Http

record NodeConfig =
  nc_name :: string
  nc_url :: string
  nc_node_type :: NodeType
  nc_priority :: u32
  nc_max_retries :: u32
  nc_health_check_interval :: nat

record NodeConnection =
  cn_config :: NodeConfig
  cn_state :: NodeState
  cn_last_health_check :: nat
  cn_consecutive_failures :: u32
  cn_last_block_seen :: u64
  cn_latency_ms :: u64

definition connection_new :: "nat \<Rightarrow> NodeConfig \<Rightarrow> NodeConnection" where
  "connection_new now config =
     \<lparr>cn_config = config, cn_state = Connected, cn_last_health_check = now, cn_consecutive_failures = 0,
      cn_last_block_seen = 0, cn_latency_ms = 0\<rparr>"

definition transition :: "NodeConnection \<Rightarrow> NodeState \<Rightarrow> NodeConnection" where
  "transition c new_state = c\<lparr>cn_state := new_state\<rparr>"

definition record_success :: "nat \<Rightarrow> NodeConnection \<Rightarrow> u64 \<Rightarrow> u64 \<Rightarrow> NodeConnection" where
  "record_success now c latency_ms block =
     (let c = c\<lparr>cn_consecutive_failures := 0, cn_latency_ms := latency_ms, cn_last_block_seen := block,
                cn_last_health_check := now\<rparr>
      in if cn_state c \<noteq> Healthy then transition c Healthy else c)"

definition record_failure :: "NodeConnection \<Rightarrow> NodeConnection" where
  "record_failure c =
     (let c = c\<lparr>cn_consecutive_failures := cn_consecutive_failures c + 1\<rparr>
      in if cn_consecutive_failures c \<ge> nc_max_retries (cn_config c) then transition c Failed
         else if cn_consecutive_failures c \<ge> 2 then transition c Degraded
         else c)"

definition is_healthy :: "NodeConnection \<Rightarrow> bool" where
  "is_healthy c \<longleftrightarrow> cn_state c = Healthy \<or> cn_state c = Connected"

record NodePool =
  np_nodes :: "NodeConnection list"
  np_min_healthy_nodes :: nat
  np_backoff_base :: nat
  np_backoff_max :: nat

definition nodepool_new :: "nat \<Rightarrow> NodeConfig list \<Rightarrow> nat \<Rightarrow> NodePool" where
  "nodepool_new now configs min_healthy_nodes =
     \<lparr>np_nodes = map (connection_new now) configs, np_min_healthy_nodes = min_healthy_nodes,
      np_backoff_base = 100, np_backoff_max = 30000\<rparr>"

fun best_loop :: "NodeConnection list \<Rightarrow> (u32 \<times> NodeConnection) option \<Rightarrow> (u32 \<times> NodeConnection) option" where
  "best_loop [] best = best"
| "best_loop (n # ns) best =
     best_loop ns
       (if is_healthy n then
          (case best of
             None \<Rightarrow> Some (nc_priority (cn_config n), n)
           | Some (p, _) \<Rightarrow> if nc_priority (cn_config n) < p then Some (nc_priority (cn_config n), n) else best)
        else best)"

definition best_node :: "NodePool \<Rightarrow> NodeConnection option" where
  "best_node p = map_option snd (best_loop (np_nodes p) None)"

definition healthy_count :: "NodePool \<Rightarrow> nat" where
  "healthy_count p = length (filter is_healthy (np_nodes p))"

definition is_operational :: "NodePool \<Rightarrow> bool" where
  "is_operational p \<longleftrightarrow> healthy_count p \<ge> np_min_healthy_nodes p"

definition all_nodes :: "NodePool \<Rightarrow> NodeConnection list" where
  "all_nodes p = np_nodes p"

text \<open>\<^verbatim>\<open>2u32.saturating_pow(attempt)\<close> scales the base delay.\<close>

definition backoff_delay :: "NodePool \<Rightarrow> u32 \<Rightarrow> nat" where
  "backoff_delay p attempt =
     min (np_backoff_base p * (if unat attempt < 32 then 2 ^ unat attempt else 4294967295)) (np_backoff_max p)"

section \<open>Health state machine\<close>

lemma failures_count:
  assumes "cn_consecutive_failures c = 0" and "k < 2 ^ 32"
  shows "unat (cn_consecutive_failures ((record_failure ^^ k) c)) = k
    \<and> cn_config ((record_failure ^^ k) c) = cn_config c"
  using assms(2)
proof (induction k)
  case (Suc k)
  define d where "d = (record_failure ^^ k) c"
  have "unat (cn_consecutive_failures d + 1) = Suc k"
    using Suc unat_add_lem [of "cn_consecutive_failures d" 1] by (simp add: d_def)
  moreover have "cn_config d = cn_config c" using Suc by (simp add: d_def)
  ultimately show ?case by (simp add: d_def [symmetric] record_failure_def [of d] transition_def Let_def)
qed (simp add: assms(1))


definition node_demo :: "u32 \<Rightarrow> NodeConfig" where
  "node_demo prio = \<lparr>nc_name = [], nc_url = [], nc_node_type = Ipc, nc_priority = prio, nc_max_retries = 5,
     nc_health_check_interval = 5\<rparr>"


section \<open>Choice of node\<close>

lemma best_loop_spec:
  assumes "\<And>p n. best = Some (p, n) \<Longrightarrow> p = nc_priority (cn_config n) \<and> is_healthy n"
  shows "case best_loop ns best of
      None \<Rightarrow> best = None \<and> list_all (\<lambda>n. \<not> is_healthy n) ns
    | Some (p, n) \<Rightarrow> p = nc_priority (cn_config n) \<and> is_healthy n
        \<and> (n \<in> set ns \<or> best = Some (p, n))
        \<and> (\<forall>m \<in> set ns. is_healthy m \<longrightarrow> p \<le> nc_priority (cn_config m))
        \<and> (\<forall>q m. best = Some (q, m) \<longrightarrow> p \<le> q)"
  using assms
proof (induction ns arbitrary: best)
  case Nil
  then show ?case by (auto split: option.splits)
next
  case (Cons n ns)
  define best' where "best' = (if is_healthy n then
      (case best of None \<Rightarrow> Some (nc_priority (cn_config n), n)
       | Some (p, _) \<Rightarrow> if nc_priority (cn_config n) < p then Some (nc_priority (cn_config n), n) else best)
    else best)"
  have "\<And>p m. best' = Some (p, m) \<Longrightarrow> p = nc_priority (cn_config m) \<and> is_healthy m"
    using Cons.prems by (auto simp: best'_def split: if_splits option.splits)
  then have IH: "case best_loop ns best' of
      None \<Rightarrow> best' = None \<and> list_all (\<lambda>n. \<not> is_healthy n) ns
    | Some (p, n) \<Rightarrow> p = nc_priority (cn_config n) \<and> is_healthy n
        \<and> (n \<in> set ns \<or> best' = Some (p, n))
        \<and> (\<forall>m \<in> set ns. is_healthy m \<longrightarrow> p \<le> nc_priority (cn_config m))
        \<and> (\<forall>q m. best' = Some (q, m) \<longrightarrow> p \<le> q)"
    by (rule Cons.IH)
  have h1: "is_healthy n \<Longrightarrow> \<exists>q x. best' = Some (q, x) \<and> q \<le> nc_priority (cn_config n)"
    and h2: "\<And>q m. best = Some (q, m) \<Longrightarrow> \<exists>q' x. best' = Some (q', x) \<and> q' \<le> q"
    and h3: "\<And>p m. best' = Some (p, m) \<Longrightarrow> m = n \<or> best = Some (p, m)"
    by (auto simp: best'_def split: if_splits option.splits)
  show ?case
  proof (cases "best_loop ns best'")
    case None
    with IH have "best' = None" "list_all (\<lambda>n. \<not> is_healthy n) ns" by auto
    then show ?thesis using h1 h2 None by (cases best) (auto simp: best'_def [symmetric])
  next
    case (Some r)
    obtain p m where r: "r = (p, m)" by fastforce
    have "p = nc_priority (cn_config m) \<and> is_healthy m" "m \<in> set ns \<or> best' = Some (p, m)"
      "\<And>x. x \<in> set ns \<Longrightarrow> is_healthy x \<Longrightarrow> p \<le> nc_priority (cn_config x)" "\<And>q x. best' = Some (q, x) \<Longrightarrow> p \<le> q"
      using IH unfolding Some r by auto
    then show ?thesis
      using h1 h2 h3 Some r unfolding best_loop.simps best'_def [symmetric] by (fastforce dest: order_trans)
  qed
qed

text \<open>The best node is a healthy node of the pool with the least priority number among the healthy
  ones, and there is none exactly when the healthy count is zero.\<close>

theorem best_node_least:
  "case best_node p of
     None \<Rightarrow> healthy_count p = 0
   | Some n \<Rightarrow> n \<in> set (all_nodes p) \<and> is_healthy n \<and> 0 < healthy_count p
       \<and> list_all (\<lambda>m. is_healthy m \<longrightarrow> nc_priority (cn_config n) \<le> nc_priority (cn_config m)) (all_nodes p)"
proof (cases "best_loop (np_nodes p) None")
  case None
  then show ?thesis
    using best_loop_spec [of None "np_nodes p"]
    by (simp add: best_node_def healthy_count_def list_all_iff filter_empty_conv)
next
  case (Some b)
  then show ?thesis
    using best_loop_spec [of None "np_nodes p"]
    by (cases b) (auto simp: best_node_def healthy_count_def all_nodes_def list_all_iff filter_empty_conv)
qed

theorem best_node_least_witness:
  "\<exists>n. best_node (nodepool_new 0 [node_demo 5, node_demo 3] 1) = Some n \<and> nc_priority (cn_config n) \<le> 3"
  using best_node_least [of "nodepool_new 0 [node_demo 5, node_demo 3] 1"]
  by (auto simp: nodepool_new_def connection_new_def node_demo_def healthy_count_def is_healthy_def all_nodes_def
      split: option.splits)

text \<open>The backoff doubles from the base and never exceeds the cap.\<close>

lemma backoff_delay_bounds:
  assumes "np_backoff_base p = 100" and "np_backoff_max p = 30000"
  shows "backoff_delay p attempt \<le> 30000" and "9 \<le> unat attempt \<Longrightarrow> backoff_delay p attempt = 30000"
    and "unat attempt < 9 \<Longrightarrow> backoff_delay p attempt = 100 * 2 ^ unat attempt"
proof -
  show "backoff_delay p attempt \<le> 30000" by (simp add: backoff_delay_def assms)
  show "backoff_delay p attempt = 30000" if "9 \<le> unat attempt"
    using that power_increasing [of 9 "unat attempt" "2 :: nat"] by (simp add: backoff_delay_def assms)
  show "backoff_delay p attempt = 100 * 2 ^ unat attempt" if "unat attempt < 9"
    using that power_increasing [of "unat attempt" 8 "2 :: nat"] by (simp add: backoff_delay_def assms)
qed

end
