(* ===== verification/First_Seen.thy ===== *)
theory First_Seen
  imports Hash_Map F64
begin

text \<open>
  The first-seen tracker (\<^verbatim>\<open>grpc-server/src/first_seen_tracker.rs\<close>): a bounded map from transaction hashes to
  the time they were first seen, with an insertion-order queue for eviction. The event counters and the
  histogram of the metrics registry are explicit state.
\<close>

section \<open>Model\<close>

record FirstSeenTracker =
  ft_capacity :: nat
  ft_seen :: "(b256, u64) hmap"
  ft_order :: "b256 list"

record fs_metrics =
  fm_events :: "(string, nat) hmap"
  fm_observed_ms :: "f64 list"

definition inc_event :: "string \<Rightarrow> fs_metrics \<Rightarrow> fs_metrics" where
  "inc_event label m = m\<lparr>fm_events := hentry label 0 Suc (fm_events m)\<rparr>"

definition with_capacity :: "nat \<Rightarrow> FirstSeenTracker" where
  "with_capacity capacity = \<lparr>ft_capacity = max capacity 1, ft_seen = hnew, ft_order = []\<rparr>"

definition tracker_new :: FirstSeenTracker where
  "tracker_new = with_capacity 50000"

fun evict_loop ::
    "nat \<Rightarrow> b256 list \<Rightarrow> (b256, u64) hmap \<Rightarrow> fs_metrics \<Rightarrow> b256 list \<times> (b256, u64) hmap \<times> fs_metrics" where
  "evict_loop capacity [] seen m = ([], seen, m)"
| "evict_loop capacity (old # order) seen m =
     (if length (old # order) \<ge> capacity
      then evict_loop capacity order (hremove old seen) (inc_event ''evicted_capacity'' m)
      else (old # order, seen, m))"

definition ft_record :: "FirstSeenTracker \<Rightarrow> b256 \<Rightarrow> u64 \<Rightarrow> fs_metrics \<Rightarrow> FirstSeenTracker \<times> fs_metrics" where
  "ft_record t hash first_seen m =
     (if first_seen = 0 then (t, inc_event ''unstamped'' m)
      else if hcontains (ft_seen t) hash then (t, m)
      else
        let (order, seen, m) = evict_loop (ft_capacity t) (ft_order t) (ft_seen t) m
        in (t\<lparr>ft_seen := hinsert hash first_seen seen, ft_order := order @ [hash]\<rparr>, inc_event ''recorded'' m))"

fun observe_loop :: "b256 list \<Rightarrow> u64 \<Rightarrow> (b256, u64) hmap \<Rightarrow> fs_metrics \<Rightarrow> (b256, u64) hmap \<times> fs_metrics" where
  "observe_loop [] now seen m = (seen, m)"
| "observe_loop (hash # hashes) now seen m =
     (case hget seen hash of
        Some first_seen \<Rightarrow>
          let delta_ms = f64_div (f64_of_word (saturating_sub now first_seen)) (Num 1000000)
          in observe_loop hashes now (hremove hash seen)
               (inc_event ''matched'' (m\<lparr>fm_observed_ms := fm_observed_ms m @ [delta_ms]\<rparr>))
      | None \<Rightarrow> observe_loop hashes now seen (inc_event ''unmatched'' m))"

definition observe_block :: "FirstSeenTracker \<Rightarrow> b256 list \<Rightarrow> u64 \<Rightarrow> fs_metrics \<Rightarrow> FirstSeenTracker \<times> fs_metrics" where
  "observe_block t hashes now m =
     (if hashes = [] then (t, m)
      else let (seen, m) = observe_loop hashes now (ft_seen t) m in (t\<lparr>ft_seen := seen\<rparr>, m))"

section \<open>Bounded memory\<close>

definition ft_inv :: "FirstSeenTracker \<Rightarrow> bool" where
  "ft_inv t \<longleftrightarrow> 0 < ft_capacity t \<and> length (ft_order t) \<le> ft_capacity t \<and> hmap_ok (ft_seen t)
     \<and> set (hkeys (ft_seen t)) \<subseteq> set (ft_order t)"

lemma evict_loop_spec:
  assumes "evict_loop c order seen m = (order', seen', m')" and "0 < c" and "hmap_ok seen"
    and "set (hkeys seen) \<subseteq> set order"
  shows "length order' < c \<and> hmap_ok seen' \<and> set (hkeys seen') \<subseteq> set order' \<and> (\<exists>dropped. order = dropped @ order')"
  using assms
proof (induction order arbitrary: seen m)
  case (Cons x order)
  show ?case
  proof (cases "length (x # order) \<ge> c")
    case True
    moreover have "hmap_ok (hremove x seen)" using Cons.prems(3) by (rule hm.ok_remove)
    moreover have "set (hkeys (hremove x seen)) \<subseteq> set order" using Cons.prems(4) by (auto simp: hm.keys_remove)
    ultimately show ?thesis
      using Cons.IH [of "hremove x seen" "inc_event ''evicted_capacity'' m"] Cons.prems by (auto intro: exI [of _ "x # _"])
  next
    case False
    then show ?thesis using Cons.prems by auto
  qed
qed auto

lemma ft_inv_record:
  assumes "ft_inv t"
  shows "ft_inv (fst (ft_record t h ts m)) \<and> ft_capacity (fst (ft_record t h ts m)) = ft_capacity t"
proof -
  obtain order seen m' where e: "evict_loop (ft_capacity t) (ft_order t) (ft_seen t) m = (order, seen, m')"
    by (metis prod_cases3)
  have "length order < ft_capacity t" "hmap_ok seen" "set (hkeys seen) \<subseteq> set order"
    using evict_loop_spec [OF e] assms by (simp_all add: ft_inv_def)
  then show ?thesis
    using assms by (auto simp: ft_record_def e ft_inv_def hm.keys_insert hm.ok_insert)
qed

lemma observe_loop_keys:
  assumes "observe_loop hs now seen m = (seen', m')" and "hmap_ok seen"
  shows "hmap_ok seen' \<and> set (hkeys seen') \<subseteq> set (hkeys seen) - set hs"
  using assms
proof (induction hs arbitrary: seen m)
  case (Cons h hs)
  show ?case
  proof (cases "hget seen h")
    case None
    then have "h \<notin> set (hkeys seen)" by (simp add: hm.set_keys)
    then show ?thesis using Cons.IH [of seen] Cons.prems None by fastforce
  next
    case (Some ts)
    have "hmap_ok (hremove h seen)" using Cons.prems(2) by (rule hm.ok_remove)
    then show ?thesis using Cons.IH [of "hremove h seen"] Cons.prems(1) Some
      by (fastforce simp: hm.keys_remove Let_def)
  qed
qed simp

lemma ft_inv_observe:
  assumes "ft_inv t"
  shows "ft_inv (fst (observe_block t hs now m)) \<and> ft_capacity (fst (observe_block t hs now m)) = ft_capacity t"
proof -
  obtain seen m' where "observe_loop hs now (ft_seen t) m = (seen, m')" by fastforce
  with observe_loop_keys [OF this] assms show ?thesis by (auto simp: observe_block_def ft_inv_def)
qed

section \<open>The subscriber task\<close>

text \<open>What the select loop of \<^verbatim>\<open>spawn_first_seen_tracker\<close> receives.\<close>

datatype task_event =
    PendingOk b256 u64
  | PendingLagged
  | PendingClosed
  | BlockOk "b256 list" u64
  | BlockLagged
  | BlockClosed
  | ShutdownChanged bool

fun tracker_task :: "task_event list \<Rightarrow> FirstSeenTracker \<times> fs_metrics \<Rightarrow> FirstSeenTracker \<times> fs_metrics" where
  "tracker_task [] st = st"
| "tracker_task (PendingOk h ts # evs) (t, m) = tracker_task evs (ft_record t h ts m)"
| "tracker_task (PendingLagged # evs) st = tracker_task evs st"
| "tracker_task (PendingClosed # evs) st = st"
| "tracker_task (BlockOk hs now # evs) (t, m) = tracker_task evs (observe_block t hs now m)"
| "tracker_task (BlockLagged # evs) st = tracker_task evs st"
| "tracker_task (BlockClosed # evs) st = st"
| "tracker_task (ShutdownChanged stop # evs) st = (if stop then st else tracker_task evs st)"

lemma ft_inv_task: "ft_inv (fst st) \<Longrightarrow>
    ft_inv (fst (tracker_task evs st)) \<and> ft_capacity (fst (tracker_task evs st)) = ft_capacity (fst st)"
proof (induction evs st rule: tracker_task.induct)
  case (2 h ts evs t m)
  then show ?case using ft_inv_record [of t h ts m] by simp
next
  case (5 hs now evs t m)
  then show ?case using ft_inv_observe [of t hs now m] by simp
qed auto

text \<open>Whatever sequence of pending transactions, blocks, lag notices and shutdown signals the
  subscriber task receives, the tracker holds at most its capacity of hashes and of queue entries, and
  every hash it holds is queued for eviction.\<close>

theorem tracker_bounded:
  "hlen (ft_seen (fst (tracker_task evs (with_capacity c, m)))) \<le> max c 1
   \<and> length (ft_order (fst (tracker_task evs (with_capacity c, m)))) \<le> max c 1
   \<and> set (hkeys (ft_seen (fst (tracker_task evs (with_capacity c, m)))))
       \<subseteq> set (ft_order (fst (tracker_task evs (with_capacity c, m))))"
proof -
  define t where "t = fst (tracker_task evs (with_capacity c, m))"
  have "ft_inv (with_capacity c)" by (simp add: ft_inv_def with_capacity_def hm.ok_new hm.set_keys)
  then have inv: "ft_inv t" and cap: "ft_capacity t = max c 1"
    using ft_inv_task [of "(with_capacity c, m)" evs] by (simp_all add: with_capacity_def t_def)
  then have "hlen (ft_seen t) \<le> length (ft_order t)" by (intro hm.len_within) (simp_all add: ft_inv_def)
  then show ?thesis using inv cap unfolding t_def [symmetric] ft_inv_def by simp
qed

text \<open>A hash that was matched by a block and then seen again is queued twice, and capacity pressure on
  the stale entry evicts the live one: with room for two hashes, recording a second hash drops the only
  other tracked one instead of keeping both.\<close>

theorem stale_entry_evicts_live:
  "case tracker_task [PendingOk 1 100, BlockOk [1] 200, PendingOk 1 300, PendingOk 2 400]
      (with_capacity 2, \<lparr>fm_events = hnew, fm_observed_ms = []\<rparr>) of (t, m) \<Rightarrow>
     hget (ft_seen t) 1 = None \<and> hget (ft_seen t) 2 = Some 400 \<and> hlen (ft_seen t) = 1
     \<and> ft_order t = [1, 2]"
  by (simp add: with_capacity_def ft_record_def observe_block_def hcontains_def Let_def hlen_def hinsert_def
      hremove_def hget_def hnew_def)

end
