(* ===== verification/Router_Decoder.thy ===== *)
theory Router_Decoder
  imports Bytes
begin

text \<open>
  The decoder of pending router calls (\<^verbatim>\<open>pools/src/router_decoder.rs\<close>). The four-byte selectors and the ABI decoder
  come from the \<^verbatim>\<open>sol!\<close> macro and \<^verbatim>\<open>alloy\<close>: they are the fields of the parameter \<open>sol_abi\<close>. A decoding that does not have
  the shape of the declared parameters counts as a failed one, as the generated structs admit no other. The texts of
  the errors are dropped.
\<close>

section \<open>The parameters: selectors and ABI decoding\<close>

datatype sol_type =
    TAddress | TUint256 | TUint160 | TUint24 | TUint8 | TInt128 | TBool | TBytes32 | TBytes
  | TAddresses | TUints | TBytesArray | TTuple "sol_type list"

datatype sol_value =
    SAddr address
  | SUint u256
  | SUint24 "24 word"
  | SInt int
  | SBool bool
  | SFixed b256
  | SBytes bytes
  | SAddrs "address list"
  | SUints "u256 list"
  | SBytesArr "bytes list"
  | SStruct "sol_value list"

text \<open>The functions of the router interfaces, one type per interface, with the types of their parameters.\<close>

datatype IUniswapV2Router02 =
    swapExactTokensForTokens | swapTokensForExactTokens | swapExactETHForTokens | swapTokensForExactETH
  | swapExactTokensForETH | swapETHForExactTokens | swapExactTokensForTokensSupportingFeeOnTransferTokens
  | swapExactETHForTokensSupportingFeeOnTransferTokens | swapExactTokensForETHSupportingFeeOnTransferTokens
  | addLiquidity | addLiquidityETH | removeLiquidity | removeLiquidityETH | removeLiquidityWithPermit
  | removeLiquidityETHWithPermit | removeLiquidityETHSupportingFeeOnTransferTokens
  | removeLiquidityETHWithPermitSupportingFeeOnTransferTokens

fun v2_params :: "IUniswapV2Router02 \<Rightarrow> sol_type list" where
  "v2_params swapExactETHForTokens = [TUint256, TAddresses, TAddress, TUint256]"
| "v2_params swapETHForExactTokens = [TUint256, TAddresses, TAddress, TUint256]"
| "v2_params swapExactETHForTokensSupportingFeeOnTransferTokens = [TUint256, TAddresses, TAddress, TUint256]"
| "v2_params addLiquidity = [TAddress, TAddress, TUint256, TUint256, TUint256, TUint256, TAddress, TUint256]"
| "v2_params addLiquidityETH = [TAddress, TUint256, TUint256, TUint256, TAddress, TUint256]"
| "v2_params removeLiquidity = [TAddress, TAddress, TUint256, TUint256, TUint256, TAddress, TUint256]"
| "v2_params removeLiquidityETH = [TAddress, TUint256, TUint256, TUint256, TAddress, TUint256]"
| "v2_params removeLiquidityWithPermit =
     [TAddress, TAddress, TUint256, TUint256, TUint256, TAddress, TUint256, TBool, TUint8, TBytes32, TBytes32]"
| "v2_params removeLiquidityETHWithPermit =
     [TAddress, TUint256, TUint256, TUint256, TAddress, TUint256, TBool, TUint8, TBytes32, TBytes32]"
| "v2_params removeLiquidityETHSupportingFeeOnTransferTokens = [TAddress, TUint256, TUint256, TUint256, TAddress, TUint256]"
| "v2_params removeLiquidityETHWithPermitSupportingFeeOnTransferTokens =
     [TAddress, TUint256, TUint256, TUint256, TAddress, TUint256, TBool, TUint8, TBytes32, TBytes32]"
| "v2_params _ = [TUint256, TUint256, TAddresses, TAddress, TUint256]"

datatype IUniswapV3Router =
    exactInputSingle_0 | exactInputSingle_1 | exactInput_0 | exactInput_1
  | exactOutputSingle_0 | exactOutputSingle_1 | exactOutput_0 | exactOutput_1
  | selfPermit | selfPermitAllowed | selfPermitIfNecessary | selfPermitAllowedIfNecessary
  | unwrapWETH9 | unwrapWETH9WithFee | refundETH | sweepToken | sweepTokenWithFee

definition v3_single_params :: "sol_type list" where
  "v3_single_params = [TTuple [TAddress, TAddress, TUint24, TAddress, TUint256, TUint256, TUint256, TUint160]]"

definition v3_single02_params :: "sol_type list" where
  "v3_single02_params = [TTuple [TAddress, TAddress, TUint24, TAddress, TUint256, TUint256, TUint160]]"

definition v3_path_params :: "sol_type list" where
  "v3_path_params = [TTuple [TBytes, TAddress, TUint256, TUint256, TUint256]]"

definition v3_path02_params :: "sol_type list" where
  "v3_path02_params = [TTuple [TBytes, TAddress, TUint256, TUint256]]"

fun v3_params :: "IUniswapV3Router \<Rightarrow> sol_type list" where
  "v3_params exactInputSingle_0 = v3_single_params"
| "v3_params exactInputSingle_1 = v3_single02_params"
| "v3_params exactInput_0 = v3_path_params"
| "v3_params exactInput_1 = v3_path02_params"
| "v3_params exactOutputSingle_0 = v3_single_params"
| "v3_params exactOutputSingle_1 = v3_single02_params"
| "v3_params exactOutput_0 = v3_path_params"
| "v3_params exactOutput_1 = v3_path02_params"
| "v3_params unwrapWETH9 = [TUint256, TAddress]"
| "v3_params unwrapWETH9WithFee = [TUint256, TAddress, TUint256, TAddress]"
| "v3_params refundETH = []"
| "v3_params sweepToken = [TAddress, TUint256, TAddress]"
| "v3_params sweepTokenWithFee = [TAddress, TUint256, TAddress, TUint256, TAddress]"
| "v3_params _ = [TAddress, TUint256, TUint256, TUint8, TBytes32, TBytes32]"

datatype ICurvePool = exchange_int128 | exchange_underlying | exchange_uint256

fun curve_params :: "ICurvePool \<Rightarrow> sol_type list" where
  "curve_params exchange_uint256 = [TUint256, TUint256, TUint256, TUint256]"
| "curve_params _ = [TInt128, TInt128, TUint256, TUint256]"

datatype IBancorNetwork = tradeBySourceAmount | tradeByTargetAmount

datatype IOneInchV6Router =
    one_inch_swap
  | unoswap | unoswapTo | unoswap2 | unoswap2To | unoswap3 | unoswap3To
  | ethUnoswap | ethUnoswapTo | ethUnoswap2 | ethUnoswap2To | ethUnoswap3 | ethUnoswap3To
  | uniswapV3Swap | uniswapV3SwapTo | cancelOrder | fillContractOrder

fun one_inch_params :: "IOneInchV6Router \<Rightarrow> sol_type list" where
  "one_inch_params one_inch_swap =
     [TAddress, TTuple [TAddress, TAddress, TAddress, TAddress, TUint256, TUint256, TUint256], TBytes]"
| "one_inch_params unoswap = replicate 4 TUint256"
| "one_inch_params unoswapTo = replicate 5 TUint256"
| "one_inch_params unoswap2 = replicate 5 TUint256"
| "one_inch_params unoswap2To = replicate 6 TUint256"
| "one_inch_params unoswap3 = replicate 6 TUint256"
| "one_inch_params unoswap3To = replicate 7 TUint256"
| "one_inch_params ethUnoswap = replicate 2 TUint256"
| "one_inch_params ethUnoswapTo = replicate 3 TUint256"
| "one_inch_params ethUnoswap2 = replicate 3 TUint256"
| "one_inch_params ethUnoswap2To = replicate 4 TUint256"
| "one_inch_params ethUnoswap3 = replicate 4 TUint256"
| "one_inch_params ethUnoswap3To = replicate 5 TUint256"
| "one_inch_params uniswapV3Swap = [TUint256, TUint256, TUints]"
| "one_inch_params uniswapV3SwapTo = [TAddress, TUint256, TUint256, TUints]"
| "one_inch_params cancelOrder = [TUint256, TBytes32]"
| "one_inch_params fillContractOrder = [TTuple (replicate 8 TUint256), TBytes, TUint256, TUint256]"

datatype router_fn =
    V2 IUniswapV2Router02
  | V3 IUniswapV3Router
  | Multicall
  | MulticallDeadline
  | CurvePoolFn ICurvePool
  | BancorFn IBancorNetwork
  | BalancerSwap
  | OneInch IOneInchV6Router
  | Execute_0
  | Execute_1

fun sol_params :: "router_fn \<Rightarrow> sol_type list" where
  "sol_params (V2 f) = v2_params f"
| "sol_params (V3 f) = v3_params f"
| "sol_params Multicall = [TBytesArray]"
| "sol_params MulticallDeadline = [TUint256, TBytesArray]"
| "sol_params (CurvePoolFn f) = curve_params f"
| "sol_params (BancorFn f) = [TAddress, TAddress, TUint256, TUint256, TUint256, TAddress]"
| "sol_params BalancerSwap =
     [TTuple [TBytes32, TUint8, TAddress, TAddress, TUint256, TBytes], TTuple [TAddress, TBool, TAddress, TBool], TUint256, TUint256]"
| "sol_params (OneInch f) = one_inch_params f"
| "sol_params Execute_0 = [TBytes, TBytesArray]"
| "sol_params Execute_1 = [TBytes, TBytesArray, TUint256]"

text \<open>\<open>sol_selector\<close> is the first four bytes of the hash of the signature, \<open>sol_decode\<close> the decoding of a parameter list.\<close>

record sol_abi =
  sol_selector :: "router_fn \<Rightarrow> bytes"
  sol_decode :: "sol_type list \<Rightarrow> bytes \<Rightarrow> sol_value list option"

section \<open>Decoded swaps\<close>

datatype Protocol = R_UniswapV2 | R_UniswapV3 | R_SushiSwap | R_BalancerV2 | R_Curve | R_BancorV3 | R_OneInchV6

record DecodedSwap =
  ds_protocol :: Protocol
  ds_router :: address
  ds_token_in :: address
  ds_token_out :: address
  ds_amount_in :: u256
  ds_amount_out_min :: u256
  ds_recipient :: address
  ds_fee_bps :: u32
  ds_path_extra :: "address list"
  ds_curve_indices :: "(u8 \<times> u8) option"
  ds_pool_address :: "address option"
  ds_one_inch_zero_for_one :: "bool option"

datatype DecodeError =
    TooShort
  | UnknownSelector bytes
  | AbiDecode
  | EmptyPath
  | CurveUnsupported address

text \<open>Results and the \<^verbatim>\<open>?\<close> operator on them.\<close>

type_synonym 'a dec = "DecodeError + 'a"

fun dbind :: "'a dec \<Rightarrow> ('a \<Rightarrow> 'b dec) \<Rightarrow> 'b dec" where
  "dbind (Inl e) f = Inl e"
| "dbind (Inr x) f = f x"

text \<open>A swap with the fields that most decoders leave empty.\<close>

definition plain_swap :: "Protocol \<Rightarrow> address \<Rightarrow> address \<Rightarrow> address \<Rightarrow> u256 \<Rightarrow> u256 \<Rightarrow> address \<Rightarrow> u32 \<Rightarrow> address list \<Rightarrow> DecodedSwap" where
  "plain_swap p router token_in token_out amount_in amount_out_min recipient fee extra =
     \<lparr>ds_protocol = p, ds_router = router, ds_token_in = token_in, ds_token_out = token_out, ds_amount_in = amount_in,
      ds_amount_out_min = amount_out_min, ds_recipient = recipient, ds_fee_bps = fee, ds_path_extra = extra,
      ds_curve_indices = None, ds_pool_address = None, ds_one_inch_zero_for_one = None\<rparr>"

section \<open>Routers\<close>

definition CURVE_ROUTERS :: "address list" where
  "CURVE_ROUTERS = [0x99a58482BD75cbab83b27EC03CA68fF489b5788f]"

definition is_unsupported_curve_router :: "address \<Rightarrow> bool" where
  "is_unsupported_curve_router router = (router \<in> set CURVE_ROUTERS)"

definition SUSHISWAP_ROUTERS :: "address list" where
  "SUSHISWAP_ROUTERS = [0xd9e1cE17f2641f24aE83637ab66a2cca9C378B9F]"

definition router_to_v2_protocol :: "address \<Rightarrow> Protocol" where
  "router_to_v2_protocol router = (if router \<in> set SUSHISWAP_ROUTERS then R_SushiSwap else R_UniswapV2)"

definition WETH_ADDRESS :: address where
  "WETH_ADDRESS = 0xC02aaA39b223FE8D0A0e5C4F27eAD9083C756Cc2"

section \<open>Typed calls\<close>

text \<open>\<^verbatim>\<open>abi_decode\<close> of a call: the payload after the selector, read as the declared parameters.\<close>

definition abi_call :: "sol_abi \<Rightarrow> router_fn \<Rightarrow> (sol_value list \<Rightarrow> 'a option) \<Rightarrow> bytes \<Rightarrow> 'a dec" where
  "abi_call abi f shape calldata =
     (case sol_decode abi (sol_params f) (drop 4 calldata) of
        None \<Rightarrow> Inl AbiDecode
      | Some vs \<Rightarrow> (case shape vs of None \<Rightarrow> Inl AbiDecode | Some c \<Rightarrow> Inr c))"

definition as_v2_5 :: "sol_value list \<Rightarrow> (u256 \<times> u256 \<times> address list \<times> address) option" where
  "as_v2_5 vs = (case vs of [SUint a, SUint b, SAddrs path, SAddr to, SUint deadline] \<Rightarrow> Some (a, b, path, to) | _ \<Rightarrow> None)"

definition as_v2_4 :: "sol_value list \<Rightarrow> (u256 \<times> address list \<times> address) option" where
  "as_v2_4 vs = (case vs of [SUint a, SAddrs path, SAddr to, SUint deadline] \<Rightarrow> Some (a, path, to) | _ \<Rightarrow> None)"

definition as_v3_single :: "sol_value list \<Rightarrow> (address \<times> address \<times> 24 word \<times> address \<times> u256 \<times> u256) option" where
  "as_v3_single vs = (case vs of
     [SStruct [SAddr tokenIn, SAddr tokenOut, SUint24 fee, SAddr recipient, SUint deadline, SUint a, SUint b, SUint lim]]
       \<Rightarrow> Some (tokenIn, tokenOut, fee, recipient, a, b) | _ \<Rightarrow> None)"

definition as_v3_single02 :: "sol_value list \<Rightarrow> (address \<times> address \<times> 24 word \<times> address \<times> u256 \<times> u256) option" where
  "as_v3_single02 vs = (case vs of
     [SStruct [SAddr tokenIn, SAddr tokenOut, SUint24 fee, SAddr recipient, SUint a, SUint b, SUint lim]]
       \<Rightarrow> Some (tokenIn, tokenOut, fee, recipient, a, b) | _ \<Rightarrow> None)"

definition as_v3_path :: "sol_value list \<Rightarrow> (bytes \<times> address \<times> u256 \<times> u256) option" where
  "as_v3_path vs = (case vs of
     [SStruct [SBytes path, SAddr recipient, SUint deadline, SUint a, SUint b]] \<Rightarrow> Some (path, recipient, a, b) | _ \<Rightarrow> None)"

definition as_v3_path02 :: "sol_value list \<Rightarrow> (bytes \<times> address \<times> u256 \<times> u256) option" where
  "as_v3_path02 vs = (case vs of
     [SStruct [SBytes path, SAddr recipient, SUint a, SUint b]] \<Rightarrow> Some (path, recipient, a, b) | _ \<Rightarrow> None)"

definition as_bancor :: "sol_value list \<Rightarrow> (address \<times> address \<times> u256 \<times> u256 \<times> address) option" where
  "as_bancor vs = (case vs of
     [SAddr src, SAddr dst, SUint a, SUint b, SUint deadline, SAddr beneficiary] \<Rightarrow> Some (src, dst, a, b, beneficiary) | _ \<Rightarrow> None)"

definition as_balancer :: "sol_value list \<Rightarrow> (address \<times> address \<times> u256 \<times> address \<times> u256) option" where
  "as_balancer vs = (case vs of
     [SStruct [SFixed poolId, SUint kind, SAddr assetIn, SAddr assetOut, SUint amount, SBytes userData],
      SStruct [SAddr sender, SBool fromInternal, SAddr recipient, SBool toInternal], SUint limit, SUint deadline]
       \<Rightarrow> Some (assetIn, assetOut, amount, recipient, limit) | _ \<Rightarrow> None)"

definition as_curve_int :: "sol_value list \<Rightarrow> (int \<times> int \<times> u256) option" where
  "as_curve_int vs = (case vs of [SInt i, SInt j, SUint dx, SUint min_dy] \<Rightarrow> Some (i, j, dx) | _ \<Rightarrow> None)"

definition as_curve_uint :: "sol_value list \<Rightarrow> (u256 \<times> u256 \<times> u256) option" where
  "as_curve_uint vs = (case vs of [SUint i, SUint j, SUint dx, SUint min_dy] \<Rightarrow> Some (i, j, dx) | _ \<Rightarrow> None)"

definition as_one_inch_swap :: "sol_value list \<Rightarrow> (address \<times> address \<times> u256 \<times> u256 \<times> address) option" where
  "as_one_inch_swap vs = (case vs of
     [SAddr executor, SStruct [SAddr srcToken, SAddr dstToken, SAddr srcReceiver, SAddr dstReceiver, SUint amount,
        SUint minReturn, SUint flags], SBytes data] \<Rightarrow> Some (srcToken, dstToken, amount, minReturn, dstReceiver) | _ \<Rightarrow> None)"

fun as_uints :: "sol_value list \<Rightarrow> u256 list option" where
  "as_uints [] = Some []"
| "as_uints (SUint v # vs) = map_option ((#) v) (as_uints vs)"
| "as_uints (_ # vs) = None"

definition as_v3_swap :: "sol_value list \<Rightarrow> (u256 \<times> u256 \<times> u256 list) option" where
  "as_v3_swap vs = (case vs of [SUint amount, SUint minReturn, SUints pools] \<Rightarrow> Some (amount, minReturn, pools) | _ \<Rightarrow> None)"

definition as_v3_swap_to :: "sol_value list \<Rightarrow> (address \<times> u256 \<times> u256 \<times> u256 list) option" where
  "as_v3_swap_to vs = (case vs of
     [SAddr recipient, SUint amount, SUint minReturn, SUints pools] \<Rightarrow> Some (recipient, amount, minReturn, pools) | _ \<Rightarrow> None)"

definition as_multicall :: "sol_value list \<Rightarrow> bytes list option" where
  "as_multicall vs = (case vs of [SBytesArr data] \<Rightarrow> Some data | _ \<Rightarrow> None)"

definition as_multicall_deadline :: "sol_value list \<Rightarrow> bytes list option" where
  "as_multicall_deadline vs = (case vs of [SUint deadline, SBytesArr data] \<Rightarrow> Some data | _ \<Rightarrow> None)"

definition as_execute :: "sol_value list \<Rightarrow> (bytes \<times> bytes list) option" where
  "as_execute vs = (case vs of [SBytes commands, SBytesArr inputs] \<Rightarrow> Some (commands, inputs) | _ \<Rightarrow> None)"

definition as_execute_deadline :: "sol_value list \<Rightarrow> (bytes \<times> bytes list) option" where
  "as_execute_deadline vs = (case vs of [SBytes commands, SBytesArr inputs, SUint deadline] \<Rightarrow> Some (commands, inputs) | _ \<Rightarrow> None)"

definition as_v3_tuple :: "sol_value list \<Rightarrow> (address \<times> u256 \<times> u256 \<times> bytes) option" where
  "as_v3_tuple vs = (case vs of [SAddr recipient, SUint a, SUint b, SBytes path, SBool payer] \<Rightarrow> Some (recipient, a, b, path) | _ \<Rightarrow> None)"

definition as_v2_tuple :: "sol_value list \<Rightarrow> (address \<times> u256 \<times> u256 \<times> address list) option" where
  "as_v2_tuple vs = (case vs of [SAddr recipient, SUint a, SUint b, SAddrs path, SBool payer] \<Rightarrow> Some (recipient, a, b, path) | _ \<Rightarrow> None)"

section \<open>Decoders\<close>

definition decode_v2_call :: "address \<Rightarrow> address list \<Rightarrow> u256 \<Rightarrow> u256 \<Rightarrow> address \<Rightarrow> DecodedSwap dec" where
  "decode_v2_call router path amount_in amount_out_min to =
     (if length path < 2 then Inl EmptyPath
      else Inr (plain_swap (router_to_v2_protocol router) router (path ! 0) (path ! 1) amount_in amount_out_min to 0 (drop 2 path)))"

text \<open>An exact-input call of a Uniswap V2 router, one that fixes the output, and their variants paid in ETH, whose input
  amount is not in the calldata.\<close>

definition v2_exact_in :: "sol_abi \<Rightarrow> IUniswapV2Router02 \<Rightarrow> bytes \<Rightarrow> address \<Rightarrow> DecodedSwap option dec" where
  "v2_exact_in abi f calldata router =
     dbind (abi_call abi (V2 f) as_v2_5 calldata) (\<lambda>(amountIn, amountOutMin, path, to).
       dbind (decode_v2_call router path amountIn amountOutMin to) (\<lambda>swap. Inr (Some swap)))"

definition v2_exact_out :: "sol_abi \<Rightarrow> IUniswapV2Router02 \<Rightarrow> bytes \<Rightarrow> address \<Rightarrow> DecodedSwap option dec" where
  "v2_exact_out abi f calldata router =
     dbind (abi_call abi (V2 f) as_v2_5 calldata) (\<lambda>(amountOut, amountInMax, path, to).
       dbind (decode_v2_call router path amountInMax amountOut to) (\<lambda>swap. Inr (Some swap)))"

definition v2_eth_in :: "sol_abi \<Rightarrow> IUniswapV2Router02 \<Rightarrow> bytes \<Rightarrow> address \<Rightarrow> DecodedSwap option dec" where
  "v2_eth_in abi f calldata router =
     dbind (abi_call abi (V2 f) as_v2_4 calldata) (\<lambda>(amountOut, path, to).
       dbind (decode_v2_call router path 0 amountOut to) (\<lambda>swap. Inr (Some swap)))"

definition try_uni_v2_family :: "sol_abi \<Rightarrow> bytes \<Rightarrow> bytes \<Rightarrow> address \<Rightarrow> DecodedSwap option dec" where
  "try_uni_v2_family abi selector calldata router =
     (if selector = sol_selector abi (V2 swapExactTokensForTokens) then v2_exact_in abi swapExactTokensForTokens calldata router
      else if selector = sol_selector abi (V2 swapTokensForExactTokens) then v2_exact_out abi swapTokensForExactTokens calldata router
      else if selector = sol_selector abi (V2 swapExactETHForTokens) then v2_eth_in abi swapExactETHForTokens calldata router
      else if selector = sol_selector abi (V2 swapExactTokensForETH) then v2_exact_in abi swapExactTokensForETH calldata router
      else if selector = sol_selector abi (V2 swapTokensForExactETH) then v2_exact_out abi swapTokensForExactETH calldata router
      else if selector = sol_selector abi (V2 swapETHForExactTokens) then v2_eth_in abi swapETHForExactTokens calldata router
      else if selector = sol_selector abi (V2 swapExactTokensForTokensSupportingFeeOnTransferTokens)
        then v2_exact_in abi swapExactTokensForTokensSupportingFeeOnTransferTokens calldata router
      else if selector = sol_selector abi (V2 swapExactETHForTokensSupportingFeeOnTransferTokens)
        then v2_eth_in abi swapExactETHForTokensSupportingFeeOnTransferTokens calldata router
      else if selector = sol_selector abi (V2 swapExactTokensForETHSupportingFeeOnTransferTokens)
        then v2_exact_in abi swapExactTokensForETHSupportingFeeOnTransferTokens calldata router
      else Inr None)"

text \<open>The packed path of Uniswap V3: the loop over the token positions. A slice at \<open>cursor\<close> is in range by the loop's
  condition.\<close>

function v3_path_tokens :: "bytes \<Rightarrow> nat \<Rightarrow> address list" where
  "v3_path_tokens path cursor =
     (if cursor + 20 \<le> length path
      then from_be (take 20 (drop cursor path))
        # v3_path_tokens path (if cursor + 20 + 3 < length path then cursor + 20 + 3 else cursor + 20)
      else [])"
  by auto
termination by (relation "measure (\<lambda>(path, cursor). length path - cursor)") auto

declare v3_path_tokens.simps [simp del]

definition v3_fee :: "bytes \<Rightarrow> u32" where
  "v3_fee fee_bytes = push_bit 16 (ucast (fee_bytes ! 0)) OR push_bit 8 (ucast (fee_bytes ! 1)) OR ucast (fee_bytes ! 2)"

definition parse_v3_path :: "bytes \<Rightarrow> (address \<times> address \<times> u32 \<times> address list) dec" where
  "parse_v3_path path =
     (if length path < 43 then Inl EmptyPath
      else case v3_path_tokens path 23 of
        [] \<Rightarrow> Inl EmptyPath
      | token_out # tokens \<Rightarrow> Inr (from_be (take 20 path), token_out, v3_fee (take 3 (drop 20 path)), tokens))"

definition swap_path_first_hop_for_exact_output :: "address \<Rightarrow> address \<Rightarrow> address list \<Rightarrow> address \<times> address" where
  "swap_path_first_hop_for_exact_output path_first path_second extras = (path_second, path_first)"

definition v3_single :: "sol_abi \<Rightarrow> IUniswapV3Router \<Rightarrow>
  (sol_value list \<Rightarrow> (address \<times> address \<times> 24 word \<times> address \<times> u256 \<times> u256) option) \<Rightarrow> bytes \<Rightarrow> address \<Rightarrow> DecodedSwap option dec" where
  "v3_single abi f shape calldata router =
     dbind (abi_call abi (V3 f) shape calldata) (\<lambda>(tokenIn, tokenOut, fee, recipient, a, b).
       Inr (Some (plain_swap R_UniswapV3 router tokenIn tokenOut a b recipient (ucast fee) [])))"

definition v3_exact_input :: "sol_abi \<Rightarrow> IUniswapV3Router \<Rightarrow>
  (sol_value list \<Rightarrow> (bytes \<times> address \<times> u256 \<times> u256) option) \<Rightarrow> bytes \<Rightarrow> address \<Rightarrow> DecodedSwap option dec" where
  "v3_exact_input abi f shape calldata router =
     dbind (abi_call abi (V3 f) shape calldata) (\<lambda>(path, recipient, amountIn, amountOutMinimum).
       dbind (parse_v3_path path) (\<lambda>(token_in, token_out, fee, extras).
         Inr (Some (plain_swap R_UniswapV3 router token_in token_out amountIn amountOutMinimum recipient fee extras))))"

definition v3_exact_output :: "sol_abi \<Rightarrow> IUniswapV3Router \<Rightarrow>
  (sol_value list \<Rightarrow> (bytes \<times> address \<times> u256 \<times> u256) option) \<Rightarrow> bytes \<Rightarrow> address \<Rightarrow> DecodedSwap option dec" where
  "v3_exact_output abi f shape calldata router =
     dbind (abi_call abi (V3 f) shape calldata) (\<lambda>(path, recipient, amountOut, amountInMaximum).
       dbind (parse_v3_path path) (\<lambda>(path_first, path_second, fee, extras).
         let (token_in, token_out) = swap_path_first_hop_for_exact_output path_first path_second extras
         in Inr (Some (plain_swap R_UniswapV3 router token_in token_out amountOut amountInMaximum recipient fee extras))))"

definition try_uni_v3_family :: "sol_abi \<Rightarrow> bytes \<Rightarrow> bytes \<Rightarrow> address \<Rightarrow> DecodedSwap option dec" where
  "try_uni_v3_family abi selector calldata router =
     (if selector = sol_selector abi (V3 exactInputSingle_0) then v3_single abi exactInputSingle_0 as_v3_single calldata router
      else if selector = sol_selector abi (V3 exactInputSingle_1) then v3_single abi exactInputSingle_1 as_v3_single02 calldata router
      else if selector = sol_selector abi (V3 exactInput_0) then v3_exact_input abi exactInput_0 as_v3_path calldata router
      else if selector = sol_selector abi (V3 exactInput_1) then v3_exact_input abi exactInput_1 as_v3_path02 calldata router
      else if selector = sol_selector abi (V3 exactOutputSingle_0) then v3_single abi exactOutputSingle_0 as_v3_single calldata router
      else if selector = sol_selector abi (V3 exactOutputSingle_1) then v3_single abi exactOutputSingle_1 as_v3_single02 calldata router
      else if selector = sol_selector abi (V3 exactOutput_0) then v3_exact_output abi exactOutput_0 as_v3_path calldata router
      else if selector = sol_selector abi (V3 exactOutput_1) then v3_exact_output abi exactOutput_1 as_v3_path02 calldata router
      else Inr None)"

definition try_balancer :: "sol_abi \<Rightarrow> bytes \<Rightarrow> bytes \<Rightarrow> address \<Rightarrow> DecodedSwap option dec" where
  "try_balancer abi selector calldata router =
     (if selector = sol_selector abi BalancerSwap
      then dbind (abi_call abi BalancerSwap as_balancer calldata) (\<lambda>(assetIn, assetOut, amount, recipient, limit).
        Inr (Some (plain_swap R_BalancerV2 router assetIn assetOut amount limit recipient 0 [])))
      else Inr None)"

definition curve_index_i128 :: "int \<Rightarrow> u8 dec" where
  "curve_index_i128 v = (if v < 0 \<or> v > 255 then Inl AbiDecode else Inr (of_int v))"

definition curve_indices_from_int128 :: "int \<Rightarrow> int \<Rightarrow> (u8 \<times> u8) dec" where
  "curve_indices_from_int128 i j = dbind (curve_index_i128 i) (\<lambda>a. dbind (curve_index_i128 j) (\<lambda>b. Inr (a, b)))"

definition curve_index_u256 :: "u256 \<Rightarrow> u8 dec" where
  "curve_index_u256 v = (if v > 255 then Inl AbiDecode else Inr (ucast v))"

definition curve_indices_from_uint256 :: "u256 \<Rightarrow> u256 \<Rightarrow> (u8 \<times> u8) dec" where
  "curve_indices_from_uint256 i j = dbind (curve_index_u256 i) (\<lambda>a. dbind (curve_index_u256 j) (\<lambda>b. Inr (a, b)))"

definition curve_decoded_swap :: "address \<Rightarrow> u8 \<times> u8 \<Rightarrow> u256 \<Rightarrow> DecodedSwap" where
  "curve_decoded_swap pool indices amount_in = (plain_swap R_Curve pool 0 0 amount_in 0 0 0 [])\<lparr>ds_curve_indices := Some indices\<rparr>"

definition curve_exchange_int :: "sol_abi \<Rightarrow> ICurvePool \<Rightarrow> bytes \<Rightarrow> address \<Rightarrow> DecodedSwap option dec" where
  "curve_exchange_int abi f calldata pool =
     dbind (abi_call abi (CurvePoolFn f) as_curve_int calldata) (\<lambda>(i, j, dx).
       dbind (curve_indices_from_int128 i j) (\<lambda>indices. Inr (Some (curve_decoded_swap pool indices dx))))"

definition try_curve :: "sol_abi \<Rightarrow> bytes \<Rightarrow> bytes \<Rightarrow> address \<Rightarrow> DecodedSwap option dec" where
  "try_curve abi selector calldata pool =
     (if selector = sol_selector abi (CurvePoolFn exchange_int128) then curve_exchange_int abi exchange_int128 calldata pool
      else if selector = sol_selector abi (CurvePoolFn exchange_underlying) then curve_exchange_int abi exchange_underlying calldata pool
      else if selector = sol_selector abi (CurvePoolFn exchange_uint256) then
        dbind (abi_call abi (CurvePoolFn exchange_uint256) as_curve_uint calldata) (\<lambda>(i, j, dx).
          dbind (curve_indices_from_uint256 i j) (\<lambda>indices. Inr (Some (curve_decoded_swap pool indices dx))))
      else Inr None)"

definition bancor_trade :: "sol_abi \<Rightarrow> IBancorNetwork \<Rightarrow> bytes \<Rightarrow> address \<Rightarrow> DecodedSwap option dec" where
  "bancor_trade abi f calldata router =
     dbind (abi_call abi (BancorFn f) as_bancor calldata) (\<lambda>(src, dst, a, b, beneficiary).
       Inr (Some (plain_swap R_BancorV3 router src dst a b beneficiary 0 [])))"

definition try_bancor :: "sol_abi \<Rightarrow> bytes \<Rightarrow> bytes \<Rightarrow> address \<Rightarrow> DecodedSwap option dec" where
  "try_bancor abi selector calldata router =
     (if selector = sol_selector abi (BancorFn tradeBySourceAmount) then bancor_trade abi tradeBySourceAmount calldata router
      else if selector = sol_selector abi (BancorFn tradeByTargetAmount) then bancor_trade abi tradeByTargetAmount calldata router
      else Inr None)"

section \<open>1inch\<close>

definition u256_low_address :: "u256 \<Rightarrow> address" where
  "u256_low_address v = from_be (drop 12 (abi_word v))"

definition ZERO_FOR_ONE_BIT :: nat where
  "ZERO_FOR_ONE_BIT = 247"

definition pool_zero_for_one :: "u256 \<Rightarrow> address \<times> bool" where
  "pool_zero_for_one encoded =
     (let pool = from_be (drop 12 (abi_word encoded)); bit1 = push_bit ZERO_FOR_ONE_BIT 1
      in (pool, encoded AND bit1 \<noteq> 0))"

definition pool_word_for_test :: "address \<Rightarrow> bool \<Rightarrow> u256" where
  "pool_word_for_test pool zero_for_one =
     (let v = from_be (replicate 12 0 @ be_bytes 20 (unat pool))
      in if zero_for_one then v OR push_bit ZERO_FOR_ONE_BIT 1 else v)"

definition one_inch_unresolved_swap :: "address \<Rightarrow> address \<Rightarrow> address \<Rightarrow> u256 \<Rightarrow> u256 \<Rightarrow> address \<Rightarrow> DecodedSwap" where
  "one_inch_unresolved_swap router src dst amount min_return recipient =
     plain_swap R_OneInchV6 router src dst amount min_return recipient 0 []"

definition one_inch_hop :: "address \<Rightarrow> address \<Rightarrow> u256 \<Rightarrow> u256 \<Rightarrow> nat \<Rightarrow> address \<Rightarrow> nat \<times> u256 \<Rightarrow> DecodedSwap" where
  "one_inch_hop router token_in_first amount_in min_return n recipient hop =
     (let (idx, encoded) = hop; (pool, zero_for_one) = pool_zero_for_one encoded; is_first = (idx = 0); is_last = (idx + 1 = n)
      in (plain_swap R_OneInchV6 router (if is_first then token_in_first else 0) 0 (if is_first then amount_in else 0)
            (if is_last then min_return else 0) recipient 0 [])
         \<lparr>ds_pool_address := Some pool, ds_one_inch_zero_for_one := Some zero_for_one\<rparr>)"

definition one_inch_chain :: "address \<Rightarrow> address \<Rightarrow> u256 \<Rightarrow> u256 \<Rightarrow> u256 list \<Rightarrow> address \<Rightarrow> DecodedSwap list" where
  "one_inch_chain router token_in_first amount_in min_return pools recipient =
     map (one_inch_hop router token_in_first amount_in min_return (length pools) recipient) (enumerate 0 pools)"

text \<open>The words of an \<^verbatim>\<open>unoswap\<close> call, its source token, amount, minimum, pools and recipient.\<close>

definition unoswap_fields :: "IOneInchV6Router \<Rightarrow> u256 list \<Rightarrow> (address \<times> u256 \<times> u256 \<times> u256 list \<times> address) option" where
  "unoswap_fields f c = (case f of
       unoswap \<Rightarrow> (case c of [token, amount, minReturn, dex] \<Rightarrow>
         Some (u256_low_address token, amount, minReturn, [dex], 0) | _ \<Rightarrow> None)
     | unoswapTo \<Rightarrow> (case c of [to, token, amount, minReturn, dex] \<Rightarrow>
         Some (u256_low_address token, amount, minReturn, [dex], u256_low_address to) | _ \<Rightarrow> None)
     | unoswap2 \<Rightarrow> (case c of [token, amount, minReturn, dex, dex2] \<Rightarrow>
         Some (u256_low_address token, amount, minReturn, [dex, dex2], 0) | _ \<Rightarrow> None)
     | unoswap2To \<Rightarrow> (case c of [to, token, amount, minReturn, dex, dex2] \<Rightarrow>
         Some (u256_low_address token, amount, minReturn, [dex, dex2], u256_low_address to) | _ \<Rightarrow> None)
     | unoswap3 \<Rightarrow> (case c of [token, amount, minReturn, dex, dex2, dex3] \<Rightarrow>
         Some (u256_low_address token, amount, minReturn, [dex, dex2, dex3], 0) | _ \<Rightarrow> None)
     | unoswap3To \<Rightarrow> (case c of [to, token, amount, minReturn, dex, dex2, dex3] \<Rightarrow>
         Some (u256_low_address token, amount, minReturn, [dex, dex2, dex3], u256_low_address to) | _ \<Rightarrow> None)
     | ethUnoswap \<Rightarrow> (case c of [minReturn, dex] \<Rightarrow>
         Some (WETH_ADDRESS, 0, minReturn, [dex], 0) | _ \<Rightarrow> None)
     | ethUnoswapTo \<Rightarrow> (case c of [to, minReturn, dex] \<Rightarrow>
         Some (WETH_ADDRESS, 0, minReturn, [dex], u256_low_address to) | _ \<Rightarrow> None)
     | ethUnoswap2 \<Rightarrow> (case c of [minReturn, dex, dex2] \<Rightarrow>
         Some (WETH_ADDRESS, 0, minReturn, [dex, dex2], 0) | _ \<Rightarrow> None)
     | ethUnoswap2To \<Rightarrow> (case c of [to, minReturn, dex, dex2] \<Rightarrow>
         Some (WETH_ADDRESS, 0, minReturn, [dex, dex2], u256_low_address to) | _ \<Rightarrow> None)
     | ethUnoswap3 \<Rightarrow> (case c of [minReturn, dex, dex2, dex3] \<Rightarrow>
         Some (WETH_ADDRESS, 0, minReturn, [dex, dex2, dex3], 0) | _ \<Rightarrow> None)
     | ethUnoswap3To \<Rightarrow> (case c of [to, minReturn, dex, dex2, dex3] \<Rightarrow>
         Some (WETH_ADDRESS, 0, minReturn, [dex, dex2, dex3], u256_low_address to) | _ \<Rightarrow> None)
     | _ \<Rightarrow> None)"

definition unoswap_call :: "sol_abi \<Rightarrow> IOneInchV6Router \<Rightarrow> bytes \<Rightarrow> address \<Rightarrow> DecodedSwap list option dec" where
  "unoswap_call abi f calldata router =
     dbind (abi_call abi (OneInch f) (\<lambda>vs. Option.bind (as_uints vs) (unoswap_fields f)) calldata)
       (\<lambda>(token_in, amount, minReturn, pools, recipient).
         Inr (Some (one_inch_chain router token_in amount minReturn pools recipient)))"

definition unoswap_family :: "IOneInchV6Router list" where
  "unoswap_family = [unoswap, unoswapTo, unoswap2, unoswap2To, unoswap3, unoswap3To, ethUnoswap, ethUnoswapTo, ethUnoswap2,
     ethUnoswap2To, ethUnoswap3, ethUnoswap3To]"

definition try_one_inch_v6 :: "sol_abi \<Rightarrow> bytes \<Rightarrow> bytes \<Rightarrow> address \<Rightarrow> DecodedSwap list option dec" where
  "try_one_inch_v6 abi selector calldata router =
     (if selector = sol_selector abi (OneInch one_inch_swap) then
        dbind (abi_call abi (OneInch one_inch_swap) as_one_inch_swap calldata) (\<lambda>(src, dst, amount, minReturn, dstReceiver).
          Inr (Some [one_inch_unresolved_swap router src dst amount minReturn dstReceiver]))
      else case find (\<lambda>f. selector = sol_selector abi (OneInch f)) unoswap_family of
        Some f \<Rightarrow> unoswap_call abi f calldata router
      | None \<Rightarrow>
          if selector = sol_selector abi (OneInch uniswapV3Swap) then
            dbind (abi_call abi (OneInch uniswapV3Swap) as_v3_swap calldata) (\<lambda>(amount, minReturn, pools).
              if pools = [] then Inl EmptyPath else Inr (Some (one_inch_chain router 0 amount minReturn pools 0)))
          else if selector = sol_selector abi (OneInch uniswapV3SwapTo) then
            dbind (abi_call abi (OneInch uniswapV3SwapTo) as_v3_swap_to calldata) (\<lambda>(recipient, amount, minReturn, pools).
              if pools = [] then Inl EmptyPath else Inr (Some (one_inch_chain router 0 amount minReturn pools recipient)))
          else Inr None)"

section \<open>Universal Router\<close>

definition COMMAND_TYPE_MASK :: u8 where
  "COMMAND_TYPE_MASK = 0x3f"

definition V3_SWAP_EXACT_IN :: u8 where
  "V3_SWAP_EXACT_IN = 0x00"

definition V3_SWAP_EXACT_OUT :: u8 where
  "V3_SWAP_EXACT_OUT = 0x01"

definition V2_SWAP_EXACT_IN :: u8 where
  "V2_SWAP_EXACT_IN = 0x08"

definition V2_SWAP_EXACT_OUT :: u8 where
  "V2_SWAP_EXACT_OUT = 0x09"

definition V4_SWAP :: u8 where
  "V4_SWAP = 0x10"

definition abi_params :: "sol_abi \<Rightarrow> sol_type list \<Rightarrow> (sol_value list \<Rightarrow> 'a option) \<Rightarrow> bytes \<Rightarrow> 'a dec" where
  "abi_params abi ts shape input =
     (case sol_decode abi ts input of
        None \<Rightarrow> Inl AbiDecode
      | Some vs \<Rightarrow> (case shape vs of None \<Rightarrow> Inl AbiDecode | Some c \<Rightarrow> Inr c))"

definition V3Tuple :: "sol_type list" where
  "V3Tuple = [TAddress, TUint256, TUint256, TBytes, TBool]"

definition V2Tuple :: "sol_type list" where
  "V2Tuple = [TAddress, TUint256, TUint256, TAddresses, TBool]"

definition decode_ur_opcode :: "sol_abi \<Rightarrow> u8 \<Rightarrow> bytes \<Rightarrow> address \<Rightarrow> DecodedSwap option dec" where
  "decode_ur_opcode abi opcode input router =
     (if opcode = V3_SWAP_EXACT_IN then
        dbind (abi_params abi V3Tuple as_v3_tuple input) (\<lambda>(recipient, amount_in, amount_out_min, path).
          dbind (parse_v3_path path) (\<lambda>(token_in, token_out, fee, path_extra).
            Inr (Some (plain_swap R_UniswapV3 router token_in token_out amount_in amount_out_min recipient fee path_extra))))
      else if opcode = V3_SWAP_EXACT_OUT then
        dbind (abi_params abi V3Tuple as_v3_tuple input) (\<lambda>(recipient, amount_out, amount_in_max, path).
          dbind (parse_v3_path path) (\<lambda>(path_first, path_second, fee, extras).
            let (token_in, token_out) = swap_path_first_hop_for_exact_output path_first path_second extras
            in Inr (Some (plain_swap R_UniswapV3 router token_in token_out amount_out amount_in_max recipient fee extras))))
      else if opcode = V2_SWAP_EXACT_IN then
        dbind (abi_params abi V2Tuple as_v2_tuple input) (\<lambda>(recipient, amount_in, amount_out_min, path).
          if length path < 2 then Inl EmptyPath
          else Inr (Some (plain_swap R_UniswapV2 router (path ! 0) (path ! 1) amount_in amount_out_min recipient 0 (drop 2 path))))
      else if opcode = V2_SWAP_EXACT_OUT then
        dbind (abi_params abi V2Tuple as_v2_tuple input) (\<lambda>(recipient, amount_out, amount_in_max, path).
          if length path < 2 then Inl EmptyPath
          else Inr (Some (plain_swap R_UniswapV2 router (path ! 0) (path ! 1) amount_out amount_in_max recipient 0 (drop 2 path))))
      else if opcode = V4_SWAP then Inr None
      else Inr None)"

text \<open>The loop over commands and inputs; the first malformed swap ends it.\<close>

fun ur_loop :: "sol_abi \<Rightarrow> address \<Rightarrow> (u8 \<times> bytes) list \<Rightarrow> DecodedSwap list \<Rightarrow> DecodedSwap list dec" where
  "ur_loop abi router [] out = Inr out"
| "ur_loop abi router ((cmd_byte, input) # rest) out =
     dbind (decode_ur_opcode abi (cmd_byte AND COMMAND_TYPE_MASK) input router) (\<lambda>r.
       ur_loop abi router rest (case r of Some swap \<Rightarrow> out @ [swap] | None \<Rightarrow> out))"

definition try_universal_router :: "sol_abi \<Rightarrow> bytes \<Rightarrow> bytes \<Rightarrow> address \<Rightarrow> DecodedSwap list option dec" where
  "try_universal_router abi selector calldata router =
     dbind (if selector = sol_selector abi Execute_0 then dbind (abi_call abi Execute_0 as_execute calldata) (\<lambda>c. Inr (Some c))
            else if selector = sol_selector abi Execute_1
              then dbind (abi_call abi Execute_1 as_execute_deadline calldata) (\<lambda>c. Inr (Some c))
            else Inr None)
       (\<lambda>c. case c of
          None \<Rightarrow> Inr None
        | Some (commands, inputs) \<Rightarrow>
            if length commands \<noteq> length inputs then Inl AbiDecode
            else dbind (ur_loop abi router (zip commands inputs) []) (\<lambda>out. Inr (Some out)))"

section \<open>Dispatch\<close>

definition MAX_MULTICALL_DEPTH :: nat where
  "MAX_MULTICALL_DEPTH = 2"

definition try_extract_multicall :: "sol_abi \<Rightarrow> bytes \<Rightarrow> bytes \<Rightarrow> bytes list option dec" where
  "try_extract_multicall abi selector calldata =
     (if selector = sol_selector abi Multicall then dbind (abi_call abi Multicall as_multicall calldata) (\<lambda>data. Inr (Some data))
      else if selector = sol_selector abi MulticallDeadline
        then dbind (abi_call abi MulticallDeadline as_multicall_deadline calldata) (\<lambda>data. Inr (Some data))
      else Inr None)"

definition non_swap_helpers :: "router_fn list" where
  "non_swap_helpers = map V3 [selfPermit, selfPermitAllowed, selfPermitIfNecessary, selfPermitAllowedIfNecessary, unwrapWETH9,
       unwrapWETH9WithFee, refundETH, sweepToken, sweepTokenWithFee]
     @ map V2 [addLiquidity, addLiquidityETH, removeLiquidity, removeLiquidityETH, removeLiquidityWithPermit,
       removeLiquidityETHWithPermit, removeLiquidityETHSupportingFeeOnTransferTokens,
       removeLiquidityETHWithPermitSupportingFeeOnTransferTokens]
     @ map OneInch [cancelOrder, fillContractOrder]"

definition try_is_known_non_swap_helper :: "sol_abi \<Rightarrow> bytes \<Rightarrow> bool" where
  "try_is_known_non_swap_helper abi selector = list_ex (\<lambda>f. selector = sol_selector abi f) non_swap_helpers"

text \<open>Returning the first family that claims the selector.\<close>

fun or_else :: "'a option dec \<Rightarrow> 'a option dec \<Rightarrow> 'a option dec" where
  "or_else (Inl e) _ = Inl e"
| "or_else (Inr (Some x)) _ = Inr (Some x)"
| "or_else (Inr None) m = m"

definition try_decode_single :: "sol_abi \<Rightarrow> bytes \<Rightarrow> bytes \<Rightarrow> address \<Rightarrow> DecodedSwap option dec" where
  "try_decode_single abi selector calldata to =
     or_else (try_uni_v2_family abi selector calldata to)
       (or_else (try_uni_v3_family abi selector calldata to)
         (or_else (try_balancer abi selector calldata to)
           (or_else (try_curve abi selector calldata to) (try_bancor abi selector calldata to))))"

text \<open>The part of \<^verbatim>\<open>decode_at_depth\<close> after the multicall.\<close>

definition decode_flat :: "sol_abi \<Rightarrow> address \<Rightarrow> bytes \<Rightarrow> DecodedSwap list dec" where
  "decode_flat abi to calldata =
     (let selector = take 4 calldata
      in dbind (or_else (try_one_inch_v6 abi selector calldata to)
           (or_else (try_universal_router abi selector calldata to)
             (dbind (try_decode_single abi selector calldata to) (\<lambda>r. Inr (map_option (\<lambda>swap. [swap]) r)))))
         (\<lambda>r. case r of
            Some swaps \<Rightarrow> Inr swaps
          | None \<Rightarrow> if try_is_known_non_swap_helper abi selector then Inr [] else Inl (UnknownSelector selector)))"

function decode_at_depth :: "sol_abi \<Rightarrow> address \<Rightarrow> bytes \<Rightarrow> nat \<Rightarrow> DecodedSwap list dec" where
  "decode_at_depth abi to calldata depth =
     (if length calldata < 4 then Inl TooShort
      else if depth < MAX_MULTICALL_DEPTH then
        (case try_extract_multicall abi (take 4 calldata) calldata of
           Inl e \<Rightarrow> Inl e
         | Inr (Some inner_calls) \<Rightarrow>
             Inr (concat (map (\<lambda>inner.
               if length inner < 4 then []
               else case decode_at_depth abi to inner (depth + 1) of Inr swaps \<Rightarrow> swaps | Inl _ \<Rightarrow> []) inner_calls))
         | Inr None \<Rightarrow> decode_flat abi to calldata)
      else decode_flat abi to calldata)"
  by pat_completeness auto
termination by (relation "measure (\<lambda>(abi, to, calldata, depth). MAX_MULTICALL_DEPTH - depth)") auto

declare decode_at_depth.simps [simp del]

definition decode_pending_many :: "sol_abi \<Rightarrow> address \<Rightarrow> bytes \<Rightarrow> DecodedSwap list dec" where
  "decode_pending_many abi to calldata =
     (if length calldata < 4 then Inl TooShort
      else if is_unsupported_curve_router to then Inl (CurveUnsupported to)
      else decode_at_depth abi to calldata 0)"

text \<open>\<^verbatim>\<open>remove(0)\<close> panics on an empty vector.\<close>

definition decode_pending :: "sol_abi \<Rightarrow> address \<Rightarrow> bytes \<Rightarrow> DecodedSwap dec exec" where
  "decode_pending abi to calldata =
     (case decode_pending_many abi to calldata of
        Inl e \<Rightarrow> Ret (Inl e)
      | Inr [] \<Rightarrow> Panic IndexOutOfBounds
      | Inr (swap # _) \<Rightarrow> Ret (Inr swap))"

section \<open>Shape of decoded swaps\<close>

text \<open>What the pipeline relies on, by protocol: only a 1inch hop names a pool, and then also its direction; only Curve
  carries indices, and no tokens; only Uniswap V3 carries a fee, of 24 bits; only Uniswap paths are longer than a hop.\<close>

definition swap_ok :: "address \<Rightarrow> DecodedSwap \<Rightarrow> bool" where
  "swap_ok to s \<longleftrightarrow> ds_router s = to
     \<and> (ds_pool_address s = None \<longleftrightarrow> ds_one_inch_zero_for_one s = None)
     \<and> (ds_pool_address s \<noteq> None \<longrightarrow> ds_protocol s = R_OneInchV6)
     \<and> (ds_curve_indices s \<noteq> None \<longleftrightarrow> ds_protocol s = R_Curve)
     \<and> (ds_protocol s = R_Curve \<longrightarrow> ds_token_in s = 0 \<and> ds_token_out s = 0)
     \<and> (ds_protocol s = R_SushiSwap \<longrightarrow> to \<in> set SUSHISWAP_ROUTERS)
     \<and> (ds_protocol s \<noteq> R_UniswapV3 \<longrightarrow> ds_fee_bps s = 0) \<and> unat (ds_fee_bps s) < 2 ^ 24
     \<and> (ds_protocol s \<notin> {R_UniswapV2, R_SushiSwap, R_UniswapV3} \<longrightarrow> ds_path_extra s = [])"

lemma dbind_Inr_iff: "dbind m f = Inr y \<longleftrightarrow> (\<exists>x. m = Inr x \<and> f x = Inr y)"
  by (cases m) auto

lemma dbind_InrE:
  assumes "dbind m f = Inr y"
  obtains x where "m = Inr x" and "f x = Inr y"
  using assms by (cases m) auto

lemma or_else_Some_iff: "or_else m n = Inr (Some x) \<longleftrightarrow> m = Inr (Some x) \<or> m = Inr None \<and> n = Inr (Some x)"
  by (cases "(m, n)" rule: or_else.cases) auto

lemma or_else_None [simp]: "or_else m (Inr None) = m"
  by (cases "(m, Inr None :: 'a option dec)" rule: or_else.cases) auto

lemma plain_swap_ok:
  assumes "unat fee < 2 ^ 24" and "p \<noteq> R_UniswapV3 \<longrightarrow> fee = 0" and "p \<noteq> R_Curve" and "p = R_SushiSwap \<longrightarrow> to \<in> set SUSHISWAP_ROUTERS"
    and "p \<notin> {R_UniswapV2, R_SushiSwap, R_UniswapV3} \<longrightarrow> extra = []"
  shows "swap_ok to (plain_swap p to a b x y r fee extra)"
  using assms by (simp add: swap_ok_def plain_swap_def)

lemma v2_protocol_cases: "router_to_v2_protocol to = R_UniswapV2 \<or> router_to_v2_protocol to = R_SushiSwap \<and> to \<in> set SUSHISWAP_ROUTERS"
  by (simp add: router_to_v2_protocol_def)

lemma decode_v2_call_ok: "decode_v2_call to path a b r = Inr s \<Longrightarrow> swap_ok to s"
  using v2_protocol_cases [of to] by (auto simp: decode_v2_call_def intro!: plain_swap_ok split: if_splits)

lemma v2_family_ok: "try_uni_v2_family abi sel calldata to = Inr (Some s) \<Longrightarrow> swap_ok to s"
  by (auto simp: try_uni_v2_family_def v2_exact_in_def v2_exact_out_def v2_eth_in_def dbind_Inr_iff decode_v2_call_ok split: if_splits)

lemma u8_high_bit: "8 \<le> n \<Longrightarrow> \<not> bit (b :: u8) n"
  using bit_imp_le_length [of b n] by auto

lemma v3_fee_bound: "unat (v3_fee bs) < 2 ^ 24"
proof -
  have "take_bit 24 (v3_fee bs) = v3_fee bs"
  proof (rule bit_word_eqI)
    fix n assume "n < LENGTH(32)"
    show "bit (take_bit 24 (v3_fee bs)) n = bit (v3_fee bs) n"
    proof (cases "n < 24")
      case False
      then have "\<not> bit (v3_fee bs) n"
        by (simp add: v3_fee_def bit_or_iff bit_push_bit_iff bit_ucast_iff u8_high_bit)
      then show ?thesis by (simp add: bit_take_bit_iff)
    qed (simp add: bit_take_bit_iff)
  qed
  then have "take_bit 24 (unat (v3_fee bs)) = unat (v3_fee bs)" by (metis unsigned_take_bit_eq)
  then show ?thesis by (metis take_bit_nat_less_exp)
qed

lemma parse_v3_path_fee: "parse_v3_path path = Inr (a, b, fee, extras) \<Longrightarrow> unat fee < 2 ^ 24"
  using v3_fee_bound by (auto simp: parse_v3_path_def split: if_splits list.splits)

lemma ucast24_bound: "unat (ucast (w :: 24 word) :: u32) < 2 ^ 24"
  using unsigned_less [of w, where 'a = nat] by (simp add: unat_ucast_up)

lemma v3_single_ok: "v3_single abi f shape calldata to = Inr (Some s) \<Longrightarrow> swap_ok to s"
  using ucast24_bound by (auto simp: v3_single_def dbind_Inr_iff intro!: plain_swap_ok)

lemma v3_exact_input_ok: "v3_exact_input abi f shape calldata to = Inr (Some s) \<Longrightarrow> swap_ok to s"
  by (auto simp: v3_exact_input_def dbind_Inr_iff dest: parse_v3_path_fee intro!: plain_swap_ok)

lemma v3_exact_output_ok: "v3_exact_output abi f shape calldata to = Inr (Some s) \<Longrightarrow> swap_ok to s"
  by (auto simp: v3_exact_output_def dbind_Inr_iff swap_path_first_hop_for_exact_output_def dest: parse_v3_path_fee intro!: plain_swap_ok)

lemma v3_family_ok: "try_uni_v3_family abi sel calldata to = Inr (Some s) \<Longrightarrow> swap_ok to s"
  by (auto simp: try_uni_v3_family_def v3_single_ok v3_exact_input_ok v3_exact_output_ok split: if_splits)

lemma balancer_ok: "try_balancer abi sel calldata to = Inr (Some s) \<Longrightarrow> swap_ok to s"
  by (auto simp: try_balancer_def dbind_Inr_iff intro!: plain_swap_ok split: if_splits)

lemma curve_swap_ok: "swap_ok to (curve_decoded_swap to indices dx)"
  by (simp add: swap_ok_def curve_decoded_swap_def plain_swap_def)

lemma curve_ok: "try_curve abi sel calldata to = Inr (Some s) \<Longrightarrow> swap_ok to s"
  by (auto simp: try_curve_def curve_exchange_int_def dbind_Inr_iff curve_swap_ok split: if_splits)

lemma bancor_ok: "try_bancor abi sel calldata to = Inr (Some s) \<Longrightarrow> swap_ok to s"
  by (auto simp: try_bancor_def bancor_trade_def dbind_Inr_iff intro!: plain_swap_ok split: if_splits)

lemma one_inch_hop_ok: "swap_ok to (one_inch_hop to t a m n r hop)"
  by (simp add: swap_ok_def one_inch_hop_def plain_swap_def Let_def split: prod.split)

lemma one_inch_chain_ok: "list_all (swap_ok to) (one_inch_chain to t a m pools r)"
  by (simp add: one_inch_chain_def list_all_iff one_inch_hop_ok)

lemma one_inch_ok: "try_one_inch_v6 abi sel calldata to = Inr (Some ss) \<Longrightarrow> list_all (swap_ok to) ss"
  by (auto simp: try_one_inch_v6_def unoswap_call_def dbind_Inr_iff one_inch_chain_ok one_inch_unresolved_swap_def
      intro!: plain_swap_ok split: if_splits option.splits)

lemma ur_opcode_ok: "decode_ur_opcode abi op input to = Inr (Some s) \<Longrightarrow> swap_ok to s"
  by (auto simp: decode_ur_opcode_def dbind_Inr_iff swap_path_first_hop_for_exact_output_def dest: parse_v3_path_fee
      intro!: plain_swap_ok split: if_splits)

lemma ur_loop_ok: "ur_loop abi to steps out = Inr ss \<Longrightarrow> list_all (swap_ok to) out \<Longrightarrow> list_all (swap_ok to) ss"
proof (induction abi to steps out rule: ur_loop.induct)
  case (2 abi to cmd input rest out)
  then obtain r where r: "decode_ur_opcode abi (cmd AND COMMAND_TYPE_MASK) input to = Inr r"
    and run: "ur_loop abi to rest (case r of Some swap \<Rightarrow> out @ [swap] | None \<Rightarrow> out) = Inr ss"
    by (auto simp: dbind_Inr_iff)
  have "list_all (swap_ok to) (case r of Some swap \<Rightarrow> out @ [swap] | None \<Rightarrow> out)"
    using "2.prems"(2) r by (cases r) (auto dest: ur_opcode_ok)
  with "2.IH" [OF run] show ?case .
qed simp

lemma universal_router_ok:
  assumes "try_universal_router abi sel calldata to = Inr (Some ss)"
  shows "list_all (swap_ok to) ss"
proof -
  obtain c where c: "(case c of None \<Rightarrow> Inr None
      | Some (commands, inputs) \<Rightarrow> if length commands \<noteq> length inputs then Inl AbiDecode
          else dbind (ur_loop abi to (zip commands inputs) []) (\<lambda>out. Inr (Some out))) = Inr (Some ss)"
    using assms unfolding try_universal_router_def by (rule dbind_InrE)
  then obtain commands inputs where "c = Some (commands, inputs)" by (cases c) auto
  with c have "ur_loop abi to (zip commands inputs) [] = Inr ss" by (auto simp: dbind_Inr_iff split: if_splits)
  then show ?thesis by (rule ur_loop_ok) simp
qed

lemma decode_single_ok: "try_decode_single abi sel calldata to = Inr (Some s) \<Longrightarrow> swap_ok to s"
  by (auto simp: try_decode_single_def or_else_Some_iff v2_family_ok v3_family_ok balancer_ok curve_ok bancor_ok)

lemma decode_flat_ok:
  assumes "decode_flat abi to calldata = Inr ss"
  shows "list_all (swap_ok to) ss"
proof -
  define sel where "sel = take 4 calldata"
  obtain r where r: "or_else (try_one_inch_v6 abi sel calldata to) (or_else (try_universal_router abi sel calldata to)
        (dbind (try_decode_single abi sel calldata to) (\<lambda>r. Inr (map_option (\<lambda>swap. [swap]) r)))) = Inr r"
    and res: "(case r of Some swaps \<Rightarrow> Inr swaps
        | None \<Rightarrow> if try_is_known_non_swap_helper abi sel then Inr [] else Inl (UnknownSelector sel)) = Inr ss"
    using assms unfolding decode_flat_def Let_def sel_def [symmetric] by (auto elim: dbind_InrE)
  show ?thesis
  proof (cases r)
    case None
    then show ?thesis using res by (simp split: if_splits)
  next
    case (Some swaps)
    then consider "try_one_inch_v6 abi sel calldata to = Inr (Some ss)" | "try_universal_router abi sel calldata to = Inr (Some ss)"
      | s where "try_decode_single abi sel calldata to = Inr (Some s)" "ss = [s]"
      using r res by (auto simp: or_else_Some_iff dbind_Inr_iff)
    then show ?thesis by cases (auto dest: one_inch_ok universal_router_ok decode_single_ok)
  qed
qed

lemma decode_at_depth_ok: "decode_at_depth abi to calldata depth = Inr ss \<Longrightarrow> list_all (swap_ok to) ss"
proof (induction abi to calldata depth arbitrary: ss rule: decode_at_depth.induct)
  case (1 abi to calldata depth)
  note run = 1(2) [unfolded decode_at_depth.simps [of abi to calldata depth]]
  show ?case
  proof (cases "\<not> length calldata < 4 \<and> depth < MAX_MULTICALL_DEPTH
      \<and> (\<exists>inner_calls. try_extract_multicall abi (take 4 calldata) calldata = Inr (Some inner_calls))")
    case False
    then have "decode_flat abi to calldata = Inr ss" using run by (auto split: if_splits sum.splits option.splits)
    then show ?thesis by (rule decode_flat_ok)
  next
    case True
    then obtain inner_calls where pre: "\<not> length calldata < 4" "depth < MAX_MULTICALL_DEPTH"
      and calls: "try_extract_multicall abi (take 4 calldata) calldata = Inr (Some inner_calls)" by blast
    define g where "g inner = (if length inner < 4 then []
      else case decode_at_depth abi to inner (depth + 1) of Inr swaps \<Rightarrow> swaps | Inl _ \<Rightarrow> [])" for inner
    have "list_all (swap_ok to) (g inner)" if "inner \<in> set inner_calls" for inner
      using 1(1) [OF pre calls refl that] by (cases "decode_at_depth abi to inner (depth + 1)") (simp_all add: g_def)
    moreover have "ss = concat (map g inner_calls)" using run pre calls by (simp add: g_def [abs_def])
    ultimately show ?thesis by (simp add: list_all_iff)
  qed
qed


section \<open>Selectors\<close>

definition router_fns :: "router_fn list" where
  "router_fns =
     map V2 [swapExactTokensForTokens, swapTokensForExactTokens, swapExactETHForTokens, swapTokensForExactETH, swapExactTokensForETH,
       swapETHForExactTokens, swapExactTokensForTokensSupportingFeeOnTransferTokens,
       swapExactETHForTokensSupportingFeeOnTransferTokens, swapExactTokensForETHSupportingFeeOnTransferTokens]
     @ map V3 [exactInputSingle_0, exactInputSingle_1, exactInput_0, exactInput_1, exactOutputSingle_0, exactOutputSingle_1,
       exactOutput_0, exactOutput_1]
     @ [Multicall, MulticallDeadline, BalancerSwap, Execute_0, Execute_1]
     @ map CurvePoolFn [exchange_int128, exchange_underlying, exchange_uint256]
     @ map BancorFn [tradeBySourceAmount, tradeByTargetAmount]
     @ map OneInch (one_inch_swap # uniswapV3Swap # uniswapV3SwapTo # unoswap_family)
     @ non_swap_helpers"

text \<open>The documented behaviour of the selectors: four bytes each, and no two of the declared functions collide.\<close>

definition selectors_ok :: "sol_abi \<Rightarrow> bool" where
  "selectors_ok abi \<longleftrightarrow> distinct (map (sol_selector abi) router_fns) \<and> list_all (\<lambda>f. length (sol_selector abi f) = 4) router_fns"

lemma router_fns_all: "f \<in> set router_fns"
proof (cases f)
  case (V2 g)
  then show ?thesis by (cases g) (simp_all add: router_fns_def non_swap_helpers_def)
next
  case (V3 g)
  then show ?thesis by (cases g) (simp_all add: router_fns_def non_swap_helpers_def)
next
  case (CurvePoolFn g)
  then show ?thesis by (cases g) (simp_all add: router_fns_def)
next
  case (BancorFn g)
  then show ?thesis by (cases g) (simp_all add: router_fns_def)
next
  case (OneInch g)
  then show ?thesis by (cases g) (simp_all add: router_fns_def non_swap_helpers_def unoswap_family_def)
qed (simp_all add: router_fns_def)

lemma selector_eq_iff: "selectors_ok abi \<Longrightarrow> sol_selector abi f = sol_selector abi g \<longleftrightarrow> f = g"
  using router_fns_all [of f] router_fns_all [of g] by (auto simp: selectors_ok_def distinct_map dest: inj_onD)

lemma selector_length: "selectors_ok abi \<Longrightarrow> length (sol_selector abi f) = 4"
  using router_fns_all [of f] by (auto simp: selectors_ok_def list_all_iff)

text \<open>A call that is no multicall reaches the single decoders whatever the depth.\<close>

lemma decode_not_multicall:
  assumes "selectors_ok abi" and "f \<noteq> Multicall" and "f \<noteq> MulticallDeadline" and "\<not> is_unsupported_curve_router to"
  shows "decode_pending_many abi to (sol_selector abi f @ payload) = decode_flat abi to (sol_selector abi f @ payload)"
proof -
  have "try_extract_multicall abi (take 4 (sol_selector abi f @ payload)) (sol_selector abi f @ payload) = Inr None"
    using assms by (simp add: try_extract_multicall_def selector_length selector_eq_iff)
  then show ?thesis
    using assms by (simp add: decode_pending_many_def decode_at_depth.simps [of abi to _ 0] selector_length)
qed

lemma one_inch_other:
  assumes "selectors_ok abi" and "\<And>g. f \<noteq> OneInch g \<or> g \<in> {cancelOrder, fillContractOrder}"
  shows "try_one_inch_v6 abi (sol_selector abi f) calldata to = Inr None"
  using assms(2) [of one_inch_swap] assms(2) [of unoswap] assms(2) [of unoswapTo] assms(2) [of unoswap2] assms(2) [of unoswap2To]
    assms(2) [of unoswap3] assms(2) [of unoswap3To] assms(2) [of ethUnoswap] assms(2) [of ethUnoswapTo] assms(2) [of ethUnoswap2]
    assms(2) [of ethUnoswap2To] assms(2) [of ethUnoswap3] assms(2) [of ethUnoswap3To] assms(2) [of uniswapV3Swap]
    assms(2) [of uniswapV3SwapTo]
  by (simp add: try_one_inch_v6_def unoswap_family_def selector_eq_iff [OF assms(1)])

lemma universal_router_other:
  "selectors_ok abi \<Longrightarrow> f \<noteq> Execute_0 \<Longrightarrow> f \<noteq> Execute_1 \<Longrightarrow> try_universal_router abi (sol_selector abi f) calldata to = Inr None"
  by (simp add: try_universal_router_def selector_eq_iff)

section \<open>Calls without a swap\<close>

lemma helper_not_single:
  assumes "selectors_ok abi" and "f \<in> set non_swap_helpers"
  shows "try_decode_single abi (sol_selector abi f) calldata to = Inr None"
  using assms(2)
  by (auto simp: non_swap_helpers_def try_decode_single_def try_uni_v2_family_def try_uni_v3_family_def try_balancer_def try_curve_def
      try_bancor_def selector_eq_iff [OF assms(1)])

lemma helper_decodes_empty:
  assumes "selectors_ok abi" and "f \<in> set non_swap_helpers" and "\<not> is_unsupported_curve_router to"
  shows "decode_pending_many abi to (sol_selector abi f @ payload) = Inr []"
proof -
  have f: "f \<noteq> Multicall" "f \<noteq> MulticallDeadline" "f \<noteq> Execute_0" "f \<noteq> Execute_1"
    "\<And>g. f \<noteq> OneInch g \<or> g \<in> {cancelOrder, fillContractOrder}" using assms(2) by (auto simp: non_swap_helpers_def)
  have "try_is_known_non_swap_helper abi (sol_selector abi f)"
    using assms(2) by (auto simp: try_is_known_non_swap_helper_def list_ex_iff)
  then show ?thesis
    using decode_not_multicall [OF assms(1) f(1,2) assms(3)] one_inch_other [OF assms(1) f(5)]
      universal_router_other [OF assms(1) f(3,4)] helper_not_single [OF assms(1,2)]
    by (simp add: decode_flat_def Let_def selector_length [OF assms(1)])
qed

text \<open>On every well-formed call of a function that moves no pool state (permits, sweeps, liquidity management, limit
  orders), \<^verbatim>\<open>decode_pending_many\<close> returns an empty list and \<^verbatim>\<open>decode_pending\<close>, which takes the first record of a
  list documented as never empty, panics.\<close>

theorem decode_pending_panics:
  assumes "selectors_ok abi" and "f \<in> set non_swap_helpers" and "\<not> is_unsupported_curve_router to"
  shows "decode_pending_many abi to (sol_selector abi f @ payload) = Inr []
    \<and> decode_pending abi to (sol_selector abi f @ payload) = Panic IndexOutOfBounds"
  by (simp add: decode_pending_def helper_decodes_empty [OF assms])

text \<open>A concrete ABI for examples: selectors numbered in order, and a decoder that knows one payload.\<close>

definition demo_selector :: "router_fn \<Rightarrow> bytes" where
  "demo_selector f = be_bytes 4 (case position ((=) f) router_fns of Some i \<Rightarrow> i | None \<Rightarrow> 255)"

definition demo_abi :: "sol_value list \<Rightarrow> sol_abi" where
  "demo_abi vs = \<lparr>sol_selector = demo_selector, sol_decode = (\<lambda>ts bs. if bs = [1] then Some vs else None)\<rparr>"

lemma demo_abi_ok: "selectors_ok (demo_abi vs)"
proof -
  have "distinct (map demo_selector router_fns) \<and> list_all (\<lambda>f. length (demo_selector f) = 4) router_fns" by code_simp
  then show ?thesis by (simp add: selectors_ok_def demo_abi_def)
qed

theorem decode_pending_panics_witness:
  "decode_pending (demo_abi []) 5 (sol_selector (demo_abi []) (V2 addLiquidityETH) @ [1, 2, 3]) = Panic IndexOutOfBounds"
proof -
  have "V2 addLiquidityETH \<in> set non_swap_helpers" by (simp add: non_swap_helpers_def)
  moreover have "\<not> is_unsupported_curve_router 5" by (simp add: is_unsupported_curve_router_def CURVE_ROUTERS_def)
  ultimately show ?thesis using decode_pending_panics [OF demo_abi_ok] by blast
qed

section \<open>Packed paths\<close>

definition pack_v3_hops :: "(24 word \<times> address) list \<Rightarrow> bytes" where
  "pack_v3_hops hops = concat (map (\<lambda>(fee, token). be_bytes 3 (unat fee) @ be_bytes 20 (unat token)) hops)"

definition pack_v3_path :: "address \<Rightarrow> (24 word \<times> address) list \<Rightarrow> bytes" where
  "pack_v3_path token_in hops = be_bytes 20 (unat token_in) @ pack_v3_hops hops"

lemma from_be_address [simp]: "from_be (be_bytes 20 (unat (a :: address))) = a"
proof -
  have "unat a < 256 ^ 20" using unsigned_less [of a, where 'a = nat] by simp
  then show ?thesis by (simp add: from_be_def be_value_bytes)
qed

lemma pack_v3_hops_simps [simp]:
  "pack_v3_hops [] = []"
  "pack_v3_hops ((fee, token) # hops) = be_bytes 3 (unat fee) @ be_bytes 20 (unat token) @ pack_v3_hops hops"
  by (simp_all add: pack_v3_hops_def)

lemma v3_path_tokens_packed:
  "v3_path_tokens (pre @ be_bytes 20 (unat t) @ pack_v3_hops hops) (length pre) = t # map snd hops"
proof (induction hops arbitrary: pre t)
  case Nil
  show ?case by (simp add: v3_path_tokens.simps [of _ "length pre"] v3_path_tokens.simps [of _ "length pre + 20"])
next
  case (Cons hop hops)
  obtain fee u where hop: "hop = (fee, u)" by fastforce
  have "v3_path_tokens ((pre @ be_bytes 20 (unat t) @ be_bytes 3 (unat fee)) @ be_bytes 20 (unat u) @ pack_v3_hops hops)
      (length (pre @ be_bytes 20 (unat t) @ be_bytes 3 (unat fee))) = u # map snd hops" by (rule Cons.IH)
  then show ?case by (simp add: hop v3_path_tokens.simps [of _ "length pre"] add.commute)
qed

lemma u8_of_shifted: "(of_nat (unat (w :: 24 word) div 2 ^ k mod 256) :: u8) = ucast (drop_bit k w)"
proof -
  have "unat (drop_bit k w) = unat w div 2 ^ k" by (simp only: unat_drop_bit_eq) (simp add: drop_bit_eq_div)
  moreover have "(of_nat (n mod 256) :: u8) = of_nat n" for n by (simp add: word_unat_eq_iff unat_of_nat)
  ultimately show ?thesis by (metis of_nat_unat)
qed

lemma v3_fee_packed: "v3_fee (be_bytes 3 (unat (fee :: 24 word))) = ucast fee"
proof -
  have bytes: "be_bytes 3 (unat fee) = [ucast (drop_bit 16 fee), ucast (drop_bit 8 fee), ucast fee]"
    using u8_of_shifted [of fee 16] u8_of_shifted [of fee 8] u8_of_shifted [of fee 0]
    by (simp add: numeral_3_eq_3 div_mult2_eq [symmetric])
  show ?thesis
  proof (rule bit_word_eqI)
    fix n assume "n < LENGTH(32)"
    consider "n < 8" | "8 \<le> n" "n < 16" | "16 \<le> n" "n < 24" | "24 \<le> n" by linarith
    then show "bit (v3_fee (be_bytes 3 (unat fee))) n = bit (ucast fee :: u32) n"
      using \<open>n < LENGTH(32)\<close>
      by cases (auto simp: bytes v3_fee_def bit_or_iff bit_push_bit_iff bit_ucast_iff bit_drop_bit_eq dest: bit_imp_le_length)
  qed
qed

lemma parse_packed_path: "parse_v3_path (pack_v3_path t ((fee, u) # hops)) = Inr (t, u, ucast fee, map snd hops)"
proof -
  have "v3_path_tokens (pack_v3_path t ((fee, u) # hops)) 23 = u # map snd hops"
    using v3_path_tokens_packed [of "be_bytes 20 (unat t) @ be_bytes 3 (unat fee)" u hops] by (simp add: pack_v3_path_def)
  then show ?thesis by (simp add: parse_v3_path_def pack_v3_path_def v3_fee_packed)
qed

lemma exact_input_single:
  assumes "selectors_ok abi"
  shows "try_decode_single abi (sol_selector abi (V3 exactInput_0)) calldata to
    = v3_exact_input abi exactInput_0 as_v3_path calldata to"
  by (simp add: try_decode_single_def try_uni_v2_family_def try_uni_v3_family_def try_balancer_def try_curve_def
      try_bancor_def selector_eq_iff [OF assms])

lemma decode_exact_input:
  assumes "selectors_ok abi" and "\<not> is_unsupported_curve_router to"
    and "sol_decode abi (sol_params (V3 exactInput_0)) payload =
      Some [SStruct [SBytes (pack_v3_path t ((fee, u) # hops)), SAddr r, SUint deadline, SUint amount, SUint minimum]]"
  shows "decode_pending_many abi to (sol_selector abi (V3 exactInput_0) @ payload) =
    Inr [plain_swap R_UniswapV3 to t u amount minimum r (ucast fee) (map snd hops)]"
proof -
  let ?cd = "sol_selector abi (V3 exactInput_0) @ payload"
  have "abi_call abi (V3 exactInput_0) as_v3_path ?cd = Inr (pack_v3_path t ((fee, u) # hops), r, amount, minimum)"
    using assms(3) by (simp add: abi_call_def selector_length [OF assms(1)] as_v3_path_def)
  then have "v3_exact_input abi exactInput_0 as_v3_path ?cd to =
      Inr (Some (plain_swap R_UniswapV3 to t u amount minimum r (ucast fee) (map snd hops)))"
    by (simp add: v3_exact_input_def parse_packed_path)
  then show ?thesis
    using decode_not_multicall [OF assms(1) _ _ assms(2), of "V3 exactInput_0" payload]
      one_inch_other [OF assms(1), of "V3 exactInput_0"] universal_router_other [OF assms(1), of "V3 exactInput_0"]
    by (simp add: decode_flat_def Let_def selector_length [OF assms(1)] exact_input_single [OF assms(1)])
qed

text \<open>C21: a pending \<^verbatim>\<open>exactInput\<close> call whose path packs any token and any positive number of hops decodes to exactly
  one swap, on the first hop with its fee, with the remaining tokens of the path in order.\<close>

theorem exact_input_round_trip:
  assumes "selectors_ok abi" and "\<not> is_unsupported_curve_router to"
    and "sol_decode abi (sol_params (V3 exactInput_0)) payload =
      Some [SStruct [SBytes (pack_v3_path t ((fee, u) # hops)), SAddr r, SUint deadline, SUint amount, SUint minimum]]"
  shows "decode_pending_many abi to (sol_selector abi (V3 exactInput_0) @ payload) =
    Inr [plain_swap R_UniswapV3 to t u amount minimum r (ucast fee) (map snd hops)]"
  by (rule decode_exact_input [OF assms])

theorem exact_input_round_trip_witness:
  "let abi = demo_abi [SStruct [SBytes (pack_v3_path 7 [(500, 8), (3000, 9)]), SAddr 1, SUint 2, SUint 1000, SUint 990]]
   in decode_pending_many abi 5 (sol_selector abi (V3 exactInput_0) @ [1]) = Inr [plain_swap R_UniswapV3 5 7 8 1000 990 1 500 [9]]"
proof -
  have "\<not> is_unsupported_curve_router 5" by (simp add: is_unsupported_curve_router_def CURVE_ROUTERS_def)
  from exact_input_round_trip [OF demo_abi_ok this, of _ "[1]" 7 500 8 "[(3000, 9)]" 1 2 1000 990]
  show ?thesis by (simp add: demo_abi_def)
qed

section \<open>1inch pool words\<close>

lemma low_address: "u256_low_address v = ucast v" "fst (pool_zero_for_one v) = ucast v"
  using from_be_low [where 'a = 160 and k = 20 and w = v] by (simp_all add: u256_low_address_def pool_zero_for_one_def Let_def)

lemma be_value_zeros: "be_value (replicate k 0 @ bs) 0 = be_value bs 0"
  by (induction k) auto

lemma pool_word_value: "(from_be (replicate 12 0 @ be_bytes 20 (unat (p :: address))) :: u256) = ucast p"
proof -
  have "unat p < 256 ^ 20" using unsigned_less [of p, where 'a = nat] by simp
  then show ?thesis by (simp add: from_be_def be_value_zeros be_value_bytes)
qed

lemma flag_bit: "bit (2 ^ ZERO_FOR_ONE_BIT :: u256) n \<longleftrightarrow> n = 247"
  unfolding bit_exp_iff by (auto simp: ZERO_FOR_ONE_BIT_def)

lemma pool_word_bit: "bit (pool_word_for_test p z) n \<longleftrightarrow> bit p n \<or> z \<and> n = 247"
proof -
  have "bit p n \<Longrightarrow> n < 160" using bit_imp_le_length [of p n] by simp
  then have "bit (ucast p :: u256) n = bit p n" by (auto simp: bit_ucast_iff)
  then show ?thesis by (simp add: pool_word_for_test_def pool_word_value Let_def bit_or_iff flag_bit)
qed

lemma pool_word_round_trip [simp]: "pool_zero_for_one (pool_word_for_test p z) = (p, z)"
proof -
  have pool: "(ucast (pool_word_for_test p z) :: address) = p"
    by (rule bit_word_eqI) (auto simp: bit_ucast_iff pool_word_bit)
  have zero: "w = 0 \<longleftrightarrow> (\<forall>n. \<not> bit w n)" for w :: u256 by (auto intro: bit_word_eqI)
  have "bit (pool_word_for_test p z AND 2 ^ ZERO_FOR_ONE_BIT) n \<longleftrightarrow> z \<and> n = 247" for n
    using bit_imp_le_length [of p 247] by (auto simp: bit_and_iff flag_bit pool_word_bit)
  then have "(pool_word_for_test p z AND 2 ^ ZERO_FOR_ONE_BIT \<noteq> 0) = z"
    using zero [of "pool_word_for_test p z AND 2 ^ ZERO_FOR_ONE_BIT"] by auto
  with pool show ?thesis
    using low_address(2) [of "pool_word_for_test p z"] by (simp add: pool_zero_for_one_def Let_def)
qed

text \<open>An \<^verbatim>\<open>unoswap\<close> chain over packed pool words yields one record per pool, in order, with the pool and the
  direction that were packed; the input amount sits on the first record alone and the minimum return on the last alone.\<close>

theorem one_inch_chain_exact:
  "let swaps = one_inch_chain router token amount minimum (map (\<lambda>(p, z). pool_word_for_test p z) hops) r
   in map (\<lambda>s. (ds_pool_address s, ds_one_inch_zero_for_one s)) swaps = map (\<lambda>(p, z). (Some p, Some z)) hops
    \<and> map ds_amount_in swaps = (case hops of [] \<Rightarrow> [] | _ # rest \<Rightarrow> amount # replicate (length rest) 0)
    \<and> map ds_amount_out_min swaps = (if hops = [] then [] else replicate (length hops - 1) 0 @ [minimum])"
proof -
  let ?ws = "map (\<lambda>(p, z). pool_word_for_test p z) hops"
  let ?swaps = "one_inch_chain router token amount minimum ?ws r"
  have nth: "?swaps ! i = one_inch_hop router token amount minimum (length hops) r (i, ?ws ! i)" if "i < length hops" for i
    using that by (simp add: one_inch_chain_def nth_enumerate_eq)
  have len: "length ?swaps = length hops" by (simp add: one_inch_chain_def)
  have "map (\<lambda>s. (ds_pool_address s, ds_one_inch_zero_for_one s)) ?swaps = map (\<lambda>(p, z). (Some p, Some z)) hops"
    by (rule nth_equalityI) (simp_all add: len nth one_inch_hop_def plain_swap_def Let_def split: prod.split)
  moreover have "map ds_amount_in ?swaps = (case hops of [] \<Rightarrow> [] | _ # rest \<Rightarrow> amount # replicate (length rest) 0)"
    by (rule nth_equalityI)
      (auto simp: len nth one_inch_hop_def plain_swap_def Let_def nth_Cons' split: prod.split list.split)
  moreover have "map ds_amount_out_min ?swaps = (if hops = [] then [] else replicate (length hops - 1) 0 @ [minimum])"
    by (rule nth_equalityI)
      (auto simp: len nth one_inch_hop_def plain_swap_def Let_def nth_append split: prod.split)
  ultimately show ?thesis by (simp add: Let_def)
qed

end
