(* ===== verification/Hot_Token.thy ===== *)
theory Hot_Token
  imports Hash_Map F64 Router_Decoder "HOL-Library.Multiset"
begin

text \<open>
  The hot-token tracker (\<^verbatim>\<open>grpc-server/src/hot_token.rs\<close>): time-decayed activity of unordered token pairs. The
  power \<open>0.5\<close> to a real exponent is the parameter \<open>half_pow\<close>; the mutex is held for each operation, so operations
  are atomic steps.
\<close>

section \<open>Model\<close>

type_synonym PairKey = "address \<times> address"

definition pair_key :: "address \<Rightarrow> address \<Rightarrow> PairKey" where
  "pair_key a b = (if a \<le> b then (a, b) else (b, a))"

record HotTokenConfig =
  ht_half_life_secs :: f64
  ht_prune_below_score :: f64
  ht_min_venues :: nat

definition hot_token_default :: HotTokenConfig where
  "hot_token_default = \<lparr>ht_half_life_secs = Num 300, ht_prune_below_score = f64_of_rat (5 / 100), ht_min_venues = 2\<rparr>"

record PairStat =
  st_score :: f64
  st_last_update_secs :: u64
  st_hits :: u64
  st_venues :: "(u8 \<times> address option) list"
  st_first_seen_secs :: u64
  st_last_seen_secs :: u64

record HotPair =
  hp_token_a :: address
  hp_token_b :: address
  hp_score :: f64
  hp_hits :: u64
  hp_venues :: nat
  hp_first_seen_secs :: u64
  hp_last_seen_secs :: u64

fun protocol_code :: "Protocol \<Rightarrow> u8" where
  "protocol_code R_UniswapV2 = 1"
| "protocol_code R_UniswapV3 = 2"
| "protocol_code R_SushiSwap = 3"
| "protocol_code R_Curve = 4"
| "protocol_code R_BalancerV2 = 5"
| "protocol_code R_BancorV3 = 6"
| "protocol_code R_OneInchV6 = 7"

definition decay_factor :: "(f64 \<Rightarrow> f64) \<Rightarrow> u64 \<Rightarrow> f64 \<Rightarrow> f64" where
  "decay_factor half_pow dt_secs half_life_secs =
     (if f64_le half_life_secs (Num 0) then Num 1
      else half_pow (f64_div (f64_of_word dt_secs) half_life_secs))"

record HotTokenTracker =
  tr_cfg :: HotTokenConfig
  tr_stats :: "(PairKey, PairStat) hmap"

definition tracker_of :: "HotTokenConfig \<Rightarrow> HotTokenTracker" where
  "tracker_of cfg = \<lparr>tr_cfg = cfg, tr_stats = hnew\<rparr>"

definition decayed :: "(f64 \<Rightarrow> f64) \<Rightarrow> HotTokenConfig \<Rightarrow> PairStat \<Rightarrow> u64 \<Rightarrow> f64" where
  "decayed half_pow cfg s now =
     f64_mul (st_score s) (decay_factor half_pow (saturating_sub now (st_last_update_secs s)) (ht_half_life_secs cfg))"

definition bump_stat ::
    "(f64 \<Rightarrow> f64) \<Rightarrow> HotTokenConfig \<Rightarrow> u8 \<times> address option \<Rightarrow> u64 \<Rightarrow> PairStat \<Rightarrow> PairStat" where
  "bump_stat half_pow cfg venue now s =
     s\<lparr>st_score := f64_add (decayed half_pow cfg s now) (Num 1),
       st_last_update_secs := max (st_last_update_secs s) now,
       st_last_seen_secs := max (st_last_seen_secs s) now,
       st_hits := st_hits s + 1,
       st_venues := (if venue \<in> set (st_venues s) then st_venues s else st_venues s @ [venue])\<rparr>"

definition ht_record ::
    "(f64 \<Rightarrow> f64) \<Rightarrow> HotTokenTracker \<Rightarrow> address \<Rightarrow> address \<Rightarrow> Protocol \<Rightarrow> address option \<Rightarrow> u64 \<Rightarrow> HotTokenTracker" where
  "ht_record half_pow t token_in token_out protocol pool_address now =
     (if token_in = token_out then t
      else
        let key = pair_key token_in token_out;
            venue = (protocol_code protocol, pool_address);
            fresh = \<lparr>st_score = Num 0, st_last_update_secs = now, st_hits = 0, st_venues = [],
                     st_first_seen_secs = now, st_last_seen_secs = now\<rparr>
        in t\<lparr>tr_stats := hentry key fresh (bump_stat half_pow (tr_cfg t) venue now) (tr_stats t)\<rparr>)"

definition ht_score :: "(f64 \<Rightarrow> f64) \<Rightarrow> HotTokenTracker \<Rightarrow> PairKey \<Rightarrow> u64 \<Rightarrow> f64" where
  "ht_score half_pow t key now =
     (case hget (tr_stats t) key of None \<Rightarrow> Num 0 | Some s \<Rightarrow> decayed half_pow (tr_cfg t) s now)"

definition ht_len :: "HotTokenTracker \<Rightarrow> nat" where
  "ht_len t = hlen (tr_stats t)"

definition ht_is_empty :: "HotTokenTracker \<Rightarrow> bool" where
  "ht_is_empty t \<longleftrightarrow> ht_len t = 0"

definition hot_pair :: "(f64 \<Rightarrow> f64) \<Rightarrow> HotTokenConfig \<Rightarrow> u64 \<Rightarrow> PairKey \<times> PairStat \<Rightarrow> HotPair" where
  "hot_pair half_pow cfg now = (\<lambda>(k, s).
     \<lparr>hp_token_a = fst k, hp_token_b = snd k, hp_score = decayed half_pow cfg s now, hp_hits = st_hits s,
      hp_venues = length (st_venues s), hp_first_seen_secs = st_first_seen_secs s,
      hp_last_seen_secs = st_last_seen_secs s\<rparr>)"

definition ranked :: "(f64 \<Rightarrow> f64) \<Rightarrow> HotTokenTracker \<Rightarrow> u64 \<Rightarrow> HotPair list" where
  "ranked half_pow t now =
     sort_by (\<lambda>a b. f64_cmp (hp_score b) (hp_score a)) (map (hot_pair half_pow (tr_cfg t) now) (tr_stats t))"

definition candidates :: "(f64 \<Rightarrow> f64) \<Rightarrow> HotTokenTracker \<Rightarrow> u64 \<Rightarrow> nat \<Rightarrow> HotPair list" where
  "candidates half_pow t now n = take n (filter (\<lambda>p. hp_venues p \<ge> ht_min_venues (tr_cfg t)) (ranked half_pow t now))"

definition ht_prune :: "(f64 \<Rightarrow> f64) \<Rightarrow> HotTokenTracker \<Rightarrow> u64 \<Rightarrow> HotTokenTracker \<times> nat" where
  "ht_prune half_pow t now =
     (let stats = hretain (\<lambda>_ s. f64_le (ht_prune_below_score (tr_cfg t)) (decayed half_pow (tr_cfg t) s now)) (tr_stats t)
      in (t\<lparr>tr_stats := stats\<rparr>, hlen (tr_stats t) - hlen stats))"

section \<open>Reachable tables\<close>

datatype ht_op = HtRecord address address Protocol "address option" u64 | HtPrune u64

fun ht_step :: "(f64 \<Rightarrow> f64) \<Rightarrow> HotTokenTracker \<Rightarrow> ht_op \<Rightarrow> HotTokenTracker" where
  "ht_step half_pow t (HtRecord a b p pool now) = ht_record half_pow t a b p pool now"
| "ht_step half_pow t (HtPrune now) = fst (ht_prune half_pow t now)"

definition stat_ok :: "PairKey \<Rightarrow> PairStat \<Rightarrow> bool" where
  "stat_ok k s \<longleftrightarrow> fst k < snd k \<and> distinct (st_venues s) \<and> st_venues s \<noteq> []
     \<and> st_first_seen_secs s \<le> st_last_seen_secs s \<and> st_last_update_secs s = st_last_seen_secs s"

definition table_ok :: "HotTokenTracker \<Rightarrow> bool" where
  "table_ok t \<longleftrightarrow> hmap_ok (tr_stats t) \<and> (\<forall>k s. hget (tr_stats t) k = Some s \<longrightarrow> stat_ok k s)"

lemma table_okD: "table_ok t \<Longrightarrow> hget (tr_stats t) k = Some s \<Longrightarrow> stat_ok k s"
  unfolding table_ok_def by blast

lemma hmap_ok_entry: "hmap_ok m \<Longrightarrow> hmap_ok (hentry k d f m)"
  by (simp add: hentry_def hm.ok_insert)

lemma pair_key_less: "a \<noteq> b \<Longrightarrow> fst (pair_key a b) < snd (pair_key a b)"
  by (auto simp: pair_key_def)

lemma bump_stat_ok:
  assumes "fst k < snd k" and "distinct (st_venues s)" and "st_first_seen_secs s \<le> st_last_seen_secs s"
    and "st_last_update_secs s = st_last_seen_secs s"
  shows "stat_ok k (bump_stat half_pow cfg venue now s)"
  using assms by (auto simp: stat_ok_def bump_stat_def max_def)

lemma table_ok_record:
  assumes "table_ok t"
  shows "table_ok (ht_record half_pow t a b p pool now)"
proof (cases "a = b")
  case False
  define fresh where "fresh = \<lparr>st_score = Num 0, st_last_update_secs = now, st_hits = 0, st_venues = [],
    st_first_seen_secs = now, st_last_seen_secs = now\<rparr>"
  define s0 where "s0 = (case hget (tr_stats t) (pair_key a b) of None \<Rightarrow> fresh | Some s \<Rightarrow> s)"
  have "distinct (st_venues s0)" "st_first_seen_secs s0 \<le> st_last_seen_secs s0"
    "st_last_update_secs s0 = st_last_seen_secs s0"
    using table_okD [OF assms, of "pair_key a b"] by (auto simp: s0_def fresh_def stat_ok_def split: option.split)
  then have "stat_ok (pair_key a b) (bump_stat half_pow (tr_cfg t) (protocol_code p, pool) now s0)"
    by (intro bump_stat_ok pair_key_less [OF False])
  moreover have "tr_stats (ht_record half_pow t a b p pool now) =
      hentry (pair_key a b) fresh (bump_stat half_pow (tr_cfg t) (protocol_code p, pool) now) (tr_stats t)"
    using False by (simp add: ht_record_def Let_def fresh_def)
  ultimately show ?thesis
    using assms unfolding table_ok_def by (simp add: hmap_ok_entry s0_def del: split_paired_All)
qed (simp add: ht_record_def assms)

lemma table_ok_prune: "table_ok t \<Longrightarrow> table_ok (fst (ht_prune half_pow t now))"
  by (auto simp: table_ok_def ht_prune_def Let_def hmap_ok_retain hget_retain split: option.splits if_splits)

lemma table_ok_run: "table_ok t \<Longrightarrow> table_ok (foldl (ht_step half_pow) t ops)"
proof (induction ops arbitrary: t)
  case (Cons op ops)
  then show ?case by (cases op) (simp_all add: table_ok_record table_ok_prune)
qed simp

text \<open>After any sequence of recorded swaps and prunes, the ranking lists every tracked pair exactly once,
  under its canonical key with the smaller address first, with at least one venue and a first-seen time
  not after its last-seen time.\<close>

theorem hot_pairs_canonical:
  "distinct (map (\<lambda>p. (hp_token_a p, hp_token_b p)) (ranked half_pow (foldl (ht_step half_pow) (tracker_of cfg) ops) now))
   \<and> length (ranked half_pow (foldl (ht_step half_pow) (tracker_of cfg) ops) now) =
       ht_len (foldl (ht_step half_pow) (tracker_of cfg) ops)
   \<and> list_all (\<lambda>p. hp_token_a p < hp_token_b p \<and> 0 < hp_venues p \<and> hp_first_seen_secs p \<le> hp_last_seen_secs p)
       (ranked half_pow (foldl (ht_step half_pow) (tracker_of cfg) ops) now)"
proof -
  define t where "t = foldl (ht_step half_pow) (tracker_of cfg) ops"
  have ok: "table_ok t"
    unfolding t_def by (rule table_ok_run) (simp add: table_ok_def tracker_of_def hm.ok_new)
  have key: "(\<lambda>p. (hp_token_a p, hp_token_b p)) \<circ> hot_pair half_pow (tr_cfg t) now = fst"
    by (auto simp: hot_pair_def fun_eq_iff)
  have "mset (map (\<lambda>p. (hp_token_a p, hp_token_b p)) (ranked half_pow t now)) = mset (map fst (tr_stats t))"
    unfolding ranked_def mset_map mset_sort_by by (simp add: key flip: mset_map)
  then have "distinct (map (\<lambda>p. (hp_token_a p, hp_token_b p)) (ranked half_pow t now))"
    by (rule mset_eq_imp_distinct_iff [THEN iffD2]) (use ok in \<open>simp add: table_ok_def hmap_ok_def\<close>)
  moreover have "hp_token_a p < hp_token_b p \<and> 0 < hp_venues p \<and> hp_first_seen_secs p \<le> hp_last_seen_secs p"
    if "p \<in> set (ranked half_pow t now)" for p
  proof -
    have "p \<in> hot_pair half_pow (tr_cfg t) now ` set (tr_stats t)" using that by (simp add: ranked_def)
    then obtain x where x: "x \<in> set (tr_stats t)" "p = hot_pair half_pow (tr_cfg t) now x" by blast
    define k s where "k = fst x" and "s = snd x"
    then have p: "p = hot_pair half_pow (tr_cfg t) now (k, s)" and "(k, s) \<in> set (tr_stats t)" using x by simp_all
    moreover have "hmap_ok (tr_stats t)" using ok by (simp add: table_ok_def)
    ultimately have "hget (tr_stats t) k = Some s" using hmap_ok_mem by fast
    then have "stat_ok k s" by (rule table_okD [OF ok])
    then show ?thesis by (simp add: p hot_pair_def stat_ok_def)
  qed
  ultimately show ?thesis
    unfolding t_def [symmetric] by (simp add: ranked_def ht_len_def hlen_def list_all_iff)
qed

text \<open>What survives a prune scores at least the floor, and the count returned is the number dropped.\<close>

lemma ht_prune_floor:
  assumes "table_ok t" and "ht_prune half_pow t now = (t', dropped)"
  shows "hget (tr_stats t') k = Some s \<longleftrightarrow>
      hget (tr_stats t) k = Some s \<and> f64_le (ht_prune_below_score (tr_cfg t)) (decayed half_pow (tr_cfg t) s now)"
    and "dropped + ht_len t' = ht_len t"
proof -
  have ok: "hmap_ok (tr_stats t)" using assms(1) by (simp add: table_ok_def)
  show "hget (tr_stats t') k = Some s \<longleftrightarrow>
      hget (tr_stats t) k = Some s \<and> f64_le (ht_prune_below_score (tr_cfg t)) (decayed half_pow (tr_cfg t) s now)"
    using assms(2) by (auto simp: ht_prune_def Let_def hget_retain [OF ok] split: option.splits if_splits)
  show "dropped + ht_len t' = ht_len t"
    using assms(2) by (auto simp: ht_prune_def Let_def ht_len_def hlen_def hretain_def)
qed

end
