(* ===== verification/Fee_On_Transfer.thy ===== *)
theory Fee_On_Transfer
  imports Bytes Uniswap_V2
begin

text \<open>
  The fee-on-transfer and honeypot screens (\<^verbatim>\<open>simulator/src/fee_on_transfer.rs\<close>). The hash function of the
  storage layout is the parameter \<open>keccak\<close>, and the virtual machine is the parameter \<open>evm\<close>: it maps the forked
  database and a call to an outcome and the state diff it reports, with the block, chain id and gas price of the fork
  fixed in it. The database holds account data and storage, read as zero where unset; committing a diff and every
  balance override are modelled.
\<close>

unbundle bit_operations_syntax

section \<open>Model\<close>

definition TRANSFER_SELECTOR :: bytes where
  "TRANSFER_SELECTOR = [0xa9, 0x05, 0x9c, 0xbb]"

definition TEST_HOLDER :: address where
  "TEST_HOLDER = 0xd39D"

record FotConfig =
  fc_max_tax_bps :: u32
  fc_test_fraction_bps :: u32
  fc_max_slot_probe :: u64
  fc_gas_limit :: u64

definition fot_default :: FotConfig where
  "fot_default = \<lparr>fc_max_tax_bps = 10, fc_test_fraction_bps = 10, fc_max_slot_probe = 40, fc_gas_limit = 1000000\<rparr>"

datatype FotVerdict = Clean u32 | FeeOnTransfer u32 | Honeypot string | Inconclusive string

fun is_admissible :: "FotVerdict \<Rightarrow> bool" where
  "is_admissible (Clean _) = True"
| "is_admissible _ = False"

definition erc20_balance_key :: "(bytes \<Rightarrow> b256) \<Rightarrow> address \<Rightarrow> u256 \<Rightarrow> u256" where
  "erc20_balance_key keccak holder mapping_slot = keccak (replicate 12 0 @ be_bytes 20 (unat holder) @ abi_word mapping_slot)"

definition expected_amount_out :: "u256 \<Rightarrow> u256 \<Rightarrow> u256 \<Rightarrow> u32 \<Rightarrow> u256 exec" where
  "expected_amount_out amount_in reserve_in reserve_out fee_bps =
     (if amount_in = 0 \<or> reserve_in = 0 \<or> reserve_out = 0 \<or> fee_bps \<ge> 10000 then Ret 0
      else
        let fee_factor = ucast (10000 - fee_bps);
            amount_in_with_fee = amount_in * fee_factor;
            numerator = amount_in_with_fee * reserve_out;
            denominator = reserve_in * 10000 + amount_in_with_fee
        in word_div numerator denominator)"

text \<open>\<^verbatim>\<open>u32::try_from(x).unwrap_or(d)\<close>\<close>

definition u32_or :: "u32 \<Rightarrow> u256 \<Rightarrow> u32" where
  "u32_or d x = (if uint x < 2 ^ 32 then ucast x else d)"

definition tax_bps :: "u256 \<Rightarrow> u256 \<Rightarrow> u32" where
  "tax_bps expected actual =
     (if expected = 0 \<or> actual \<ge> expected then 0
      else
        let diff = expected - actual;
            bps = saturating_mul diff 10000 div expected
        in u32_or 10000 bps)"

definition classify_transfer :: "u256 \<Rightarrow> u256 \<Rightarrow> u32 \<Rightarrow> FotVerdict" where
  "classify_transfer sent received max_tax_bps =
     (let tax = tax_bps sent received in if tax \<le> max_tax_bps then Clean tax else FeeOnTransfer tax)"

definition discover_balance_slot ::
    "(bytes \<Rightarrow> b256) \<Rightarrow> (u256 \<Rightarrow> u256) \<Rightarrow> address \<Rightarrow> u256 \<Rightarrow> u64 \<Rightarrow> u256 option" where
  "discover_balance_slot keccak read_storage holder known_balance max_slots =
     (if known_balance = 0 then None
      else find (\<lambda>slot. read_storage (erc20_balance_key keccak holder slot) = known_balance)
             (map of_nat [0..<unat max_slots]))"

section \<open>Forked state and calls\<close>

record AccountInfo =
  ai_balance :: u256
  ai_nonce :: u64
  ai_code_hash :: b256
  ai_code :: "bytes option"

record evm_db =
  db_info :: "address \<Rightarrow> AccountInfo"
  storage_ref :: "address \<Rightarrow> u256 \<Rightarrow> u256"

record evm_call =
  ec_caller :: address
  ec_to :: address
  ec_data :: bytes
  ec_nonce :: u64
  ec_gas_limit :: u64

datatype evm_outcome = Success | Revert bytes | Halt string | EvmError string

text \<open>The accounts a call touched: their data, whether they self-destructed, and the storage slots loaded with
  their present values. Addresses and slots are keys, so each occurs once.\<close>

type_synonym evm_diff = "(address \<times> AccountInfo \<times> bool \<times> (u256 \<times> u256) list) list"

type_synonym evm = "evm_db \<Rightarrow> evm_call \<Rightarrow> evm_outcome \<times> evm_diff"

definition db_insert :: "evm_db \<Rightarrow> address \<Rightarrow> u256 \<Rightarrow> u256 \<Rightarrow> evm_db" where
  "db_insert db a key v = db\<lparr>storage_ref := (storage_ref db)(a := (storage_ref db a)(key := v))\<rparr>"

definition insert_account_info :: "evm_db \<Rightarrow> address \<Rightarrow> AccountInfo \<Rightarrow> evm_db" where
  "insert_account_info db a info = db\<lparr>db_info := (db_info db)(a := info)\<rparr>"

fun commit_slots :: "address \<Rightarrow> (u256 \<times> u256) list \<Rightarrow> evm_db \<Rightarrow> evm_db" where
  "commit_slots a [] db = db"
| "commit_slots a ((key, v) # slots) db = commit_slots a slots (db_insert db a key v)"

fun commit_diff :: "evm_diff \<Rightarrow> evm_db \<Rightarrow> evm_db" where
  "commit_diff [] db = db"
| "commit_diff ((a, info, destroyed, slots) # accounts) db =
     commit_diff accounts (if destroyed then db else commit_slots a slots (insert_account_info db a info))"

definition transfer_data :: "address \<Rightarrow> u256 \<Rightarrow> bytes" where
  "transfer_data to amount = TRANSFER_SELECTOR @ (replicate 12 0 @ be_bytes 20 (unat to)) @ abi_word amount"

definition probe_size :: "u256 \<Rightarrow> u32 \<Rightarrow> u256" where
  "probe_size balance fraction_bps = max (saturating_mul balance (ucast fraction_bps) div 10000) 1"

text \<open>The value of a slot after a call: the present value reported for the account's slot, else the value before it.\<close>

definition post_value :: "evm_diff \<Rightarrow> address \<Rightarrow> u256 \<Rightarrow> u256 \<Rightarrow> u256" where
  "post_value diff a key pre =
     (case map_of diff a of
        None \<Rightarrow> pre
      | Some (_, _, slots) \<Rightarrow> (case map_of slots key of None \<Rightarrow> pre | Some v \<Rightarrow> v))"

definition screen_token_transfer ::
    "(bytes \<Rightarrow> b256) \<Rightarrow> evm \<Rightarrow> (bytes \<Rightarrow> string) \<Rightarrow> evm_db \<Rightarrow> address \<Rightarrow> address \<Rightarrow> u256 \<Rightarrow> FotConfig \<Rightarrow> FotVerdict" where
  "screen_token_transfer keccak evm hex db token pool pool_token_balance cfg =
     (case discover_balance_slot keccak (storage_ref db token) pool pool_token_balance (fc_max_slot_probe cfg) of
        None \<Rightarrow> Inconclusive ''balance storage slot not found''
      | Some slot \<Rightarrow>
          let x = probe_size pool_token_balance (fc_test_fraction_bps cfg);
              holder_key = erc20_balance_key keccak TEST_HOLDER slot;
              db = db_insert db token holder_key x;
              pool_key = erc20_balance_key keccak pool slot;
              pre_pool = storage_ref db token pool_key;
              call = \<lparr>ec_caller = TEST_HOLDER, ec_to = token, ec_data = transfer_data pool x, ec_nonce = 0,
                      ec_gas_limit = fc_gas_limit cfg\<rparr>
          in (case evm db call of
                (Success, diff) \<Rightarrow>
                  let post_pool = post_value diff token pool_key pre_pool;
                      received = saturating_sub post_pool pre_pool
                  in classify_transfer x received (fc_max_tax_bps cfg)
              | (Revert output, _) \<Rightarrow> Honeypot (''transfer reverted: 0x'' @ hex output)
              | (Halt reason, _) \<Rightarrow> Honeypot (''transfer halted: '' @ reason)
              | (EvmError e, _) \<Rightarrow> Inconclusive (''evm transact error: '' @ e)))"

section \<open>The round-trip screen\<close>

definition V2_SWAP_SELECTOR :: bytes where
  "V2_SWAP_SELECTOR = [0x02, 0x2c, 0x0d, 0x9f]"

definition V2_RESERVES_SLOT :: u256 where
  "V2_RESERVES_SLOT = 8"

definition unpack_v2_reserves :: "u256 \<Rightarrow> u256 \<times> u256" where
  "unpack_v2_reserves slot_value =
     (let mask112 = push_bit 112 1 - 1
      in (slot_value AND mask112, drop_bit 112 slot_value AND mask112))"

definition encode_v2_swap :: "u256 \<Rightarrow> u256 \<Rightarrow> address \<Rightarrow> bytes" where
  "encode_v2_swap amount0_out amount1_out to =
     V2_SWAP_SELECTOR @ abi_word amount0_out @ abi_word amount1_out @ (replicate 12 0 @ be_bytes 20 (unat to))
       @ abi_word (0x80 :: u256) @ abi_word (0 :: u256)"

datatype RoundTripVerdict = RtClean u32 | RtFeeOnTransfer u32 | RtHoneypot string | RtInconclusive string

fun rt_is_admissible :: "RoundTripVerdict \<Rightarrow> bool" where
  "rt_is_admissible (RtClean _) = True"
| "rt_is_admissible _ = False"

definition classify_round_trip :: "u256 \<Rightarrow> u256 \<Rightarrow> u32 \<Rightarrow> bool \<Rightarrow> u32 \<Rightarrow> RoundTripVerdict" where
  "classify_round_trip base_in base_out fee_bps sell_succeeded max_loss_bps =
     (if \<not> sell_succeeded then RtHoneypot ''sell leg reverted''
      else if base_out = 0 then RtHoneypot ''sell recovered zero base''
      else if base_in = 0 then RtInconclusive ''zero base_in''
      else
        let actual_bps = u32_or (- 1) (saturating_mul base_out 10000 div base_in);
            ff = saturating_sub (10000 :: u64) (ucast fee_bps);
            expected_bps = u32_or 10000 (ucast (ff * ff div 10000));
            loss_bps = saturating_sub expected_bps actual_bps
        in if loss_bps \<le> max_loss_bps then RtClean actual_bps else RtFeeOnTransfer loss_bps)"

definition outcome_reason :: "(bytes \<Rightarrow> string) \<Rightarrow> evm_outcome \<Rightarrow> string" where
  "outcome_reason hex r =
     (case r of
        Success \<Rightarrow> []
      | Revert output \<Rightarrow> ''revert 0x'' @ hex output
      | Halt reason \<Rightarrow> ''halt '' @ reason
      | EvmError e \<Rightarrow> ''evm error: '' @ e)"

definition v2_transact :: "evm \<Rightarrow> (bytes \<Rightarrow> string) \<Rightarrow> evm_db \<Rightarrow> evm_call \<Rightarrow> bool \<times> string \<times> evm_db" where
  "v2_transact evm hex db call =
     (case evm db call of
        (r, diff) \<Rightarrow> (r = Success, outcome_reason hex r, if r = Success then commit_diff diff db else db))"

definition read_balance :: "(bytes \<Rightarrow> b256) \<Rightarrow> evm_db \<Rightarrow> address \<Rightarrow> address \<Rightarrow> u256 \<Rightarrow> u256" where
  "read_balance keccak db token holder slot = storage_ref db token (erc20_balance_key keccak holder slot)"

text \<open>The call every leg makes from the test holder.\<close>

definition eoa_call :: "address \<Rightarrow> bytes \<Rightarrow> u64 \<Rightarrow> FotConfig \<Rightarrow> evm_call" where
  "eoa_call to bs nonce cfg =
     \<lparr>ec_caller = TEST_HOLDER, ec_to = to, ec_data = bs, ec_nonce = nonce, ec_gas_limit = fc_gas_limit cfg\<rparr>"

text \<open>The sell leg: transfer the received tokens into the pair, then swap them for base.\<close>

definition sell_leg ::
    "(bytes \<Rightarrow> b256) \<Rightarrow> evm \<Rightarrow> (bytes \<Rightarrow> string) \<Rightarrow> evm_db \<Rightarrow> address \<Rightarrow> address \<Rightarrow> address \<Rightarrow> u256 \<Rightarrow> u256 \<Rightarrow> u256
      \<Rightarrow> u256 \<Rightarrow> u32 \<Rightarrow> FotConfig \<Rightarrow> u32 \<Rightarrow> RoundTripVerdict exec" where
  "sell_leg keccak evm hex db pair token base base_slot token_slot t_received base_in fee_bps cfg max_loss_bps =
     (case v2_transact evm hex db (eoa_call token (transfer_data pair t_received) 1 cfg) of
        (ok_t, reason_t, db) \<Rightarrow>
          if \<not> ok_t then Ret (RtHoneypot (''sell transfer to pair failed: '' @ reason_t))
          else
            let (r0b, r1b) = unpack_v2_reserves (storage_ref db pair V2_RESERVES_SLOT);
                (reserve_token_b, reserve_base_b) = (if token < base then (r0b, r1b) else (r1b, r0b));
                amt_t_in = saturating_sub (read_balance keccak db token pair token_slot) reserve_token_b
            in ebind (expected_amount_out amt_t_in reserve_token_b reserve_base_b fee_bps) (\<lambda>amt_base_out.
                 if amt_base_out = 0 then Ret (RtHoneypot ''pair received ~zero sellable tokens'')
                 else
                   let (sa0, sa1) = (if token < base then (0, amt_base_out) else (amt_base_out, 0));
                       pre_b = read_balance keccak db base TEST_HOLDER base_slot
                   in (case v2_transact evm hex db (eoa_call pair (encode_v2_swap sa0 sa1 TEST_HOLDER) 2 cfg) of
                         (ok_s, reason_s, db) \<Rightarrow>
                           if \<not> ok_s then Ret (RtHoneypot (''sell swap reverted: '' @ reason_s))
                           else
                             let base_out = saturating_sub (read_balance keccak db base TEST_HOLDER base_slot) pre_b
                             in Ret (classify_round_trip base_in base_out fee_bps True max_loss_bps))))"

definition screen_token_v2_round_trip ::
    "(bytes \<Rightarrow> b256) \<Rightarrow> evm \<Rightarrow> (bytes \<Rightarrow> string) \<Rightarrow> evm_db \<Rightarrow> address \<Rightarrow> address \<Rightarrow> address \<Rightarrow> u256 \<Rightarrow> u32
      \<Rightarrow> FotConfig \<Rightarrow> u32 \<Rightarrow> RoundTripVerdict exec" where
  "screen_token_v2_round_trip keccak evm hex db pair token base base_slot fee_bps cfg max_loss_bps =
     (let token_is_0 = token < base;
          (r0, r1) = unpack_v2_reserves (storage_ref db pair V2_RESERVES_SLOT);
          (reserve_token, reserve_base) = (if token_is_0 then (r0, r1) else (r1, r0))
      in if reserve_token = 0 \<or> reserve_base = 0 then Ret (RtInconclusive ''pair has zero reserves'')
         else
           case discover_balance_slot keccak (storage_ref db token) pair reserve_token (fc_max_slot_probe cfg) of
             None \<Rightarrow> Ret (RtInconclusive ''token balance slot not found'')
           | Some token_slot \<Rightarrow>
               let base_in = probe_size reserve_base (fc_test_fraction_bps cfg)
               in ebind (expected_amount_out base_in reserve_base reserve_token fee_bps) (\<lambda>amt_t_out.
                    if amt_t_out = 0 then Ret (RtInconclusive ''computed zero token-out for buy'')
                    else
                      let pair_base_key = erc20_balance_key keccak pair base_slot;
                          db = db_insert db base pair_base_key (saturating_add (storage_ref db base pair_base_key) base_in);
                          (a0, a1) = (if token_is_0 then (amt_t_out, 0) else (0, amt_t_out));
                          pre_t = read_balance keccak db token TEST_HOLDER token_slot
                      in (case v2_transact evm hex db (eoa_call pair (encode_v2_swap a0 a1 TEST_HOLDER) 0 cfg) of
                            (ok, reason, db) \<Rightarrow>
                              if \<not> ok then Ret (RtInconclusive (''buy leg failed: '' @ reason))
                              else
                                let t_received = saturating_sub (read_balance keccak db token TEST_HOLDER token_slot) pre_t
                                in if t_received = 0 then Ret (RtHoneypot ''buy returned zero tokens'')
                                   else sell_leg keccak evm hex db pair token base base_slot token_slot t_received base_in
                                          fee_bps cfg max_loss_bps)))"

section \<open>Measured tax\<close>

lemma probe_size_fits: "probe_size b f \<noteq> 0" "u256_fits (unat (probe_size b f) * 10000)"
proof -
  define q where "q = saturating_mul b (ucast f) div 10000"
  have p: "probe_size b f = max q 1" by (simp add: probe_size_def q_def)
  then show "probe_size b f \<noteq> 0" by (auto simp: max_def word_le_nat_alt split: if_splits)
  have "unat q * 10000 \<le> unat (saturating_mul b (ucast f))" by (simp add: q_def unat_div_word)
  then have "u256_fits (unat q * 10000)" by (rule u256_fits_mono [OF u256_fits_unat])
  then show "u256_fits (unat (probe_size b f) * 10000)"
    by (cases "q \<le> 1") (simp_all add: p max_def u256_fits_def)
qed

lemma u32_or_small:
  assumes "unat x < 2 ^ 32"
  shows "unat (u32_or d x) = unat x"
proof -
  have "uint x < 2 ^ 32" using assms unfolding uint_nat of_nat_less_numeral_power_cancel_iff .
  then show ?thesis using assms by (simp add: u32_or_def unsigned_ucast_eq take_bit_nat_eq_self)
qed

lemma tax_bps_exact:
  assumes "u256_fits (unat x * 10000)" and "x \<noteq> 0"
  shows "unat (tax_bps x r) = (unat x - unat r) * 10000 div unat x"
proof (cases "r \<ge> x")
  case True
  then show ?thesis by (simp add: tax_bps_def word_le_nat_alt)
next
  case False
  then have diff: "unat (x - r) = unat x - unat r" by (simp add: unat_sub_le)
  have "unat (x - r) * unat (10000 :: u256) < 2 ^ 256"
    using assms(1) diff unfolding u256_fits_def by simp
  then have m: "unat (saturating_mul (x - r) 10000) = (unat x - unat r) * 10000"
    by (subst saturating_mul_fits) (simp_all add: diff)
  have "(unat x - unat r) * 10000 div unat x \<le> unat x * 10000 div unat x"
    by (intro div_le_mono mult_le_mono1) simp
  then have "(unat x - unat r) * 10000 div unat x \<le> 10000" using assms(2) by (simp add: unat_pos_iff)
  then show ?thesis
    using False assms(2) m by (simp add: tax_bps_def Let_def u32_or_small unat_div_word)
qed

lemma classify_clean:
  assumes "classify_transfer x r max_tax = Clean t" and "u256_fits (unat x * 10000)" and "x \<noteq> 0"
  shows "(unat x - unat r) * 10000 < (unat max_tax + 1) * unat x"
proof -
  have "tax_bps x r \<le> max_tax" using assms(1) by (simp add: classify_transfer_def Let_def split: if_splits)
  then have "(unat x - unat r) * 10000 div unat x < unat max_tax + 1"
    by (simp add: word_le_nat_alt tax_bps_exact [OF assms(2,3)])
  then show ?thesis using assms(3) by (simp add: div_less_iff_less_mult unat_pos_iff)
qed


text \<open>A machine that credits the pool the full amount, on a token whose balances live at slot 0.\<close>

definition toy_keccak :: "bytes \<Rightarrow> b256" where
  "toy_keccak bs = from_be (take 20 (drop 12 bs))"

definition toy_evm :: evm where
  "toy_evm db call = (Success, [(ec_to call, db_info db (ec_to call), False, [(7, storage_ref db (ec_to call) 7 + 100)])])"

definition toy_db :: evm_db where
  "toy_db = \<lparr>db_info = (\<lambda>a. \<lparr>ai_balance = 0, ai_nonce = 0, ai_code_hash = 0, ai_code = None\<rparr>),
     storage_ref = (\<lambda>a k. if k = 7 then 100000 else 0)\<rparr>"

lemma toy_key: "erc20_balance_key toy_keccak holder slot = ucast holder"
proof -
  have "unat holder < 256 ^ 20" using unsigned_less [of holder, where 'a = nat] by simp
  then have "be_value (be_bytes 20 (unat holder)) 0 = unat holder" by (simp add: be_value_bytes)
  then show ?thesis
    by (simp add: erc20_balance_key_def toy_keccak_def from_be_def word_unat_eq_iff unat_of_nat unsigned_ucast_eq take_bit_eq_mod)
qed

lemma toy_slot: "discover_balance_slot toy_keccak (storage_ref toy_db 5) 7 100000 40 = Some 0"
proof -
  have "[0..<unat (40 :: u64)] = 0 # [1..<40]" by (simp add: upt_rec)
  then show ?thesis by (simp add: discover_balance_slot_def toy_key toy_db_def del: upt_rec_numeral upt.simps)
qed

lemma toy_screen: "screen_token_transfer toy_keccak toy_evm (\<lambda>_. []) toy_db 5 7 100000 fot_default = Clean 0"
proof -
  have x: "probe_size 100000 10 = 100" by (simp add: probe_size_def saturating_mul_def)
  show ?thesis
    using toy_slot
    by (simp add: screen_token_transfer_def fot_default_def x toy_evm_def toy_key post_value_def db_insert_def
        classify_transfer_def tax_bps_def saturating_sub_def TEST_HOLDER_def toy_db_def Let_def)
qed


section \<open>Round trips\<close>

text \<open>The quote used to size the legs is the pool's own.\<close>

lemma expected_amount_out_is_quote:
  assumes "v2_fee_bps p < 10000"
  shows "v2_get_amount_out p (v2_token0 p) a =
      emap (\<lambda>y. if a = 0 \<or> v2_reserve0 p = 0 \<or> v2_reserve1 p = 0 then None else Some y)
        (expected_amount_out a (v2_reserve0 p) (v2_reserve1 p) (v2_fee_bps p))"
proof -
  define f where "f = v2_fee_bps p"
  have "unat f < 10000" using assms by (simp add: f_def word_less_nat_alt)
  then have "(ucast (saturating_sub (10000 :: u64) (ucast f)) :: u256) = ucast (10000 - f)"
    by (simp add: word_unat_eq_iff unsigned_ucast_eq take_bit_nat_eq_self unat_saturating_sub unat_sub word_le_nat_alt)
  moreover have "\<not> 10000 \<le> f" using assms by (simp add: f_def not_le)
  ultimately show ?thesis
    unfolding v2_get_amount_out_def expected_amount_out_def f_def [symmetric] by (simp add: Let_def)
qed

lemma u32_or_max_le: "unat (u32_or (- 1) x) \<le> unat x"
proof (cases "unat x < 2 ^ 32")
  case False
  then show ?thesis using unsigned_less [of "u32_or (- 1) x", where 'a = nat] by simp
qed (simp add: u32_or_small)

lemma fee_only_bps:
  "unat (u32_or 10000 (ucast (saturating_sub (10000 :: u64) (ucast fee) * saturating_sub 10000 (ucast fee) div 10000)))
     = (10000 - unat fee) * (10000 - unat fee) div 10000" for fee :: u32
proof -
  define ff :: u64 where "ff = saturating_sub 10000 (ucast fee)"
  have ff: "unat ff = 10000 - unat fee"
    by (simp add: ff_def unat_saturating_sub unat_ucast_up)
  have le: "unat ff * unat ff \<le> 10000 * 10000" unfolding ff by (intro mult_le_mono) simp_all
  then have m: "unat (ff * ff) = unat ff * unat ff" by (intro unat_mult_lem [THEN iffD1]) simp
  have small: "unat (ff * ff div 10000) \<le> 10000" using le by (simp add: unat_div_distrib m)
  then have "unat (ucast (ff * ff div 10000) :: u256) = unat ff * unat ff div 10000"
    by (simp add: unsigned_ucast_eq take_bit_nat_eq_self unat_div_distrib m)
  then show ?thesis
    using small unfolding ff_def [symmetric] ff [symmetric] by (simp add: u32_or_small unat_div_distrib m)
qed

text \<open>A round trip classified as clean recovered at least the fee-only expectation less the allowed
  loss: with base spent and base recovered as measured, \<open>(expected - max_loss) * spent \<le> 10000 * recovered\<close>
  in basis points, where the expectation is the squared fee complement. Saturation of the intermediate
  product can only make the screen stricter.\<close>

theorem round_trip_clean_sound:
  assumes "classify_round_trip base_in base_out fee_bps ok max_loss = RtClean r"
  shows "ok \<and> ((10000 - unat fee_bps) * (10000 - unat fee_bps) div 10000 - unat max_loss) * unat base_in
    \<le> unat base_out * 10000"
proof -
  define act where "act = u32_or (- 1) (saturating_mul base_out 10000 div base_in)"
  have pos: "ok" "0 < unat base_in"
    using assms by (auto simp: classify_round_trip_def unat_pos_iff split: if_splits)
  have "(10000 - unat fee_bps) * (10000 - unat fee_bps) div 10000 - unat act \<le> unat max_loss"
    using assms by (auto simp: classify_round_trip_def Let_def act_def [symmetric] word_le_nat_alt unat_saturating_sub
        fee_only_bps split: if_splits)
  moreover have "unat act \<le> unat base_out * 10000 div unat base_in"
  proof -
    have "unat act \<le> unat (saturating_mul base_out 10000) div unat base_in"
      unfolding act_def using u32_or_max_le by (metis unat_div_word)
    also have "\<dots> \<le> unat base_out * 10000 div unat base_in"
      using saturating_mul_le [of base_out 10000] by (intro div_le_mono) simp
    finally show ?thesis .
  qed
  ultimately have "(10000 - unat fee_bps) * (10000 - unat fee_bps) div 10000 - unat max_loss
      \<le> unat base_out * 10000 div unat base_in" by linarith
  then show ?thesis using pos by (simp add: less_eq_div_iff_mult_less_eq)
qed

theorem round_trip_clean_sound_witness:
  "classify_round_trip 1000000 993000 30 True 100 = RtClean 9930
    \<and> ((10000 - unat (30 :: u32)) * (10000 - unat (30 :: u32)) div 10000 - unat (100 :: u32)) * unat (1000000 :: u256)
      \<le> unat (993000 :: u256) * 10000"
proof -
  have c: "classify_round_trip 1000000 993000 30 True 100 = RtClean 9930"
    by (simp add: classify_round_trip_def u32_or_def saturating_mul_def saturating_sub_def)
  from round_trip_clean_sound [OF c] c show ?thesis by simp
qed

end
