(* ===== verification/Pool_Admission.thy ===== *)
theory Pool_Admission
  imports Fee_On_Transfer F64
begin

text \<open>
  The pool-admission gate (\<^verbatim>\<open>grpc-server/src/pool_admission.rs\<close>): the admit or reject decision and the
  writer that appends admitted pools to the pool file. The file is its text, absent when it cannot be
  read; the checksum rendering of an address is the parameter \<open>checksum\<close>. The reason of a rejection is kept as
  the values its message prints.
\<close>

section \<open>The decision\<close>

record AdmissionConfig =
  ac_min_venues :: nat
  ac_min_liquidity_usd :: f64
  ac_require_fot_clean :: bool
  ac_tier :: string

definition admission_default :: AdmissionConfig where
  "admission_default =
     \<lparr>ac_min_venues = 2, ac_min_liquidity_usd = Num 25000, ac_require_fot_clean = True, ac_tier = ''warm''\<rparr>"

record CandidateVenue =
  cv_protocol :: ProtocolType
  cv_address :: address
  cv_token0 :: address
  cv_token1 :: address
  cv_fee_bps :: u32
  cv_tick_spacing :: "int option"
  cv_liquidity_usd :: f64

record PoolEntryToml =
  pt_protocol :: ProtocolType
  pt_address :: address
  pt_token0 :: address
  pt_token1 :: address
  pt_fee_bps :: u32
  pt_tick_spacing :: "int option"
  pt_tier :: string

definition to_entry :: "CandidateVenue \<Rightarrow> string \<Rightarrow> PoolEntryToml" where
  "to_entry v tier =
     \<lparr>pt_protocol = cv_protocol v, pt_address = cv_address v, pt_token0 = cv_token0 v, pt_token1 = cv_token1 v,
      pt_fee_bps = cv_fee_bps v, pt_tick_spacing = cv_tick_spacing v, pt_tier = tier\<rparr>"

datatype reject_reason = NotClean FotVerdict | TooFewVenues nat f64 nat

datatype AdmissionOutcome = Admit "PoolEntryToml list" | Reject reject_reason

fun protocol_toml_str :: "ProtocolType \<Rightarrow> string" where
  "protocol_toml_str UniswapV2 = ''uniswap_v2''"
| "protocol_toml_str UniswapV3 = ''uniswap_v3''"
| "protocol_toml_str SushiSwap = ''sushiswap''"
| "protocol_toml_str Curve = ''curve''"
| "protocol_toml_str BalancerV2 = ''balancer_v2''"
| "protocol_toml_str BalancerV3 = ''balancer_v3''"
| "protocol_toml_str BancorV3 = ''bancor_v3''"

definition evaluate :: "CandidateVenue list \<Rightarrow> FotVerdict \<Rightarrow> AdmissionConfig \<Rightarrow> AdmissionOutcome" where
  "evaluate venues fot cfg =
     (if ac_require_fot_clean cfg \<and> \<not> is_admissible fot then Reject (NotClean fot)
      else
        let qualified = filter (\<lambda>v. f64_le (ac_min_liquidity_usd cfg) (cv_liquidity_usd v)) venues
        in if length qualified < ac_min_venues cfg
           then Reject (TooFewVenues (length qualified) (ac_min_liquidity_usd cfg) (ac_min_venues cfg))
           else Admit (map (\<lambda>v. to_entry v (ac_tier cfg)) qualified))"

section \<open>The pool file\<close>

definition NL :: char where
  "NL = CHR 0x0A"

definition QUOTE :: char where
  "QUOTE = CHR 0x22"

definition dec_int :: "int \<Rightarrow> string" where
  "dec_int i = (if i < 0 then CHR ''-'' # dec_nat (nat (- i)) else dec_nat (nat i))"

definition quoted :: "string \<Rightarrow> string \<Rightarrow> string" where
  "quoted key v = key @ '' = '' @ [QUOTE] @ v @ [QUOTE, NL]"

definition format_pool_entry :: "(address \<Rightarrow> string) \<Rightarrow> PoolEntryToml \<Rightarrow> string" where
  "format_pool_entry checksum e =
     ''[[pools]]'' @ [NL]
     @ quoted ''protocol'' (protocol_toml_str (pt_protocol e))
     @ quoted ''address'' (checksum (pt_address e))
     @ quoted ''token0'' (checksum (pt_token0 e))
     @ quoted ''token1'' (checksum (pt_token1 e))
     @ ''fee_bps = '' @ dec_nat (unat (pt_fee_bps e)) @ [NL]
     @ quoted ''tier'' (pt_tier e)
     @ (case pt_tick_spacing e of None \<Rightarrow> [] | Some ts \<Rightarrow> ''tick_spacing = '' @ dec_int ts @ [NL])"

text \<open>The parts of a text between newlines; \<^verbatim>\<open>str::lines\<close> yields these less a trailing empty one.\<close>

fun split_nl :: "string \<Rightarrow> string list" where
  "split_nl [] = [[]]"
| "split_nl (c # cs) = (if c = NL then [] # split_nl cs else (c # hd (split_nl cs)) # tl (split_nl cs))"

definition text_lines :: "string \<Rightarrow> string list" where
  "text_lines s = (let ls = split_nl s in if last ls = [] then butlast ls else ls)"

definition is_space :: "char \<Rightarrow> bool" where
  "is_space c \<longleftrightarrow> c \<in> {CHR '' '', CHR 0x09, CHR 0x0A, CHR 0x0B, CHR 0x0C, CHR 0x0D}"

definition trim :: "string \<Rightarrow> string" where
  "trim s = rev (dropWhile is_space (rev (dropWhile is_space s)))"

definition lower :: "char \<Rightarrow> char" where
  "lower c = (if 65 \<le> (of_char c :: nat) \<and> (of_char c :: nat) \<le> 90 then char_of ((of_char c :: nat) + 32) else c)"

definition to_lowercase :: "string \<Rightarrow> string" where
  "to_lowercase s = map lower s"

text \<open>The quoted value of a line whose trimmed text starts with \<^verbatim>\<open>address\<close>.\<close>

definition line_address :: "string \<Rightarrow> string option" where
  "line_address l =
     (let t = trim l in
      if take 7 t = ''address'' then
        (case dropWhile (\<lambda>c. c \<noteq> QUOTE) (drop 7 t) of
           [] \<Rightarrow> None
         | _ # rest \<Rightarrow> if QUOTE \<in> set rest then Some (to_lowercase (takeWhile (\<lambda>c. c \<noteq> QUOTE) rest)) else None)
      else None)"

definition read_existing_addresses :: "string option \<Rightarrow> string set" where
  "read_existing_addresses f =
     (case f of None \<Rightarrow> {} | Some contents \<Rightarrow> set (List.map_filter line_address (text_lines contents)))"

fun build_blocks ::
    "(address \<Rightarrow> string) \<Rightarrow> PoolEntryToml list \<Rightarrow> string set \<Rightarrow> string \<Rightarrow> nat \<Rightarrow> string \<times> nat" where
  "build_blocks checksum [] seen blocks appended = (blocks, appended)"
| "build_blocks checksum (e # es) seen blocks appended =
     (let key = to_lowercase (checksum (pt_address e)) in
      if key \<in> seen then build_blocks checksum es seen blocks appended
      else build_blocks checksum es (insert key seen) (blocks @ [NL] @ format_pool_entry checksum e) (appended + 1))"

definition rule_line :: string where
  "rule_line = ''# '' @ replicate 75 (CHR ''-'')"

definition append_admitted_pools ::
    "(address \<Rightarrow> string) \<Rightarrow> string option \<Rightarrow> PoolEntryToml list \<Rightarrow> string option \<times> nat" where
  "append_admitted_pools checksum f entries =
     (let (blocks, appended) = build_blocks checksum entries (read_existing_addresses f) [] 0
      in if appended > 0
         then (Some ((case f of None \<Rightarrow> [] | Some c \<Rightarrow> c)
                 @ [NL] @ rule_line @ [NL] @ ''# Auto-discovered pools (hot-token admission gate)'' @ [NL]
                 @ rule_line @ [NL] @ blocks), appended)
         else (f, 0))"

section \<open>Splitting\<close>

lemma split_nl_nonempty [simp]: "split_nl s \<noteq> []"
  by (cases s) auto

lemma split_nl_append: "split_nl (a @ NL # b) = split_nl a @ split_nl b"
  by (induction a) (auto simp: hd_append tl_append split: list.split)

lemma split_nl_plain: "NL \<notin> set a \<Longrightarrow> split_nl a = [a]"
  by (induction a) auto

lemma line_address_empty [simp]: "line_address [] = None"
  by (simp add: line_address_def trim_def)

lemma addresses_split: "set (List.map_filter line_address (text_lines s)) = {a. \<exists>l \<in> set (split_nl s). line_address l = Some a}"
proof -
  have "{a. \<exists>l \<in> set (text_lines s). line_address l = Some a} = {a. \<exists>l \<in> set (split_nl s). line_address l = Some a}"
  proof (cases "last (split_nl s) = []")
    case True
    have "set (split_nl s) = insert [] (set (butlast (split_nl s)))"
      using append_butlast_last_id [OF split_nl_nonempty [of s]] True
      by (metis (no_types) Un_insert_right list.set(1,2) set_append sup_bot_right)
    then show ?thesis using True by (auto simp: text_lines_def Let_def)
  qed (simp add: text_lines_def Let_def)
  then show ?thesis by (auto simp: map_filter_def image_iff; force)
qed

text \<open>A full line of a text is one of its parts, and a text keeps its lines when more is appended.\<close>

lemma inner_line: "NL \<notin> set l \<Longrightarrow> l \<in> set (split_nl (a @ NL # l @ NL # b))"
  by (simp add: split_nl_append split_nl_plain)

lemma address_line:
  assumes "QUOTE \<notin> set v"
  shows "line_address (''address = '' @ [QUOTE] @ v @ [QUOTE]) = Some (to_lowercase v)"
proof -
  have "trim (''address = '' @ [QUOTE] @ v @ [QUOTE]) = ''address = '' @ [QUOTE] @ v @ [QUOTE]"
    by (simp add: trim_def is_space_def QUOTE_def)
  moreover have "dropWhile (\<lambda>c. c \<noteq> QUOTE) ('' = '' @ QUOTE # v @ [QUOTE]) = QUOTE # v @ [QUOTE]"
    by (simp add: QUOTE_def)
  moreover have "takeWhile (\<lambda>c. c \<noteq> QUOTE) (v @ [QUOTE]) = v" using assms by (subst takeWhile_append2) auto
  ultimately show ?thesis by (simp add: line_address_def Let_def)
qed

definition address_key :: "(address \<Rightarrow> string) \<Rightarrow> PoolEntryToml \<Rightarrow> string" where
  "address_key checksum e = to_lowercase (checksum (pt_address e))"

lemma build_blocks_spec:
  assumes "build_blocks checksum es seen blocks n = (blocks', n')"
  shows "n \<le> n' \<and> (\<exists>rest. blocks' = blocks @ rest)
    \<and> (n' = n \<longrightarrow> (\<forall>e \<in> set es. address_key checksum e \<in> seen))
    \<and> (\<forall>e \<in> set es. address_key checksum e \<in> seen
        \<or> (\<exists>e' pre post. address_key checksum e' = address_key checksum e
            \<and> blocks' = pre @ NL # format_pool_entry checksum e' @ post))"
  using assms
proof (induction es arbitrary: seen blocks n)
  case (Cons e es)
  define k where "k = address_key checksum e"
  show ?case
  proof (cases "k \<in> seen")
    case True
    then show ?thesis using Cons.IH [of seen blocks n] Cons.prems by (auto simp: k_def address_key_def)
  next
    case False
    define b where "b = blocks @ [NL] @ format_pool_entry checksum e"
    have run: "build_blocks checksum es (insert k seen) b (n + 1) = (blocks', n')"
      using Cons.prems False by (simp add: k_def address_key_def b_def)
    note IH = Cons.IH [OF run]
    then obtain rest where rest: "blocks' = b @ rest" by blast
    have here: "\<exists>pre post. blocks' = pre @ NL # format_pool_entry checksum e @ post"
      by (intro exI [of _ blocks] exI [of _ rest]) (simp add: rest b_def)
    have "\<exists>e' pre post. address_key checksum e' = address_key checksum x \<and> blocks' = pre @ NL # format_pool_entry checksum e' @ post"
      if "x \<in> set (e # es)" "address_key checksum x \<notin> seen" for x
    proof (cases "address_key checksum x = k")
      case True
      then show ?thesis using here by (auto simp: k_def)
    next
      case False
      then show ?thesis using IH that by (auto simp: k_def)
    qed
    then show ?thesis using IH rest False by (auto simp: b_def k_def)
  qed
qed auto

lemma build_blocks_nothing:
  "\<forall>e \<in> set es. address_key checksum e \<in> seen \<Longrightarrow> build_blocks checksum es seen blocks n = (blocks, n)"
  by (induction es) (auto simp: address_key_def)

lemma entry_address_line:
  assumes "QUOTE \<notin> set (checksum (pt_address e))" and "NL \<notin> set (checksum (pt_address e))"
  shows "\<exists>l \<in> set (split_nl (pre @ NL # format_pool_entry checksum e @ post)). line_address l = Some (address_key checksum e)"
proof -
  define l where "l = ''address = '' @ [QUOTE] @ checksum (pt_address e) @ [QUOTE]"
  have "\<exists>a b. pre @ NL # format_pool_entry checksum e @ post = a @ NL # l @ NL # b"
    unfolding format_pool_entry_def quoted_def l_def
    by (rule exI [of _ "pre @ NL # ''[[pools]]'' @ NL # ''protocol = '' @ [QUOTE] @ protocol_toml_str (pt_protocol e) @ [QUOTE]"])
      (simp add: QUOTE_def NL_def)
  moreover have "NL \<notin> set l" using assms(2) by (simp add: l_def NL_def QUOTE_def)
  ultimately have "l \<in> set (split_nl (pre @ NL # format_pool_entry checksum e @ post))"
    using inner_line by metis
  moreover have "line_address l = Some (address_key checksum e)"
    unfolding l_def address_key_def by (rule address_line [OF assms(1)])
  ultimately show ?thesis by blast
qed

text \<open>Appending admitted pools is idempotent. After one run every admitted address is found in the file
  again by the reader, no address already there is lost, and a second run with the same entries writes
  nothing, provided the rendering of an address contains no quote and no newline.\<close>

theorem append_admitted_idempotent:
  assumes "\<And>a. QUOTE \<notin> set (checksum a) \<and> NL \<notin> set (checksum a)"
    and "append_admitted_pools checksum f entries = (f', n)"
  shows "append_admitted_pools checksum f' entries = (f', 0)
    \<and> read_existing_addresses f \<subseteq> read_existing_addresses f'
    \<and> (\<forall>e \<in> set entries. to_lowercase (checksum (pt_address e)) \<in> read_existing_addresses f')"
proof -
  obtain blocks k where bb: "build_blocks checksum entries (read_existing_addresses f) [] 0 = (blocks, k)"
    by fastforce
  note spec = build_blocks_spec [OF bb]
  define c where "c = (case f of None \<Rightarrow> [] | Some c \<Rightarrow> c)"
  define hdr where "hdr = rule_line @ [NL] @ ''# Auto-discovered pools (hot-token admission gate)'' @ [NL] @ rule_line @ [NL]"
  have f': "f' = (if k > 0 then Some (c @ NL # hdr @ blocks) else f)"
    using assms(2) unfolding append_admitted_pools_def bb by (auto simp: c_def hdr_def split: if_splits)
  have read: "read_existing_addresses (Some t) = {a. \<exists>l \<in> set (split_nl t). line_address l = Some a}" for t
    by (simp add: read_existing_addresses_def addresses_split)
  have grow: "read_existing_addresses f \<subseteq> read_existing_addresses f'"
  proof (cases f)
    case (Some t)
    then have "c = t" by (simp add: c_def)
    then show ?thesis using Some unfolding f' by (auto simp: read split_nl_append)
  qed (simp add: read_existing_addresses_def)
  have all: "\<forall>e \<in> set entries. address_key checksum e \<in> read_existing_addresses f'"
  proof
    fix e assume e: "e \<in> set entries"
    show "address_key checksum e \<in> read_existing_addresses f'"
    proof (cases "address_key checksum e \<in> read_existing_addresses f")
      case False
      then have "k > 0" using spec e by auto
      obtain e' pre post where e': "address_key checksum e' = address_key checksum e"
        "blocks = pre @ NL # format_pool_entry checksum e' @ post"
        using spec e False by blast
      have whole: "f' = Some ((c @ NL # hdr @ pre) @ NL # format_pool_entry checksum e' @ post)"
        using \<open>k > 0\<close> by (simp add: f' e'(2))
      show ?thesis
        unfolding whole read using entry_address_line [of checksum e' "c @ NL # hdr @ pre" post] assms(1) e'(1) by auto
    qed (use grow in blast)
  qed
  have "append_admitted_pools checksum f' entries = (f', 0)"
    using build_blocks_nothing [OF all] by (simp add: append_admitted_pools_def)
  then show ?thesis using grow all by (simp add: address_key_def)
qed

theorem append_admitted_idempotent_witness:
  "\<exists>f n. append_admitted_pools (\<lambda>a. ''0xAB'') None
      [\<lparr>pt_protocol = Curve, pt_address = 7, pt_token0 = 1, pt_token1 = 2, pt_fee_bps = 30, pt_tick_spacing = None,
        pt_tier = ''warm''\<rparr>] = (f, n)
    \<and> append_admitted_pools (\<lambda>a. ''0xAB'') f
      [\<lparr>pt_protocol = Curve, pt_address = 7, pt_token0 = 1, pt_token1 = 2, pt_fee_bps = 30, pt_tick_spacing = None,
        pt_tier = ''warm''\<rparr>] = (f, 0)"
proof -
  define es where "es = [\<lparr>pt_protocol = Curve, pt_address = 7, pt_token0 = 1, pt_token1 = 2, pt_fee_bps = 30,
    pt_tick_spacing = None, pt_tier = ''warm''\<rparr>]"
  define cs :: "address \<Rightarrow> string" where "cs = (\<lambda>a. ''0xAB'')"
  have ok: "QUOTE \<notin> set (cs a) \<and> NL \<notin> set (cs a)" for a
    by (simp add: cs_def QUOTE_def NL_def)
  obtain f n where "append_admitted_pools cs None es = (f, n)" by fastforce
  with append_admitted_idempotent [OF ok this] show ?thesis unfolding es_def [symmetric] cs_def [symmetric] by blast
qed

end
