(* ===== verification/Discovery_Cache.thy ===== *)
theory Discovery_Cache
  imports F64 Hash_Map Common_Types
begin

text \<open>
  The ranked pool cache of the discovery service (\<^verbatim>\<open>discovery/src/cache.rs\<close>) with the scoring formulas
  (\<^verbatim>\<open>scorer.rs\<close>), the volume providers (\<^verbatim>\<open>volume.rs\<close>) and the shared types (\<^verbatim>\<open>types.rs\<close>). Times are
  nanoseconds passed as arguments, and the events sent on the broadcast channel are collected in the order
  they are sent. Every operation is one step: interleavings of threads inside an operation are not modelled.
\<close>

section \<open>Types\<close>

record PoolInfo =
  pi_address :: address
  pi_token0 :: address
  pi_token1 :: address
  pi_protocol :: ProtocolType
  pi_fee_bps :: u32
  pi_score :: f64
  pi_tvl_usd :: f64
  pi_volume_24h_usd :: f64
  pi_slippage_estimate :: f64
  pi_discovered_at :: u64

record PoolScoreInputs =
  si_tvl_usd :: f64
  si_volume_24h_usd :: f64
  si_fee_bps :: u32
  si_slippage_estimate :: f64

datatype DiscoveryEvent =
    PoolAdded PoolInfo
  | PoolUpdated PoolInfo
  | PoolPruned address string
  | CachePruned nat

record CachedPool =
  cp_info :: PoolInfo
  cp_inserted_at :: nat
  cp_last_scored_at :: nat

definition cp_age :: "nat \<Rightarrow> CachedPool \<Rightarrow> nat" where
  "cp_age now e = now - cp_inserted_at e"

record ScoringSettings =
  sc_tvl_weight :: f64
  sc_volume_weight :: f64
  sc_slippage_estimate_bps :: u32

definition scoring_default :: ScoringSettings where
  "scoring_default = \<lparr>sc_tvl_weight = Num 1, sc_volume_weight = Num 1, sc_slippage_estimate_bps = 50\<rparr>"

section \<open>Scores\<close>

definition raw_score :: "PoolScoreInputs \<Rightarrow> ScoringSettings \<Rightarrow> f64" where
  "raw_score inputs settings =
     (let tvl = f64_max (si_tvl_usd inputs) (Num 0);
          volume = f64_max (si_volume_24h_usd inputs) (Num 0)
      in if f64_eq tvl (Num 0) \<or> f64_eq volume (Num 0) then Num 0
         else
           let fee_factor = f64_sub (Num 1) (f64_div (f64_of_word (si_fee_bps inputs)) (Num 10000));
               slippage = f64_clamp (si_slippage_estimate inputs) (Num 0) (f64_of_rat (99 / 100));
               slip_factor = f64_sub (Num 1) slippage
           in f64_mul (f64_mul (f64_mul (f64_mul (f64_sqrt tvl) (sc_tvl_weight settings))
                                        (f64_mul volume (sc_volume_weight settings))) fee_factor) slip_factor)"

definition normalise_score :: "f64 \<Rightarrow> f64 \<Rightarrow> f64" where
  "normalise_score raw max_raw =
     (if \<not> is_finite raw \<or> f64_le raw (Num 0) then Num 0
      else if f64_le max_raw (Num 0) \<or> \<not> is_finite max_raw then Num 0
      else f64_clamp (f64_div raw max_raw) (Num 0) (Num 1))"

definition compute_score :: "PoolScoreInputs \<Rightarrow> ScoringSettings \<Rightarrow> f64 \<Rightarrow> f64" where
  "compute_score inputs settings max_raw = normalise_score (raw_score inputs settings) max_raw"

definition default_slippage_estimate :: "ScoringSettings \<Rightarrow> f64" where
  "default_slippage_estimate settings =
     f64_clamp (f64_div (f64_of_word (sc_slippage_estimate_bps settings)) (Num 10000)) (Num 0) (f64_of_rat (99 / 100))"

definition estimate_v2_slippage :: "f64 \<Rightarrow> f64 \<Rightarrow> f64 \<Rightarrow> u32 \<Rightarrow> f64" where
  "estimate_v2_slippage reserve_in reserve_out amount_in_eth fee_bps =
     (if f64_le reserve_in (Num 0) \<or> f64_le reserve_out (Num 0) \<or> f64_le amount_in_eth (Num 0) then Num 1
      else
        let fee_factor = f64_sub (Num 1) (f64_div (f64_of_word fee_bps) (Num 10000));
            amount_in = f64_mul amount_in_eth fee_factor;
            spot = f64_div reserve_out reserve_in;
            amount_out = f64_div (f64_mul amount_in reserve_out) (f64_add reserve_in amount_in);
            effective_rate = f64_div amount_out amount_in
        in if f64_le spot (Num 0) then Num 1
           else f64_clamp (f64_div (f64_sub spot effective_rate) spot) (Num 0) (f64_of_rat (99 / 100)))"

definition estimate_curve_slippage :: "f64 \<Rightarrow> f64 \<Rightarrow> f64 \<Rightarrow> u32 \<Rightarrow> f64" where
  "estimate_curve_slippage balance_in balance_out amount_in_eth fee_bps =
     (if f64_le balance_in (Num 0) \<or> f64_le balance_out (Num 0) \<or> f64_le amount_in_eth (Num 0) then Num 1
      else f64_mul (estimate_v2_slippage balance_in balance_out amount_in_eth fee_bps) (f64_of_rat (35 / 100)))"

definition estimate_balancer_v3_slippage :: "f64 \<Rightarrow> f64 \<Rightarrow> f64 \<Rightarrow> u32 \<Rightarrow> f64" where
  "estimate_balancer_v3_slippage balance_in balance_out amount_in_eth fee_bps =
     (if f64_le balance_in (Num 0) \<or> f64_le balance_out (Num 0) \<or> f64_le amount_in_eth (Num 0) then Num 1
      else f64_mul (estimate_v2_slippage balance_in balance_out amount_in_eth fee_bps) (f64_of_rat (85 / 100)))"

definition estimate_protocol_slippage :: "ProtocolType \<Rightarrow> f64 \<Rightarrow> f64 \<Rightarrow> f64 \<Rightarrow> u32 \<Rightarrow> f64" where
  "estimate_protocol_slippage protocol =
     (case protocol of
        Curve \<Rightarrow> estimate_curve_slippage
      | BalancerV3 \<Rightarrow> estimate_balancer_v3_slippage
      | _ \<Rightarrow> estimate_v2_slippage)"

section \<open>Volume providers\<close>

text \<open>The HTTP query of the subgraph provider is a placeholder in the source: it reports an error and returns
  nothing, so the provider answers from its injected cache or from the proxy.\<close>

record SubgraphVolumeProvider =
  sv_endpoint :: string
  sv_cache :: "(address, f64 \<times> nat) hmap"
  sv_cache_ttl :: nat
  sv_fetch_errors :: nat

definition subgraph_new :: "string \<Rightarrow> SubgraphVolumeProvider" where
  "subgraph_new endpoint =
     \<lparr>sv_endpoint = endpoint, sv_cache = hnew, sv_cache_ttl = 6 * 3600 * 1000000000, sv_fetch_errors = 0\<rparr>"

definition fetch_subgraph :: "SubgraphVolumeProvider \<Rightarrow> f64 option \<times> SubgraphVolumeProvider" where
  "fetch_subgraph p =
     (if sv_endpoint p = [] then (None, p) else (None, p\<lparr>sv_fetch_errors := sv_fetch_errors p + 1\<rparr>))"

definition proxy_volume :: "f64 \<Rightarrow> f64" where
  "proxy_volume tvl_usd = f64_mul tvl_usd (f64_of_rat (5 / 100))"

definition subgraph_volume :: "nat \<Rightarrow> SubgraphVolumeProvider \<Rightarrow> address \<Rightarrow> f64 \<Rightarrow> f64 \<times> SubgraphVolumeProvider" where
  "subgraph_volume now p pool tvl_usd =
     (case hget (sv_cache p) pool of
        Some (vol, ts) \<Rightarrow>
          if now - ts < sv_cache_ttl p then (vol, p)
          else (case fetch_subgraph p of
                  (Some v, p) \<Rightarrow> (v, p\<lparr>sv_cache := hinsert pool (v, now) (sv_cache p)\<rparr>)
                | (None, p) \<Rightarrow> (proxy_volume tvl_usd, p))
      | None \<Rightarrow>
          (case fetch_subgraph p of
             (Some v, p) \<Rightarrow> (v, p\<lparr>sv_cache := hinsert pool (v, now) (sv_cache p)\<rparr>)
           | (None, p) \<Rightarrow> (proxy_volume tvl_usd, p)))"

definition inject_cache :: "nat \<Rightarrow> SubgraphVolumeProvider \<Rightarrow> address \<Rightarrow> f64 \<Rightarrow> SubgraphVolumeProvider" where
  "inject_cache now p pool volume = p\<lparr>sv_cache := hinsert pool (volume, now) (sv_cache p)\<rparr>"

datatype VolumeSource = Subgraph SubgraphVolumeProvider | Proxy

definition from_config :: "string \<Rightarrow> string \<Rightarrow> VolumeSource" where
  "from_config source endpoint = (if source = ''subgraph'' then Subgraph (subgraph_new endpoint) else Proxy)"

definition volume_24h_usd :: "nat \<Rightarrow> VolumeSource \<Rightarrow> address \<Rightarrow> f64 \<Rightarrow> f64 \<times> VolumeSource" where
  "volume_24h_usd now src pool tvl_usd =
     (case src of
        Subgraph p \<Rightarrow> (case subgraph_volume now p pool tvl_usd of (v, p') \<Rightarrow> (v, Subgraph p'))
      | Proxy \<Rightarrow> (proxy_volume tvl_usd, Proxy))"

section \<open>The cache\<close>

record DiscoveryCache =
  dc_pools :: "(address, CachedPool) hmap"
  dc_max_pools :: nat
  dc_prune_max_age :: nat
  dc_scoring :: ScoringSettings
  dc_events :: "DiscoveryEvent list"
  dc_discovery_counter :: u64

definition cache_new :: "nat \<Rightarrow> u64 \<Rightarrow> ScoringSettings \<Rightarrow> DiscoveryCache" where
  "cache_new max_pools prune_max_age_secs scoring =
     \<lparr>dc_pools = hnew, dc_max_pools = max_pools, dc_prune_max_age = unat prune_max_age_secs * 1000000000,
      dc_scoring = scoring, dc_events = [], dc_discovery_counter = 1\<rparr>"

definition send_event :: "DiscoveryEvent \<Rightarrow> DiscoveryCache \<Rightarrow> DiscoveryCache" where
  "send_event ev c = c\<lparr>dc_events := dc_events c @ [ev]\<rparr>"

definition dc_len :: "DiscoveryCache \<Rightarrow> nat" where
  "dc_len c = hlen (dc_pools c)"

definition dc_is_empty :: "DiscoveryCache \<Rightarrow> bool" where
  "dc_is_empty c \<longleftrightarrow> hlen (dc_pools c) = 0"

definition dc_contains :: "DiscoveryCache \<Rightarrow> address \<Rightarrow> bool" where
  "dc_contains c a = hcontains (dc_pools c) a"

definition cached_inputs :: "PoolInfo \<Rightarrow> PoolScoreInputs" where
  "cached_inputs info = \<lparr>si_tvl_usd = pi_tvl_usd info, si_volume_24h_usd = pi_volume_24h_usd info,
     si_fee_bps = pi_fee_bps info, si_slippage_estimate = pi_slippage_estimate info\<rparr>"

definition max_raw_score :: "DiscoveryCache \<Rightarrow> f64" where
  "max_raw_score c =
     foldl f64_max (Num 0) (map (\<lambda>(k, e). raw_score (cached_inputs (cp_info e)) (dc_scoring c)) (dc_pools c))"

definition renormalise_all :: "nat \<Rightarrow> DiscoveryCache \<Rightarrow> DiscoveryCache" where
  "renormalise_all now c =
     (let max_raw = max_raw_score c
      in c\<lparr>dc_pools := hupdate (\<lambda>e. e\<lparr>
             cp_info := (cp_info e)\<lparr>pi_score :=
               normalise_score (raw_score (cached_inputs (cp_info e)) (dc_scoring c)) max_raw\<rparr>,
             cp_last_scored_at := now\<rparr>) (dc_pools c)\<rparr>)"

definition evict :: "DiscoveryCache \<Rightarrow> address \<Rightarrow> DiscoveryCache" where
  "evict c a = send_event (PoolPruned a ''capacity'') (c\<lparr>dc_pools := hremove a (dc_pools c)\<rparr>)"

definition enforce_capacity :: "DiscoveryCache \<Rightarrow> DiscoveryCache" where
  "enforce_capacity c =
     (if hlen (dc_pools c) \<le> dc_max_pools c then c
      else
        let excess = hlen (dc_pools c) - dc_max_pools c;
            sorted = sort_by (\<lambda>a b. f64_cmp (snd a) (snd b)) (map (\<lambda>(k, e). (k, pi_score (cp_info e))) (dc_pools c))
        in foldl evict c (map fst (take excess sorted)))"

definition upsert :: "nat \<Rightarrow> DiscoveryCache \<Rightarrow> PoolInfo \<Rightarrow> PoolScoreInputs \<Rightarrow> PoolInfo \<times> DiscoveryCache" where
  "upsert now c info inputs =
     (let raw = raw_score inputs (dc_scoring c);
          max_raw = f64_max (max_raw_score c) raw;
          info = info\<lparr>pi_score := normalise_score raw max_raw, pi_tvl_usd := si_tvl_usd inputs,
            pi_volume_24h_usd := si_volume_24h_usd inputs, pi_slippage_estimate := si_slippage_estimate inputs\<rparr>;
          (info, counter) =
            (if pi_discovered_at info = 0
             then (info\<lparr>pi_discovered_at := dc_discovery_counter c\<rparr>, dc_discovery_counter c + 1)
             else (info, dc_discovery_counter c));
          is_new = (\<not> hcontains (dc_pools c) (pi_address info));
          cached = \<lparr>cp_info = info, cp_inserted_at = now, cp_last_scored_at = now\<rparr>;
          c = c\<lparr>dc_pools := hinsert (pi_address info) cached (dc_pools c), dc_discovery_counter := counter\<rparr>;
          c = enforce_capacity c;
          c = send_event (if is_new then PoolAdded info else PoolUpdated info) c;
          c = (if f64_le max_raw raw then renormalise_all now c else c)
      in (info, c))"

definition get_top_n :: "DiscoveryCache \<Rightarrow> nat \<Rightarrow> PoolInfo list" where
  "get_top_n c n =
     take n (sort_by (\<lambda>a b. f64_cmp (pi_score b) (pi_score a)) (map (\<lambda>(k, e). cp_info e) (dc_pools c)))"

fun prune_loop :: "address list \<Rightarrow> DiscoveryCache \<Rightarrow> nat \<Rightarrow> DiscoveryCache \<times> nat" where
  "prune_loop [] c removed = (c, removed)"
| "prune_loop (a # as) c removed =
     (if hcontains (dc_pools c) a
      then prune_loop as (send_event (PoolPruned a ''age_or_low_score'') (c\<lparr>dc_pools := hremove a (dc_pools c)\<rparr>)) (removed + 1)
      else prune_loop as c removed)"

definition dc_prune :: "nat \<Rightarrow> DiscoveryCache \<Rightarrow> f64 \<Rightarrow> nat \<times> DiscoveryCache" where
  "dc_prune now c min_score =
     (let to_remove = map fst (filter (\<lambda>(k, e). cp_age now e > dc_prune_max_age c \<or> f64_lt (pi_score (cp_info e)) min_score)
            (dc_pools c));
          (c, removed) = prune_loop to_remove c 0
      in (removed, if removed > 0 then send_event (CachePruned removed) (renormalise_all now c) else c))"

section \<open>Scores stay in the unit interval\<close>

definition unit_score :: "f64 \<Rightarrow> bool" where
  "unit_score s \<longleftrightarrow> f64_le (Num 0) s \<and> f64_le s (Num 1)"

lemma unit_score_not_NaN: "unit_score s \<Longrightarrow> s \<noteq> NaN"
  by (auto simp: unit_score_def f64_le_def)

lemma unit_normalise: "unit_score (normalise_score raw max_raw)"
proof (cases "normalise_score raw max_raw = Num 0")
  case True
  then show ?thesis by (simp add: unit_score_def f64_le_def)
next
  case False
  then have f: "is_finite raw" "is_finite max_raw" "\<not> f64_le max_raw (Num 0)"
    and eq: "normalise_score raw max_raw = f64_clamp (f64_div raw max_raw) (Num 0) (Num 1)"
    unfolding normalise_score_def by (auto split: if_splits)
  have "f64_lt (Num 0) max_raw" using f(2,3) f64_not_lt [of "Num 0" max_raw] by (cases max_raw) auto
  then have "f64_div raw max_raw \<noteq> NaN" by (intro f64_div_not_NaN f)
  then show ?thesis
    unfolding eq unit_score_def by (intro f64_clamp_bounds) (simp add: f64_le_def)
qed

section \<open>Invariant\<close>

definition entry_ok :: "address \<Rightarrow> CachedPool \<Rightarrow> bool" where
  "entry_ok a e \<longleftrightarrow> pi_address (cp_info e) = a \<and> unit_score (pi_score (cp_info e))"

definition entries_ok :: "DiscoveryCache \<Rightarrow> bool" where
  "entries_ok c \<longleftrightarrow> hmap_ok (dc_pools c) \<and> (\<forall>a e. hget (dc_pools c) a = Some e \<longrightarrow> entry_ok a e)"

lemma entries_okD: "entries_ok c \<Longrightarrow> (a, e) \<in> set (dc_pools c) \<Longrightarrow> entry_ok a e"
  by (simp add: entries_ok_def hmap_ok_mem)

lemma foldl_evict:
  "dc_pools (foldl evict c as) = foldl (\<lambda>m k. hremove k m) (dc_pools c) as"
  "dc_max_pools (foldl evict c as) = dc_max_pools c"
  "dc_events (foldl evict c as) = dc_events c @ map (\<lambda>a. PoolPruned a ''capacity'') as"
  by (induction as arbitrary: c) (simp_all add: evict_def send_event_def)

text \<open>The addresses a full cache evicts: as many as it holds in excess, each cached, and none scoring better than
  a pool that stays.\<close>

definition evicted :: "DiscoveryCache \<Rightarrow> address list" where
  "evicted c = map fst (take (hlen (dc_pools c) - dc_max_pools c)
     (sort_by (\<lambda>a b. f64_cmp (snd a) (snd b)) (map (\<lambda>(k, e). (k, pi_score (cp_info e))) (dc_pools c))))"

lemma enforce_capacity_alt: "enforce_capacity c = foldl evict c (evicted c)"
  by (simp add: enforce_capacity_def evicted_def Let_def)

lemma evicted_props:
  assumes "hmap_ok (dc_pools c)"
  shows "distinct (evicted c)" "set (evicted c) \<subseteq> set (hkeys (dc_pools c))"
    "length (evicted c) = hlen (dc_pools c) - dc_max_pools c"
proof -
  define xs where "xs = map (\<lambda>(k, e). (k, pi_score (cp_info e))) (dc_pools c)"
  define ys where "ys = sort_by (\<lambda>a b. f64_cmp (snd a) (snd b)) xs"
  have fst: "map fst xs = hkeys (dc_pools c)" by (simp add: xs_def hkeys_def comp_def case_prod_unfold)
  have ms: "mset ys = mset xs" by (simp add: ys_def)
  then have keys: "mset (map fst ys) = mset (hkeys (dc_pools c))" unfolding fst [symmetric] by (simp only: mset_map)
  have ys: "distinct (map fst ys)" "set (map fst ys) = set (hkeys (dc_pools c))"
    using mset_eq_imp_distinct_iff [OF keys] mset_eq_setD [OF keys] hm.ok_keys [OF assms] by simp_all
  have "length ys = hlen (dc_pools c)" using mset_eq_length [OF ms] by (simp add: xs_def hlen_def)
  then show "length (evicted c) = hlen (dc_pools c) - dc_max_pools c"
    by (simp add: evicted_def xs_def [symmetric] ys_def [symmetric])
  have ev: "evicted c = take (hlen (dc_pools c) - dc_max_pools c) (map fst ys)"
    by (simp add: evicted_def xs_def [symmetric] ys_def [symmetric] take_map)
  show "distinct (evicted c)" unfolding ev using ys(1) by (rule distinct_take)
  show "set (evicted c) \<subseteq> set (hkeys (dc_pools c))" unfolding ev using ys(2) set_take_subset by metis
qed

lemma enforce_capacity_pools:
  "dc_pools (enforce_capacity c) = foldl (\<lambda>m k. hremove k m) (dc_pools c) (evicted c)"
  "dc_max_pools (enforce_capacity c) = dc_max_pools c"
  "dc_events (enforce_capacity c) = dc_events c @ map (\<lambda>a. PoolPruned a ''capacity'') (evicted c)"
  by (simp_all add: enforce_capacity_alt foldl_evict)

lemma enforce_capacity_len:
  assumes "hmap_ok (dc_pools c)"
  shows "hlen (dc_pools (enforce_capacity c)) = min (hlen (dc_pools c)) (dc_max_pools c)"
  using evicted_props [OF assms] by (simp add: enforce_capacity_pools hm.len_remove_all assms)

lemma evicted_worst:
  assumes ok: "entries_ok c" and a: "a \<in> set (evicted c)" and b: "b \<notin> set (evicted c)"
    and ea: "hget (dc_pools c) a = Some ea" and eb: "hget (dc_pools c) b = Some eb"
  shows "f64_le (pi_score (cp_info ea)) (pi_score (cp_info eb))"
proof -
  define xs where "xs = map (\<lambda>(k, e). (k, pi_score (cp_info e))) (dc_pools c)"
  define ys where "ys = sort_by (\<lambda>a b. f64_cmp (snd a) (snd b)) xs"
  define m where "m = hlen (dc_pools c) - dc_max_pools c"
  have okm: "hmap_ok (dc_pools c)" using ok by (simp add: entries_ok_def)
  have score: "e \<in> set (dc_pools c) \<Longrightarrow> pi_score (cp_info (snd e)) \<noteq> NaN" for e
    using entries_okD [OF ok, of "fst e" "snd e"] by (auto simp: entry_ok_def unit_score_not_NaN)
  have sorted: "sorted_wrt (\<lambda>a b. f64_le (snd a) (snd b)) ys"
    unfolding ys_def by (intro sort_by_asc) (auto simp: xs_def dest: score)
  have set: "set ys = set xs" by (simp add: ys_def)
  have ev: "evicted c = map fst (take m ys)" by (simp add: evicted_def xs_def ys_def m_def)
  have val: "s = pi_score (cp_info e)" if "(k, s) \<in> set ys" "hget (dc_pools c) k = Some e" for k s e
    using that okm unfolding set xs_def by (auto simp: hmap_ok_mem)
  obtain s where s: "(a, s) \<in> set (take m ys)" using a ev by auto
  have "(b, pi_score (cp_info eb)) \<in> set xs" using hget_mem [OF eb] unfolding xs_def by force
  then have "(b, pi_score (cp_info eb)) \<in> set (take m ys) \<union> set (drop m ys)"
    using set by (metis append_take_drop_id set_append)
  moreover have "(b, pi_score (cp_info eb)) \<notin> set (take m ys)" using b ev by force
  ultimately have t: "(b, pi_score (cp_info eb)) \<in> set (drop m ys)" by blast
  have "sorted_wrt (\<lambda>a b. f64_le (snd a) (snd b)) (take m ys @ drop m ys)" using sorted by simp
  then have "f64_le s (pi_score (cp_info eb))" using s t unfolding sorted_wrt_append by force
  then show ?thesis using val [OF in_set_takeD [OF s] ea] by simp
qed

lemma entries_ok_enforce: "entries_ok c \<Longrightarrow> entries_ok (enforce_capacity c)"
  by (simp add: entries_ok_def enforce_capacity_pools hm.ok_remove_all hm.get_remove_all)

lemma entries_ok_renormalise: "entries_ok c \<Longrightarrow> entries_ok (renormalise_all now c)"
  by (auto simp: entries_ok_def renormalise_all_def Let_def entry_ok_def unit_normalise)

lemma renormalise_all_keeps [simp]:
  "hkeys (dc_pools (renormalise_all now c)) = hkeys (dc_pools c)"
  "hlen (dc_pools (renormalise_all now c)) = hlen (dc_pools c)"
  "dc_max_pools (renormalise_all now c) = dc_max_pools c"
  "dc_events (renormalise_all now c) = dc_events c"
  by (simp_all add: renormalise_all_def Let_def)

lemma send_event_keeps [simp]:
  "dc_pools (send_event ev c) = dc_pools c" "dc_max_pools (send_event ev c) = dc_max_pools c"
  "dc_events (send_event ev c) = dc_events c @ [ev]" "entries_ok (send_event ev c) = entries_ok c"
  by (simp_all add: send_event_def entries_ok_def)

lemma dc_contains_keeps [simp]:
  "dc_contains (renormalise_all now c) a = dc_contains c a" "dc_contains (send_event ev c) a = dc_contains c a"
  by (simp_all add: dc_contains_def hcontains_iff)

text \<open>The cache right after the insertion inside \<^const>\<open>upsert\<close>, and what the rest of the operation does to it.\<close>

lemma upsert_steps:
  obtains c1 i e where
    "upsert now c info inputs = (i, snd (upsert now c info inputs))"
    "pi_address i = pi_address info"
    "pi_score i = normalise_score (raw_score inputs (dc_scoring c)) (f64_max (max_raw_score c) (raw_score inputs (dc_scoring c)))"
    "cp_info e = i" "dc_pools c1 = hinsert (pi_address info) e (dc_pools c)" "dc_max_pools c1 = dc_max_pools c"
    "dc_events c1 = dc_events c"
    "snd (upsert now c info inputs) =
       (let c2 = send_event (if hcontains (dc_pools c) (pi_address info) then PoolUpdated i else PoolAdded i) (enforce_capacity c1)
        in if f64_le (f64_max (max_raw_score c) (raw_score inputs (dc_scoring c))) (raw_score inputs (dc_scoring c))
           then renormalise_all now c2 else c2)"
proof -
  define i0 where "i0 = info\<lparr>pi_score := normalise_score (raw_score inputs (dc_scoring c))
      (f64_max (max_raw_score c) (raw_score inputs (dc_scoring c))), pi_tvl_usd := si_tvl_usd inputs,
      pi_volume_24h_usd := si_volume_24h_usd inputs, pi_slippage_estimate := si_slippage_estimate inputs\<rparr>"
  define i where "i = (if pi_discovered_at i0 = 0 then i0\<lparr>pi_discovered_at := dc_discovery_counter c\<rparr> else i0)"
  define k where "k = (if pi_discovered_at i0 = 0 then dc_discovery_counter c + 1 else dc_discovery_counter c)"
  define e where "e = \<lparr>cp_info = i, cp_inserted_at = now, cp_last_scored_at = now\<rparr>"
  define c1 where "c1 = c\<lparr>dc_pools := hinsert (pi_address info) e (dc_pools c), dc_discovery_counter := k\<rparr>"
  have addr: "pi_address i = pi_address info" by (simp add: i_def i0_def)
  have "upsert now c info inputs =
      (i, let c2 = send_event (if hcontains (dc_pools c) (pi_address info) then PoolUpdated i else PoolAdded i) (enforce_capacity c1)
        in if f64_le (f64_max (max_raw_score c) (raw_score inputs (dc_scoring c))) (raw_score inputs (dc_scoring c))
           then renormalise_all now c2 else c2)"
    unfolding upsert_def Let_def i0_def [symmetric] c1_def e_def
    by (simp add: i_def k_def i0_def)
  then show thesis
    by (intro that [of i e c1]) (simp_all add: addr e_def c1_def i_def i0_def)
qed

lemma entries_ok_insert:
  assumes "entries_ok c" and "dc_pools c1 = hinsert a e (dc_pools c)" and "entry_ok a e"
  shows "entries_ok c1"
  using assms by (auto simp: entries_ok_def hm.ok_insert)

text \<open>A newcomer that scores below every pool of a full cache is the one evicted.\<close>

lemma newcomer_evicted:
  assumes ok: "entries_ok c" and c1: "dc_pools c1 = hinsert a e (dc_pools c)" and e: "entry_ok a e"
    and new: "hget (dc_pools c) a = None" and full: "hlen (dc_pools c) = dc_max_pools c1"
    and low: "\<And>b eb. hget (dc_pools c) b = Some eb \<Longrightarrow> f64_lt (pi_score (cp_info e)) (pi_score (cp_info eb))"
  shows "evicted c1 = [a]"
proof -
  have ok1: "entries_ok c1" by (rule entries_ok_insert [OF ok c1 e])
  then have okm: "hmap_ok (dc_pools c1)" by (simp add: entries_ok_def)
  have "hlen (dc_pools c1) = dc_max_pools c1 + 1"
    using full ok new by (simp add: c1 hm.len_insert entries_ok_def)
  then have "length (evicted c1) = 1" using evicted_props(3) [OF okm] by simp
  then obtain b where b: "evicted c1 = [b]" by (metis One_nat_def length_0_conv length_Suc_conv)
  have "b = a"
  proof (rule ccontr)
    assume ne: "b \<noteq> a"
    have "b \<in> set (hkeys (dc_pools c1))" using evicted_props(2) [OF okm] b by simp
    then obtain eb where eb: "hget (dc_pools c) b = Some eb" using ne by (auto simp: hm.set_keys c1)
    have "f64_le (pi_score (cp_info eb)) (pi_score (cp_info e))"
      using ne b eb by (intro evicted_worst [OF ok1, of b a]) (simp_all add: c1)
    then show False using low [OF eb] by (auto simp: f64_lt_def f64_le_def)
  qed
  then show ?thesis using b by simp
qed

lemma upsert_inv:
  assumes "entries_ok c"
  shows "entries_ok (snd (upsert now c info inputs))"
    and "hlen (dc_pools (snd (upsert now c info inputs))) \<le> dc_max_pools c"
    and "dc_max_pools (snd (upsert now c info inputs)) = dc_max_pools c"
proof -
  obtain c1 i e where u: "pi_address i = pi_address info"
    "pi_score i = normalise_score (raw_score inputs (dc_scoring c)) (f64_max (max_raw_score c) (raw_score inputs (dc_scoring c)))"
    "cp_info e = i" "dc_pools c1 = hinsert (pi_address info) e (dc_pools c)" "dc_max_pools c1 = dc_max_pools c"
    "snd (upsert now c info inputs) =
       (let c2 = send_event (if hcontains (dc_pools c) (pi_address info) then PoolUpdated i else PoolAdded i) (enforce_capacity c1)
        in if f64_le (f64_max (max_raw_score c) (raw_score inputs (dc_scoring c))) (raw_score inputs (dc_scoring c))
           then renormalise_all now c2 else c2)"
    by (rule upsert_steps [of now c info inputs])
  have "entry_ok (pi_address info) e" by (simp add: entry_ok_def u(1,2,3) unit_normalise)
  then have ok1: "entries_ok c1" by (rule entries_ok_insert [OF assms u(4)])
  then have "hmap_ok (dc_pools c1)" by (simp add: entries_ok_def)
  from enforce_capacity_len [OF this] have len: "hlen (dc_pools (enforce_capacity c1)) \<le> dc_max_pools c" by (simp add: u(5))
  show "entries_ok (snd (upsert now c info inputs))"
    using entries_ok_enforce [OF ok1] by (simp add: u(6) Let_def entries_ok_renormalise)
  show "hlen (dc_pools (snd (upsert now c info inputs))) \<le> dc_max_pools c"
    using len by (simp add: u(6) Let_def)
  show "dc_max_pools (snd (upsert now c info inputs)) = dc_max_pools c"
    by (simp add: u(5,6) Let_def enforce_capacity_pools)
qed

lemma prune_loop_pools:
  "prune_loop as c removed = (c', r) \<Longrightarrow> dc_pools c' = foldl (\<lambda>m k. hremove k m) (dc_pools c) as
     \<and> dc_max_pools c' = dc_max_pools c"
proof (induction as arbitrary: c removed)
  case (Cons a as)
  show ?case
  proof (cases "hcontains (dc_pools c) a")
    case False
    then have "hremove a (dc_pools c) = dc_pools c"
      by (simp add: hcontains_iff hkeys_def hremove_def)
    then show ?thesis using Cons False by simp
  qed (use Cons in simp)
qed simp

lemma prune_inv:
  assumes "entries_ok c"
  shows "entries_ok (snd (dc_prune now c min_score))"
    and "hlen (dc_pools (snd (dc_prune now c min_score))) \<le> hlen (dc_pools c)"
    and "dc_max_pools (snd (dc_prune now c min_score)) = dc_max_pools c"
proof -
  define as where "as = map fst (filter (\<lambda>(k, e). cp_age now e > dc_prune_max_age c \<or> f64_lt (pi_score (cp_info e)) min_score)
    (dc_pools c))"
  obtain c' r where loop: "prune_loop as c 0 = (c', r)" by fastforce
  have p: "dc_pools c' = foldl (\<lambda>m k. hremove k m) (dc_pools c) as" "dc_max_pools c' = dc_max_pools c"
    using prune_loop_pools [OF loop] by auto
  have snd: "snd (dc_prune now c min_score) = (if r > 0 then send_event (CachePruned r) (renormalise_all now c') else c')"
    by (simp add: dc_prune_def as_def [symmetric] loop Let_def)
  have ok: "entries_ok c'" using assms by (simp add: entries_ok_def p(1) hm.ok_remove_all hm.get_remove_all)
  then show "entries_ok (snd (dc_prune now c min_score))" by (simp add: snd entries_ok_renormalise)
  have "hlen (dc_pools c') \<le> hlen (dc_pools c)"
    using ok assms unfolding entries_ok_def p(1) by (simp add: hm.len_card hm.ok_remove_all hm.get_remove_all hm.finite_keys card_mono Collect_mono)
  then show "hlen (dc_pools (snd (dc_prune now c min_score))) \<le> hlen (dc_pools c)" by (simp add: snd)
  show "dc_max_pools (snd (dc_prune now c min_score)) = dc_max_pools c" by (simp add: snd p(2))
qed

section \<open>Reachable caches\<close>

datatype dc_op = DcUpsert nat PoolInfo PoolScoreInputs | DcPrune nat f64

fun dc_step :: "DiscoveryCache \<Rightarrow> dc_op \<Rightarrow> DiscoveryCache" where
  "dc_step c (DcUpsert now info inputs) = snd (upsert now c info inputs)"
| "dc_step c (DcPrune now min_score) = snd (dc_prune now c min_score)"

definition dc_run :: "nat \<Rightarrow> u64 \<Rightarrow> ScoringSettings \<Rightarrow> dc_op list \<Rightarrow> DiscoveryCache" where
  "dc_run max_pools age scoring ops = foldl dc_step (cache_new max_pools age scoring) ops"

definition dc_inv :: "DiscoveryCache \<Rightarrow> bool" where
  "dc_inv c \<longleftrightarrow> entries_ok c \<and> hlen (dc_pools c) \<le> dc_max_pools c"

lemma dc_inv_new: "dc_inv (cache_new max_pools age scoring)"
  by (simp add: dc_inv_def entries_ok_def cache_new_def hm.ok_new) (simp add: hlen_def hnew_def)

lemma dc_inv_step:
  assumes "dc_inv c"
  shows "dc_inv (dc_step c op)" and "dc_max_pools (dc_step c op) = dc_max_pools c"
proof -
  have ok: "entries_ok c" and len: "hlen (dc_pools c) \<le> dc_max_pools c" using assms by (auto simp: dc_inv_def)
  show "dc_inv (dc_step c op)"
    using upsert_inv [OF ok] prune_inv [OF ok] order_trans [OF prune_inv(2) [OF ok] len]
    by (cases op) (simp_all add: dc_inv_def)
  show "dc_max_pools (dc_step c op) = dc_max_pools c"
    using upsert_inv [OF ok] prune_inv [OF ok] by (cases op) simp_all
qed

lemma dc_inv_steps:
  assumes "dc_inv c"
  shows "dc_inv (foldl dc_step c ops) \<and> dc_max_pools (foldl dc_step c ops) = dc_max_pools c"
  using assms by (induction ops arbitrary: c) (simp_all add: dc_inv_step)

lemma dc_inv_run: "dc_inv (dc_run max_pools age scoring ops)" "dc_max_pools (dc_run max_pools age scoring ops) = max_pools"
  using dc_inv_steps [OF dc_inv_new, of max_pools age scoring ops] by (simp_all add: dc_run_def cache_new_def)

section \<open>Ranking\<close>

lemma sorted_cut:
  assumes "sorted_wrt R (take n xs @ drop n xs)" and "x \<in> set (take n xs)" and "y \<in> set xs" and "y \<notin> set (take n xs)"
  shows "R x y"
proof -
  have "set xs = set (take n xs) \<union> set (drop n xs)" by (metis append_take_drop_id set_append)
  then have "y \<in> set (drop n xs)" using assms(3,4) by blast
  then show ?thesis using assms(1,2) unfolding sorted_wrt_append by blast
qed

lemma top_n_spec:
  assumes "entries_ok c"
  shows "length (get_top_n c n) = min n (dc_len c)"
    and "distinct (map pi_address (get_top_n c n))"
    and "p \<in> set (get_top_n c n) \<Longrightarrow> \<exists>e. hget (dc_pools c) (pi_address p) = Some e \<and> cp_info e = p"
    and "sorted_wrt (\<lambda>a b. f64_le (pi_score b) (pi_score a)) (get_top_n c n)"
    and "p \<in> set (get_top_n c n) \<Longrightarrow> hget (dc_pools c) a = Some e \<Longrightarrow> a \<notin> pi_address ` set (get_top_n c n)
      \<Longrightarrow> f64_le (pi_score (cp_info e)) (pi_score p)"
proof -
  define xs where "xs = map (\<lambda>(k, e). cp_info e) (dc_pools c)"
  define ys where "ys = sort_by (\<lambda>a b. f64_cmp (pi_score b) (pi_score a)) xs"
  have top: "get_top_n c n = take n ys" by (simp add: get_top_n_def xs_def ys_def)
  have ok: "hmap_ok (dc_pools c)" using assms by (simp add: entries_ok_def)
  have mem: "\<exists>e. hget (dc_pools c) (pi_address q) = Some e \<and> cp_info e = q \<and> unit_score (pi_score q)" if "q \<in> set xs" for q
    using that entries_okD [OF assms] unfolding xs_def by (auto simp: entry_ok_def hmap_ok_mem [OF ok])
  have ms: "mset ys = mset xs" by (simp add: ys_def)
  have set: "set ys = set xs" using ms by (rule mset_eq_setD)
  have "map pi_address xs = hkeys (dc_pools c)"
    unfolding xs_def hkeys_def using entries_okD [OF assms] by (auto simp: entry_ok_def)
  then have "mset (map pi_address ys) = mset (hkeys (dc_pools c))" using ms by (metis mset_map)
  then have "distinct (map pi_address ys)"
    using hm.ok_keys [OF ok] mset_eq_imp_distinct_iff by blast
  then show "distinct (map pi_address (get_top_n c n))" by (simp add: top distinct_take flip: take_map)
  have "length ys = dc_len c" using mset_eq_length [OF ms] by (simp add: xs_def dc_len_def hlen_def)
  then show "length (get_top_n c n) = min n (dc_len c)" by (simp add: top)
  have sorted: "sorted_wrt (\<lambda>a b. f64_le (pi_score b) (pi_score a)) (take n ys @ drop n ys)"
    unfolding append_take_drop_id ys_def by (intro sort_by_desc) (auto dest: mem unit_score_not_NaN)
  then show "sorted_wrt (\<lambda>a b. f64_le (pi_score b) (pi_score a)) (get_top_n c n)"
    unfolding top sorted_wrt_append by blast
  show "p \<in> set (get_top_n c n) \<Longrightarrow> \<exists>e. hget (dc_pools c) (pi_address p) = Some e \<and> cp_info e = p"
    using mem set in_set_takeD unfolding top by metis
  assume p: "p \<in> set (get_top_n c n)" and e: "hget (dc_pools c) a = Some e" and a: "a \<notin> pi_address ` set (get_top_n c n)"
  have "pi_address (cp_info e) = a" using assms e by (simp add: entries_ok_def entry_ok_def)
  moreover have "cp_info e \<in> set ys" using hget_mem [OF e] unfolding set xs_def by force
  ultimately show "f64_le (pi_score (cp_info e)) (pi_score p)"
    using sorted_cut [OF sorted, of p "cp_info e"] p a unfolding top by blast
qed

text \<open>C14: after any sequence of upserts and prunes the cache holds at most its configured number of pools, and the
  top-\<open>n\<close> list has \<open>min n len\<close> distinct pools of the cache with scores in the unit interval, best
  first, such that no cached pool left out of it scores better than any pool in it.\<close>

theorem discovery_top_n_best:
  "dc_len (dc_run max_pools age scoring ops) \<le> max_pools
    \<and> length (get_top_n (dc_run max_pools age scoring ops) n) = min n (dc_len (dc_run max_pools age scoring ops))
    \<and> distinct (map pi_address (get_top_n (dc_run max_pools age scoring ops) n))
    \<and> list_all (\<lambda>p. dc_contains (dc_run max_pools age scoring ops) (pi_address p) \<and> unit_score (pi_score p))
        (get_top_n (dc_run max_pools age scoring ops) n)
    \<and> sorted_wrt (\<lambda>a b. f64_le (pi_score b) (pi_score a)) (get_top_n (dc_run max_pools age scoring ops) n)
    \<and> list_all (\<lambda>p. list_all (\<lambda>(a, e). a \<in> pi_address ` set (get_top_n (dc_run max_pools age scoring ops) n)
          \<or> f64_le (pi_score (cp_info e)) (pi_score p))
        (dc_pools (dc_run max_pools age scoring ops))) (get_top_n (dc_run max_pools age scoring ops) n)"
proof -
  define c where "c = dc_run max_pools age scoring ops"
  have inv: "dc_inv c" "dc_max_pools c = max_pools" by (simp_all add: c_def dc_inv_run)
  then have ok: "entries_ok c" and okm: "hmap_ok (dc_pools c)" by (auto simp: dc_inv_def entries_ok_def)
  have "dc_contains c (pi_address p) \<and> unit_score (pi_score p)" if p: "p \<in> set (get_top_n c n)" for p
    using top_n_spec(3) [OF ok p] ok by (auto simp: dc_contains_def hcontains_def entries_ok_def entry_ok_def)
  then have "list_all (\<lambda>p. dc_contains c (pi_address p) \<and> unit_score (pi_score p)) (get_top_n c n)"
    by (simp add: list_all_iff)
  moreover have best: "a \<in> pi_address ` set (get_top_n c n) \<or> f64_le (pi_score (cp_info e)) (pi_score p)"
    if "p \<in> set (get_top_n c n)" "(a, e) \<in> set (dc_pools c)" for p a e
    using top_n_spec(5) [OF ok, of p n a e] that by (auto simp: hmap_ok_mem [OF okm])
  moreover have "list_all (\<lambda>p. list_all (\<lambda>(a, e). a \<in> pi_address ` set (get_top_n c n)
      \<or> f64_le (pi_score (cp_info e)) (pi_score p)) (dc_pools c)) (get_top_n c n)"
    unfolding list_all_iff using best by blast
  ultimately show ?thesis
    unfolding c_def [symmetric] using inv top_n_spec(1,2,4) [OF ok, of n]
    by (simp add: dc_inv_def dc_len_def)
qed

end
