(* ===== verification/Hot_Cache.thy ===== *)
theory Hot_Cache
  imports Discovery_Cache
begin

text \<open>
  The hot cache of top-ranked pools (\<^verbatim>\<open>state/src/hot_cache/updater.rs\<close>): the diff between two selections, its
  application with the Prometheus counters, and the refresh task as a sequence of events interleaved with the
  operations of the discovery cache it reads. A hash set is the list of its elements in iteration order.
\<close>

section \<open>Model\<close>

record HotCacheUpdaterConfig =
  hu_update_interval_secs :: u64
  hu_top_n :: nat

definition updater_default :: HotCacheUpdaterConfig where
  "updater_default = \<lparr>hu_update_interval_secs = 5, hu_top_n = 500\<rparr>"

record HotCacheMetrics =
  hm_size :: int
  hm_update_latency_ms :: int
  hm_pools_added :: u64
  hm_pools_removed :: u64
  hm_updates_total :: u64

record HotCache =
  hc_pools :: "address list"
  hc_pool_infos :: "PoolInfo list"
  hc_metrics :: HotCacheMetrics

definition hot_new :: HotCache where
  "hot_new = \<lparr>hc_pools = [], hc_pool_infos = [], hc_metrics = \<lparr>hm_size = 0, hm_update_latency_ms = 0,
     hm_pools_added = 0, hm_pools_removed = 0, hm_updates_total = 0\<rparr>\<rparr>"

definition hc_len :: "HotCache \<Rightarrow> nat" where
  "hc_len h = length (hc_pools h)"

definition hc_is_empty :: "HotCache \<Rightarrow> bool" where
  "hc_is_empty h \<longleftrightarrow> hc_pools h = []"

definition hc_contains :: "HotCache \<Rightarrow> address \<Rightarrow> bool" where
  "hc_contains h a \<longleftrightarrow> a \<in> set (hc_pools h)"

definition pool_addresses :: "HotCache \<Rightarrow> address list" where
  "pool_addresses h = hc_pools h"

definition pool_infos :: "HotCache \<Rightarrow> PoolInfo list" where
  "pool_infos h = hc_pool_infos h"

record HotCacheDiff =
  hd_new_addresses :: "address list"
  hd_new_infos :: "PoolInfo list"
  hd_added :: nat
  hd_removed :: nat
  hd_added_pools :: "PoolInfo list"
  hd_removed_addresses :: "address list"

definition diff_compute :: "address list \<Rightarrow> PoolInfo list \<Rightarrow> HotCacheDiff" where
  "diff_compute previous top_pools =
     (let new_addresses = remdups (map pi_address top_pools);
          added = filter (\<lambda>p. pi_address p \<notin> set previous) top_pools;
          removed_addresses = filter (\<lambda>a. a \<notin> set new_addresses) previous
      in \<lparr>hd_new_addresses = new_addresses, hd_new_infos = top_pools, hd_added = length added,
          hd_removed = length removed_addresses, hd_added_pools = added, hd_removed_addresses = removed_addresses\<rparr>)"

definition apply_diff :: "HotCache \<Rightarrow> HotCacheDiff \<Rightarrow> HotCache" where
  "apply_diff h diff =
     (let h = h\<lparr>hc_pools := hd_new_addresses diff, hc_pool_infos := hd_new_infos diff\<rparr>;
          m = (hc_metrics h)\<lparr>hm_size := int (hc_len h)\<rparr>;
          m = (if hd_added diff > 0 then m\<lparr>hm_pools_added := hm_pools_added m + of_nat (hd_added diff)\<rparr> else m);
          m = (if hd_removed diff > 0 then m\<lparr>hm_pools_removed := hm_pools_removed m + of_nat (hd_removed diff)\<rparr> else m);
          m = m\<lparr>hm_updates_total := hm_updates_total m + 1\<rparr>
      in h\<lparr>hc_metrics := m\<rparr>)"

definition refresh_once :: "int \<Rightarrow> HotCacheUpdaterConfig \<Rightarrow> DiscoveryCache \<Rightarrow> HotCache \<Rightarrow> HotCacheDiff \<times> HotCache" where
  "refresh_once elapsed_ms cfg discovery h =
     (let previous = pool_addresses h;
          top = get_top_n discovery (hu_top_n cfg);
          diff = diff_compute previous top;
          h = apply_diff h diff
      in (diff, h\<lparr>hc_metrics := (hc_metrics h)\<lparr>hm_update_latency_ms := elapsed_ms\<rparr>\<rparr>))"

text \<open>What the spawned task observes: ticks of its interval, changes of the shutdown flag, and between them the
  operations other tasks perform on the discovery cache. The task refreshes once at startup.\<close>

datatype updater_event = Discovery dc_op | Tick int | ShutdownChanged bool

fun updater_loop :: "HotCacheUpdaterConfig \<Rightarrow> updater_event list \<Rightarrow> DiscoveryCache \<times> HotCache \<Rightarrow> DiscoveryCache \<times> HotCache" where
  "updater_loop cfg [] (c, h) = (c, h)"
| "updater_loop cfg (Discovery op # evs) (c, h) = updater_loop cfg evs (dc_step c op, h)"
| "updater_loop cfg (Tick elapsed_ms # evs) (c, h) = updater_loop cfg evs (c, snd (refresh_once elapsed_ms cfg c h))"
| "updater_loop cfg (ShutdownChanged flag # evs) (c, h) = (if flag then (c, h) else updater_loop cfg evs (c, h))"

definition updater_spawn :: "HotCacheUpdaterConfig \<Rightarrow> int \<Rightarrow> updater_event list \<Rightarrow> DiscoveryCache \<Rightarrow> HotCache \<Rightarrow> DiscoveryCache \<times> HotCache" where
  "updater_spawn cfg elapsed_ms evs c h = updater_loop cfg evs (c, snd (refresh_once elapsed_ms cfg c h))"

section \<open>The contract of a ranked source\<close>

text \<open>The selection the updater asks for lists distinct pools, as many as are asked for and available.\<close>

locale ranked_source =
  fixes ok :: "'c \<Rightarrow> bool" and top :: "'c \<Rightarrow> nat \<Rightarrow> PoolInfo list" and size :: "'c \<Rightarrow> nat"
  assumes top_distinct: "ok c \<Longrightarrow> distinct (map pi_address (top c n))"
    and top_length: "ok c \<Longrightarrow> length (top c n) = min n (size c)"
begin

lemma diff_balance:
  assumes "ok c" and "distinct prev"
  shows "length prev + hd_added (diff_compute prev (top c n)) =
      hd_removed (diff_compute prev (top c n)) + length (hd_new_addresses (diff_compute prev (top c n)))"
proof -
  define A where "A = set prev"
  define xs where "xs = map pi_address (top c n)"
  have d: "distinct xs" using top_distinct [OF assms(1)] by (simp add: xs_def)
  have "hd_added (diff_compute prev (top c n)) = length (filter (\<lambda>a. a \<notin> A) xs)"
    by (simp add: diff_compute_def Let_def A_def xs_def filter_map comp_def)
  also have "\<dots> = card (set xs - A)" using d by (simp add: distinct_card [symmetric] set_diff_eq)
  finally have added: "hd_added (diff_compute prev (top c n)) = card (set xs - A)" .
  have "hd_removed (diff_compute prev (top c n)) = length (filter (\<lambda>a. a \<notin> set xs) prev)"
    by (simp add: diff_compute_def Let_def xs_def)
  also have "\<dots> = card (A - set xs)" using assms(2) by (simp add: distinct_card [symmetric] set_diff_eq A_def)
  finally have removed: "hd_removed (diff_compute prev (top c n)) = card (A - set xs)" .
  have "length (hd_new_addresses (diff_compute prev (top c n))) = card (set xs)"
    using d by (simp add: diff_compute_def Let_def xs_def [symmetric] distinct_card distinct_remdups_id)
  moreover have "length prev = card A" using assms(2) by (simp add: A_def distinct_card)
  moreover have "card A + card (set xs - A) = card (A - set xs) + card (set xs)"
  proof -
    have "card A = card (A \<inter> set xs) + card (A - set xs)" by (intro card_Int_Diff) (simp add: A_def)
    moreover have "card (set xs) = card (set xs \<inter> A) + card (set xs - A)" by (intro card_Int_Diff) simp
    ultimately show ?thesis by (simp add: Int_commute)
  qed
  ultimately show ?thesis by (simp add: added removed)
qed

lemma new_addresses:
  assumes "ok c"
  shows "hd_new_addresses (diff_compute prev (top c n)) = map pi_address (top c n)"
    and "length (hd_new_addresses (diff_compute prev (top c n))) = min n (size c)"
  using top_distinct [OF assms] top_length [OF assms] by (simp_all add: diff_compute_def Let_def distinct_remdups_id)

end

interpretation dts: ranked_source dc_inv get_top_n dc_len
  by unfold_locales (auto simp: dc_inv_def top_n_spec)

section \<open>Accounting\<close>

definition hot_inv :: "nat \<Rightarrow> HotCache \<Rightarrow> bool" where
  "hot_inv n h \<longleftrightarrow> distinct (hc_pools h) \<and> length (hc_pools h) \<le> n
     \<and> map pi_address (hc_pool_infos h) = hc_pools h
     \<and> hm_size (hc_metrics h) = int (length (hc_pools h))
     \<and> hm_pools_added (hc_metrics h) = hm_pools_removed (hc_metrics h) + of_nat (length (hc_pools h))"

lemma apply_diff_fields:
  "hc_pools (apply_diff h d) = hd_new_addresses d" "hc_pool_infos (apply_diff h d) = hd_new_infos d"
  "hm_size (hc_metrics (apply_diff h d)) = int (length (hd_new_addresses d))"
  "hm_pools_added (hc_metrics (apply_diff h d)) = hm_pools_added (hc_metrics h) + of_nat (hd_added d)"
  "hm_pools_removed (hc_metrics (apply_diff h d)) = hm_pools_removed (hc_metrics h) + of_nat (hd_removed d)"
  by (simp_all add: apply_diff_def Let_def hc_len_def)

lemma hot_inv_refresh:
  assumes "dc_inv c" and "hot_inv k h"
  shows "hot_inv (hu_top_n cfg) (snd (refresh_once ms cfg c h))"
    and "hc_pools (snd (refresh_once ms cfg c h)) = map pi_address (get_top_n c (hu_top_n cfg))"
proof -
  define d where "d = diff_compute (hc_pools h) (get_top_n c (hu_top_n cfg))"
  have addr: "hd_new_addresses d = map pi_address (get_top_n c (hu_top_n cfg))"
    and len: "length (hd_new_addresses d) = min (hu_top_n cfg) (dc_len c)"
    using dts.new_addresses [OF assms(1)] by (simp_all add: d_def)
  have dist: "distinct (hd_new_addresses d)" using dts.top_distinct [OF assms(1)] by (simp add: addr)
  have infos: "hd_new_infos d = get_top_n c (hu_top_n cfg)" by (simp add: d_def diff_compute_def Let_def)
  have "length (hc_pools h) + hd_added d = hd_removed d + length (hd_new_addresses d)"
    unfolding d_def using assms by (intro dts.diff_balance) (simp_all add: hot_inv_def)
  then have "(of_nat (length (hc_pools h)) + of_nat (hd_added d) :: u64) =
      of_nat (hd_removed d) + of_nat (length (hd_new_addresses d))"
    by (metis of_nat_add)
  then have bal: "hm_pools_added (hc_metrics h) + of_nat (hd_added d) =
      hm_pools_removed (hc_metrics h) + of_nat (hd_removed d) + of_nat (length (hd_new_addresses d))"
    using assms(2) by (simp add: hot_inv_def algebra_simps)
  show "hc_pools (snd (refresh_once ms cfg c h)) = map pi_address (get_top_n c (hu_top_n cfg))"
    by (simp add: refresh_once_def Let_def pool_addresses_def d_def [symmetric] apply_diff_fields addr)
  show "hot_inv (hu_top_n cfg) (snd (refresh_once ms cfg c h))"
    using bal len dist addr
    by (simp add: hot_inv_def refresh_once_def Let_def pool_addresses_def d_def [symmetric] apply_diff_fields infos)
qed

lemma hot_inv_loop:
  assumes "dc_inv (fst s)" and "hot_inv (hu_top_n cfg) (snd s)"
  shows "hot_inv (hu_top_n cfg) (snd (updater_loop cfg evs s)) \<and> dc_inv (fst (updater_loop cfg evs s))"
  using assms by (induction cfg evs s rule: updater_loop.induct) (simp_all add: dc_inv_step hot_inv_refresh)

lemma hot_inv_new: "hot_inv n hot_new"
  by (simp add: hot_inv_def hot_new_def)

text \<open>C25: whatever the discovery cache goes through between the ticks of the refresh task, the hot cache never holds
  a pool twice nor more pools than the configured top-\<open>n\<close>, its address set is that of its pool list, the size
  gauge is its size, and the lifetime counters balance: pools added equal pools removed plus pools held, modulo the
  counters' 64 bits. A further refresh makes it exactly the current top-\<open>n\<close> selection.\<close>

theorem hot_cache_accounting:
  "hot_inv (hu_top_n cfg) (snd (updater_spawn cfg ms evs (dc_run max_pools age scoring ops) hot_new))
   \<and> pool_addresses (snd (refresh_once ms' cfg (fst (updater_spawn cfg ms evs (dc_run max_pools age scoring ops) hot_new))
        (snd (updater_spawn cfg ms evs (dc_run max_pools age scoring ops) hot_new)))) =
      map pi_address (get_top_n (fst (updater_spawn cfg ms evs (dc_run max_pools age scoring ops) hot_new)) (hu_top_n cfg))"
proof -
  define s where "s = updater_spawn cfg ms evs (dc_run max_pools age scoring ops) hot_new"
  have "hot_inv (hu_top_n cfg) (snd (refresh_once ms cfg (dc_run max_pools age scoring ops) hot_new))"
    by (rule hot_inv_refresh [OF dc_inv_run(1) hot_inv_new])
  then have "hot_inv (hu_top_n cfg) (snd s) \<and> dc_inv (fst s)"
    unfolding s_def updater_spawn_def by (intro hot_inv_loop) (simp_all add: dc_inv_run)
  then show ?thesis
    unfolding s_def [symmetric] pool_addresses_def using hot_inv_refresh(2) by blast
qed

end
