(* ===== verification/Discovery_Service.thy ===== *)
theory Discovery_Service
  imports Discovery_Cache Event_Decoder Uniswap_V2 Curve_Pool Balancer
begin

text \<open>
  The discovery service: factory logs (\<^verbatim>\<open>discovery/src/events.rs\<close>), the analytical validators
  (\<^verbatim>\<open>validator.rs\<close>), on-chain metrics and ingestion (\<^verbatim>\<open>service.rs\<close>). An RPC provider is a function from an address and
  a generated call to the bytes returned; the fork-backed validator is a field of the service that stands for
  \<^verbatim>\<open>validate_pool_revm\<close>. Subscriptions, polling and reconnection are I/O and are not modelled.
\<close>

section \<open>Settings\<close>

record DiscoverySettings =
  ds_enabled :: bool
  ds_max_pools :: nat
  ds_prune_interval_secs :: u64
  ds_prune_max_age_secs :: u64
  ds_score_refresh_interval_secs :: u64
  ds_validation_swap_eth :: f64
  ds_listener_mode :: string
  ds_ws_url :: string
  ds_poll_interval_secs :: u64
  ds_ws_fallback_poll :: bool
  ds_poll_when_ws_healthy :: bool
  ds_volume_source :: string
  ds_custodial_swap_validation_enabled :: bool
  ds_custodial_max_amount :: f64
  ds_validation_mode :: string

datatype FactoryEventType = PairCreated | PoolCreatedV3 | PlainPoolDeployed | PoolRegistered

definition from_config_str :: "string \<Rightarrow> FactoryEventType" where
  "from_config_str s =
     (if s \<in> {''PoolCreated'', ''pool_created'', ''PoolCreatedV3''} then PoolCreatedV3
      else if s \<in> {''PlainPoolDeployed'', ''plain_pool_deployed''} then PlainPoolDeployed
      else if s \<in> {''PoolRegistered'', ''pool_registered''} then PoolRegistered
      else PairCreated)"

fun event_topic :: "EventSignatures \<Rightarrow> FactoryEventType \<Rightarrow> b256" where
  "event_topic sigs PairCreated = pair_created_topic sigs"
| "event_topic sigs PoolCreatedV3 = pool_created_v3_topic sigs"
| "event_topic sigs PlainPoolDeployed = plain_pool_deployed_topic sigs"
| "event_topic sigs PoolRegistered = pool_registered_v3_topic sigs"

record FactoryEntry =
  fe_address :: address
  fe_protocol :: ProtocolType
  fe_fee_bps :: u32
  fe_event_type :: FactoryEventType

section \<open>Factory logs\<close>

record FactoryPoolCreated =
  fp_factory :: address
  fp_protocol :: ProtocolType
  fp_fee_bps :: u32
  fp_token0 :: address
  fp_token1 :: address
  fp_pool :: address

text \<open>The ABI decoders generated for the two factory events that carry arrays.\<close>

record abi_decoders =
  ad_plain :: "b256 list \<Rightarrow> bytes \<Rightarrow> (address \<times> address list \<times> u256) option"
  ad_registered :: "b256 list \<Rightarrow> bytes \<Rightarrow> (address \<times> address list \<times> u256) option"

definition created_from :: "address \<Rightarrow> ProtocolType \<Rightarrow> u32 \<Rightarrow> address \<times> address \<times> address \<times> u32 \<Rightarrow> FactoryPoolCreated" where
  "created_from factory protocol fee_bps = (\<lambda>(pool, token0, token1, onchain_fee).
     \<lparr>fp_factory = factory, fp_protocol = protocol, fp_fee_bps = (if onchain_fee > 0 then onchain_fee else fee_bps),
      fp_token0 = token0, fp_token1 = token1, fp_pool = pool\<rparr>)"

definition decode_factory_log ::
    "EventSignatures \<Rightarrow> abi_decoders \<Rightarrow> address \<Rightarrow> ProtocolType \<Rightarrow> u32 \<Rightarrow> FactoryEventType \<Rightarrow> b256 list \<Rightarrow> bytes
      \<Rightarrow> FactoryPoolCreated option exec" where
  "decode_factory_log sigs abi factory protocol fee_bps event_type topics bs =
     (if topics = [] then Ret None
      else if hd topics \<noteq> event_topic sigs event_type then Ret None
      else case event_type of
        PlainPoolDeployed \<Rightarrow>
          emap (map_option (created_from factory protocol fee_bps)) (decode_plain_pool_deployed sigs (ad_plain abi) topics bs)
      | PoolRegistered \<Rightarrow>
          Ret (map_option (created_from factory protocol fee_bps) (decode_pool_registered_v3 sigs (ad_registered abi) topics bs))
      | _ \<Rightarrow>
          ebind (if event_type = PoolCreatedV3 \<and> length topics \<ge> 4 then emap v3_fee_bps_from_topic (index topics 3) else Ret fee_bps)
            (\<lambda>effective_fee.
              emap (\<lambda>r. case r of
                  Inr (PoolCreated token0 token1 pool) \<Rightarrow>
                    Some \<lparr>fp_factory = factory, fp_protocol = protocol, fp_fee_bps = effective_fee,
                      fp_token0 = token0, fp_token1 = token1, fp_pool = pool\<rparr>
                | _ \<Rightarrow> None) (decode_log sigs topics bs factory (Some protocol))))"

definition decode_pair_created_log ::
    "EventSignatures \<Rightarrow> abi_decoders \<Rightarrow> address \<Rightarrow> ProtocolType \<Rightarrow> u32 \<Rightarrow> b256 list \<Rightarrow> bytes
      \<Rightarrow> FactoryPoolCreated option exec" where
  "decode_pair_created_log sigs abi factory protocol fee_bps topics bs =
     decode_factory_log sigs abi factory protocol fee_bps PairCreated topics bs"

section \<open>Analytical validation\<close>

datatype ValidationResult = Valid | Invalid string | LowLiquidity

fun protocol_debug :: "ProtocolType \<Rightarrow> string" where
  "protocol_debug UniswapV2 = ''UniswapV2''"
| "protocol_debug UniswapV3 = ''UniswapV3''"
| "protocol_debug SushiSwap = ''SushiSwap''"
| "protocol_debug Curve = ''Curve''"
| "protocol_debug BalancerV2 = ''BalancerV2''"
| "protocol_debug BalancerV3 = ''BalancerV3''"
| "protocol_debug BancorV3 = ''BancorV3''"

definition MIN_WETH_RESERVE_ETH :: f64 where
  "MIN_WETH_RESERVE_ETH = f64_of_rat (1 / 10)"

text \<open>The decimal rendering of an integer parses to the nearest double.\<close>

definition u256_to_eth :: "u256 \<Rightarrow> f64" where
  "u256_to_eth v = f64_div (f64_of_word v) (f64_of_rat (10 ^ 18))"

definition eth_to_u256 :: "f64 \<Rightarrow> u256" where
  "eth_to_u256 eth =
     (if f64_le eth (Num 0) \<or> \<not> is_finite eth then 0 else of_int (f64_to_u128 (f64_mul eth (f64_of_rat (10 ^ 18)))))"

text \<open>The arrow in the two messages below is the Unicode one in the source.\<close>

definition simulate_round_trip :: "UniswapV2Pool \<Rightarrow> address \<Rightarrow> address \<Rightarrow> u256 \<Rightarrow> ValidationResult exec" where
  "simulate_round_trip pool weth other swap_wei =
     ebind (v2_get_amount_out pool weth swap_wei) (\<lambda>forward.
       case forward of
         None \<Rightarrow> Ret (Invalid ''ETH->token swap failed'')
       | Some token_out \<Rightarrow>
           if token_out = 0 then Ret (Invalid ''ETH->token swap failed'')
           else ebind (v2_get_amount_out pool other token_out) (\<lambda>backward.
             case backward of
               None \<Rightarrow> Ret (Invalid ''token->ETH swap failed'')
             | Some eth_back \<Rightarrow>
                 if eth_back = 0 then Ret (Invalid ''token->ETH swap failed'')
                 else if eth_back > swap_wei div 100 then Ret Valid
                 else Ret (Invalid ''round-trip output near zero'')))"

text \<open>The side of a pair whose depth is measured: its WETH, else the smaller reserve.\<close>

definition weth_side :: "address \<Rightarrow> address \<Rightarrow> u256 \<Rightarrow> u256 \<Rightarrow> f64" where
  "weth_side token0 token1 reserve0 reserve1 =
     (if token0 = WETH then u256_to_eth reserve0
      else if token1 = WETH then u256_to_eth reserve1
      else u256_to_eth (min reserve0 reserve1))"

definition validate_v2_reserves ::
    "address \<Rightarrow> address \<Rightarrow> ProtocolType \<Rightarrow> u32 \<Rightarrow> u256 \<Rightarrow> u256 \<Rightarrow> f64 \<Rightarrow> ValidationResult exec" where
  "validate_v2_reserves token0 token1 protocol fee_bps reserve0 reserve1 swap_eth =
     (if protocol \<noteq> UniswapV2 \<and> protocol \<noteq> SushiSwap then Ret (Invalid (''unsupported protocol: '' @ protocol_debug protocol))
      else if reserve0 = 0 \<or> reserve1 = 0 then Ret LowLiquidity
      else if f64_lt (weth_side token0 token1 reserve0 reserve1) MIN_WETH_RESERVE_ETH then Ret LowLiquidity
      else
        let swap_wei = eth_to_u256 swap_eth;
            pool = v2_update_state (v2_new 0 token0 token1 fee_bps) reserve0 reserve1
        in if swap_wei = 0 then Ret (Invalid ''swap amount too small'')
           else if token0 = WETH then simulate_round_trip pool WETH token1 swap_wei
           else if token1 = WETH then simulate_round_trip pool WETH token0 swap_wei
           else ebind (v2_get_amount_out pool token0 swap_wei) (\<lambda>forward.
             case forward of
               None \<Rightarrow> Ret (Invalid ''forward swap failed'')
             | Some amount_out \<Rightarrow>
                 if amount_out = 0 then Ret (Invalid ''forward swap failed'')
                 else ebind (v2_get_amount_out pool token1 amount_out) (\<lambda>back_out.
                   case back_out of
                     Some v \<Rightarrow> if v > swap_wei div 2 then Ret Valid else Ret (Invalid ''round-trip swap unprofitable'')
                   | None \<Rightarrow> Ret (Invalid ''round-trip swap unprofitable''))))"

text \<open>The forward and backward quotes of the Curve and Balancer validators.\<close>

definition quote_round_trip ::
    "(address \<Rightarrow> u256 \<Rightarrow> u256 option exec) \<Rightarrow> string \<Rightarrow> address \<Rightarrow> address \<Rightarrow> u256 \<Rightarrow> ValidationResult exec" where
  "quote_round_trip get_amount_out label token0 token1 swap_wei =
     ebind (get_amount_out token0 swap_wei) (\<lambda>forward.
       case forward of
         None \<Rightarrow> Ret (Invalid (label @ '' forward swap failed''))
       | Some token_out \<Rightarrow>
           if token_out = 0 then Ret (Invalid (label @ '' forward swap failed''))
           else ebind (get_amount_out token1 token_out) (\<lambda>backward.
             case backward of
               None \<Rightarrow> Ret (Invalid (label @ '' reverse swap failed''))
             | Some v \<Rightarrow>
                 if v = 0 then Ret (Invalid (label @ '' reverse swap failed''))
                 else if v > swap_wei div 100 then Ret Valid
                 else Ret (Invalid (label @ '' round-trip output near zero''))))"

definition validate_curve_balances ::
    "address \<Rightarrow> address \<Rightarrow> u32 \<Rightarrow> u256 \<Rightarrow> u256 \<Rightarrow> u256 \<Rightarrow> f64 \<Rightarrow> ValidationResult exec" where
  "validate_curve_balances token0 token1 fee_bps amplification balance0 balance1 swap_eth =
     (if balance0 = 0 \<or> balance1 = 0 then Ret LowLiquidity
      else
        let amp = (ucast amplification :: u64);
            pool = (curve_new 0 [token0, token1] (max amp 1) fee_bps)\<lparr>curve_balances := [balance0, balance1]\<rparr>;
            swap_wei = eth_to_u256 swap_eth
        in if swap_wei = 0 then Ret (Invalid ''swap amount too small'')
           else if f64_lt (weth_side token0 token1 balance0 balance1) MIN_WETH_RESERVE_ETH then Ret LowLiquidity
           else quote_round_trip (curve_get_amount_out pool) ''Curve'' token0 token1 swap_wei)"

definition validate_balancer_v3_balances ::
    "address \<Rightarrow> address \<Rightarrow> u32 \<Rightarrow> u256 \<Rightarrow> u256 \<Rightarrow> f64 \<Rightarrow> ValidationResult exec" where
  "validate_balancer_v3_balances token0 token1 fee_bps balance0 balance1 swap_eth =
     (if balance0 = 0 \<or> balance1 = 0 then Ret LowLiquidity
      else if f64_lt (weth_side token0 token1 balance0 balance1) MIN_WETH_RESERVE_ETH then Ret LowLiquidity
      else
        let swap_wei = eth_to_u256 swap_eth;
            pool = (bal_new 0 token0 token1 50 50 fee_bps)\<lparr>bal_balance0 := balance0, bal_balance1 := balance1\<rparr>
        in if swap_wei = 0 then Ret (Invalid ''swap amount too small'')
           else quote_round_trip (bal_get_amount_out pool) ''Balancer V3'' token0 token1 swap_wei)"

section \<open>On-chain metrics\<close>

datatype rpc_query = BalancesCall u256 | BalanceOfCall address | GetReservesCall

type_synonym provider = "address \<Rightarrow> rpc_query \<Rightarrow> bytes option"

definition fetch_curve_balances :: "provider \<Rightarrow> address \<Rightarrow> (u256 \<times> u256 \<times> u32) option" where
  "fetch_curve_balances rpc pool =
     (case rpc pool (BalancesCall 0) of
        None \<Rightarrow> None
      | Some out0 \<Rightarrow>
          if length out0 < 32 then None
          else case rpc pool (BalancesCall 1) of
            None \<Rightarrow> None
          | Some out1 \<Rightarrow>
              if length out1 < 32 then None else Some (from_be (take 32 out0), from_be (take 32 out1), 4))"

definition fetch_balancer_v3_balances :: "provider \<Rightarrow> address \<Rightarrow> address \<Rightarrow> address \<Rightarrow> (u256 \<times> u256 \<times> u32) option" where
  "fetch_balancer_v3_balances rpc pool token0 token1 =
     (case (rpc token0 (BalanceOfCall pool), rpc token1 (BalanceOfCall pool)) of
        (Some b0, Some b1) \<Rightarrow>
          if length b0 < 32 \<or> length b1 < 32 then None
          else Some (from_be (drop (length b0 - 32) b0), from_be (drop (length b1 - 32) b1), 10)
      | _ \<Rightarrow> None)"

definition fetch_v2_reserves :: "provider \<Rightarrow> address \<Rightarrow> (u256 \<times> u256 \<times> u32) option" where
  "fetch_v2_reserves rpc pool =
     (case rpc pool GetReservesCall of
        None \<Rightarrow> None
      | Some out \<Rightarrow>
          if length out < 64 then None else Some (from_be (take 32 out), from_be (take 32 (drop 32 out)), 30))"

definition estimate_tvl_usd :: "address \<Rightarrow> address \<Rightarrow> f64 \<Rightarrow> f64 \<Rightarrow> f64" where
  "estimate_tvl_usd token0 token1 r0 r1 =
     (if token0 = WETH then f64_mul (f64_mul r0 (Num 3000)) (Num 2)
      else if token1 = WETH then f64_mul (f64_mul r1 (Num 3000)) (Num 2)
      else if token0 = USDC \<or> token1 = USDC then f64_mul (f64_add r0 r1) (Num 2)
      else f64_max (f64_add r0 r1) (Num 1))"

record OnChainMetricsSource =
  om_provider :: "provider option"
  om_slippage_bps :: u32
  om_swap_eth :: f64

text \<open>The synchronous trait method waits for the RPC through \<^verbatim>\<open>Handle::block_on\<close>, the parameter \<open>block_on\<close>; tokio
  documents that it panics when called from an asynchronous context.\<close>

definition fetch_metrics ::
    "((u256 \<times> u256 \<times> u32) option \<Rightarrow> (u256 \<times> u256 \<times> u32) option exec) \<Rightarrow> OnChainMetricsSource \<Rightarrow> address \<Rightarrow> address
      \<Rightarrow> address \<Rightarrow> ProtocolType \<Rightarrow> PoolScoreInputs exec" where
  "fetch_metrics block_on src pool token0 token1 protocol =
     (let default_slip = f64_clamp (f64_div (f64_of_word (om_slippage_bps src)) (Num 10000)) (Num 0) (f64_of_rat (99 / 100))
      in case om_provider src of
        None \<Rightarrow> Ret \<lparr>si_tvl_usd = Num 100000, si_volume_24h_usd = Num 10000, si_fee_bps = 30, si_slippage_estimate = default_slip\<rparr>
      | Some rpc \<Rightarrow>
          ebind (block_on (case protocol of
                   Curve \<Rightarrow> fetch_curve_balances rpc pool
                 | BalancerV3 \<Rightarrow> fetch_balancer_v3_balances rpc pool token0 token1
                 | _ \<Rightarrow> fetch_v2_reserves rpc pool)) (\<lambda>reserves.
             Ret (case reserves of
               Some (r0, r1, fee_bps) \<Rightarrow>
                 let r0_f = u256_to_eth r0;
                     r1_f = u256_to_eth r1;
                     tvl_usd = estimate_tvl_usd token0 token1 r0_f r1_f;
                     (bal_in, bal_out) =
                       (if token0 = WETH then (r0_f, r1_f) else if token1 = WETH then (r1_f, r0_f) else (r0_f, r1_f));
                     slip = estimate_protocol_slippage protocol bal_in bal_out (om_swap_eth src) fee_bps
                 in \<lparr>si_tvl_usd = tvl_usd, si_volume_24h_usd = fst (volume_24h_usd 0 (from_config ''proxy'' []) pool tvl_usd),
                     si_fee_bps = fee_bps, si_slippage_estimate = f64_max slip default_slip\<rparr>
             | None \<Rightarrow> \<lparr>si_tvl_usd = Num 0, si_volume_24h_usd = Num 0, si_fee_bps = 30, si_slippage_estimate = default_slip\<rparr>)))"

section \<open>The service\<close>

text \<open>The metrics source is a trait object; the live validator is present when a provider is configured.\<close>

record DiscoveryService =
  sv_settings :: DiscoverySettings
  sv_scoring :: ScoringSettings
  sv_cache_of :: DiscoveryCache
  sv_metrics_source :: "address \<Rightarrow> address \<Rightarrow> address \<Rightarrow> ProtocolType \<Rightarrow> PoolScoreInputs exec"
  sv_live :: "(PoolInfo \<Rightarrow> f64 \<Rightarrow> string \<Rightarrow> ValidationResult exec) option"

definition with_provider ::
    "((u256 \<times> u256 \<times> u32) option \<Rightarrow> (u256 \<times> u256 \<times> u32) option exec) \<Rightarrow> DiscoverySettings \<Rightarrow> ScoringSettings
      \<Rightarrow> provider option \<Rightarrow> (PoolInfo \<Rightarrow> f64 \<Rightarrow> string \<Rightarrow> ValidationResult exec)
      \<Rightarrow> DiscoveryService" where
  "with_provider block_on settings scoring rpc revm =
     \<lparr>sv_settings = settings, sv_scoring = scoring,
      sv_cache_of = cache_new (ds_max_pools settings) (ds_prune_max_age_secs settings) scoring,
      sv_metrics_source = fetch_metrics block_on \<lparr>om_provider = rpc, om_slippage_bps = sc_slippage_estimate_bps scoring,
        om_swap_eth = ds_validation_swap_eth settings\<rparr>,
      sv_live = (case rpc of None \<Rightarrow> None | Some _ \<Rightarrow> Some revm)\<rparr>"

definition offline_validate :: "FactoryPoolCreated \<Rightarrow> f64 \<Rightarrow> ValidationResult exec" where
  "offline_validate event swap_eth =
     (case fp_protocol event of
        UniswapV2 \<Rightarrow> validate_v2_reserves (fp_token0 event) (fp_token1 event) UniswapV2 (fp_fee_bps event)
          1000000000000000000 1000000000000000000 swap_eth
      | SushiSwap \<Rightarrow> validate_v2_reserves (fp_token0 event) (fp_token1 event) SushiSwap (fp_fee_bps event)
          1000000000000000000 1000000000000000000 swap_eth
      | Curve \<Rightarrow> validate_v2_reserves (fp_token0 event) (fp_token1 event) UniswapV2 (fp_fee_bps event)
          1000000000000000000 1000000000000000000 swap_eth
      | BalancerV3 \<Rightarrow> validate_v2_reserves (fp_token0 event) (fp_token1 event) UniswapV2 (fp_fee_bps event)
          1000000000000000000 1000000000000000000 swap_eth
      | _ \<Rightarrow> if fp_fee_bps event \<le> 10000 then Ret Valid else Ret (Invalid ''invalid fee''))"

text \<open>The pool description built from an event, with every metric zero.\<close>

definition info_of :: "FactoryPoolCreated \<Rightarrow> PoolInfo" where
  "info_of event = \<lparr>pi_address = fp_pool event, pi_token0 = fp_token0 event, pi_token1 = fp_token1 event,
     pi_protocol = fp_protocol event, pi_fee_bps = fp_fee_bps event, pi_score = Num 0, pi_tvl_usd = Num 0,
     pi_volume_24h_usd = Num 0, pi_slippage_estimate = Num 0, pi_discovered_at = 0\<rparr>"

definition validate_pool :: "DiscoveryService \<Rightarrow> FactoryPoolCreated \<Rightarrow> ValidationResult exec" where
  "validate_pool s event =
     (let swap_eth = ds_validation_swap_eth (sv_settings s)
      in case sv_live s of
        None \<Rightarrow> offline_validate event swap_eth
      | Some revm \<Rightarrow> revm (info_of event) swap_eth (ds_validation_mode (sv_settings s)))"

text \<open>The score inputs of an admitted pool: the fetched metrics with the event's fee and a default slippage.\<close>

definition service_inputs :: "DiscoveryService \<Rightarrow> FactoryPoolCreated \<Rightarrow> PoolScoreInputs exec" where
  "service_inputs s event =
     emap (\<lambda>inputs.
         let inputs = inputs\<lparr>si_fee_bps := fp_fee_bps event\<rparr>
         in if f64_eq (si_slippage_estimate inputs) (Num 0)
            then inputs\<lparr>si_slippage_estimate := default_slippage_estimate (sv_scoring s)\<rparr> else inputs)
       (sv_metrics_source s (fp_pool event) (fp_token0 event) (fp_token1 event) (fp_protocol event))"

definition insert_validated :: "nat \<Rightarrow> DiscoveryService \<Rightarrow> PoolInfo \<Rightarrow> PoolScoreInputs \<Rightarrow> PoolInfo \<times> DiscoveryService" where
  "insert_validated now s info inputs =
     (case upsert now (sv_cache_of s) info inputs of (i, c) \<Rightarrow> (i, s\<lparr>sv_cache_of := c\<rparr>))"

definition admitted_info :: "FactoryPoolCreated \<Rightarrow> PoolScoreInputs \<Rightarrow> PoolInfo" where
  "admitted_info event inputs = (info_of event)\<lparr>pi_tvl_usd := si_tvl_usd inputs,
     pi_volume_24h_usd := si_volume_24h_usd inputs, pi_slippage_estimate := si_slippage_estimate inputs\<rparr>"

definition ingest_pool_created :: "nat \<Rightarrow> DiscoveryService \<Rightarrow> FactoryPoolCreated \<Rightarrow> (bool \<times> DiscoveryService) exec" where
  "ingest_pool_created now s event =
     (if \<not> ds_enabled (sv_settings s) then Ret (False, s)
      else if dc_contains (sv_cache_of s) (fp_pool event) then Ret (False, s)
      else
        ebind (validate_pool s event) (\<lambda>v.
          case v of
            Valid \<Rightarrow>
              ebind (service_inputs s event) (\<lambda>inputs.
                Ret (True, s\<lparr>sv_cache_of := snd (upsert now (sv_cache_of s) (admitted_info event inputs) inputs)\<rparr>))
          | LowLiquidity \<Rightarrow> Ret (False, s)
          | Invalid reason \<Rightarrow> Ret (False, s)))"

definition service_prune :: "nat \<Rightarrow> DiscoveryService \<Rightarrow> f64 \<Rightarrow> nat \<times> DiscoveryService" where
  "service_prune now s min_score =
     (case dc_prune now (sv_cache_of s) min_score of (n, c) \<Rightarrow> (n, s\<lparr>sv_cache_of := c\<rparr>))"

record factory_log =
  fl_address :: address
  fl_topics :: "b256 list"
  fl_data :: bytes

fun process_logs ::
    "EventSignatures \<Rightarrow> abi_decoders \<Rightarrow> nat \<Rightarrow> FactoryEntry list \<Rightarrow> factory_log list \<Rightarrow> DiscoveryService \<Rightarrow> nat
      \<Rightarrow> (nat \<times> DiscoveryService) exec" where
  "process_logs sigs abi now entries [] s ingested = Ret (ingested, s)"
| "process_logs sigs abi now entries (l # ls) s ingested =
     (case find (\<lambda>e. fe_address e = fl_address l) entries of
        None \<Rightarrow> process_logs sigs abi now entries ls s ingested
      | Some entry \<Rightarrow>
          ebind (decode_factory_log sigs abi (fl_address l) (fe_protocol entry) (fe_fee_bps entry) (fe_event_type entry)
                   (fl_topics l) (fl_data l)) (\<lambda>r.
            case r of
              None \<Rightarrow> process_logs sigs abi now entries ls s ingested
            | Some created \<Rightarrow>
                ebind (ingest_pool_created now s created) (\<lambda>(ok, s).
                  process_logs sigs abi now entries ls s (if ok then ingested + 1 else ingested))))"

section \<open>Ingestion\<close>

lemma admitted_info_address [simp]: "pi_address (admitted_info event inputs) = fp_pool event"
  by (simp add: admitted_info_def info_of_def)

lemma upsert_keys:
  assumes "hmap_ok (dc_pools c)"
  shows "set (hkeys (dc_pools (snd (upsert now c info inputs)))) \<subseteq> insert (pi_address info) (set (hkeys (dc_pools c)))"
proof -
  obtain c1 i e where u: "dc_pools c1 = hinsert (pi_address info) e (dc_pools c)"
    "snd (upsert now c info inputs) =
       (let c2 = send_event (if hcontains (dc_pools c) (pi_address info) then PoolUpdated i else PoolAdded i) (enforce_capacity c1)
        in if f64_le (f64_max (max_raw_score c) (raw_score inputs (dc_scoring c))) (raw_score inputs (dc_scoring c))
           then renormalise_all now c2 else c2)"
    by (rule upsert_steps [of now c info inputs])
  have "set (hkeys (dc_pools (enforce_capacity c1))) \<subseteq> set (hkeys (dc_pools c1))"
    by (auto simp: enforce_capacity_pools hm.set_keys hm.get_remove_all split: if_splits)
  then show ?thesis by (simp add: u(2) Let_def) (simp add: u(1) hm.keys_insert)
qed

text \<open>Every outcome of ingestion, with what it does to the cache.\<close>

lemma ingest_cases:
  assumes "ingest_pool_created now s event = Ret (ok, s')"
  shows "\<not> ok \<and> s' = s
    \<or> ok \<and> ds_enabled (sv_settings s) \<and> \<not> dc_contains (sv_cache_of s) (fp_pool event) \<and> validate_pool s event = Ret Valid
      \<and> (\<exists>inputs. service_inputs s event = Ret inputs
           \<and> s' = s\<lparr>sv_cache_of := snd (upsert now (sv_cache_of s) (admitted_info event inputs) inputs)\<rparr>)"
proof (cases "validate_pool s event")
  case (Ret v)
  then show ?thesis
    using assms by (cases v) (auto simp: ingest_pool_created_def exec_simps split: if_splits)
qed (use assms in \<open>auto simp: ingest_pool_created_def split: if_splits\<close>)

lemma ingest_valid:
  assumes "ds_enabled (sv_settings s)" and "\<not> dc_contains (sv_cache_of s) (fp_pool event)"
    and "validate_pool s event = Ret Valid" and "service_inputs s event = Ret inputs"
  shows "ingest_pool_created now s event =
    Ret (True, s\<lparr>sv_cache_of := snd (upsert now (sv_cache_of s) (admitted_info event inputs) inputs)\<rparr>)"
  using assms by (simp add: ingest_pool_created_def)

text \<open>With a provider configured, ingestion runs in an asynchronous task; if waiting for the metrics panics there, so
  does every ingestion that gets past validation.\<close>

lemma live_ingest_panics:
  assumes "\<And>r. block_on r = Panic p" and "ds_enabled settings"
    and "revm (info_of event) (ds_validation_swap_eth settings) (ds_validation_mode settings) = Ret Valid"
  shows "ingest_pool_created now (with_provider block_on settings scoring (Some rpc) revm) event = Panic p"
  using assms
  by (simp add: ingest_pool_created_def with_provider_def validate_pool_def service_inputs_def fetch_metrics_def
      cache_new_def dc_contains_def hcontains_def Let_def)

section \<open>A service for the examples\<close>

text \<open>One slot, held by a pool of top score; the metrics source reports an empty pool and validation accepts.\<close>

definition held_demo :: CachedPool where
  "held_demo = \<lparr>cp_info = \<lparr>pi_address = 9, pi_token0 = 1, pi_token1 = 2, pi_protocol = UniswapV2, pi_fee_bps = 30,
     pi_score = Num 1, pi_tvl_usd = Num 1, pi_volume_24h_usd = Num 1, pi_slippage_estimate = Num 0, pi_discovered_at = 1\<rparr>,
     cp_inserted_at = 0, cp_last_scored_at = 0\<rparr>"

definition empty_inputs :: PoolScoreInputs where
  "empty_inputs = \<lparr>si_tvl_usd = Num 0, si_volume_24h_usd = Num 0, si_fee_bps = 30, si_slippage_estimate = Num (1 / 2)\<rparr>"

definition service_demo :: DiscoveryService where
  "service_demo =
     \<lparr>sv_settings = \<lparr>ds_enabled = True, ds_max_pools = 1, ds_prune_interval_secs = 3600, ds_prune_max_age_secs = 3600,
        ds_score_refresh_interval_secs = 300, ds_validation_swap_eth = Num 1, ds_listener_mode = ''auto'', ds_ws_url = [],
        ds_poll_interval_secs = 12, ds_ws_fallback_poll = True, ds_poll_when_ws_healthy = False, ds_volume_source = ''proxy'',
        ds_custodial_swap_validation_enabled = True, ds_custodial_max_amount = Num 1, ds_validation_mode = ''both''\<rparr>,
      sv_scoring = scoring_default, sv_cache_of = (cache_new 1 3600 scoring_default)\<lparr>dc_pools := [(9, held_demo)]\<rparr>,
      sv_metrics_source = (\<lambda>_ _ _ _. Ret empty_inputs), sv_live = Some (\<lambda>_ _ _. Ret Valid)\<rparr>"

definition created_demo :: FactoryPoolCreated where
  "created_demo = \<lparr>fp_factory = 4, fp_protocol = UniswapV2, fp_fee_bps = 30, fp_token0 = 1, fp_token1 = 2, fp_pool = 7\<rparr>"

lemma service_demo_facts:
  "ds_enabled (sv_settings service_demo)" "\<not> dc_contains (sv_cache_of service_demo) (fp_pool created_demo)"
  "validate_pool service_demo created_demo = Ret Valid" "service_inputs service_demo created_demo = Ret empty_inputs"
  "dc_inv (sv_cache_of service_demo)" "dc_len (sv_cache_of service_demo) = dc_max_pools (sv_cache_of service_demo)"
  by (simp_all add: service_demo_def created_demo_def cache_new_def dc_contains_def hcontains_def hget_def validate_pool_def
      service_inputs_def empty_inputs_def f64_eq_def dc_inv_def entries_ok_def hmap_ok_def entry_ok_def held_demo_def
      unit_score_def f64_le_def hlen_def dc_len_def)

lemma empty_score: "normalise_score (raw_score empty_inputs sc) m = Num 0"
  by (simp add: raw_score_def empty_inputs_def f64_max_def f64_eq_def f64_lt_def Let_def normalise_score_def f64_le_def)

section \<open>Provenance\<close>

text \<open>The pools a batch of logs may add: those of decoded, validated events of configured factories.\<close>

definition admissible ::
    "EventSignatures \<Rightarrow> abi_decoders \<Rightarrow> FactoryEntry list \<Rightarrow> DiscoveryService \<Rightarrow> factory_log \<Rightarrow> address \<Rightarrow> bool" where
  "admissible sigs abi entries s l a \<longleftrightarrow>
     (\<exists>entry created. entry \<in> set entries \<and> fe_address entry = fl_address l
        \<and> decode_factory_log sigs abi (fl_address l) (fe_protocol entry) (fe_fee_bps entry) (fe_event_type entry)
            (fl_topics l) (fl_data l) = Ret (Some created)
        \<and> validate_pool s created = Ret Valid \<and> fp_pool created = a)"

lemma admissible_cong:
  assumes "sv_settings s' = sv_settings s" and "sv_live s' = sv_live s"
  shows "admissible sigs abi entries s' l a = admissible sigs abi entries s l a"
proof -
  have "validate_pool s' = validate_pool s" by (rule ext) (simp only: validate_pool_def assms)
  then show ?thesis by (simp add: admissible_def)
qed

lemma ingest_keeps:
  assumes "ingest_pool_created now s event = Ret (ok, s')" and "dc_inv (sv_cache_of s)"
  shows "dc_inv (sv_cache_of s')" "sv_settings s' = sv_settings s" "sv_live s' = sv_live s"
    "set (hkeys (dc_pools (sv_cache_of s'))) \<subseteq> set (hkeys (dc_pools (sv_cache_of s))) \<union>
      (if validate_pool s event = Ret Valid then {fp_pool event} else {})"
proof -
  have ok: "hmap_ok (dc_pools (sv_cache_of s))" using assms(2) by (simp add: dc_inv_def entries_ok_def)
  consider "s' = s" | inputs where "validate_pool s event = Ret Valid"
    "s' = s\<lparr>sv_cache_of := snd (upsert now (sv_cache_of s) (admitted_info event inputs) inputs)\<rparr>"
    using ingest_cases [OF assms(1)] by blast
  then have "dc_inv (sv_cache_of s') \<and> sv_settings s' = sv_settings s \<and> sv_live s' = sv_live s
    \<and> set (hkeys (dc_pools (sv_cache_of s'))) \<subseteq> set (hkeys (dc_pools (sv_cache_of s))) \<union>
      (if validate_pool s event = Ret Valid then {fp_pool event} else {})"
  proof cases
    case 2
    then show ?thesis
      using upsert_keys [OF ok, of now "admitted_info event inputs" inputs]
        dc_inv_step(1) [OF assms(2), of "DcUpsert now (admitted_info event inputs) inputs"] by simp
  qed (use assms(2) in simp)
  then show "dc_inv (sv_cache_of s')" "sv_settings s' = sv_settings s" "sv_live s' = sv_live s"
    "set (hkeys (dc_pools (sv_cache_of s'))) \<subseteq> set (hkeys (dc_pools (sv_cache_of s))) \<union>
      (if validate_pool s event = Ret Valid then {fp_pool event} else {})" by blast+
qed

lemma process_logs_spec:
  assumes "process_logs sigs abi now entries ls s k = Ret (n, s')" and "dc_inv (sv_cache_of s)"
  shows "dc_inv (sv_cache_of s') \<and> n \<le> k + length ls
    \<and> set (hkeys (dc_pools (sv_cache_of s'))) \<subseteq>
        set (hkeys (dc_pools (sv_cache_of s))) \<union> {a. \<exists>l \<in> set ls. admissible sigs abi entries s l a}"
  using assms
proof (induction ls arbitrary: s k)
  case (Cons l ls)
  show ?case
  proof (cases "find (\<lambda>e. fe_address e = fl_address l) entries")
    case None
    then show ?thesis using Cons.IH [of s k] Cons.prems by auto
  next
    case (Some entry)
    then have entry: "entry \<in> set entries" "fe_address entry = fl_address l" by (auto simp: find_Some_iff)
    define d where "d = decode_factory_log sigs abi (fl_address l) (fe_protocol entry) (fe_fee_bps entry)
      (fe_event_type entry) (fl_topics l) (fl_data l)"
    consider (skip) "d = Ret None" "process_logs sigs abi now entries ls s k = Ret (n, s')"
      | (take) created ok s1 where "d = Ret (Some created)" "ingest_pool_created now s created = Ret (ok, s1)"
        "process_logs sigs abi now entries ls s1 (if ok then k + 1 else k) = Ret (n, s')"
    proof (cases d)
      case (Ret r)
      then show thesis
        using Cons.prems(1) Some that by (cases r) (auto simp: exec_simps d_def [symmetric])
    qed (use Cons.prems(1) Some in \<open>simp add: d_def [symmetric]\<close>)
    then show ?thesis
    proof cases
      case skip
      then show ?thesis using Cons.IH [of s k] Cons.prems(2) by auto
    next
      case take
      note keep = ingest_keeps [OF take(2) Cons.prems(2)]
      have "validate_pool s created = Ret Valid \<Longrightarrow> admissible sigs abi entries s l (fp_pool created)"
        unfolding admissible_def using entry take(1) d_def by metis
      then have "set (hkeys (dc_pools (sv_cache_of s1))) \<subseteq>
          set (hkeys (dc_pools (sv_cache_of s))) \<union> {a. admissible sigs abi entries s l a}"
        using keep(4) by (auto split: if_splits)
      moreover have "admissible sigs abi entries s1 l' a = admissible sigs abi entries s l' a" for l' a
        using keep(2,3) by (rule admissible_cong)
      ultimately show ?thesis
        using Cons.IH [OF take(3) keep(1)] by (auto split: if_splits)
    qed
  qed
qed simp

text \<open>C33: processing a batch of factory logs keeps the cache invariant (capacity, unique addresses, scores in the unit
  interval), counts at most one ingestion per log, and every pool in the cache afterwards was there before or is the
  pool of a log that was emitted by a configured factory, decoded with that factory's event type, and passed validation.\<close>

theorem discovered_pools_provenance:
  assumes "process_logs sigs abi now entries ls s 0 = Ret (n, s')" and "dc_inv (sv_cache_of s)"
  shows "dc_inv (sv_cache_of s') \<and> n \<le> length ls
    \<and> set (hkeys (dc_pools (sv_cache_of s'))) \<subseteq>
        set (hkeys (dc_pools (sv_cache_of s))) \<union> {a. \<exists>l \<in> set ls. admissible sigs abi entries s l a}"
  using process_logs_spec [OF assms] by simp

definition abi_demo :: abi_decoders where
  "abi_demo = \<lparr>ad_plain = (\<lambda>_ _. None), ad_registered = (\<lambda>_ _. None)\<rparr>"

definition log_demo :: factory_log where
  "log_demo = \<lparr>fl_address = 4, fl_topics = [5, 1, 2], fl_data = abi_word (7 :: u256) @ abi_word (1 :: u256)\<rparr>"

definition entry_demo :: FactoryEntry where
  "entry_demo = \<lparr>fe_address = 4, fe_protocol = UniswapV2, fe_fee_bps = 30, fe_event_type = PairCreated\<rparr>"

lemma decode_demo:
  "decode_factory_log sigs_demo abi_demo (fl_address log_demo) (fe_protocol entry_demo) (fe_fee_bps entry_demo)
     (fe_event_type entry_demo) (fl_topics log_demo) (fl_data log_demo) = Ret (Some created_demo)"
  using from_be_low [of 20 "7 :: u256", where 'a = 160]
  by (simp add: decode_factory_log_def log_demo_def entry_demo_def sigs_demo_def decode_log_def decode_pair_created_def
      created_demo_def)

theorem discovered_pools_provenance_witness:
  "\<exists>s'. process_logs sigs_demo abi_demo 0 [entry_demo] [log_demo] service_demo 0 = Ret (1, s') \<and> dc_inv (sv_cache_of s')
     \<and> set (hkeys (dc_pools (sv_cache_of s'))) \<subseteq>
        {9} \<union> {a. \<exists>l \<in> set [log_demo]. admissible sigs_demo abi_demo [entry_demo] service_demo l a}"
proof -
  obtain s' where "ingest_pool_created 0 service_demo created_demo = Ret (True, s')"
    using ingest_valid [OF service_demo_facts(1-4)] by blast
  then have run: "process_logs sigs_demo abi_demo 0 [entry_demo] [log_demo] service_demo 0 = Ret (1, s')"
    using decode_demo by (simp add: log_demo_def entry_demo_def)
  have "hkeys (dc_pools (sv_cache_of service_demo)) = [9]" by (simp add: service_demo_def hkeys_def)
  then show ?thesis using run discovered_pools_provenance [OF run service_demo_facts(5)] by auto
qed

section \<open>Eviction of a newcomer\<close>

text \<open>When the cache is full and the new pool scores below every cached one, ingestion evicts the pool it has just
  inserted, yet reports it as admitted and announces it: the subscribers see it pruned first and added
  afterwards, and the cache does not contain it.\<close>

theorem ingest_announces_evicted_pool:
  assumes "ds_enabled (sv_settings s)" and "\<not> dc_contains (sv_cache_of s) (fp_pool event)"
    and "validate_pool s event = Ret Valid" and "service_inputs s event = Ret inputs"
    and "dc_inv (sv_cache_of s)" and "dc_len (sv_cache_of s) = dc_max_pools (sv_cache_of s)"
    and "\<And>a e. hget (dc_pools (sv_cache_of s)) a = Some e \<Longrightarrow>
      f64_lt (normalise_score (raw_score inputs (dc_scoring (sv_cache_of s)))
        (f64_max (max_raw_score (sv_cache_of s)) (raw_score inputs (dc_scoring (sv_cache_of s))))) (pi_score (cp_info e))"
  shows "\<exists>s' i. ingest_pool_created now s event = Ret (True, s')
    \<and> \<not> dc_contains (sv_cache_of s') (fp_pool event)
    \<and> dc_events (sv_cache_of s') = dc_events (sv_cache_of s) @ [PoolPruned (fp_pool event) ''capacity'', PoolAdded i]
    \<and> pi_address i = fp_pool event"
proof -
  define c where "c = sv_cache_of s"
  define info where "info = admitted_info event inputs"
  obtain c1 i e where u: "pi_address i = pi_address info"
    "pi_score i = normalise_score (raw_score inputs (dc_scoring c)) (f64_max (max_raw_score c) (raw_score inputs (dc_scoring c)))"
    "cp_info e = i" "dc_pools c1 = hinsert (pi_address info) e (dc_pools c)" "dc_max_pools c1 = dc_max_pools c"
    "dc_events c1 = dc_events c"
    "snd (upsert now c info inputs) =
       (let c2 = send_event (if hcontains (dc_pools c) (pi_address info) then PoolUpdated i else PoolAdded i) (enforce_capacity c1)
        in if f64_le (f64_max (max_raw_score c) (raw_score inputs (dc_scoring c))) (raw_score inputs (dc_scoring c))
           then renormalise_all now c2 else c2)"
    by (rule upsert_steps [of now c info inputs])
  have addr: "pi_address info = fp_pool event" by (simp add: info_def)
  have new: "hget (dc_pools c) (fp_pool event) = None" using assms(2) by (simp add: c_def dc_contains_def hcontains_def)
  have ok: "entries_ok c" using assms(5) by (simp add: c_def dc_inv_def)
  have "evicted c1 = [fp_pool event]"
    using newcomer_evicted [OF ok u(4)] assms(6,7) new
    by (simp add: entry_ok_def u(1,2,3,5) unit_normalise addr c_def dc_len_def)
  then have ev: "dc_events (snd (upsert now c info inputs)) =
      dc_events c @ [PoolPruned (fp_pool event) ''capacity'', PoolAdded i]"
    and "\<not> dc_contains (enforce_capacity c1) (fp_pool event)"
    using new by (simp_all add: u(6,7) Let_def addr enforce_capacity_pools hcontains_def dc_contains_def)
  then have "\<not> dc_contains (snd (upsert now c info inputs)) (fp_pool event)" by (simp add: u(7) Let_def)
  then show ?thesis
    using ev ingest_valid [OF assms(1-4), of now] u(1) addr unfolding c_def info_def by auto
qed

theorem ingest_announces_evicted_pool_witness:
  "\<exists>s' i. ingest_pool_created 0 service_demo created_demo = Ret (True, s')
    \<and> \<not> dc_contains (sv_cache_of s') 7
    \<and> dc_events (sv_cache_of s') = [PoolPruned 7 ''capacity'', PoolAdded i]"
proof -
  have "f64_lt (normalise_score (raw_score empty_inputs sc) m) (pi_score (cp_info e))"
    if "hget (dc_pools (sv_cache_of service_demo)) a = Some e" for a e sc m
    using that unfolding empty_score by (auto simp: service_demo_def hget_def held_demo_def f64_lt_def split: if_splits)
  note low = this
  have "fp_pool created_demo = 7" "dc_events (sv_cache_of service_demo) = []"
    by (simp_all add: service_demo_def created_demo_def cache_new_def)
  moreover have "\<exists>s' i. ingest_pool_created 0 service_demo created_demo = Ret (True, s')
    \<and> \<not> dc_contains (sv_cache_of s') (fp_pool created_demo)
    \<and> dc_events (sv_cache_of s') =
        dc_events (sv_cache_of service_demo) @ [PoolPruned (fp_pool created_demo) ''capacity'', PoolAdded i]
    \<and> pi_address i = fp_pool created_demo"
    using service_demo_facts low by (intro ingest_announces_evicted_pool) assumption+
  ultimately show ?thesis by auto
qed

end
