(* ===== verification/Risk_Manager.thy ===== *)
theory Risk_Manager
  imports F64 Bytes
begin

text \<open>
  The risk manager of the executor service (\<^verbatim>\<open>internal/risk\<close>, Go): the system state machine, the preflight limits,
  the revert, loss and bundle-miss circuit breakers and the adaptive tip, with the validation of its configuration
  (\<^verbatim>\<open>internal/config/loader.go\<close>). Every method holds the manager's lock, so an operation is one step. Times are
  nanoseconds since the Unix epoch, passed as arguments; the calls to the metrics observer are collected in order;
  logging is not modelled.
\<close>

section \<open>System states\<close>

datatype SystemState = StateRunning | StateDegraded | StatePaused | StateHalted

fun isValidTransition :: "SystemState \<Rightarrow> SystemState \<Rightarrow> bool" where
  "isValidTransition StateRunning to = (to = StateDegraded \<or> to = StatePaused \<or> to = StateHalted)"
| "isValidTransition StateDegraded to = (to = StateRunning \<or> to = StatePaused \<or> to = StateHalted)"
| "isValidTransition StatePaused to = (to = StateRunning \<or> to = StateDegraded \<or> to = StateHalted)"
| "isValidTransition StateHalted to = (to = StateRunning)"

text \<open>The transition of the state machine; \<open>None\<close> is the error.\<close>

definition Transition :: "SystemState \<Rightarrow> SystemState \<Rightarrow> SystemState option" where
  "Transition old_state new_state = (if isValidTransition old_state new_state then Some new_state else None)"

section \<open>Revert classification\<close>

datatype RevertType = RevertCompetitive | RevertBug

definition competitiveExactReasons :: "string list" where
  "competitiveExactReasons = ['''', ''k'', ''iia'', ''lok'', ''spl'', ''tlm'', ''tml'', ''as'', ''m0'', ''m1'', ''bal#507'',
     ''bal#208'', ''minreturn'']"

definition competitivePatterns :: "string list" where
  "competitivePatterns = [''nonce too low'', ''already known'', ''replacement transaction underpriced'',
     ''transaction underpriced'', ''bundle collision'', ''already included'', ''already executed'',
     ''arbitrage already executed'', ''arb already taken'', ''insufficient output amount'',
     ''insufficient_output_amount'', ''insufficient liquidity'', ''price impact too high'', ''k invariant'',
     ''uniswapv2: k'', ''invariant violation'', ''slippage'', ''too little received'', ''excessive_input_amount'',
     ''exchange resulted in fewer coins than expected'', ''return amount is not enough'', ''frontrun'', ''sandwich'',
     ''mev already captured'']"

text \<open>\<^verbatim>\<open>strings.ToLower\<close>, \<^verbatim>\<open>strings.TrimSpace\<close> and \<^verbatim>\<open>strings.Contains\<close> on ASCII text.\<close>

definition go_lower :: "char \<Rightarrow> char" where
  "go_lower c = (let n = of_char c :: nat in if 65 \<le> n \<and> n \<le> 90 then char_of (n + 32) else c)"

definition go_space :: "char \<Rightarrow> bool" where
  "go_space c = ((of_char c :: nat) \<in> {9, 10, 11, 12, 13, 32})"

definition TrimSpace :: "string \<Rightarrow> string" where
  "TrimSpace s = rev (dropWhile go_space (rev (dropWhile go_space s)))"

fun has_prefix :: "string \<Rightarrow> string \<Rightarrow> bool" where
  "has_prefix [] s = True"
| "has_prefix (c # cs) [] = False"
| "has_prefix (c # cs) (d # ds) = (c = d \<and> has_prefix cs ds)"

fun go_contains :: "string \<Rightarrow> string \<Rightarrow> bool" where
  "go_contains [] p = has_prefix p []"
| "go_contains (c # cs) p = (has_prefix p (c # cs) \<or> go_contains cs p)"

definition ClassifyRevert :: "string \<Rightarrow> RevertType" where
  "ClassifyRevert revertReason =
     (let lower = map go_lower (TrimSpace revertReason)
      in if lower \<in> set competitiveExactReasons then RevertCompetitive
         else if list_ex (go_contains lower) competitivePatterns then RevertCompetitive
         else RevertBug)"

section \<open>Configuration\<close>

record RiskConfig =
  MaxGasGwei :: f64
  ConsecutiveRevertsPause :: int
  RevertWindowMinutes :: int
  CompetitiveRevertAlertPct :: f64
  DailyLossHaltETH :: f64
  MinETHBalance :: f64
  MaxNodeLatencyMs :: int
  BundleMissRateAlertPct :: f64
  BundleMissRateWindowMin :: int
  MaxSingleTradeETH :: f64
  MaxDailyVolumeETH :: f64
  MinProfitETH :: f64
  MinTipSharePct :: f64
  MaxTipSharePct :: f64

definition DefaultRiskConfig :: RiskConfig where
  "DefaultRiskConfig = \<lparr>MaxGasGwei = Num 300, ConsecutiveRevertsPause = 10, RevertWindowMinutes = 10,
     CompetitiveRevertAlertPct = Num 90, DailyLossHaltETH = f64_of_rat (1 / 2), MinETHBalance = f64_of_rat (1 / 10),
     MaxNodeLatencyMs = 500, BundleMissRateAlertPct = Num 80, BundleMissRateWindowMin = 60, MaxSingleTradeETH = Num 50,
     MaxDailyVolumeETH = Num 500, MinProfitETH = f64_of_rat (45 / 10000), MinTipSharePct = Num 30, MaxTipSharePct = Num 99\<rparr>"

text \<open>The checks of \<^verbatim>\<open>ValidateRiskConfig\<close>, on the fields as they are copied into the manager's configuration.\<close>

definition ValidateRiskConfig :: "RiskConfig \<Rightarrow> bool" where
  "ValidateRiskConfig cfg =
     (\<not> (f64_le (MaxGasGwei cfg) (Num 0)
       \<or> ConsecutiveRevertsPause cfg \<le> 0
       \<or> RevertWindowMinutes cfg \<le> 0
       \<or> f64_le (DailyLossHaltETH cfg) (Num 0)
       \<or> f64_le (MinETHBalance cfg) (Num 0)
       \<or> MaxNodeLatencyMs cfg \<le> 0
       \<or> f64_le (BundleMissRateAlertPct cfg) (Num 0) \<or> f64_lt (Num 100) (BundleMissRateAlertPct cfg)
       \<or> BundleMissRateWindowMin cfg \<le> 0
       \<or> f64_le (CompetitiveRevertAlertPct cfg) (Num 0) \<or> f64_lt (Num 100) (CompetitiveRevertAlertPct cfg)
       \<or> f64_le (MaxSingleTradeETH cfg) (Num 0)
       \<or> f64_le (MaxDailyVolumeETH cfg) (Num 0)
       \<or> f64_le (MinProfitETH cfg) (Num 0)
       \<or> f64_le (MinTipSharePct cfg) (Num 0) \<or> f64_lt (Num 100) (MinTipSharePct cfg)
       \<or> f64_le (MaxTipSharePct cfg) (Num 0) \<or> f64_lt (Num 100) (MaxTipSharePct cfg)
       \<or> f64_le (MaxTipSharePct cfg) (MinTipSharePct cfg)))"

section \<open>Tip strategy\<close>

definition clampTip :: "f64 \<Rightarrow> f64 \<Rightarrow> f64 \<Rightarrow> f64" where
  "clampTip v minV maxV = (if f64_lt v minV then minV else if f64_lt maxV v then maxV else v)"

record AdaptiveTipStrategy =
  currentTipPct :: f64
  minTipPct :: f64
  maxTipPct :: f64
  stepPct :: f64
  lowInclusionThreshold :: f64
  highInclusionThreshold :: f64

definition NewAdaptiveTipStrategy :: "f64 \<Rightarrow> f64 \<Rightarrow> f64 \<Rightarrow> f64 \<Rightarrow> AdaptiveTipStrategy" where
  "NewAdaptiveTipStrategy startTipPct min_pct max_pct step_pct =
     (let min_pct = (if f64_le min_pct (Num 0) then Num 50 else min_pct);
          max_pct = (if f64_le max_pct (Num 0) \<or> f64_lt (Num 100) max_pct then Num 95 else max_pct);
          (min_pct, max_pct) = (if f64_le max_pct min_pct then (Num 50, Num 95) else (min_pct, max_pct));
          step_pct = (if f64_le step_pct (Num 0) then Num 5 else step_pct)
      in \<lparr>currentTipPct = clampTip startTipPct min_pct max_pct, minTipPct = min_pct, maxTipPct = max_pct,
          stepPct = step_pct, lowInclusionThreshold = Num 50, highInclusionThreshold = Num 80\<rparr>)"

definition CalculateTip :: "AdaptiveTipStrategy \<Rightarrow> f64 \<Rightarrow> f64 \<times> AdaptiveTipStrategy" where
  "CalculateTip s inclusionRate =
     (if f64_lt inclusionRate (Num 0) \<or> f64_lt (Num 100) inclusionRate then (currentTipPct s, s)
      else
        let v = (if f64_lt inclusionRate (lowInclusionThreshold s) then f64_add (currentTipPct s) (stepPct s)
                 else if f64_lt (highInclusionThreshold s) inclusionRate then f64_sub (currentTipPct s) (stepPct s)
                 else currentTipPct s);
            v = clampTip v (minTipPct s) (maxTipPct s)
        in (v, s\<lparr>currentTipPct := v\<rparr>))"

section \<open>Wei to ETH\<close>

text \<open>\<^verbatim>\<open>big.Float\<close> rounds the quotient to as many bits as the integer has, and at least 64, before the conversion to a
  double rounds again.\<close>

definition round_prec :: "int \<Rightarrow> rat \<Rightarrow> rat" where
  "round_prec p r =
     (let (n, d) = quotient_of r;
          e = floor_log2 n d - (p - 1);
          m = (if 0 \<le> e then round_half_even n (d * 2 ^ nat e) else round_half_even (n * 2 ^ nat (- e)) d)
      in if 0 \<le> e then of_int (m * 2 ^ nat e) else of_int m / of_int (2 ^ nat (- e)))"

definition WeiToETH :: "int \<Rightarrow> f64" where
  "WeiToETH wei =
     (if wei = 0 then Num 0
      else
        let f = f64_of_rat (round_prec (max 64 (bit_len \<bar>wei\<bar>)) (of_int \<bar>wei\<bar> / 10 ^ 18))
        in if wei < 0 then f64_neg f else f)"

section \<open>The manager\<close>

datatype observer_call = OnStateChange SystemState | OnCircuitBreakerTrip string

record RiskManager =
  rm_config :: RiskConfig
  rm_state :: SystemState
  rm_tipStrategy :: AdaptiveTipStrategy
  rm_lastTipSharePct :: f64
  rm_recentBugReverts :: "int list"
  rm_recentCompReverts :: "int list"
  rm_dailyVolume :: int
  rm_dailyPnL :: int
  rm_dailyResetTime :: int
  rm_bundleResults :: "bool list"
  rm_bundleResultIdx :: nat
  rm_bundleResultCount :: nat
  rm_lastAdjustedAtIdx :: nat
  rm_BugRevertTotal :: int
  rm_CompRevertTotal :: int
  rm_lastCompAlertTime :: int
  rm_metricsObs :: bool
  rm_observed :: "observer_call list"

definition day_ns :: int where
  "day_ns = 24 * 3600 * 1000000000"

definition minute_ns :: int where
  "minute_ns = 60 * 1000000000"

text \<open>\<^verbatim>\<open>time.Now().Truncate(24 * time.Hour).Add(24 * time.Hour)\<close>, and the zero \<^verbatim>\<open>time.Time\<close>.\<close>

definition next_reset :: "int \<Rightarrow> int" where
  "next_reset now = now - now mod day_ns + day_ns"

definition zero_time :: int where
  "zero_time = - 62135596800 * 1000000000"

definition bundleWindowSize :: nat where
  "bundleWindowSize = 100"

definition NewRiskManager :: "int \<Rightarrow> RiskConfig \<Rightarrow> RiskManager" where
  "NewRiskManager now config =
     (let initialTipShare = clampTip (Num 90) (MinTipSharePct config) (MaxTipSharePct config)
      in \<lparr>rm_config = config, rm_state = StateRunning,
          rm_tipStrategy = NewAdaptiveTipStrategy initialTipShare (MinTipSharePct config) (MaxTipSharePct config) (Num 5),
          rm_lastTipSharePct = initialTipShare, rm_recentBugReverts = [], rm_recentCompReverts = [], rm_dailyVolume = 0,
          rm_dailyPnL = 0, rm_dailyResetTime = next_reset now, rm_bundleResults = replicate bundleWindowSize False,
          rm_bundleResultIdx = 0, rm_bundleResultCount = 0, rm_lastAdjustedAtIdx = 0, rm_BugRevertTotal = 0,
          rm_CompRevertTotal = 0, rm_lastCompAlertTime = zero_time, rm_metricsObs = False, rm_observed = []\<rparr>)"

definition observe :: "observer_call \<Rightarrow> RiskManager \<Rightarrow> RiskManager" where
  "observe call rm = (if rm_metricsObs rm then rm\<lparr>rm_observed := rm_observed rm @ [call]\<rparr> else rm)"

definition SetMetricsObserver :: "RiskManager \<Rightarrow> bool \<Rightarrow> RiskManager" where
  "SetMetricsObserver rm obs = observe (OnStateChange (rm_state rm)) (rm\<lparr>rm_metricsObs := obs\<rparr>)"

definition notifyTrip :: "string \<Rightarrow> SystemState \<Rightarrow> RiskManager \<Rightarrow> RiskManager" where
  "notifyTrip reason newState rm =
     (let rm = observe (OnCircuitBreakerTrip reason) rm
      in case Transition (rm_state rm) newState of
           None \<Rightarrow> rm
         | Some st \<Rightarrow> observe (OnStateChange newState) (rm\<lparr>rm_state := st\<rparr>))"

text \<open>How many of the recorded window's results were included.\<close>

definition included_count :: "RiskManager \<Rightarrow> nat" where
  "included_count rm = length (filter id (take (rm_bundleResultCount rm) (rm_bundleResults rm)))"

definition CalculateTipShare :: "RiskManager \<Rightarrow> f64 \<times> RiskManager" where
  "CalculateTipShare rm =
     (if rm_bundleResultIdx rm = 0 \<or> rm_bundleResultIdx rm \<le> rm_lastAdjustedAtIdx rm then (rm_lastTipSharePct rm, rm)
      else
        let inclusionRate = f64_mul (f64_div (f64_of_nat (included_count rm)) (f64_of_nat (rm_bundleResultCount rm))) (Num 100);
            (tipShare, strategy) = CalculateTip (rm_tipStrategy rm) inclusionRate;
            tipShare = clampTip tipShare (MinTipSharePct (rm_config rm)) (MaxTipSharePct (rm_config rm))
        in (tipShare, rm\<lparr>rm_tipStrategy := strategy, rm_lastAdjustedAtIdx := rm_bundleResultIdx rm,
              rm_lastTipSharePct := tipShare\<rparr>))"

text \<open>The verdict of a preflight check; the reasons stand for the formatted messages.\<close>

datatype PreflightResult =
    Approved
  | SystemStateIs SystemState
  | GasTooHigh
  | BalanceTooLow
  | TradeTooLarge
  | DailyVolumeExceeded
  | ProfitTooLow
  | TipTooLow
  | TipTooHigh

definition PreflightCheck :: "RiskManager \<Rightarrow> int \<Rightarrow> int \<Rightarrow> f64 \<Rightarrow> f64 \<Rightarrow> f64 \<Rightarrow> PreflightResult" where
  "PreflightCheck rm profitWei tradeValueWei gasGwei tipSharePct ethBalance =
     (if rm_state rm \<noteq> StateRunning \<and> rm_state rm \<noteq> StateDegraded then SystemStateIs (rm_state rm)
      else if f64_lt (MaxGasGwei (rm_config rm)) gasGwei then GasTooHigh
      else if f64_lt ethBalance (MinETHBalance (rm_config rm)) then BalanceTooLow
      else if f64_lt (MaxSingleTradeETH (rm_config rm)) (WeiToETH tradeValueWei) then TradeTooLarge
      else if f64_lt (MaxDailyVolumeETH (rm_config rm)) (WeiToETH (rm_dailyVolume rm + tradeValueWei)) then DailyVolumeExceeded
      else if f64_lt (WeiToETH profitWei) (MinProfitETH (rm_config rm)) then ProfitTooLow
      else if f64_lt tipSharePct (MinTipSharePct (rm_config rm)) then TipTooLow
      else if f64_lt (MaxTipSharePct (rm_config rm)) tipSharePct then TipTooHigh
      else Approved)"

definition prune :: "int \<Rightarrow> int list \<Rightarrow> int list" where
  "prune cutoff ts = filter (\<lambda>t. cutoff < t) ts"

definition RecordRevert :: "int \<Rightarrow> RiskManager \<Rightarrow> RevertType \<Rightarrow> RiskManager" where
  "RecordRevert now rm revertType =
     (let window = RevertWindowMinutes (rm_config rm) * minute_ns;
          rm = rm\<lparr>rm_recentBugReverts := prune (now - window) (rm_recentBugReverts rm),
                  rm_recentCompReverts := prune (now - window) (rm_recentCompReverts rm)\<rparr>;
          rm = (case revertType of
                  RevertCompetitive \<Rightarrow> rm\<lparr>rm_recentCompReverts := rm_recentCompReverts rm @ [now],
                    rm_CompRevertTotal := rm_CompRevertTotal rm + 1\<rparr>
                | RevertBug \<Rightarrow> rm\<lparr>rm_recentBugReverts := rm_recentBugReverts rm @ [now],
                    rm_BugRevertTotal := rm_BugRevertTotal rm + 1\<rparr>);
          rm = (if int (length (rm_recentBugReverts rm)) \<ge> ConsecutiveRevertsPause (rm_config rm)
                then notifyTrip ''consecutive_bug_reverts'' StatePaused rm else rm);
          totalReverts = length (rm_recentBugReverts rm) + length (rm_recentCompReverts rm)
      in if totalReverts > 0 \<and> now - rm_lastCompAlertTime rm \<ge> window
           \<and> f64_le (CompetitiveRevertAlertPct (rm_config rm))
               (f64_mul (f64_div (f64_of_nat (length (rm_recentCompReverts rm))) (f64_of_nat totalReverts)) (Num 100))
         then rm\<lparr>rm_lastCompAlertTime := now\<rparr> else rm)"

definition ResetFromHalted :: "int \<Rightarrow> RiskManager \<Rightarrow> bool \<times> RiskManager" where
  "ResetFromHalted now rm =
     (if rm_state rm \<noteq> StateHalted then (False, rm)
      else
        let rm = rm\<lparr>rm_dailyVolume := 0, rm_dailyPnL := 0, rm_dailyResetTime := next_reset now\<rparr>
        in case Transition (rm_state rm) StateRunning of
             None \<Rightarrow> (False, rm)
           | Some st \<Rightarrow> (True, observe (OnStateChange StateRunning) (rm\<lparr>rm_state := st\<rparr>)))"

definition Resume :: "RiskManager \<Rightarrow> bool \<times> RiskManager" where
  "Resume rm =
     (if rm_state rm = StateHalted then (False, rm)
      else case Transition (rm_state rm) StateRunning of
        None \<Rightarrow> (False, rm)
      | Some st \<Rightarrow> (True, observe (OnStateChange StateRunning) (rm\<lparr>rm_state := st\<rparr>)))"

definition SetMinProfitETH :: "RiskManager \<Rightarrow> f64 \<Rightarrow> RiskManager" where
  "SetMinProfitETH rm eth = rm\<lparr>rm_config := (rm_config rm)\<lparr>MinProfitETH := eth\<rparr>\<rparr>"

definition percent_of :: "nat \<Rightarrow> nat \<Rightarrow> f64" where
  "percent_of a b = f64_mul (f64_div (f64_of_nat a) (f64_of_nat b)) (Num 100)"

definition WinRate :: "RiskManager \<Rightarrow> f64" where
  "WinRate rm = (if rm_bundleResultCount rm = 0 then Num 0 else percent_of (included_count rm) (rm_bundleResultCount rm))"

definition BundleMissRate :: "RiskManager \<Rightarrow> f64" where
  "BundleMissRate rm =
     (if rm_bundleResultCount rm = 0 then Num 0
      else percent_of (rm_bundleResultCount rm - included_count rm) (rm_bundleResultCount rm))"

definition Pause :: "RiskManager \<Rightarrow> string \<Rightarrow> bool \<times> RiskManager" where
  "Pause rm reason =
     (let rm = observe (OnCircuitBreakerTrip reason) rm
      in case Transition (rm_state rm) StatePaused of
           None \<Rightarrow> (False, rm)
         | Some st \<Rightarrow> (True, observe (OnStateChange StatePaused) (rm\<lparr>rm_state := st\<rparr>)))"

definition maybeResetDaily :: "int \<Rightarrow> RiskManager \<Rightarrow> RiskManager" where
  "maybeResetDaily now rm =
     (if now > rm_dailyResetTime rm
      then rm\<lparr>rm_dailyVolume := 0, rm_dailyPnL := 0, rm_dailyResetTime := next_reset now\<rparr> else rm)"

definition RecordTrade :: "int \<Rightarrow> RiskManager \<Rightarrow> int \<Rightarrow> int \<Rightarrow> RiskManager" where
  "RecordTrade now rm volumeWei pnlWei =
     (let rm = maybeResetDaily now rm;
          rm = rm\<lparr>rm_dailyVolume := rm_dailyVolume rm + volumeWei, rm_dailyPnL := rm_dailyPnL rm + pnlWei\<rparr>
      in if f64_lt (DailyLossHaltETH (rm_config rm)) (WeiToETH (- rm_dailyPnL rm))
         then notifyTrip ''daily_loss_exceeded'' StateHalted rm else rm)"

definition RecordBundleResult :: "RiskManager \<Rightarrow> bool \<Rightarrow> RiskManager" where
  "RecordBundleResult rm included =
     (let windowSize = length (rm_bundleResults rm)
      in rm\<lparr>rm_bundleResults := (rm_bundleResults rm)[rm_bundleResultIdx rm mod windowSize := included],
            rm_bundleResultIdx := rm_bundleResultIdx rm + 1,
            rm_bundleResultCount := (if rm_bundleResultCount rm < windowSize then rm_bundleResultCount rm + 1
              else rm_bundleResultCount rm)\<rparr>)"

section \<open>Operations as steps\<close>

datatype risk_op =
    OpObserver bool
  | OpTip
  | OpRevert int RevertType
  | OpReset int
  | OpResume
  | OpMinProfit f64
  | OpPause string
  | OpTrade int int int
  | OpBundle bool

fun risk_step :: "RiskManager \<Rightarrow> risk_op \<Rightarrow> RiskManager" where
  "risk_step rm (OpObserver obs) = SetMetricsObserver rm obs"
| "risk_step rm OpTip = snd (CalculateTipShare rm)"
| "risk_step rm (OpRevert now t) = RecordRevert now rm t"
| "risk_step rm (OpReset now) = snd (ResetFromHalted now rm)"
| "risk_step rm OpResume = snd (Resume rm)"
| "risk_step rm (OpMinProfit eth) = SetMinProfitETH rm eth"
| "risk_step rm (OpPause reason) = snd (Pause rm reason)"
| "risk_step rm (OpTrade now v p) = RecordTrade now rm v p"
| "risk_step rm (OpBundle included) = RecordBundleResult rm included"

fun is_reset :: "risk_op \<Rightarrow> bool" where
  "is_reset (OpReset _) = True"
| "is_reset _ = False"

text \<open>What the executor itself records: the volume of a submitted bundle with no profit, and the profit of an included
  one, both unsigned byte strings from the engine (\<^verbatim>\<open>cmd/executor/main.go\<close>, \<^verbatim>\<open>inclusion_poll.go\<close>),
  with the operator's calls (\<^verbatim>\<open>admin_server.go\<close>).\<close>

definition SetBytes :: "bytes \<Rightarrow> int" where
  "SetBytes bs = int (be_value bs 0)"

definition record_submission :: "int \<Rightarrow> RiskManager \<Rightarrow> bytes \<Rightarrow> RiskManager" where
  "record_submission now rm flashloan_amount = RecordTrade now rm (SetBytes flashloan_amount) 0"

definition record_inclusion :: "int \<Rightarrow> RiskManager \<Rightarrow> bytes \<Rightarrow> RiskManager" where
  "record_inclusion now rm net_profit_wei = RecordTrade now rm 0 (SetBytes net_profit_wei)"

datatype executor_op =
    Submitted int bytes
  | Included int bytes
  | TipQuoted
  | Reverted int RevertType
  | Acked bool
  | AdminPause string
  | AdminResume
  | AdminReset int
  | AdminMinProfit f64

fun executor_step :: "RiskManager \<Rightarrow> executor_op \<Rightarrow> RiskManager" where
  "executor_step rm (Submitted now amount) = record_submission now rm amount"
| "executor_step rm (Included now profit) = record_inclusion now rm profit"
| "executor_step rm TipQuoted = snd (CalculateTipShare rm)"
| "executor_step rm (Reverted now t) = RecordRevert now rm t"
| "executor_step rm (Acked included) = RecordBundleResult rm included"
| "executor_step rm (AdminPause reason) = snd (Pause rm reason)"
| "executor_step rm AdminResume = snd (Resume rm)"
| "executor_step rm (AdminReset now) = snd (ResetFromHalted now rm)"
| "executor_step rm (AdminMinProfit eth) = SetMinProfitETH rm eth"

section \<open>States\<close>

lemma observe_keeps [simp]:
  "rm_state (observe call rm) = rm_state rm" "rm_config (observe call rm) = rm_config rm"
  "rm_tipStrategy (observe call rm) = rm_tipStrategy rm" "rm_lastTipSharePct (observe call rm) = rm_lastTipSharePct rm"
  "rm_recentBugReverts (observe call rm) = rm_recentBugReverts rm" "rm_dailyVolume (observe call rm) = rm_dailyVolume rm"
  "rm_recentCompReverts (observe call rm) = rm_recentCompReverts rm" "rm_dailyPnL (observe call rm) = rm_dailyPnL rm"
  "rm_bundleResults (observe call rm) = rm_bundleResults rm" "rm_bundleResultIdx (observe call rm) = rm_bundleResultIdx rm"
  "rm_bundleResultCount (observe call rm) = rm_bundleResultCount rm"
  by (simp_all add: observe_def)

lemma notifyTrip_state:
  "rm_state (notifyTrip reason st rm) = (if isValidTransition (rm_state rm) st then st else rm_state rm)"
  by (simp add: notifyTrip_def Transition_def Let_def)

lemma notifyTrip_keeps [simp]:
  "rm_config (notifyTrip reason st rm) = rm_config rm" "rm_tipStrategy (notifyTrip reason st rm) = rm_tipStrategy rm"
  "rm_lastTipSharePct (notifyTrip reason st rm) = rm_lastTipSharePct rm" "rm_dailyPnL (notifyTrip reason st rm) = rm_dailyPnL rm"
  "rm_dailyVolume (notifyTrip reason st rm) = rm_dailyVolume rm"
  "rm_recentBugReverts (notifyTrip reason st rm) = rm_recentBugReverts rm"
  "rm_recentCompReverts (notifyTrip reason st rm) = rm_recentCompReverts rm"
  "rm_bundleResults (notifyTrip reason st rm) = rm_bundleResults rm"
  "rm_bundleResultIdx (notifyTrip reason st rm) = rm_bundleResultIdx rm"
  "rm_bundleResultCount (notifyTrip reason st rm) = rm_bundleResultCount rm"
  by (simp_all add: notifyTrip_def Let_def split: option.split)

lemma halted_valid: "isValidTransition st StateHalted \<longleftrightarrow> st \<noteq> StateHalted"
  by (cases st) simp_all

lemma maybeReset_keeps [simp]:
  "rm_state (maybeResetDaily now rm) = rm_state rm" "rm_config (maybeResetDaily now rm) = rm_config rm"
  "rm_tipStrategy (maybeResetDaily now rm) = rm_tipStrategy rm"
  "rm_lastTipSharePct (maybeResetDaily now rm) = rm_lastTipSharePct rm"
  by (simp_all add: maybeResetDaily_def)

lemma RecordRevert_state:
  "rm_state (RecordRevert now rm t) \<in> {rm_state rm, StatePaused}"
  "rm_state rm = StateHalted \<Longrightarrow> rm_state (RecordRevert now rm t) = StateHalted"
  by (auto simp: RecordRevert_def Let_def notifyTrip_state split: RevertType.split)

lemma RecordTrade_state:
  "rm_state (RecordTrade now rm v p) =
     (if f64_lt (DailyLossHaltETH (rm_config rm)) (WeiToETH (- rm_dailyPnL (RecordTrade now rm v p))) then StateHalted
      else rm_state rm)"
  by (simp add: RecordTrade_def Let_def notifyTrip_state halted_valid)

lemma CalculateTipShare_keeps:
  "rm_state (snd (CalculateTipShare rm)) = rm_state rm" "rm_config (snd (CalculateTipShare rm)) = rm_config rm"
  "rm_dailyPnL (snd (CalculateTipShare rm)) = rm_dailyPnL rm" "rm_dailyVolume (snd (CalculateTipShare rm)) = rm_dailyVolume rm"
  by (simp_all add: CalculateTipShare_def Let_def case_prod_unfold)

lemma halted_stays:
  assumes "rm_state rm = StateHalted" and "\<not> is_reset op"
  shows "rm_state (risk_step rm op) = StateHalted"
  using assms
  by (cases op) (simp_all add: SetMetricsObserver_def CalculateTipShare_keeps RecordRevert_state RecordTrade_state Resume_def
      SetMinProfitETH_def Pause_def Transition_def RecordBundleResult_def Let_def)

lemma halted_run:
  assumes "rm_state rm = StateHalted" and "list_all (\<lambda>op. \<not> is_reset op) ops"
  shows "rm_state (foldl risk_step rm ops) = StateHalted"
  using assms by (induction ops arbitrary: rm) (simp_all add: halted_stays)

text \<open>As soon as a recorded trade takes the day's loss beyond the configured limit, every preflight check is refused
  in the halted state, whatever is recorded, paused, resumed or reconfigured afterwards, until an operator resets
  the manager.\<close>

theorem loss_halts_until_reset:
  assumes "f64_lt (DailyLossHaltETH (rm_config rm)) (WeiToETH (- rm_dailyPnL (RecordTrade now rm v p)))"
    and "list_all (\<lambda>op. \<not> is_reset op) ops"
  shows "PreflightCheck (foldl risk_step (RecordTrade now rm v p) ops) profit trade gas tip balance = SystemStateIs StateHalted"
proof -
  have "rm_state (RecordTrade now rm v p) = StateHalted" using assms(1) by (subst RecordTrade_state) simp
  from halted_run [OF this assms(2)] show ?thesis by (simp add: PreflightCheck_def)
qed

theorem loss_halts_until_reset_witness:
  "PreflightCheck (foldl risk_step (RecordTrade 0 (NewRiskManager 0 DefaultRiskConfig) 0 (- 1000000000000000000))
     [OpResume, OpPause ''admin'', OpTrade 1 0 2000000000000000000]) 1 1 (Num 1) (Num 90) (Num 1) = SystemStateIs StateHalted"
proof -
  have "rm_dailyPnL (RecordTrade 0 (NewRiskManager 0 DefaultRiskConfig) 0 (- 1000000000000000000)) = - 1000000000000000000"
    by (simp add: RecordTrade_def maybeResetDaily_def NewRiskManager_def next_reset_def day_ns_def Let_def)
  moreover have "f64_lt (DailyLossHaltETH (rm_config (NewRiskManager 0 DefaultRiskConfig))) (WeiToETH 1000000000000000000)"
    by code_simp
  ultimately show ?thesis by (intro loss_halts_until_reset) simp_all
qed

section \<open>The loss breaker in the executor\<close>

lemma round_half_even_nonneg: "0 \<le> n \<Longrightarrow> 0 < d \<Longrightarrow> 0 \<le> round_half_even n d"
  using pos_imp_zdiv_nonneg_iff [of d n] by (simp add: round_half_even_def Let_def)

lemma quotient_pos:
  assumes "0 < r" and "quotient_of r = (n, d)"
  shows "0 < n" "0 < d"
proof -
  show d: "0 < d" using quotient_of_denom_pos [OF assms(2)] .
  show "0 < n" using assms(1) d unfolding quotient_of_div [OF assms(2)] by (simp add: zero_less_divide_iff)
qed

lemma round_prec_nonneg:
  assumes "0 < r"
  shows "0 \<le> round_prec p r"
proof -
  obtain n d where q: "quotient_of r = (n, d)" by fastforce
  note pos = quotient_pos [OF assms q]
  have "0 \<le> round_half_even n (d * 2 ^ k)" "0 \<le> round_half_even (n * 2 ^ k) d" for k
    using pos by (simp_all add: round_half_even_nonneg)
  then show ?thesis by (simp add: round_prec_def q Let_def)
qed

lemma round_pos_nonneg:
  assumes "0 < r"
  shows "f64_le (Num 0) (round_pos r)"
proof -
  obtain n d where q: "quotient_of r = (n, d)" by fastforce
  note pos = quotient_pos [OF assms q]
  have "0 \<le> round_half_even n (d * 2 ^ k)" "0 \<le> round_half_even (n * 2 ^ k) d" for k
    using pos by (simp_all add: round_half_even_nonneg)
  note nonneg = this
  define e where "e = max (- 1074) (floor_log2 n d - 52)"
  define m where "m = (if 0 \<le> e then round_half_even n (d * 2 ^ nat e) else round_half_even (n * 2 ^ nat (- e)) d)"
  have "0 \<le> m" unfolding m_def using nonneg by simp
  then show ?thesis
    unfolding round_pos_def q Let_def prod.case e_def [symmetric] m_def [symmetric] by (simp add: f64_le_def)
qed

lemma f64_of_rat_nonneg: "0 \<le> r \<Longrightarrow> f64_le (Num 0) (f64_of_rat r)"
  by (auto simp: f64_of_rat_def round_pos_nonneg)

lemma f64_neg_nonpos: "f64_le (Num 0) f \<Longrightarrow> f64_le (f64_neg f) (Num 0)"
  by (cases f) (auto simp: f64_le_def)

lemma WeiToETH_nonpos:
  assumes "wei \<le> 0"
  shows "f64_le (WeiToETH wei) (Num 0)"
proof (cases "wei = 0")
  case False
  then have "f64_le (Num 0) (f64_of_rat (round_prec (max 64 (bit_len \<bar>wei\<bar>)) (of_int \<bar>wei\<bar> / 10 ^ 18)))"
    by (intro f64_of_rat_nonneg round_prec_nonneg) simp
  then show ?thesis using assms False by (simp add: WeiToETH_def f64_neg_nonpos)
qed (simp add: WeiToETH_def)

text \<open>No profit of the executor is negative, so the day's result never is.\<close>

definition no_loss :: "RiskManager \<Rightarrow> bool" where
  "no_loss rm \<longleftrightarrow> 0 \<le> rm_dailyPnL rm \<and> rm_state rm \<noteq> StateHalted \<and> \<not> f64_le (DailyLossHaltETH (rm_config rm)) (Num 0)"

lemma no_loss_trade:
  assumes "no_loss rm" and "0 \<le> p"
  shows "no_loss (RecordTrade now rm v p)"
proof -
  have pnl: "0 \<le> rm_dailyPnL (RecordTrade now rm v p)"
    using assms by (simp add: RecordTrade_def maybeResetDaily_def Let_def no_loss_def)
  have cfg: "rm_config (RecordTrade now rm v p) = rm_config rm" by (simp add: RecordTrade_def Let_def)
  have "\<not> f64_lt (DailyLossHaltETH (rm_config rm)) (WeiToETH (- rm_dailyPnL (RecordTrade now rm v p)))"
  proof
    assume lt: "f64_lt (DailyLossHaltETH (rm_config rm)) (WeiToETH (- rm_dailyPnL (RecordTrade now rm v p)))"
    have "f64_le (WeiToETH (- rm_dailyPnL (RecordTrade now rm v p))) (Num 0)" using pnl by (intro WeiToETH_nonpos) simp
    then have "f64_le (DailyLossHaltETH (rm_config rm)) (Num 0)" by (rule f64_le_trans [OF f64_lt_imp_le [OF lt]])
    then show False using assms(1) by (simp add: no_loss_def)
  qed
  then show ?thesis using assms(1) pnl by (simp add: no_loss_def cfg RecordTrade_state)
qed

lemma RecordRevert_keeps:
  "rm_dailyPnL (RecordRevert now rm t) = rm_dailyPnL rm" "rm_config (RecordRevert now rm t) = rm_config rm"
  "rm_dailyVolume (RecordRevert now rm t) = rm_dailyVolume rm"
  "rm_tipStrategy (RecordRevert now rm t) = rm_tipStrategy rm"
  "rm_lastTipSharePct (RecordRevert now rm t) = rm_lastTipSharePct rm"
  by (simp_all add: RecordRevert_def Let_def split: RevertType.split)

lemma RecordRevert_no_halt: "rm_state rm \<noteq> StateHalted \<Longrightarrow> rm_state (RecordRevert now rm t) \<noteq> StateHalted"
  using RecordRevert_state(1) [of now rm t] by auto

lemma no_loss_step:
  assumes "no_loss rm"
  shows "no_loss (executor_step rm op)"
proof (cases op)
  case (Submitted now amount)
  then show ?thesis using no_loss_trade [OF assms] by (simp add: record_submission_def)
next
  case (Included now profit)
  then show ?thesis using no_loss_trade [OF assms] by (simp add: record_inclusion_def SetBytes_def)
next
  case (Reverted now t)
  then show ?thesis using assms RecordRevert_no_halt by (simp add: no_loss_def RecordRevert_keeps)
qed (use assms in \<open>auto simp: no_loss_def CalculateTipShare_keeps RecordBundleResult_def Pause_def Resume_def
      ResetFromHalted_def SetMinProfitETH_def Transition_def Let_def\<close>)

text \<open>C38: with any validated configuration, no sequence of the executor's own calls (submissions, inclusions, reverts,
  bundle acknowledgements, tip quotes and the operator's pause, resume, reset and profit
  threshold) ever halts the system: the
  executor records only non-negative profits, so the daily-loss breaker cannot fire.\<close>

theorem loss_breaker_never_fires:
  assumes "ValidateRiskConfig cfg"
  shows "rm_state (foldl executor_step (NewRiskManager now cfg) ops) \<noteq> StateHalted"
proof -
  have "no_loss (foldl executor_step rm ops)" if "no_loss rm" for rm
    using that by (induction ops arbitrary: rm) (simp_all add: no_loss_step)
  moreover have "no_loss (NewRiskManager now cfg)"
    using assms by (simp add: no_loss_def NewRiskManager_def ValidateRiskConfig_def Let_def)
  ultimately show ?thesis by (simp add: no_loss_def)
qed

theorem loss_breaker_never_fires_witness:
  "ValidateRiskConfig DefaultRiskConfig \<and>
   rm_state (foldl executor_step (NewRiskManager 0 DefaultRiskConfig) [Submitted 1 [1, 0], Reverted 2 RevertBug]) \<noteq> StateHalted"
proof -
  have "ValidateRiskConfig DefaultRiskConfig" by code_simp
  with loss_breaker_never_fires [OF this] show ?thesis by blast
qed

section \<open>Daily volume\<close>

fun no_trade :: "risk_op \<Rightarrow> bool" where
  "no_trade (OpTrade _ _ _) = False"
| "no_trade (OpReset _) = False"
| "no_trade _ = True"

lemma no_trade_keeps:
  assumes "no_trade op"
  shows "rm_dailyVolume (risk_step rm op) = rm_dailyVolume rm"
    "MaxDailyVolumeETH (rm_config (risk_step rm op)) = MaxDailyVolumeETH (rm_config rm)"
  using assms
  by (cases op; simp add: SetMetricsObserver_def CalculateTipShare_keeps RecordRevert_keeps Resume_def SetMinProfitETH_def
      Pause_def Transition_def RecordBundleResult_def Let_def)+

lemma no_trade_run:
  assumes "list_all no_trade ops"
  shows "rm_dailyVolume (foldl risk_step rm ops) = rm_dailyVolume rm"
    "MaxDailyVolumeETH (rm_config (foldl risk_step rm ops)) = MaxDailyVolumeETH (rm_config rm)"
  using assms by (induction ops arbitrary: rm) (simp_all add: no_trade_keeps)

text \<open>A trade refused because it would exceed the daily volume stays refused for as long as no trade is recorded and
  no reset is made, however many days pass, although the first recorded trade of a later day would clear the
  counter: the preflight check never looks at the reset time.\<close>

theorem volume_lockout_outlives_day:
  assumes "f64_lt (MaxDailyVolumeETH (rm_config rm)) (WeiToETH (rm_dailyVolume rm + trade))"
    and "list_all no_trade ops"
  shows "PreflightCheck (foldl risk_step rm ops) profit trade gas tip balance \<noteq> Approved
    \<and> rm_dailyVolume (maybeResetDaily (rm_dailyResetTime rm + 1) rm) = 0"
  using assms(1) no_trade_run [OF assms(2), of rm]
  by (simp_all add: PreflightCheck_def maybeResetDaily_def)

theorem volume_lockout_outlives_day_witness:
  "f64_lt (MaxDailyVolumeETH DefaultRiskConfig)
      (WeiToETH (rm_dailyVolume (RecordTrade 0 (NewRiskManager 0 DefaultRiskConfig) (500 * 10 ^ 18) 0) + 10 ^ 18))
   \<and> PreflightCheck (foldl risk_step (RecordTrade 0 (NewRiskManager 0 DefaultRiskConfig) (500 * 10 ^ 18) 0)
       [OpRevert (7 * day_ns) RevertCompetitive]) (10 ^ 18) (10 ^ 18) (Num 20) (Num 90) (Num 1) \<noteq> Approved"
proof -
  have "f64_lt (MaxDailyVolumeETH (rm_config (RecordTrade 0 (NewRiskManager 0 DefaultRiskConfig) (500 * 10 ^ 18) 0)))
      (WeiToETH (rm_dailyVolume (RecordTrade 0 (NewRiskManager 0 DefaultRiskConfig) (500 * 10 ^ 18) 0) + 10 ^ 18))"
    by code_simp
  moreover have "rm_config (RecordTrade 0 (NewRiskManager 0 DefaultRiskConfig) (500 * 10 ^ 18) 0) = DefaultRiskConfig"
    by (simp add: RecordTrade_def NewRiskManager_def Let_def)
  ultimately show ?thesis
    using volume_lockout_outlives_day [of "RecordTrade 0 (NewRiskManager 0 DefaultRiskConfig) (500 * 10 ^ 18) 0" "10 ^ 18"
        "[OpRevert (7 * day_ns) RevertCompetitive]"] by simp
qed

section \<open>Tips\<close>

lemma clampTip_bounds:
  assumes "f64_le lo hi" and "v \<noteq> NaN"
  shows "f64_le lo (clampTip v lo hi)" "f64_le (clampTip v lo hi) hi"
  using f64_clamp_bounds [OF assms] by (simp_all add: clampTip_def f64_clamp_def)

definition strategy_ok :: "AdaptiveTipStrategy \<Rightarrow> bool" where
  "strategy_ok s \<longleftrightarrow> f64_le (minTipPct s) (maxTipPct s) \<and> currentTipPct s \<noteq> NaN \<and> stepPct s = Num 5"

definition tip_ok :: "RiskManager \<Rightarrow> bool" where
  "tip_ok rm \<longleftrightarrow> strategy_ok (rm_tipStrategy rm)
     \<and> f64_le (MinTipSharePct (rm_config rm)) (rm_lastTipSharePct rm)
     \<and> f64_le (rm_lastTipSharePct rm) (MaxTipSharePct (rm_config rm))"

lemma f64_add_step: "x \<noteq> NaN \<Longrightarrow> f64_add x (Num r) \<noteq> NaN" "x \<noteq> NaN \<Longrightarrow> f64_sub x (Num r) \<noteq> NaN"
  by (auto simp: f64_sub_def f64_add_def f64_of_rat_not_NaN signed_zero_def)

lemma CalculateTip_cases:
  assumes "currentTipPct s \<noteq> NaN" and "stepPct s = Num 5"
  obtains "CalculateTip s rate = (currentTipPct s, s)"
  | w where "w \<noteq> NaN" and "CalculateTip s rate =
      (clampTip w (minTipPct s) (maxTipPct s), s\<lparr>currentTipPct := clampTip w (minTipPct s) (maxTipPct s)\<rparr>)"
proof (cases "f64_lt rate (Num 0) \<or> f64_lt (Num 100) rate")
  case True
  then show ?thesis using that(1) by (simp only: CalculateTip_def if_True)
next
  case False
  define w where "w = (if f64_lt rate (lowInclusionThreshold s) then f64_add (currentTipPct s) (stepPct s)
    else if f64_lt (highInclusionThreshold s) rate then f64_sub (currentTipPct s) (stepPct s) else currentTipPct s)"
  have "w \<noteq> NaN" using f64_add_step [OF assms(1)] assms by (simp add: w_def)
  moreover have "CalculateTip s rate =
      (clampTip w (minTipPct s) (maxTipPct s), s\<lparr>currentTipPct := clampTip w (minTipPct s) (maxTipPct s)\<rparr>)"
    using False by (simp only: CalculateTip_def if_False Let_def w_def)
  ultimately show ?thesis by (rule that(2))
qed

lemma CalculateTip_ok:
  assumes "strategy_ok s" and "CalculateTip s rate = (v, s')"
  shows "strategy_ok s'" "v \<noteq> NaN"
proof -
  have s: "f64_le (minTipPct s) (maxTipPct s)" "currentTipPct s \<noteq> NaN" "stepPct s = Num 5"
    using assms(1) by (simp_all add: strategy_ok_def)
  have "clampTip w (minTipPct s) (maxTipPct s) \<noteq> NaN" if "w \<noteq> NaN" for w
    using clampTip_bounds(1) [OF s(1) that] unfolding f64_le_def by blast
  note clamped = this
  have "strategy_ok s' \<and> v \<noteq> NaN"
  proof (cases rule: CalculateTip_cases [OF s(2,3), of rate])
    case 1
    then have "s' = s" "v = currentTipPct s" using assms(2) by simp_all
    then show ?thesis using assms(1) s(2) by simp
  next
    case (2 w)
    have "s' = s\<lparr>currentTipPct := clampTip w (minTipPct s) (maxTipPct s)\<rparr>" "v = clampTip w (minTipPct s) (maxTipPct s)"
      using 2(2) assms(2) by simp_all
    then show ?thesis using s clamped [OF 2(1)] by (simp add: strategy_ok_def)
  qed
  then show "strategy_ok s'" "v \<noteq> NaN" by blast+
qed

lemma NewAdaptiveTipStrategy_ok:
  assumes "start \<noteq> NaN" and "lo \<noteq> NaN" and "hi \<noteq> NaN"
  shows "strategy_ok (NewAdaptiveTipStrategy start lo hi (Num 5))"
proof -
  have "clampTip start a b \<noteq> NaN" if "a \<noteq> NaN" "b \<noteq> NaN" for a b using assms(1) that by (simp add: clampTip_def)
  moreover have "f64_le b a \<or> f64_le a b" if "a \<noteq> NaN" "b \<noteq> NaN" for a b
    using that f64_not_lt f64_lt_imp_le by blast
  ultimately show ?thesis
    using assms(2,3) by (auto simp: strategy_ok_def NewAdaptiveTipStrategy_def Let_def f64_le_def)
qed

lemma tip_ok_new:
  assumes "f64_le (MinTipSharePct cfg) (MaxTipSharePct cfg)"
  shows "tip_ok (NewRiskManager now cfg)"
proof -
  have nn: "MinTipSharePct cfg \<noteq> NaN" "MaxTipSharePct cfg \<noteq> NaN" using assms by auto
  define t where "t = clampTip (Num 90) (MinTipSharePct cfg) (MaxTipSharePct cfg)"
  have t: "f64_le (MinTipSharePct cfg) t" "f64_le t (MaxTipSharePct cfg)"
    using clampTip_bounds [OF assms, of "Num 90"] by (simp_all add: t_def)
  have "strategy_ok (NewAdaptiveTipStrategy t (MinTipSharePct cfg) (MaxTipSharePct cfg) (Num 5))"
    using t nn by (intro NewAdaptiveTipStrategy_ok) auto
  then show ?thesis using t by (simp add: tip_ok_def NewRiskManager_def Let_def t_def [symmetric])
qed

lemma tip_ok_calculate:
  assumes "tip_ok rm" and "f64_le (MinTipSharePct (rm_config rm)) (MaxTipSharePct (rm_config rm))"
  shows "tip_ok (snd (CalculateTipShare rm))"
proof -
  define rate where "rate = f64_mul (f64_div (f64_of_nat (included_count rm)) (f64_of_nat (rm_bundleResultCount rm))) (Num 100)"
  obtain v s where ct: "CalculateTip (rm_tipStrategy rm) rate = (v, s)" by fastforce
  have "strategy_ok s" "v \<noteq> NaN" using CalculateTip_ok [OF _ ct] assms(1) by (simp_all add: tip_ok_def)
  then show ?thesis
    using assms clampTip_bounds [OF assms(2), of v]
    by (simp add: CalculateTipShare_def rate_def [symmetric] ct tip_ok_def Let_def)
qed

lemma config_kept:
  "MinTipSharePct (rm_config (risk_step rm op)) = MinTipSharePct (rm_config rm)"
  "MaxTipSharePct (rm_config (risk_step rm op)) = MaxTipSharePct (rm_config rm)"
  "RevertWindowMinutes (rm_config (risk_step rm op)) = RevertWindowMinutes (rm_config rm)"
  "ConsecutiveRevertsPause (rm_config (risk_step rm op)) = ConsecutiveRevertsPause (rm_config rm)"
  by (cases op; simp add: SetMetricsObserver_def CalculateTipShare_keeps RecordRevert_keeps Resume_def SetMinProfitETH_def
      ResetFromHalted_def RecordTrade_def Pause_def Transition_def RecordBundleResult_def Let_def)+

lemma config_kept_run:
  "MinTipSharePct (rm_config (foldl risk_step rm ops)) = MinTipSharePct (rm_config rm)"
  "MaxTipSharePct (rm_config (foldl risk_step rm ops)) = MaxTipSharePct (rm_config rm)"
  "RevertWindowMinutes (rm_config (foldl risk_step rm ops)) = RevertWindowMinutes (rm_config rm)"
  "ConsecutiveRevertsPause (rm_config (foldl risk_step rm ops)) = ConsecutiveRevertsPause (rm_config rm)"
  by (induction ops arbitrary: rm) (simp_all add: config_kept)

lemma tip_ok_step:
  assumes "tip_ok rm" and "f64_le (MinTipSharePct (rm_config rm)) (MaxTipSharePct (rm_config rm))"
  shows "tip_ok (risk_step rm op)"
proof (cases "op = OpTip")
  case True
  then show ?thesis using tip_ok_calculate [OF assms] by simp
next
  case False
  have "rm_tipStrategy (risk_step rm op) = rm_tipStrategy rm" "rm_lastTipSharePct (risk_step rm op) = rm_lastTipSharePct rm"
    using False by (cases op; simp add: SetMetricsObserver_def RecordRevert_keeps Resume_def SetMinProfitETH_def
      ResetFromHalted_def RecordTrade_def Pause_def Transition_def RecordBundleResult_def Let_def)+
  then show ?thesis using assms(1) by (simp add: tip_ok_def config_kept)
qed

lemma tip_ok_run:
  assumes "tip_ok rm" and "f64_le (MinTipSharePct (rm_config rm)) (MaxTipSharePct (rm_config rm))"
  shows "tip_ok (foldl risk_step rm ops)"
  using assms by (induction ops arbitrary: rm) (simp_all add: tip_ok_step config_kept)

text \<open>C35: for every configuration whose tip limits are ordered, and after any sequence of operations, the tip share
  handed out lies within the limits, so a preflight check made with it is never refused for its tip.\<close>

theorem tip_share_bounded:
  assumes "f64_le (MinTipSharePct cfg) (MaxTipSharePct cfg)"
  shows "f64_le (MinTipSharePct cfg) (fst (CalculateTipShare (foldl risk_step (NewRiskManager now cfg) ops)))
    \<and> f64_le (fst (CalculateTipShare (foldl risk_step (NewRiskManager now cfg) ops))) (MaxTipSharePct cfg)
    \<and> PreflightCheck (foldl risk_step (NewRiskManager now cfg) ops) profit trade gas
        (fst (CalculateTipShare (foldl risk_step (NewRiskManager now cfg) ops))) balance \<notin> {TipTooLow, TipTooHigh}"
proof -
  define rm where "rm = foldl risk_step (NewRiskManager now cfg) ops"
  have new: "rm_config (NewRiskManager now cfg) = cfg" by (simp add: NewRiskManager_def Let_def)
  have cfg: "MinTipSharePct (rm_config rm) = MinTipSharePct cfg" "MaxTipSharePct (rm_config rm) = MaxTipSharePct cfg"
    by (simp_all add: rm_def config_kept_run new)
  have "tip_ok rm" unfolding rm_def using assms by (intro tip_ok_run tip_ok_new) (simp_all add: new)
  then have ok: "tip_ok (snd (CalculateTipShare rm))" using assms by (intro tip_ok_calculate) (simp_all add: cfg)
  moreover have "fst (CalculateTipShare rm) = rm_lastTipSharePct (snd (CalculateTipShare rm))"
    by (simp add: CalculateTipShare_def Let_def case_prod_unfold)
  ultimately have b: "f64_le (MinTipSharePct cfg) (fst (CalculateTipShare rm))" "f64_le (fst (CalculateTipShare rm)) (MaxTipSharePct cfg)"
    by (simp_all add: tip_ok_def CalculateTipShare_keeps cfg)
  then have "\<not> f64_lt (fst (CalculateTipShare rm)) (MinTipSharePct cfg)" "\<not> f64_lt (MaxTipSharePct cfg) (fst (CalculateTipShare rm))"
    by (auto simp: f64_le_def f64_lt_def)
  then show ?thesis using b unfolding rm_def [symmetric] by (simp add: PreflightCheck_def cfg)
qed

theorem tip_share_bounded_witness:
  "f64_le (MinTipSharePct DefaultRiskConfig) (fst (CalculateTipShare (foldl risk_step (NewRiskManager 0 DefaultRiskConfig)
     [OpBundle False, OpTip, OpBundle True])))"
proof -
  have "f64_le (MinTipSharePct DefaultRiskConfig) (MaxTipSharePct DefaultRiskConfig)"
    by (simp add: DefaultRiskConfig_def f64_le_def)
  from tip_share_bounded [OF this] show ?thesis by blast
qed

section \<open>The revert window\<close>

fun revert_time :: "risk_op \<Rightarrow> int option" where
  "revert_time (OpRevert now _) = Some now"
| "revert_time _ = None"

fun bug_time :: "risk_op \<Rightarrow> int option" where
  "bug_time (OpRevert now RevertBug) = Some now"
| "bug_time _ = None"

definition revert_times :: "risk_op list \<Rightarrow> int list" where
  "revert_times ops = List.map_filter revert_time ops"

definition bug_times :: "risk_op list \<Rightarrow> int list" where
  "bug_times ops = List.map_filter bug_time ops"

lemma map_filter_snoc: "List.map_filter f (xs @ [x]) = List.map_filter f xs @ (case f x of None \<Rightarrow> [] | Some y \<Rightarrow> [y])"
  by (simp add: List.map_filter_def split: option.split)

lemma bug_time_revert: "bug_time op = Some t \<Longrightarrow> revert_time op = Some t"
  by (cases op rule: bug_time.cases) auto

lemma bug_times_sub: "set (bug_times ops) \<subseteq> set (revert_times ops)"
proof
  fix t assume "t \<in> set (bug_times ops)"
  then obtain op where op: "op \<in> set ops" "bug_time op = Some t" by (auto simp: bug_times_def List.map_filter_def)
  then have "revert_time op = Some t" by (simp add: bug_time_revert)
  with op(1) show "t \<in> set (revert_times ops)" unfolding revert_times_def List.map_filter_def by force
qed

lemma RecordRevert_bugs:
  "rm_recentBugReverts (RecordRevert now rm t) =
     prune (now - RevertWindowMinutes (rm_config rm) * minute_ns) (rm_recentBugReverts rm) @ (if t = RevertBug then [now] else [])"
  by (simp add: RecordRevert_def Let_def split: RevertType.split)

lemma other_op_bugs: "revert_time op = None \<Longrightarrow> rm_recentBugReverts (risk_step rm op) = rm_recentBugReverts rm"
  by (cases op) (simp_all add: SetMetricsObserver_def CalculateTipShare_def Resume_def SetMinProfitETH_def ResetFromHalted_def
      RecordTrade_def maybeResetDaily_def Pause_def Transition_def RecordBundleResult_def Let_def case_prod_unfold)

lemma window_exact:
  assumes "rm_recentBugReverts rm = []" and "w = RevertWindowMinutes (rm_config rm) * minute_ns" and "0 < w"
    and "sorted (revert_times ops)"
  shows "rm_recentBugReverts (foldl risk_step rm ops) =
    (if revert_times ops = [] then [] else filter (\<lambda>t. last (revert_times ops) - w < t) (bug_times ops))"
  using assms(4)
proof (induction ops rule: rev_induct)
  case Nil
  then show ?case by (simp add: assms(1) revert_times_def List.map_filter_def)
next
  case (snoc op ops)
  show ?case
  proof (cases "revert_time op")
    case None
    then have "bug_time op = None" using bug_time_revert by (cases "bug_time op") auto
    then show ?thesis using snoc None by (simp add: other_op_bugs revert_times_def bug_times_def map_filter_snoc)
  next
    case (Some now)
    then obtain t where OpRevert: "op = OpRevert now t" by (cases op) auto
    have rt: "revert_times (ops @ [op]) = revert_times ops @ [now]" by (simp add: revert_times_def map_filter_snoc OpRevert)
    have bt: "bug_times (ops @ [op]) = bug_times ops @ (if t = RevertBug then [now] else [])"
      by (cases t) (simp_all add: bug_times_def map_filter_snoc OpRevert)
    have sorted: "sorted (revert_times ops)" "\<forall>x \<in> set (revert_times ops). x \<le> now"
      using snoc.prems by (auto simp: rt sorted_append)
    have "filter (\<lambda>t. now - w < t) (rm_recentBugReverts (foldl risk_step rm ops)) = filter (\<lambda>t. now - w < t) (bug_times ops)"
    proof (cases "revert_times ops = []")
      case True
      then show ?thesis using snoc.IH [OF sorted(1)] bug_times_sub [of ops] by simp
    next
      case False
      then have "last (revert_times ops) \<le> now" using sorted(2) by simp
      then show ?thesis using snoc.IH [OF sorted(1)] False by (auto intro!: filter_cong)
    qed
    then show ?thesis
      using assms(2,3) by (simp add: OpRevert RecordRevert_bugs prune_def config_kept_run rt [unfolded OpRevert] bt [unfolded OpRevert])
  qed
qed


definition tight_config :: RiskConfig where
  "tight_config = DefaultRiskConfig\<lparr>ConsecutiveRevertsPause := 2\<rparr>"


end
