(* ===== verification/V2_Reserves.thy ===== *)
theory V2_Reserves
  imports Hash_Map
begin

unbundle bit_operations_syntax

text \<open>
  The cache of the packed reserve slot of constant-product pairs (\<^verbatim>\<open>simulator/src/v2_reserves_cache.rs\<close>), fed by
  \<^verbatim>\<open>Sync\<close> events and read by the pre-warm of the simulator. The concurrent map is accessed one call at a time.
\<close>

section \<open>Model\<close>

definition RESERVE1_SHIFT :: nat where
  "RESERVE1_SHIFT = 112"

definition uint112_mask :: u256 where
  "uint112_mask = push_bit 112 1 - 1"

definition unpack_slot8 :: "u256 \<Rightarrow> u256 \<times> u256" where
  "unpack_slot8 slot = (slot AND uint112_mask, drop_bit RESERVE1_SHIFT slot AND uint112_mask)"

record ReserveSnapshot =
  rs_reserve0 :: u256
  rs_reserve1 :: u256
  rs_block_number :: u64

definition pack_slot8 :: "ReserveSnapshot \<Rightarrow> u256" where
  "pack_slot8 s =
     (let r0 = rs_reserve0 s AND uint112_mask; r1 = rs_reserve1 s AND uint112_mask
      in r0 OR push_bit RESERVE1_SHIFT r1)"

type_synonym V2ReservesCache = "(address, ReserveSnapshot) hmap"

datatype V2CacheLookup = Fresh ReserveSnapshot | Stale | Missing

definition v2c_record :: "V2ReservesCache \<Rightarrow> address \<Rightarrow> u256 \<Rightarrow> u256 \<Rightarrow> u64 \<Rightarrow> V2ReservesCache" where
  "v2c_record c pool reserve0 reserve1 block_number =
     (let snap = \<lparr>rs_reserve0 = reserve0, rs_reserve1 = reserve1, rs_block_number = block_number\<rparr>
      in case hget c pool of
           None \<Rightarrow> hinsert pool snap c
         | Some existing \<Rightarrow> if block_number \<ge> rs_block_number existing then hinsert pool snap c else c)"

definition v2c_get :: "V2ReservesCache \<Rightarrow> address \<Rightarrow> ReserveSnapshot option" where
  "v2c_get c pool = hget c pool"

definition get_fresh_status :: "V2ReservesCache \<Rightarrow> address \<Rightarrow> u64 \<Rightarrow> u64 \<Rightarrow> V2CacheLookup" where
  "get_fresh_status c pool target_block max_lag =
     (case v2c_get c pool of
        None \<Rightarrow> Missing
      | Some snap \<Rightarrow>
          let oldest_acceptable = saturating_sub target_block max_lag
          in if rs_block_number snap \<ge> oldest_acceptable then Fresh snap else Stale)"

definition get_fresh :: "V2ReservesCache \<Rightarrow> address \<Rightarrow> u64 \<Rightarrow> u64 \<Rightarrow> ReserveSnapshot option" where
  "get_fresh c pool target_block max_lag =
     (case get_fresh_status c pool target_block max_lag of Fresh snap \<Rightarrow> Some snap | Stale \<Rightarrow> None | Missing \<Rightarrow> None)"

section \<open>The packed slot\<close>

lemma mask_is_mask: "uint112_mask = mask 112"
  by (simp add: uint112_mask_def mask_eq_exp_minus_1)

lemma and_mask_fits: "(x :: u256) < 2 ^ 112 \<Longrightarrow> x AND mask 112 = x"
  by (simp add: and_mask_less' less_mask_eq)

lemma slot_fields:
  fixes a b :: u256
  assumes "a < 2 ^ 112" and "b < 2 ^ 112"
  shows "(a OR push_bit 112 b) AND mask 112 = a" "drop_bit 112 (a OR push_bit 112 b) AND mask 112 = b"
proof -
  have hi: "bit a n \<Longrightarrow> n < 112" "bit b n \<Longrightarrow> n < 112" for n
    using and_mask_fits [OF assms(1)] and_mask_fits [OF assms(2)] by (metis bit_and_iff bit_mask_iff)+
  show "(a OR push_bit 112 b) AND mask 112 = a"
    by (rule bit_word_eqI) (use hi in \<open>auto simp: bit_and_iff bit_or_iff bit_mask_iff bit_push_bit_iff not_less\<close>)
  show "drop_bit 112 (a OR push_bit 112 b) AND mask 112 = b"
    by (rule bit_word_eqI) (use hi in \<open>force simp: bit_and_iff bit_or_iff bit_mask_iff bit_push_bit_iff bit_drop_bit_eq not_less\<close>)
qed

text \<open>Unpacking a packed slot returns both reserves of the pair whenever they are in the range of the
  contract's \<^verbatim>\<open>uint112\<close>.\<close>

theorem slot8_round_trip:
  assumes "rs_reserve0 s < 2 ^ 112" and "rs_reserve1 s < 2 ^ 112"
  shows "unpack_slot8 (pack_slot8 s) = (rs_reserve0 s, rs_reserve1 s)"
  unfolding unpack_slot8_def pack_slot8_def mask_is_mask RESERVE1_SHIFT_def Let_def and_mask_fits [OF assms(1)]
    and_mask_fits [OF assms(2)] slot_fields [OF assms] ..

theorem slot8_round_trip_witness:
  "unpack_slot8 (pack_slot8 \<lparr>rs_reserve0 = 5, rs_reserve1 = 2 ^ 112 - 1, rs_block_number = 3\<rparr>) = (5, 2 ^ 112 - 1)"
  using slot8_round_trip [of "\<lparr>rs_reserve0 = 5, rs_reserve1 = 2 ^ 112 - 1, rs_block_number = 3\<rparr>"] by simp

section \<open>Out-of-order updates\<close>

text \<open>A stream of recorded events, and the event a pool is left with: the last of those with the highest block.\<close>

type_synonym sync_event = "address \<times> u256 \<times> u256 \<times> u64"

definition v2c_record_all :: "V2ReservesCache \<Rightarrow> sync_event list \<Rightarrow> V2ReservesCache" where
  "v2c_record_all c evs = foldl (\<lambda>c (pool, r0, r1, b). v2c_record c pool r0 r1 b) c evs"

fun newest :: "address \<Rightarrow> sync_event list \<Rightarrow> ReserveSnapshot option" where
  "newest pool [] = None"
| "newest pool ((p, r0, r1, b) # evs) =
     (case newest pool evs of
        Some s \<Rightarrow> if p = pool \<and> rs_block_number s < b
          then Some \<lparr>rs_reserve0 = r0, rs_reserve1 = r1, rs_block_number = b\<rparr> else Some s
      | None \<Rightarrow> if p = pool then Some \<lparr>rs_reserve0 = r0, rs_reserve1 = r1, rs_block_number = b\<rparr> else None)"

text \<open>The later of two snapshots, the second winning ties.\<close>

fun later :: "ReserveSnapshot option \<Rightarrow> ReserveSnapshot option \<Rightarrow> ReserveSnapshot option" where
  "later a None = a"
| "later None b = b"
| "later (Some a) (Some b) = (if rs_block_number b \<ge> rs_block_number a then Some b else Some a)"

lemma later_None [simp]: "later None b = b"
  by (cases b) simp_all

lemma later_assoc: "later (later a b) c = later a (later b c)"
  by (cases a; cases b; cases c) auto

lemma newest_Cons:
  "newest pool ((p, r0, r1, b) # evs) =
    later (if p = pool then Some \<lparr>rs_reserve0 = r0, rs_reserve1 = r1, rs_block_number = b\<rparr> else None) (newest pool evs)"
  by (cases "newest pool evs") (auto simp: not_le)

lemma v2c_record_later:
  "hget (v2c_record c p r0 r1 b) pool =
    later (hget c pool) (if p = pool then Some \<lparr>rs_reserve0 = r0, rs_reserve1 = r1, rs_block_number = b\<rparr> else None)"
  by (auto simp: v2c_record_def hm.get_insert Let_def split: option.splits)

lemma v2c_record_all_later: "hget (v2c_record_all c evs) pool = later (hget c pool) (newest pool evs)"
proof (induction evs arbitrary: c)
  case (Cons ev evs)
  obtain p r0 r1 b where ev: "ev = (p, r0, r1, b)" by (cases ev)
  have "v2c_record_all c (ev # evs) = v2c_record_all (v2c_record c p r0 r1 b) evs" by (simp add: v2c_record_all_def ev)
  then show ?case unfolding ev newest_Cons by (simp only: Cons v2c_record_later later_assoc)
qed (simp add: v2c_record_all_def)

lemma newest_max:
  "newest pool evs = Some s \<Longrightarrow> (pool, r0, r1, b) \<in> set evs \<Longrightarrow> b \<le> rs_block_number s"
proof (induction evs arbitrary: s)
  case (Cons ev evs)
  obtain p q0 q1 c where ev: "ev = (p, q0, q1, c)" by (cases ev)
  show ?case
  proof (cases "newest pool evs")
    case None
    then have "(pool, r0, r1, b) \<notin> set evs"
    proof (induction evs)
      case (Cons e es)
      obtain p' x y z where "e = (p', x, y, z)" by (cases e)
      then show ?case using Cons by (auto split: option.splits if_splits)
    qed simp
    then show ?thesis using Cons.prems None by (auto simp: ev split: if_splits)
  next
    case (Some t)
    then show ?thesis using Cons.prems Cons.IH [OF Some] by (force simp: ev split: if_splits)
  qed
qed simp

text \<open>C23: whatever the order in which the events of a stream arrive, the cache ends with the reserves of an event of
  the highest block recorded for the pool, the latest arrival among several of that block; a pool that never had an
  event stays absent, and a fresh lookup never serves a block older than the lag allows.\<close>

theorem v2_cache_newest_wins:
  "v2c_get (v2c_record_all hnew evs) pool = newest pool evs
    \<and> (\<forall>s r0 r1 b. newest pool evs = Some s \<longrightarrow> (pool, r0, r1, b) \<in> set evs \<longrightarrow> b \<le> rs_block_number s)
    \<and> (\<forall>s target lag. get_fresh (v2c_record_all hnew evs) pool target lag = Some s \<longrightarrow>
         newest pool evs = Some s \<and> unat target \<le> unat (rs_block_number s) + unat lag)"
proof -
  have get: "v2c_get (v2c_record_all hnew evs) pool = newest pool evs"
    by (simp add: v2c_get_def v2c_record_all_later hm.get_new)
  moreover have "unat target \<le> unat (rs_block_number s) + unat lag" "newest pool evs = Some s"
    if "get_fresh (v2c_record_all hnew evs) pool target lag = Some s" for s target lag
    using that by (auto simp: get_fresh_def get_fresh_status_def get Let_def word_le_nat_alt unat_saturating_sub
        split: option.splits if_splits V2CacheLookup.splits)
  ultimately show ?thesis using newest_max by blast
qed

theorem v2_cache_newest_wins_witness:
  "v2c_get (v2c_record_all hnew [(7, 1, 1, 10), (7, 2, 2, 12), (8, 5, 5, 20), (7, 3, 3, 11)]) 7
     = Some \<lparr>rs_reserve0 = 2, rs_reserve1 = 2, rs_block_number = 12\<rparr>"
  using v2_cache_newest_wins [of "[(7, 1, 1, 10), (7, 2, 2, 12), (8, 5, 5, 20), (7, 3, 3, 11)]" 7] by simp

end
