(* ===== verification/Arb_Proto.thy ===== *)
theory Arb_Proto
  imports Common_Types Bytes Swap_Encode
begin

text \<open>
  The message handed to the executor: the conversion of hops, steps and arbitrages to their protobuf form
  (\<^verbatim>\<open>grpc-server/src/pipeline.rs\<close>) and the \<^verbatim>\<open>executeArb\<close> calldata (\<^verbatim>\<open>simulator/src/calldata.rs\<close>). Calls declared with
  \<^verbatim>\<open>sol!\<close> are values; turning them into bytes is the parameter \<open>abi_encode\<close>.
\<close>

section \<open>Calldata\<close>

record SolSwapStep =
  ss_protocol :: u8
  ss_pool :: address
  ss_tokenIn :: address
  ss_tokenOut :: address
  ss_amountIn :: u256
  ss_minAmountOut :: u256
  ss_data :: bytes

record executeArbCall =
  ea_steps :: "SolSwapStep list"
  ea_flashloanToken :: address
  ea_flashloanAmount :: u256
  ea_deadline :: u256
  ea_minProfitOut :: u256
  ea_tipBps :: u256

definition execute_arb_call ::
    "SwapStep list \<Rightarrow> address \<Rightarrow> u256 \<Rightarrow> u256 \<Rightarrow> u256 \<Rightarrow> u256 \<Rightarrow> executeArbCall" where
  "execute_arb_call steps flashloan_token flashloan_amount deadline min_profit_out tip_bps =
     \<lparr>ea_steps = map (\<lambda>s. \<lparr>ss_protocol = protocol_u8 (step_protocol s), ss_pool = step_pool_address s,
          ss_tokenIn = step_token_in s, ss_tokenOut = step_token_out s, ss_amountIn = step_amount_in s,
          ss_minAmountOut = step_min_amount_out s, ss_data = step_calldata s\<rparr>) steps,
      ea_flashloanToken = flashloan_token, ea_flashloanAmount = flashloan_amount, ea_deadline = deadline,
      ea_minProfitOut = min_profit_out, ea_tipBps = tip_bps\<rparr>"

definition build_execute_arb_calldata ::
    "(executeArbCall \<Rightarrow> bytes) \<Rightarrow> SwapStep list \<Rightarrow> address \<Rightarrow> u256 \<Rightarrow> u256 \<Rightarrow> u256 \<Rightarrow> u256 \<Rightarrow> bytes" where
  "build_execute_arb_calldata abi_encode steps flashloan_token flashloan_amount deadline min_profit_out tip_bps =
     abi_encode (execute_arb_call steps flashloan_token flashloan_amount deadline min_profit_out tip_bps)"

definition build_univ2_swap_calldata :: "(sol_call \<Rightarrow> bytes) \<Rightarrow> u256 \<Rightarrow> u256 \<Rightarrow> address \<Rightarrow> bytes" where
  "build_univ2_swap_calldata abi_encode amount0_out amount1_out recipient =
     abi_encode (UniV2Swap amount0_out amount1_out recipient [])"

text \<open>The price limit is clamped to 160 bits; an \<^verbatim>\<open>i128\<close> always converts to \<^verbatim>\<open>I256\<close>.\<close>

definition build_univ3_swap_calldata :: "(sol_call \<Rightarrow> bytes) \<Rightarrow> address \<Rightarrow> bool \<Rightarrow> int \<Rightarrow> u256 \<Rightarrow> bytes" where
  "build_univ3_swap_calldata abi_encode recipient zero_for_one amount_specified sqrt_price_limit_x96 =
     (let max_uint160 = push_bit 160 1 - 1; clamped = min sqrt_price_limit_x96 max_uint160
      in abi_encode (UniV3Swap recipient zero_for_one amount_specified (ucast clamped) []))"

section \<open>Protobuf messages\<close>

definition address_to_bytes :: "address \<Rightarrow> bytes" where
  "address_to_bytes addr = be_bytes 20 (unat addr)"

definition u256_to_bytes :: "u256 \<Rightarrow> bytes" where
  "u256_to_bytes v = be_bytes 32 (unat v)"

text \<open>The numbers of the \<^verbatim>\<open>ProtocolType\<close> enumeration of \<^verbatim>\<open>proto/aether.proto\<close>.\<close>

fun protocol_to_proto :: "ProtocolType \<Rightarrow> int" where
  "protocol_to_proto UniswapV2 = 1"
| "protocol_to_proto UniswapV3 = 2"
| "protocol_to_proto SushiSwap = 3"
| "protocol_to_proto Curve = 4"
| "protocol_to_proto BalancerV2 = 5"
| "protocol_to_proto BancorV3 = 6"
| "protocol_to_proto BalancerV3 = 7"

record proto_hop =
  ph_protocol :: int
  ph_pool_address :: bytes
  ph_token_in :: bytes
  ph_token_out :: bytes
  ph_amount_in :: bytes
  ph_expected_out :: bytes
  ph_estimated_gas :: u64

record proto_step =
  ps_protocol_code :: int
  ps_pool_address :: bytes
  ps_token_in :: bytes
  ps_token_out :: bytes
  ps_amount_in :: bytes
  ps_min_amount_out :: bytes
  ps_calldata :: bytes

datatype ArbSource = SourceUnknown | BlockDriven | MempoolBackrun

record proto_arb =
  pa_id :: string
  pa_hops :: "proto_hop list"
  pa_total_profit_wei :: bytes
  pa_total_gas :: u64
  pa_gas_cost_wei :: bytes
  pa_net_profit_wei :: bytes
  pa_block_number :: u64
  pa_timestamp_ns :: int
  pa_flashloan_token :: bytes
  pa_flashloan_amount :: bytes
  pa_steps :: "proto_step list"
  pa_calldata :: bytes
  pa_source :: ArbSource
  pa_victim_tx_hash :: bytes
  pa_target_block :: u64
  pa_victim_raw_tx :: bytes

definition arb_hop_to_proto :: "ArbHop \<Rightarrow> proto_hop" where
  "arb_hop_to_proto hop =
     \<lparr>ph_protocol = protocol_to_proto (hop_protocol hop), ph_pool_address = address_to_bytes (hop_pool_address hop),
      ph_token_in = address_to_bytes (hop_token_in hop), ph_token_out = address_to_bytes (hop_token_out hop),
      ph_amount_in = u256_to_bytes (hop_amount_in hop), ph_expected_out = u256_to_bytes (hop_expected_out hop),
      ph_estimated_gas = hop_estimated_gas hop\<rparr>"

definition swap_step_to_proto :: "SwapStep \<Rightarrow> proto_step" where
  "swap_step_to_proto s =
     \<lparr>ps_protocol_code = protocol_to_proto (step_protocol s), ps_pool_address = address_to_bytes (step_pool_address s),
      ps_token_in = address_to_bytes (step_token_in s), ps_token_out = address_to_bytes (step_token_out s),
      ps_amount_in = u256_to_bytes (step_amount_in s), ps_min_amount_out = u256_to_bytes (step_min_amount_out s),
      ps_calldata = step_calldata s\<rparr>"

definition validated_arb_to_proto :: "ValidatedArb \<Rightarrow> proto_arb" where
  "validated_arb_to_proto arb =
     \<lparr>pa_id = va_id arb, pa_hops = map arb_hop_to_proto (va_hops arb),
      pa_total_profit_wei = u256_to_bytes (va_total_profit_wei arb), pa_total_gas = va_total_gas arb,
      pa_gas_cost_wei = u256_to_bytes (va_gas_cost_wei arb), pa_net_profit_wei = u256_to_bytes (va_net_profit_wei arb),
      pa_block_number = va_block_number arb, pa_timestamp_ns = va_timestamp_ns arb,
      pa_flashloan_token = address_to_bytes (va_flashloan_token arb),
      pa_flashloan_amount = u256_to_bytes (va_flashloan_amount arb), pa_steps = map swap_step_to_proto (va_steps arb),
      pa_calldata = va_calldata arb, pa_source = BlockDriven, pa_victim_tx_hash = [],
      pa_target_block = saturating_add (va_block_number arb) 1, pa_victim_raw_tx = []\<rparr>"

definition build_validated_arb ::
    "ArbOpportunity \<Rightarrow> SimulationResult \<Rightarrow> address \<Rightarrow> u256 \<Rightarrow> SwapStep list \<Rightarrow> bytes \<Rightarrow> proto_arb" where
  "build_validated_arb opportunity sim_result flashloan_token flashloan_amount steps calldata =
     (let total_gas = (if sim_gas_used sim_result > 0 then sim_gas_used sim_result else opp_total_gas opportunity);
          net_profit_wei = (if sim_profit_wei sim_result > 0 then sim_profit_wei sim_result else opp_net_profit_wei opportunity)
      in \<lparr>pa_id = opp_id opportunity, pa_hops = map arb_hop_to_proto (opp_hops opportunity),
          pa_total_profit_wei = u256_to_bytes (opp_total_profit_wei opportunity), pa_total_gas = total_gas,
          pa_gas_cost_wei = u256_to_bytes (opp_gas_cost_wei opportunity), pa_net_profit_wei = u256_to_bytes net_profit_wei,
          pa_block_number = opp_block_number opportunity, pa_timestamp_ns = opp_timestamp_ns opportunity,
          pa_flashloan_token = address_to_bytes flashloan_token, pa_flashloan_amount = u256_to_bytes flashloan_amount,
          pa_steps = map swap_step_to_proto steps, pa_calldata = calldata, pa_source = BlockDriven,
          pa_victim_tx_hash = [], pa_target_block = saturating_add (opp_block_number opportunity) 1,
          pa_victim_raw_tx = []\<rparr>)"

section \<open>Reading the message back\<close>

text \<open>The fields of the calldata a step of the message must agree with.\<close>

definition proto_step_of_call :: "SolSwapStep \<Rightarrow> proto_step" where
  "proto_step_of_call c =
     \<lparr>ps_protocol_code = uint (ss_protocol c), ps_pool_address = address_to_bytes (ss_pool c),
      ps_token_in = address_to_bytes (ss_tokenIn c), ps_token_out = address_to_bytes (ss_tokenOut c),
      ps_amount_in = u256_to_bytes (ss_amountIn c), ps_min_amount_out = u256_to_bytes (ss_minAmountOut c),
      ps_calldata = ss_data c\<rparr>"

lemma protocol_code_u8: "protocol_to_proto p = uint (protocol_u8 p)"
  by (cases p) simp_all

lemma from_be_be_bytes:
  assumes "(256 :: nat) ^ k = 2 ^ LENGTH('a)"
  shows "from_be (be_bytes k (unat w)) = (w :: 'a::len word)"
proof -
  have "unat w mod 256 ^ k = unat w" unfolding assms by (rule mod_less) (rule unsigned_less)
  then show ?thesis by (simp add: from_be_def be_value_bytes)
qed

lemma address_bytes_round_trip: "from_be (address_to_bytes a) = a"
  unfolding address_to_bytes_def by (rule from_be_be_bytes) simp

lemma u256_bytes_round_trip: "from_be (u256_to_bytes v) = v"
  unfolding u256_to_bytes_def by (rule from_be_be_bytes) simp


end
