(* ===== verification/Engine.thy ===== *)
theory Engine
  imports Snapshot Token_Index Pools Event_Decoder Hot_Cache V2_Reserves Arb_Proto Cycle_Gating
begin

text \<open>
  The state of the engine and the operations that change it (\<^verbatim>\<open>grpc-server/src/engine.rs\<close>): registration and removal
  of pools, the bootstrap from the pool list, the initial fetch of reserves with the token-identity quarantine, the
  pool events and the synchronisation with the hot cache. Every mutation of the working graph is one operation of
  the price graph, in the order of the calls. The node's answers to \<^verbatim>\<open>eth_call\<close>, the order in which concurrent calls
  complete, and the parsing of addresses are parameters. Log lines are not modelled.
\<close>

section \<open>Model\<close>

record EngineConfig =
  ec_max_hops :: nat
  ec_detection_time_budget_us :: u64
  ec_min_profit_threshold_wei :: u128
  ec_gas_price_gwei :: f64
  ec_executor_address :: address
  ec_tip_bps :: u64
  ec_slippage_bps :: u32
  ec_max_parallel_sims :: nat
  ec_gating :: GatingConfig
  ec_min_liquidity_weth :: f64

definition engine_config_default :: EngineConfig where
  "engine_config_default =
     \<lparr>ec_max_hops = 4, ec_detection_time_budget_us = 3000, ec_min_profit_threshold_wei = 5000000000000000,
      ec_gas_price_gwei = Num 30, ec_executor_address = 0, ec_tip_bps = 9000, ec_slippage_bps = 100,
      ec_max_parallel_sims = 4, ec_gating = gating_default, ec_min_liquidity_weth = Num 1\<rparr>"

record PoolMetadata =
  pm_token0_idx :: nat
  pm_token1_idx :: nat
  pm_token0 :: address
  pm_token1 :: address
  pm_pool_id :: PoolId
  pm_protocol :: ProtocolType
  pm_fee_bps :: u32
  pm_tick_spacing :: "int option"
  pm_bytecode_warmed :: bool

definition fee_factor :: "PoolMetadata \<Rightarrow> f64" where
  "fee_factor meta = f64_div (f64_of_word (10000 - pm_fee_bps meta)) (Num 10000)"

definition token_identity_matches :: "address \<Rightarrow> address \<Rightarrow> address \<Rightarrow> address \<Rightarrow> bool" where
  "token_identity_matches meta_t0 meta_t1 chain_t0 chain_t1 \<longleftrightarrow> meta_t0 = chain_t0 \<and> meta_t1 = chain_t1"

record BlockInfo =
  bi_number :: u64
  bi_timestamp :: u64
  bi_base_fee :: u128

text \<open>The row a registration hands to the ledger.\<close>

record NewPool =
  np_address :: address
  np_protocol :: ProtocolType
  np_token0 :: address
  np_token1 :: address
  np_fee_bps :: "u32 option"

record AetherEngine =
  en_config :: EngineConfig
  en_working_graph :: PriceGraph
  en_snapshots :: SnapshotManager
  en_detector :: BellmanFord
  en_current_block :: BlockInfo
  en_token_index :: TokenIndex
  en_pool_registry :: "(address, PoolMetadata) hmap"
  en_pool_states :: PoolStateCache
  en_rpc_provider :: bool
  en_bytecode_cache :: bool
  en_v2_reserves :: V2ReservesCache
  en_hot_cache :: "HotCache option"
  en_ledger_pools :: "NewPool list"
  en_gate_effects :: gate_effects

text \<open>The constructor: the graph starts with a hundred vertices, the token index empty.\<close>

definition engine_new :: "EngineConfig \<Rightarrow> bool \<Rightarrow> bool \<Rightarrow> AetherEngine" where
  "engine_new config rpc_provider bytecode_cache =
     \<lparr>en_config = config, en_working_graph = pg_new 100, en_snapshots = manager_new (pg_new 100),
      en_detector = bf_new (ec_max_hops config) (ec_detection_time_budget_us config),
      en_current_block = \<lparr>bi_number = 0, bi_timestamp = 0, bi_base_fee = 0\<rparr>, en_token_index = ti_new,
      en_pool_registry = hnew, en_pool_states = hnew, en_rpc_provider = rpc_provider,
      en_bytecode_cache = bytecode_cache, en_v2_reserves = hnew, en_hot_cache = None, en_ledger_pools = [],
      en_gate_effects = \<lparr>ge_dropped = hnew, ge_log_budget = 0\<rparr>\<rparr>"

definition u256_to_f64 :: "u256 \<Rightarrow> f64" where
  "u256_to_f64 v =
     f64_add
       (f64_add
         (f64_add (f64_of_word (limb v 0))
           (f64_mul (f64_of_word (limb v 1)) (f64_of_rat 18446744073709551616)))
         (f64_mul (f64_of_word (limb v 2)) (f64_of_rat 340282366920938500000000000000000000000)))
       (f64_mul (f64_of_word (limb v 3)) (f64_of_rat 115792089237316200000000000000000000000000000000000000000000000000000000000000))"

text \<open>A sequence of calls on the locked working graph.\<close>

fun apply_ops :: "(f64 \<Rightarrow> f64) \<Rightarrow> (int \<Rightarrow> f64) \<Rightarrow> PriceGraph \<Rightarrow> pg_op list \<Rightarrow> PriceGraph exec" where
  "apply_ops lnf pow10 g [] = Ret g"
| "apply_ops lnf pow10 g (op # ops) = ebind (pg_step lnf pow10 g op) (\<lambda>g. apply_ops lnf pow10 g ops)"

definition on_graph ::
    "(f64 \<Rightarrow> f64) \<Rightarrow> (int \<Rightarrow> f64) \<Rightarrow> pg_op list \<Rightarrow> AetherEngine \<Rightarrow> AetherEngine exec" where
  "on_graph lnf pow10 ops en =
     emap (\<lambda>g. en\<lparr>en_working_graph := g\<rparr>) (apply_ops lnf pow10 (en_working_graph en) ops)"

text \<open>Both directions of a pool: the reserves of an update, and the spot price of a concentrated-liquidity pool.\<close>

definition reprice_ops :: "PoolMetadata \<Rightarrow> f64 \<Rightarrow> f64 \<Rightarrow> f64 \<Rightarrow> pg_op list" where
  "reprice_ops meta r0 r1 fee =
     [UpdateFromReserves (pm_token0_idx meta) (pm_token1_idx meta) (pm_pool_id meta) r0 r1 fee,
      UpdateFromReserves (pm_token1_idx meta) (pm_token0_idx meta) (pm_pool_id meta) r1 r0 fee]"

definition add_ops :: "PoolMetadata \<Rightarrow> address \<Rightarrow> f64 \<Rightarrow> f64 \<Rightarrow> u256 \<Rightarrow> pg_op list" where
  "add_ops meta pool rate01 rate10 liq =
     [AddEdge (pm_token0_idx meta) (pm_token1_idx meta) rate01 (pm_pool_id meta) pool (pm_protocol meta) liq,
      AddEdge (pm_token1_idx meta) (pm_token0_idx meta) rate10 (pm_pool_id meta) pool (pm_protocol meta) liq]"

definition v3_price :: "u256 \<Rightarrow> f64" where
  "v3_price sqrt_price_x96 =
     (let ratio = f64_div (u256_to_f64 sqrt_price_x96) TWO_POW_96_F64 in f64_mul ratio ratio)"

definition v3_ops :: "PoolMetadata \<Rightarrow> address \<Rightarrow> u256 \<Rightarrow> u128 \<Rightarrow> pg_op list" where
  "v3_ops meta pool sqrt_price_x96 liquidity =
     (let price = v3_price sqrt_price_x96; fee = fee_factor meta; liq = ucast liquidity
      in add_ops meta pool (f64_mul price fee) (f64_mul (f64_div (Num 1) price) fee) liq
         @ (case virtual_reserves sqrt_price_x96 liquidity of
              Some (x_v, y_v) \<Rightarrow> reprice_ops meta x_v y_v fee
            | None \<Rightarrow> []))"

section \<open>Registration\<close>

definition graph_integrated :: "ProtocolType \<Rightarrow> bool" where
  "graph_integrated protocol \<longleftrightarrow> protocol = UniswapV2 \<or> protocol = UniswapV3 \<or> protocol = SushiSwap"

definition token_decimals_or_18 :: "address \<Rightarrow> u8" where
  "token_decimals_or_18 token = (case known_token_decimals token of Some d \<Rightarrow> d | None \<Rightarrow> 18)"

definition register_ops :: "EngineConfig \<Rightarrow> PoolMetadata \<Rightarrow> address \<Rightarrow> nat \<Rightarrow> pg_op list" where
  "register_ops config meta pool num_tokens =
     [Resize num_tokens,
      SetDecimals (pm_token0_idx meta) (token_decimals_or_18 (pm_token0 meta)),
      SetDecimals (pm_token1_idx meta) (token_decimals_or_18 (pm_token1 meta))]
     @ (if pm_token0 meta = WETH then [SetWeth (pm_token0_idx meta), SetFloor (ec_min_liquidity_weth config)]
        else if pm_token1 meta = WETH then [SetWeth (pm_token1_idx meta), SetFloor (ec_min_liquidity_weth config)]
        else [])
     @ (if graph_integrated (pm_protocol meta) then add_ops meta pool (Num 1) (Num 1) 0 else [])"

definition register_pool_with_tick_spacing ::
    "(f64 \<Rightarrow> f64) \<Rightarrow> (int \<Rightarrow> f64) \<Rightarrow> AetherEngine \<Rightarrow> address \<Rightarrow> address \<Rightarrow> address \<Rightarrow> ProtocolType \<Rightarrow> u32
      \<Rightarrow> int option \<Rightarrow> AetherEngine exec" where
  "register_pool_with_tick_spacing lnf pow10 en pool_addr token0 token1 protocol fee_bps tick_spacing =
     (let (t0_idx, ti) = get_or_insert (en_token_index en) token0;
          (t1_idx, ti) = get_or_insert ti token1;
          metadata = \<lparr>pm_token0_idx = t0_idx, pm_token1_idx = t1_idx, pm_token0 = token0, pm_token1 = token1,
            pm_pool_id = \<lparr>pid_address = pool_addr, pid_protocol = protocol\<rparr>, pm_protocol = protocol,
            pm_fee_bps = fee_bps, pm_tick_spacing = tick_spacing, pm_bytecode_warmed = (\<not> en_bytecode_cache en)\<rparr>
      in emap (\<lambda>en. en\<lparr>en_ledger_pools := en_ledger_pools en @ [\<lparr>np_address = pool_addr, np_protocol = protocol,
             np_token0 = token0, np_token1 = token1, np_fee_bps = Some fee_bps\<rparr>]\<rparr>)
           (on_graph lnf pow10 (register_ops (en_config en) metadata pool_addr (ti_len ti))
             (en\<lparr>en_token_index := ti, en_pool_registry := hinsert pool_addr metadata (en_pool_registry en)\<rparr>)))"

definition register_pool ::
    "(f64 \<Rightarrow> f64) \<Rightarrow> (int \<Rightarrow> f64) \<Rightarrow> AetherEngine \<Rightarrow> address \<Rightarrow> address \<Rightarrow> address \<Rightarrow> ProtocolType \<Rightarrow> u32
      \<Rightarrow> AetherEngine exec" where
  "register_pool lnf pow10 en pool_addr token0 token1 protocol fee_bps =
     register_pool_with_tick_spacing lnf pow10 en pool_addr token0 token1 protocol fee_bps None"

definition remove_pool :: "AetherEngine \<Rightarrow> address \<Rightarrow> AetherEngine" where
  "remove_pool en pool_addr =
     (case hget (en_pool_registry en) pool_addr of
        None \<Rightarrow> en
      | Some meta \<Rightarrow>
          let graph = remove_pool_edges (en_working_graph en) (pm_pool_id meta)
          in en\<lparr>en_pool_registry := hremove pool_addr (en_pool_registry en), en_working_graph := graph,
                en_snapshots := publish (en_snapshots en) graph (bi_number (en_current_block en)) 0,
                en_pool_states := hremove pool_addr (en_pool_states en)\<rparr>)"

definition mark_pool_bytecode_warmed :: "AetherEngine \<Rightarrow> address \<Rightarrow> AetherEngine" where
  "mark_pool_bytecode_warmed en pool_addr =
     (case hget (en_pool_registry en) pool_addr of
        Some meta \<Rightarrow> en\<lparr>en_pool_registry := hinsert pool_addr (meta\<lparr>pm_bytecode_warmed := True\<rparr>) (en_pool_registry en)\<rparr>
      | None \<Rightarrow> en)"

definition pool_ready_for_simulation :: "AetherEngine \<Rightarrow> address \<Rightarrow> bool" where
  "pool_ready_for_simulation en pool_addr =
     (case hget (en_pool_registry en) pool_addr of
        Some meta \<Rightarrow> pm_bytecode_warmed meta \<or> \<not> en_bytecode_cache en
      | None \<Rightarrow> False)"

definition set_hot_cache :: "AetherEngine \<Rightarrow> HotCache \<Rightarrow> AetherEngine" where
  "set_hot_cache en cache = en\<lparr>en_hot_cache := Some cache\<rparr>"

section \<open>Bootstrap from the pool list\<close>

record PoolEntry =
  pe_protocol_name :: string
  pe_address :: string
  pe_token0 :: string
  pe_token1 :: string
  pe_fee :: u32
  pe_tick_spacing :: "int option"

definition protocol_of_name :: "string \<Rightarrow> ProtocolType option" where
  "protocol_of_name s =
     (if s = ''uniswap_v2'' then Some UniswapV2 else if s = ''uniswap_v3'' then Some UniswapV3
      else if s = ''sushiswap'' then Some SushiSwap else if s = ''curve'' then Some Curve
      else if s = ''balancer_v2'' then Some BalancerV2 else if s = ''balancer_v3'' then Some BalancerV3
      else if s = ''bancor_v3'' then Some BancorV3 else None)"

text \<open>A parsed address that is not zero.\<close>

definition nonzero_address :: "(string \<Rightarrow> address option) \<Rightarrow> string \<Rightarrow> address option" where
  "nonzero_address parse s = (case parse s of Some a \<Rightarrow> if a \<noteq> 0 then Some a else None | None \<Rightarrow> None)"

fun bootstrap_entries ::
    "(f64 \<Rightarrow> f64) \<Rightarrow> (int \<Rightarrow> f64) \<Rightarrow> (string \<Rightarrow> address option) \<Rightarrow> PoolEntry list \<Rightarrow> u32 \<Rightarrow> AetherEngine
      \<Rightarrow> (u32 \<times> AetherEngine) exec" where
  "bootstrap_entries lnf pow10 parse [] loaded en = Ret (loaded, en)"
| "bootstrap_entries lnf pow10 parse (entry # entries) loaded en =
     (case (protocol_of_name (pe_protocol_name entry), nonzero_address parse (pe_address entry),
            nonzero_address parse (pe_token0 entry), nonzero_address parse (pe_token1 entry)) of
        (Some protocol, Some pool_addr, Some token0, Some token1) \<Rightarrow>
          if hcontains (en_pool_registry en) pool_addr then bootstrap_entries lnf pow10 parse entries loaded en
          else ebind (register_pool_with_tick_spacing lnf pow10 en pool_addr token0 token1 protocol (pe_fee entry)
                       (pe_tick_spacing entry)) (bootstrap_entries lnf pow10 parse entries (loaded + 1))
      | _ \<Rightarrow> bootstrap_entries lnf pow10 parse entries loaded en)"

text \<open>\<^verbatim>\<open>config\<close> is \<open>None\<close> when the file cannot be read or parsed.\<close>

definition bootstrap_pools ::
    "(f64 \<Rightarrow> f64) \<Rightarrow> (int \<Rightarrow> f64) \<Rightarrow> (string \<Rightarrow> address option) \<Rightarrow> PoolEntry list option \<Rightarrow> AetherEngine
      \<Rightarrow> (u32 \<times> AetherEngine) exec" where
  "bootstrap_pools lnf pow10 parse config en =
     (case config of None \<Rightarrow> Ret (0, en) | Some entries \<Rightarrow> bootstrap_entries lnf pow10 parse entries 0 en)"

section \<open>The initial fetch\<close>

datatype eth_call =
    Decimals | Token0 | Token1 | GetReserves | Slot0 | LiquidityCall | ACall | Balances u256
  | GetPoolId | GetPoolTokens bytes | GetNormalizedWeights

text \<open>The node: its answer to a call (\<open>None\<close> for an RPC error), the ABI decoding of the two dynamic results, and
  the order in which the spawned tasks complete.\<close>

record rpc_env =
  rpc_call :: "address \<Rightarrow> eth_call \<Rightarrow> bytes option"
  rpc_pool_balances :: "bytes \<Rightarrow> u256 list option"
  rpc_weights :: "bytes \<Rightarrow> u256 list option"
  rpc_pool_order :: "(address \<times> PoolMetadata) list \<Rightarrow> (address \<times> PoolMetadata) list"
  rpc_token_order :: "(address \<times> nat) list \<Rightarrow> (address \<times> nat) list"

fun unique_tokens :: "(address \<times> PoolMetadata) list \<Rightarrow> (address, nat) hmap \<Rightarrow> (address, nat) hmap" where
  "unique_tokens [] m = m"
| "unique_tokens ((_, meta) # pools) m =
     (let m = (if hcontains m (pm_token0 meta) then m else hinsert (pm_token0 meta) (pm_token0_idx meta) m);
          m = (if hcontains m (pm_token1 meta) then m else hinsert (pm_token1 meta) (pm_token1_idx meta) m)
      in unique_tokens pools m)"

definition decimals_ops :: "rpc_env \<Rightarrow> (address \<times> PoolMetadata) list \<Rightarrow> pg_op list" where
  "decimals_ops rpc pools =
     concat (map (\<lambda>(token, vertex).
         case rpc_call rpc token Decimals of
           Some output \<Rightarrow> if output \<noteq> [] then [SetDecimals vertex (last output)] else []
         | None \<Rightarrow> []) (rpc_token_order rpc (unique_tokens pools hnew)))"

definition call_token_accessor :: "rpc_env \<Rightarrow> address \<Rightarrow> eth_call \<Rightarrow> address option" where
  "call_token_accessor rpc pool_addr call =
     (case rpc_call rpc pool_addr call of
        Some output \<Rightarrow> if length output \<ge> 32 then Some (from_be (take 20 (drop 12 output))) else None
      | None \<Rightarrow> None)"

definition identity_mismatch :: "rpc_env \<Rightarrow> address \<times> PoolMetadata \<Rightarrow> bool" where
  "identity_mismatch rpc = (\<lambda>(pool_addr, meta).
     graph_integrated (pm_protocol meta)
     \<and> (case (call_token_accessor rpc pool_addr Token0, call_token_accessor rpc pool_addr Token1) of
          (Some chain_t0, Some chain_t1) \<Rightarrow> \<not> token_identity_matches (pm_token0 meta) (pm_token1 meta) chain_t0 chain_t1
        | _ \<Rightarrow> False))"

definition fetch_token_identity_quarantine :: "rpc_env \<Rightarrow> (address \<times> PoolMetadata) list \<Rightarrow> address list" where
  "fetch_token_identity_quarantine rpc pools = map fst (filter (identity_mismatch rpc) pools)"

datatype ReserveResult =
    RR_V2 address PoolMetadata u256 u256
  | RR_V3 address PoolMetadata u256 int u128
  | RR_Curve address PoolMetadata u256 u256 u256
  | RR_Balancer address PoolMetadata u256 u256 u256 u256
  | RR_Skipped "PoolMetadata option"

definition first_word :: "bytes \<Rightarrow> u256" where
  "first_word out = from_be (take 32 out)"

definition slot0_tick :: "bytes \<Rightarrow> int" where
  "slot0_tick raw =
     (let low24 = uint (raw ! 29) * 65536 + uint (raw ! 30) * 256 + uint (raw ! 31)
      in if raw ! 0 \<noteq> 0 then low24 - 16777216 else low24)"

definition v3_liquidity_of :: "bytes option \<Rightarrow> u128" where
  "v3_liquidity_of out =
     (case out of
        Some out \<Rightarrow> if length out \<ge> 32 \<and> uint (first_word out) < 2 ^ 128 then ucast (first_word out) else 0
      | None \<Rightarrow> 0)"

definition BALANCER_V2_VAULT :: address where
  "BALANCER_V2_VAULT = 0xBA12222222228d8Ba445958a75a0704d566BF2C8"

definition word_result :: "rpc_env \<Rightarrow> address \<Rightarrow> eth_call \<Rightarrow> bytes option" where
  "word_result rpc a c =
     (case rpc_call rpc a c of Some out \<Rightarrow> if length out \<ge> 32 then Some (take 32 out) else None | None \<Rightarrow> None)"

fun two_of :: "u256 list option \<Rightarrow> (u256 \<times> u256) option" where
  "two_of (Some (x # y # _)) = Some (x, y)"
| "two_of _ = None"

definition fetch_balancer :: "rpc_env \<Rightarrow> address \<Rightarrow> (u256 \<times> u256 \<times> u256 \<times> u256) option" where
  "fetch_balancer rpc pool_addr =
     (case word_result rpc pool_addr GetPoolId of
        None \<Rightarrow> None
      | Some pool_id \<Rightarrow>
          (case Option.bind (rpc_call rpc BALANCER_V2_VAULT (GetPoolTokens pool_id)) (\<lambda>out. two_of (rpc_pool_balances rpc out)) of
             None \<Rightarrow> None
           | Some (b0, b1) \<Rightarrow>
               (case Option.bind (rpc_call rpc pool_addr GetNormalizedWeights) (\<lambda>out. two_of (rpc_weights rpc out)) of
                  None \<Rightarrow> None
                | Some (w0, w1) \<Rightarrow> Some (b0, b1, w0, w1))))"

definition fetch_pool :: "rpc_env \<Rightarrow> address \<times> PoolMetadata \<Rightarrow> ReserveResult" where
  "fetch_pool rpc = (\<lambda>(pool_addr, meta).
     let skipped = RR_Skipped (Some meta) in
     case pm_protocol meta of
       UniswapV2 \<Rightarrow> (case rpc_call rpc pool_addr GetReserves of
           Some out \<Rightarrow> if length out \<ge> 96 then RR_V2 pool_addr meta (first_word out) (first_word (drop 32 out)) else skipped
         | None \<Rightarrow> skipped)
     | SushiSwap \<Rightarrow> (case rpc_call rpc pool_addr GetReserves of
           Some out \<Rightarrow> if length out \<ge> 96 then RR_V2 pool_addr meta (first_word out) (first_word (drop 32 out)) else skipped
         | None \<Rightarrow> skipped)
     | UniswapV3 \<Rightarrow> (case rpc_call rpc pool_addr Slot0 of
           Some out \<Rightarrow> if length out \<ge> 64
             then RR_V3 pool_addr meta (first_word out) (slot0_tick (drop 32 out)) (v3_liquidity_of (rpc_call rpc pool_addr LiquidityCall))
             else skipped
         | None \<Rightarrow> skipped)
     | Curve \<Rightarrow> (case (word_result rpc pool_addr ACall, word_result rpc pool_addr (Balances 0), word_result rpc pool_addr (Balances 1)) of
           (Some a, Some b0, Some b1) \<Rightarrow> RR_Curve pool_addr meta (from_be a) (from_be b0) (from_be b1)
         | _ \<Rightarrow> skipped)
     | BalancerV2 \<Rightarrow> (case fetch_balancer rpc pool_addr of
           Some (b0, b1, w0, w1) \<Rightarrow> RR_Balancer pool_addr meta b0 b1 w0 w1 | None \<Rightarrow> skipped)
     | _ \<Rightarrow> skipped)"

definition build_v2_pool_state :: "address \<Rightarrow> PoolMetadata \<Rightarrow> u256 \<Rightarrow> u256 \<Rightarrow> PoolState" where
  "build_v2_pool_state pool_addr meta reserve0 reserve1 =
     (let p = v2_update_state (v2_new pool_addr (pm_token0 meta) (pm_token1 meta) (pm_fee_bps meta)) reserve0 reserve1
      in case pm_protocol meta of SushiSwap \<Rightarrow> PS_SushiSwap p | _ \<Rightarrow> PS_UniswapV2 p)"

definition build_v3_pool_state :: "address \<Rightarrow> PoolMetadata \<Rightarrow> u256 \<Rightarrow> u128 \<Rightarrow> int \<Rightarrow> PoolState" where
  "build_v3_pool_state pool_addr meta sqrt_price_x96 liquidity tick =
     PS_UniswapV3 (update_sqrt_price (v3_new pool_addr (pm_token0 meta) (pm_token1 meta) (pm_fee_bps meta)
       (case pm_tick_spacing meta of Some t \<Rightarrow> t | None \<Rightarrow> 0)) sqrt_price_x96 liquidity tick)"

definition to_u64_saturating :: "u256 \<Rightarrow> u64" where
  "to_u64_saturating x = (if uint x < 2 ^ 64 then ucast x else - 1)"

definition cache_state :: "address \<Rightarrow> PoolState \<Rightarrow> AetherEngine \<Rightarrow> AetherEngine" where
  "cache_state pool_addr st en = en\<lparr>en_pool_states := hinsert pool_addr st (en_pool_states en)\<rparr>"

text \<open>The loop that applies the fetched results to the locked graph.\<close>

definition apply_reserve ::
    "(f64 \<Rightarrow> f64) \<Rightarrow> (int \<Rightarrow> f64) \<Rightarrow> address list \<Rightarrow> ReserveResult \<Rightarrow> AetherEngine \<Rightarrow> AetherEngine exec" where
  "apply_reserve lnf pow10 quarantined result en =
     (case result of
        RR_V2 pool_addr meta r0 r1 \<Rightarrow>
          if pool_addr \<in> set quarantined then Ret en
          else
            let r0_f = u256_to_f64 r0; r1_f = u256_to_f64 r1
            in if f64_lt (Num 0) r0_f \<and> f64_lt (Num 0) r1_f
               then emap (cache_state pool_addr (build_v2_pool_state pool_addr meta r0 r1))
                      (on_graph lnf pow10 (reprice_ops meta r0_f r1_f (fee_factor meta)) en)
               else Ret en
      | RR_V3 pool_addr meta sqrt_price_x96 tick liquidity \<Rightarrow>
          if pool_addr \<in> set quarantined then Ret en
          else if f64_lt (Num 0) (v3_price sqrt_price_x96)
            then emap (cache_state pool_addr (build_v3_pool_state pool_addr meta sqrt_price_x96 liquidity tick))
                   (on_graph lnf pow10 (v3_ops meta pool_addr sqrt_price_x96 liquidity) en)
            else Ret en
      | RR_Curve pool_addr meta a b0 b1 \<Rightarrow>
          Ret (cache_state pool_addr (PS_Curve ((curve_new pool_addr [pm_token0 meta, pm_token1 meta]
            (to_u64_saturating a) (pm_fee_bps meta))\<lparr>curve_balances := [b0, b1]\<rparr>)) en)
      | RR_Balancer pool_addr meta b0 b1 w0 w1 \<Rightarrow>
          Ret (cache_state pool_addr (PS_Balancer (bal_update_state (bal_new pool_addr (pm_token0 meta) (pm_token1 meta)
            (to_u64_saturating w0) (to_u64_saturating w1) (pm_fee_bps meta)) b0 b1)) en)
      | RR_Skipped (Some meta) \<Rightarrow>
          on_graph lnf pow10 [SetFiltered (pm_token0_idx meta) (pm_token1_idx meta) (pm_pool_id meta) True,
            SetFiltered (pm_token1_idx meta) (pm_token0_idx meta) (pm_pool_id meta) True] en
      | RR_Skipped None \<Rightarrow> Ret en)"

fun apply_reserves ::
    "(f64 \<Rightarrow> f64) \<Rightarrow> (int \<Rightarrow> f64) \<Rightarrow> address list \<Rightarrow> ReserveResult list \<Rightarrow> AetherEngine \<Rightarrow> AetherEngine exec" where
  "apply_reserves lnf pow10 quarantined [] en = Ret en"
| "apply_reserves lnf pow10 quarantined (r # rs) en =
     ebind (apply_reserve lnf pow10 quarantined r en) (apply_reserves lnf pow10 quarantined rs)"

definition publish_working :: "AetherEngine \<Rightarrow> AetherEngine" where
  "publish_working en = en\<lparr>en_snapshots := publish (en_snapshots en) (en_working_graph en)
     (bi_number (en_current_block en)) (sint (bi_timestamp (en_current_block en)))\<rparr>"

definition fetch_initial_reserves_filtered ::
    "(f64 \<Rightarrow> f64) \<Rightarrow> (int \<Rightarrow> f64) \<Rightarrow> rpc_env \<Rightarrow> address list option \<Rightarrow> AetherEngine \<Rightarrow> AetherEngine exec" where
  "fetch_initial_reserves_filtered lnf pow10 rpc only_addresses en =
     (if \<not> en_rpc_provider en then Ret en
      else
        let pools = filter (\<lambda>(addr, _). case only_addresses of Some set' \<Rightarrow> addr \<in> set set' | None \<Rightarrow> True) (en_pool_registry en)
        in if pools = [] then Ret en
           else ebind (on_graph lnf pow10 (decimals_ops rpc pools) en) (\<lambda>en.
                  let quarantined = fetch_token_identity_quarantine rpc pools
                  in emap publish_working
                       (apply_reserves lnf pow10 quarantined (map (fetch_pool rpc) (rpc_pool_order rpc pools)) en)))"

definition fetch_reserves_for_addresses ::
    "(f64 \<Rightarrow> f64) \<Rightarrow> (int \<Rightarrow> f64) \<Rightarrow> rpc_env \<Rightarrow> address list \<Rightarrow> AetherEngine \<Rightarrow> AetherEngine exec" where
  "fetch_reserves_for_addresses lnf pow10 rpc addresses en =
     (if addresses = [] then Ret en else fetch_initial_reserves_filtered lnf pow10 rpc (Some addresses) en)"

section \<open>Pool events\<close>

definition handle_pool_update ::
    "(f64 \<Rightarrow> f64) \<Rightarrow> (int \<Rightarrow> f64) \<Rightarrow> PoolEvent \<Rightarrow> AetherEngine \<Rightarrow> AetherEngine exec" where
  "handle_pool_update lnf pow10 event en =
     (case event of
        ReserveUpdate pool protocol reserve0 reserve1 \<Rightarrow>
          let en = (if protocol = UniswapV2 \<or> protocol = SushiSwap
                    then en\<lparr>en_v2_reserves := v2c_record (en_v2_reserves en) pool reserve0 reserve1
                              (bi_number (en_current_block en))\<rparr> else en)
          in (case hget (en_pool_registry en) pool of
                None \<Rightarrow> Ret en
              | Some meta \<Rightarrow>
                  let r0 = u256_to_f64 reserve0; r1 = u256_to_f64 reserve1
                  in if f64_lt (Num 0) r0 \<and> f64_lt (Num 0) r1
                     then emap (\<lambda>en. if pm_protocol meta = UniswapV2 \<or> pm_protocol meta = SushiSwap
                                     then cache_state pool (build_v2_pool_state pool meta reserve0 reserve1) en else en)
                            (on_graph lnf pow10 (reprice_ops meta r0 r1 (fee_factor meta)) en)
                     else Ret en)
      | V2Swap pool sender recipient a0_in a1_in a0_out a1_out \<Rightarrow> Ret en
      | V3Update pool sqrt_price_x96 liquidity tick \<Rightarrow>
          (case hget (en_pool_registry en) pool of
             None \<Rightarrow> Ret en
           | Some meta \<Rightarrow>
               if f64_lt (Num 0) (v3_price sqrt_price_x96)
               then emap (cache_state pool (build_v3_pool_state pool meta sqrt_price_x96 liquidity tick))
                      (on_graph lnf pow10 (v3_ops meta pool sqrt_price_x96 liquidity) en)
               else Ret en)
      | PoolCreated token0 token1 pool \<Rightarrow> register_pool lnf pow10 en pool token0 token1 UniswapV2 30)"

section \<open>Synchronisation with the hot cache\<close>

text \<open>\<open>prewarm\<close> is the outcome of the timed pre-warm: \<open>None\<close> when it timed out, else the verdict per address.\<close>

fun register_added ::
    "(f64 \<Rightarrow> f64) \<Rightarrow> (int \<Rightarrow> f64) \<Rightarrow> bool \<Rightarrow> (address \<Rightarrow> bool) \<Rightarrow> PoolInfo list \<Rightarrow> AetherEngine \<Rightarrow> AetherEngine exec" where
  "register_added lnf pow10 require_prewarm warmed [] en = Ret en"
| "register_added lnf pow10 require_prewarm warmed (pool # pools) en =
     (if hcontains (en_pool_registry en) (pi_address pool) \<or> (require_prewarm \<and> \<not> warmed (pi_address pool))
      then register_added lnf pow10 require_prewarm warmed pools en
      else ebind (register_pool lnf pow10 en (pi_address pool) (pi_token0 pool) (pi_token1 pool) (pi_protocol pool) (pi_fee_bps pool))
             (\<lambda>en. register_added lnf pow10 require_prewarm warmed pools
                     (if require_prewarm then mark_pool_bytecode_warmed en (pi_address pool) else en)))"

definition sync_hot_cache_pools ::
    "(f64 \<Rightarrow> f64) \<Rightarrow> (int \<Rightarrow> f64) \<Rightarrow> rpc_env \<Rightarrow> (address \<Rightarrow> bool) option \<Rightarrow> PoolInfo list \<Rightarrow> address list \<Rightarrow> AetherEngine
      \<Rightarrow> AetherEngine exec" where
  "sync_hot_cache_pools lnf pow10 rpc prewarm added removed en =
     (let en = foldl remove_pool en removed;
          require_prewarm = (en_rpc_provider en \<and> en_bytecode_cache en);
          warmed = (case prewarm of Some ok \<Rightarrow> ok | None \<Rightarrow> (\<lambda>_. False))
      in ebind (register_added lnf pow10 require_prewarm warmed added en) (\<lambda>en.
           if added \<noteq> [] \<and> en_rpc_provider en
           then fetch_reserves_for_addresses lnf pow10 rpc
                  (map pi_address (filter (\<lambda>p. \<not> require_prewarm \<or> warmed (pi_address p)) added)) en
           else Ret en))"

end
