(* ===== verification/Engine_Inv.thy ===== *)
theory Engine_Inv
  imports Engine
begin

text \<open>
  The invariant of the engine: the working graph and the published snapshot are consistent, every edge joins two
  indexed tokens and carries its pool's identity, every registered pool resolves to the vertices of its tokens, and
  every cached pool state belongs to a registered pool. No operation panics.
\<close>

section \<open>Graph operations\<close>

definition edge_ok :: "nat \<Rightarrow> PriceEdge \<Rightarrow> bool" where
  "edge_ok n e \<longleftrightarrow> pe_from e < n \<and> pe_to e < n \<and> pe_pool_address e = pid_address (pe_pool_id e)
     \<and> pe_protocol e = pid_protocol (pe_pool_id e)"

definition edges_ok :: "nat \<Rightarrow> PriceGraph \<Rightarrow> bool" where
  "edges_ok n g \<longleftrightarrow> list_all (edge_ok n) (pg_all_edges g)"

lemma edges_ok_mono: "edges_ok n g \<Longrightarrow> n \<le> m \<Longrightarrow> edges_ok m g"
  by (auto simp: edges_ok_def edge_ok_def list_all_iff)

text \<open>What the engine owes to the graph for each call.\<close>

fun op_ok :: "nat \<Rightarrow> pg_op \<Rightarrow> bool" where
  "op_ok n (AddEdge src dst _ i addr proto _) \<longleftrightarrow> src < n \<and> dst < n \<and> addr = pid_address i \<and> proto = pid_protocol i"
| "op_ok n (UpdateFromReserves src _ _ _ _ _) \<longleftrightarrow> src < n"
| "op_ok n (SetFiltered src _ _ _) \<longleftrightarrow> src < n"
| "op_ok n (RemovePool _) \<longleftrightarrow> False"
| "op_ok n (RetainPools _) \<longleftrightarrow> False"
| "op_ok n _ \<longleftrightarrow> True"

text \<open>The keys a call is sure to leave in the graph, besides those already there.\<close>

fun added_keys :: "pg_op \<Rightarrow> edge_key set" where
  "added_keys (AddEdge src dst _ i _ _ _) = {(src, dst, i)}"
| "added_keys _ = {}"

definition abs_ok :: "nat \<Rightarrow> abs_graph \<Rightarrow> bool" where
  "abs_ok n a \<longleftrightarrow> (\<forall>k e. fst a k = Some e \<longrightarrow> edge_ok n e)"

lemma edges_ok_view: "pg_inv g \<Longrightarrow> edges_ok n g \<longleftrightarrow> abs_ok n (pg_view g)"
  unfolding edges_ok_def list_all_iff abs_ok_def pg_view_def ran_pg_abs [symmetric] by (auto simp: ran_def simp del: split_paired_Ex)

lemma abs_ok_modify:
  assumes "\<And>e. edge_ok n e \<Longrightarrow> edge_ok n (f e)" and "abs_ok n a"
  shows "abs_ok n (abs_modify k f a)"
  using assms by (cases a) (auto simp: abs_modify_def abs_ok_def split: option.splits if_splits)

lemma abs_ok_drop: "abs_ok n a \<Longrightarrow> abs_ok n (abs_drop is a)"
  by (cases a) (auto simp: abs_drop_def abs_ok_def split: if_splits)

lemma abs_step_ok:
  assumes "op_ok n op" and "abs_ok n a"
  shows "abs_ok n (abs_step lnf pow10 g op a)"
proof -
  obtain m d where a: "a = (m, d)" by (cases a)
  show ?thesis
  proof (cases op)
    case (AddEdge src dst rate i addr proto liq)
    show ?thesis
    proof (cases "m (src, dst, i)")
      case None
      then show ?thesis using assms unfolding AddEdge a by (auto simp: abs_ok_def edge_ok_def split: if_splits)
    next
      case (Some e)
      then show ?thesis using assms(2) unfolding AddEdge a by (auto intro!: abs_ok_modify simp: edge_ok_def)
    qed
  next
    case (UpdateFromReserves src dst i rin rout fee)
    then show ?thesis using assms(2) by (auto intro!: abs_ok_modify simp: edge_ok_def priced_def)
  next
    case (SetFiltered src dst i b)
    then show ?thesis using assms(2) by (auto intro!: abs_ok_modify simp: edge_ok_def)
  next
    case (RetainPools allowed)
    then show ?thesis using assms(2) by (auto simp: a dest: abs_ok_drop)
  qed (use assms(2) in \<open>auto simp: a abs_ok_def abs_drop_def split: if_splits\<close>)
qed

lemma dom_modify [simp]: "dom (fst (abs_modify k f a)) = dom (fst a)"
  by (cases a) (auto simp: abs_modify_def split: option.splits)

lemma abs_step_dom:
  assumes "op_ok n op"
  shows "dom (fst (abs_step lnf pow10 g op a)) = dom (fst a) \<union> added_keys op"
proof -
  obtain m d where a: "a = (m, d)" by (cases a)
  show ?thesis
  proof (cases op)
    case (AddEdge src dst rate i addr proto liq)
    then show ?thesis by (cases "m (src, dst, i)") (auto simp: a)
  qed (use assms in \<open>auto simp: a\<close>)
qed

lemma mirror_edge_vertices: "mirror_edge g src dst i f = Ret (Some g') \<Longrightarrow> pg_num_vertices g' = pg_num_vertices g"
  by (auto simp: mirror_edge_def exec_simps split: option.splits)

lemma mirror_map_vertices:
  "emap (\<lambda>r. case r of Some g' \<Rightarrow> g' | None \<Rightarrow> g) (mirror_edge g src dst i f) = Ret g' \<Longrightarrow> pg_num_vertices g' = pg_num_vertices g"
  by (auto simp: exec_simps split: option.splits dest: mirror_edge_vertices)

lemma add_edge_vertices: "add_edge lnf g src dst r i a p l = Ret g' \<Longrightarrow> pg_num_vertices g' = pg_num_vertices g"
  by (auto simp: add_edge_def Let_def exec_simps split: option.splits dest: mirror_edge_vertices)

lemma retain_vertices: "pg_num_vertices (foldl remove_pool_edges g is) = pg_num_vertices g"
  by (induction "is" arbitrary: g) (simp_all add: remove_pool_edges_def Let_def)

lemma pg_step_vertices:
  assumes "pg_step lnf pow10 g op = Ret g'"
  shows "pg_num_vertices g' = (case op of Resize n \<Rightarrow> max (pg_num_vertices g) n | _ \<Rightarrow> pg_num_vertices g)"
  using assms
  by (cases op) (auto simp: update_edge_from_reserves_def set_edge_filtered_def Let_def clear_dirty_def remove_pool_edges_def
      clone_retaining_pools_def retain_vertices pg_resize_def set_token_decimals_def set_weth_vertex_def
      set_min_liquidity_weth_def split: if_splits dest: mirror_map_vertices add_edge_vertices)

lemma pg_step_ok:
  assumes "pg_inv g" and "edges_ok n g" and "n \<le> pg_num_vertices g" and "op_ok n op"
  shows "\<exists>g'. pg_step lnf pow10 g op = Ret g' \<and> pg_inv g' \<and> edges_ok n g' \<and> pg_num_vertices g \<le> pg_num_vertices g'
    \<and> pg_view g' = abs_step lnf pow10 g op (pg_view g)"
proof -
  have "pg_op_ok g op" using assms(3,4) by (cases op) auto
  then obtain g' where g': "pg_step lnf pow10 g op = Ret g'" "pg_inv g'"
    "pg_view g' = abs_step lnf pow10 g op (pg_view g)"
    using pg_step_refines_aux [OF assms(1)] by blast
  moreover have "edges_ok n g'"
    using abs_step_ok [OF assms(4), of "pg_view g" lnf pow10 g] assms(2)
    unfolding edges_ok_view [OF g'(2)] edges_ok_view [OF assms(1)] g'(3) by simp
  moreover have "pg_num_vertices g \<le> pg_num_vertices g'"
    using pg_step_vertices [OF g'(1)] by (cases op) auto
  ultimately show ?thesis by blast
qed

lemma apply_ops_ok:
  assumes "pg_inv g" and "edges_ok n g" and "n \<le> pg_num_vertices g" and "list_all (op_ok n) ops"
  shows "\<exists>g'. apply_ops lnf pow10 g ops = Ret g' \<and> pg_inv g' \<and> edges_ok n g' \<and> pg_num_vertices g \<le> pg_num_vertices g'
    \<and> dom (fst (pg_view g')) = dom (fst (pg_view g)) \<union> \<Union> (added_keys ` set ops)"
  using assms
proof (induction ops arbitrary: g)
  case (Cons op ops)
  then obtain g1 where g1: "pg_step lnf pow10 g op = Ret g1" "pg_inv g1" "edges_ok n g1"
    "pg_num_vertices g \<le> pg_num_vertices g1" "pg_view g1 = abs_step lnf pow10 g op (pg_view g)"
    using pg_step_ok [of g n op lnf pow10] by auto
  have dom: "dom (fst (pg_view g1)) = dom (fst (pg_view g)) \<union> added_keys op"
    unfolding g1(5) using abs_step_dom [of n op] Cons.prems(4) by simp
  have "n \<le> pg_num_vertices g1" using Cons.prems(3) g1(4) by simp
  then obtain g2 where "apply_ops lnf pow10 g1 ops = Ret g2" "pg_inv g2" "edges_ok n g2" "pg_num_vertices g1 \<le> pg_num_vertices g2"
    "dom (fst (pg_view g2)) = dom (fst (pg_view g1)) \<union> \<Union> (added_keys ` set ops)"
    using Cons.IH [OF g1(2,3)] Cons.prems(4) by auto
  then show ?case using g1 dom by (simp add: Un_assoc)
qed simp

section \<open>The invariant\<close>

definition meta_ok :: "TokenIndex \<Rightarrow> address \<Rightarrow> PoolMetadata \<Rightarrow> bool" where
  "meta_ok ti addr meta \<longleftrightarrow> pm_pool_id meta = \<lparr>pid_address = addr, pid_protocol = pm_protocol meta\<rparr>
     \<and> get_address ti (pm_token0_idx meta) = Some (pm_token0 meta)
     \<and> get_address ti (pm_token1_idx meta) = Some (pm_token1 meta)"

definition graph_ok :: "TokenIndex \<Rightarrow> PriceGraph \<Rightarrow> bool" where
  "graph_ok ti g \<longleftrightarrow> pg_inv g \<and> edges_ok (ti_len ti) g"

definition registry_ok :: "TokenIndex \<Rightarrow> (address, PoolMetadata) hmap \<Rightarrow> bool" where
  "registry_ok ti reg \<longleftrightarrow> hmap_ok reg \<and> (\<forall>addr meta. hget reg addr = Some meta \<longrightarrow> meta_ok ti addr meta)"

definition states_ok :: "(address, PoolMetadata) hmap \<Rightarrow> PoolStateCache \<Rightarrow> bool" where
  "states_ok reg states \<longleftrightarrow> (\<forall>addr s. hget states addr = Some s \<longrightarrow> ps_address s = addr \<and> hget reg addr \<noteq> None)"

text \<open>Both directed edges of every integrated pool exist.\<close>

definition linked :: "(address, PoolMetadata) hmap \<Rightarrow> PriceGraph \<Rightarrow> bool" where
  "linked reg g \<longleftrightarrow> (\<forall>addr meta. hget reg addr = Some meta \<longrightarrow> graph_integrated (pm_protocol meta) \<longrightarrow>
     {(pm_token0_idx meta, pm_token1_idx meta, pm_pool_id meta), (pm_token1_idx meta, pm_token0_idx meta, pm_pool_id meta)}
       \<subseteq> dom (fst (pg_view g)))"

lemma linked_mono: "linked reg g \<Longrightarrow> dom (fst (pg_view g)) \<subseteq> dom (fst (pg_view g')) \<Longrightarrow> linked reg g'"
  unfolding linked_def by blast

definition en_inv :: "AetherEngine \<Rightarrow> bool" where
  "en_inv en \<longleftrightarrow>
     ti_inv (en_token_index en)
     \<and> graph_ok (en_token_index en) (en_working_graph en)
     \<and> ti_len (en_token_index en) \<le> pg_num_vertices (en_working_graph en)
     \<and> graph_ok (en_token_index en) (gs_graph (sm_current (en_snapshots en)))
     \<and> registry_ok (en_token_index en) (en_pool_registry en)
     \<and> states_ok (en_pool_registry en) (en_pool_states en)
     \<and> linked (en_pool_registry en) (en_working_graph en)"

lemma en_invD:
  assumes "en_inv en"
  shows "ti_inv (en_token_index en)" "graph_ok (en_token_index en) (en_working_graph en)"
    "ti_len (en_token_index en) \<le> pg_num_vertices (en_working_graph en)"
    "graph_ok (en_token_index en) (gs_graph (sm_current (en_snapshots en)))"
    "registry_ok (en_token_index en) (en_pool_registry en)"
    "states_ok (en_pool_registry en) (en_pool_states en)" "linked (en_pool_registry en) (en_working_graph en)"
  using assms by (simp_all add: en_inv_def)

lemma en_inv_new: "en_inv (engine_new config rpc bytecode)"
  by (simp add: en_inv_def engine_new_def graph_ok_def edges_ok_def registry_ok_def states_ok_def linked_def manager_new_def
      snapshot_new_def ti_inv_new pg_inv_new hm.ok_new hm.get_new) (simp add: pg_new_def ti_new_def ti_len_def)

lemma get_address_less: "get_address ti i = Some a \<Longrightarrow> i < ti_len ti"
  by (simp add: get_address_def list_get_Some_iff ti_len_def)

lemma meta_okD:
  assumes "meta_ok ti addr meta"
  shows "pm_token0_idx meta < ti_len ti" "pm_token1_idx meta < ti_len ti" "pid_address (pm_pool_id meta) = addr"
    "pid_protocol (pm_pool_id meta) = pm_protocol meta"
  using assms by (auto simp: meta_ok_def dest: get_address_less)

lemma reprice_ops_ok: "meta_ok ti addr meta \<Longrightarrow> list_all (op_ok (ti_len ti)) (reprice_ops meta r0 r1 fee)"
  by (simp add: reprice_ops_def meta_okD)

lemma add_ops_ok: "meta_ok ti addr meta \<Longrightarrow> list_all (op_ok (ti_len ti)) (add_ops meta addr x y liq)"
  by (simp add: add_ops_def meta_okD)

lemma v3_ops_ok: "meta_ok ti addr meta \<Longrightarrow> list_all (op_ok (ti_len ti)) (v3_ops meta addr s l)"
  by (auto simp: v3_ops_def Let_def add_ops_ok reprice_ops_ok split: option.split)

lemma on_graph_ok:
  assumes "en_inv en" and "list_all (op_ok (ti_len (en_token_index en))) ops"
  shows "\<exists>g. on_graph lnf pow10 ops en = Ret (en\<lparr>en_working_graph := g\<rparr>) \<and> en_inv (en\<lparr>en_working_graph := g\<rparr>)"
proof -
  note inv = en_invD [OF assms(1)]
  from inv(2) obtain g where "apply_ops lnf pow10 (en_working_graph en) ops = Ret g" "pg_inv g"
    "edges_ok (ti_len (en_token_index en)) g" "pg_num_vertices (en_working_graph en) \<le> pg_num_vertices g"
    "dom (fst (pg_view (en_working_graph en))) \<subseteq> dom (fst (pg_view g))"
    using apply_ops_ok [OF _ _ inv(3) assms(2)] by (fastforce simp: graph_ok_def)
  then show ?thesis using assms(1) linked_mono by (auto simp: on_graph_def en_inv_def graph_ok_def)
qed

lemma registry_okD: "registry_ok ti reg \<Longrightarrow> hget reg addr = Some meta \<Longrightarrow> meta_ok ti addr meta"
  by (simp add: registry_ok_def)

lemma cache_state_inv:
  assumes "en_inv en" and "ps_address st = addr" and "hget (en_pool_registry en) addr \<noteq> None"
  shows "en_inv (cache_state addr st en)"
  using assms by (auto simp: en_inv_def cache_state_def states_ok_def hm.get_insert split: if_splits)

lemma built_state_address [simp]:
  "ps_address (build_v2_pool_state addr meta r0 r1) = addr"
  "ps_address (build_v3_pool_state addr meta s l t) = addr"
  by (auto simp: build_v2_pool_state_def build_v3_pool_state_def Let_def v2_update_state_def v2_new_def
      update_sqrt_price_def v3_new_def split: ProtocolType.split)

section \<open>Registration and removal\<close>

lemma get_or_insert_len: "ti_len ti \<le> ti_len (snd (get_or_insert ti a))"
  by (cases "get_index ti a") (simp_all add: get_or_insert_known get_or_insert_fresh ti_len_def)

lemma meta_ok_stable:
  "meta_ok ti addr meta \<Longrightarrow> meta_ok (snd (get_or_insert ti a)) addr meta"
  by (simp add: meta_ok_def get_or_insert_stable)

text \<open>The invariant when the token index has grown and the graph has room for it.\<close>

lemma en_inv_grow:
  assumes "en_inv en" and "ti_inv ti" and "\<And>i b. get_address (en_token_index en) i = Some b \<Longrightarrow> get_address ti i = Some b"
    and "ti_len (en_token_index en) \<le> ti_len ti" and "meta_ok ti pool meta"
    and "graph_ok ti g" and "ti_len ti \<le> pg_num_vertices g"
    and "linked (hinsert pool meta (en_pool_registry en)) g"
  shows "en_inv (en\<lparr>en_token_index := ti, en_pool_registry := hinsert pool meta (en_pool_registry en), en_working_graph := g\<rparr>)"
proof -
  note inv = en_invD [OF assms(1)]
  have "meta_ok ti addr m" if "meta_ok (en_token_index en) addr m" for addr m
    using that assms(3) by (simp add: meta_ok_def)
  then show ?thesis
    using assms inv unfolding en_inv_def registry_ok_def states_ok_def
    by (auto simp: hm.get_insert hm.ok_insert graph_ok_def intro: edges_ok_mono)
qed

lemma register_ops_split:
  assumes "meta_ok ti pool meta"
  shows "\<exists>rest. register_ops config meta pool n = Resize n # rest \<and> list_all (op_ok (ti_len ti)) rest
    \<and> (graph_integrated (pm_protocol meta) \<longrightarrow> set (add_ops meta pool (Num 1) (Num 1) 0) \<subseteq> set rest)"
  using add_ops_ok [OF assms] by (simp add: register_ops_def) blast

lemma register_pool_inv:
  assumes "en_inv en"
  shows "\<exists>en'. register_pool_with_tick_spacing lnf pow10 en pool t0 t1 proto fee ts = Ret en' \<and> en_inv en'
    \<and> hget (en_pool_registry en') pool \<noteq> None
    \<and> (\<forall>a. hget (en_pool_registry en) a \<noteq> None \<longrightarrow> hget (en_pool_registry en') a \<noteq> None)
    \<and> en_rpc_provider en' = en_rpc_provider en"
proof -
  note inv = en_invD [OF assms]
  define ti0 where "ti0 = en_token_index en"
  obtain i0 ti1 where s0: "get_or_insert ti0 t0 = (i0, ti1)" by fastforce
  obtain i1 ti where s1: "get_or_insert ti1 t1 = (i1, ti)" by fastforce
  define meta where "meta = \<lparr>pm_token0_idx = i0, pm_token1_idx = i1, pm_token0 = t0, pm_token1 = t1,
    pm_pool_id = \<lparr>pid_address = pool, pid_protocol = proto\<rparr>, pm_protocol = proto, pm_fee_bps = fee,
    pm_tick_spacing = ts, pm_bytecode_warmed = (\<not> en_bytecode_cache en)\<rparr>"
  have tis: "ti_inv ti1" "ti_inv ti" using inv(1) ti_inv_insert s0 s1 by (metis snd_conv ti0_def)+
  have idx: "get_address ti i0 = Some t0" "get_address ti i1 = Some t1"
    using get_or_insert_returns [OF inv(1), of t0] get_or_insert_returns [OF tis(1), of t1] s0 s1
      get_or_insert_stable [of ti1 i0 t0 t1] by (simp_all add: ti0_def)
  then have meta: "meta_ok ti pool meta" by (simp add: meta_ok_def meta_def)
  have stable: "get_address ti i = Some b" if "get_address ti0 i = Some b" for i b
    using get_or_insert_stable [of ti0 i b t0] get_or_insert_stable [of ti1 i b t1] that s0 s1 by simp
  have grow: "ti_len ti0 \<le> ti_len ti" using get_or_insert_len [of ti0 t0] get_or_insert_len [of ti1 t1] s0 s1 by simp
  define g0 where "g0 = pg_resize (en_working_graph en) (ti_len ti)"
  have g0: "pg_inv g0" "edges_ok (ti_len ti) g0" "ti_len ti \<le> pg_num_vertices g0"
    using inv(2,3) grow pg_inv_resize [of "en_working_graph en" "ti_len ti"]
    by (auto simp: g0_def graph_ok_def ti0_def [symmetric] pg_resize_def edges_ok_def list_all_iff edge_ok_def dest: less_le_trans)
  have view: "pg_view g0 = pg_view (en_working_graph en)"
    using inv(2) pg_resize_view by (simp add: g0_def graph_ok_def)
  obtain rest where ops: "register_ops (en_config en) meta pool (ti_len ti) = Resize (ti_len ti) # rest"
    "list_all (op_ok (ti_len ti)) rest" "graph_integrated proto \<Longrightarrow> set (add_ops meta pool (Num 1) (Num 1) 0) \<subseteq> set rest"
    using register_ops_split [OF meta, of "en_config en" "ti_len ti"] by (auto simp: meta_def)
  obtain g where g: "apply_ops lnf pow10 g0 rest = Ret g" "pg_inv g" "edges_ok (ti_len ti) g" "pg_num_vertices g0 \<le> pg_num_vertices g"
    "dom (fst (pg_view g)) = dom (fst (pg_view (en_working_graph en))) \<union> \<Union> (added_keys ` set rest)"
    using apply_ops_ok [OF g0 ops(2), of lnf pow10] unfolding view by blast
  have "added_keys op \<subseteq> dom (fst (pg_view g))" if "op \<in> set (add_ops meta pool (Num 1) (Num 1) 0)" "graph_integrated proto" for op
    using that ops(3) g(5) by blast
  then have "{(i0, i1, pm_pool_id meta), (i1, i0, pm_pool_id meta)} \<subseteq> dom (fst (pg_view g))" if "graph_integrated proto"
    using that unfolding add_ops_def by (fastforce simp: meta_def)
  then have link: "linked (hinsert pool meta (en_pool_registry en)) g"
    using linked_mono [OF inv(7), of g] g(5) unfolding linked_def
    by (auto simp: hm.get_insert meta_def split: if_splits)
  have run: "apply_ops lnf pow10 (en_working_graph en) (register_ops (en_config en) meta pool (ti_len ti)) = Ret g"
    using g(1) by (simp add: ops(1) g0_def)
  have "en_inv (en\<lparr>en_token_index := ti, en_pool_registry := hinsert pool meta (en_pool_registry en), en_working_graph := g\<rparr>)"
    using en_inv_grow [OF assms tis(2) stable [unfolded ti0_def] grow [unfolded ti0_def] meta, of g] g g0(3) link
    by (simp add: graph_ok_def)
  then have "en_inv (en\<lparr>en_token_index := ti, en_pool_registry := hinsert pool meta (en_pool_registry en), en_working_graph := g,
      en_ledger_pools := L\<rparr>)" for L by (simp add: en_inv_def)
  then show ?thesis
    using run s0 s1 by (simp add: register_pool_with_tick_spacing_def ti0_def [symmetric] meta_def [symmetric] Let_def
        on_graph_def hm.get_insert)
qed

lemma remove_pool_inv:
  assumes "en_inv en"
  shows "en_inv (remove_pool en addr)"
proof (cases "hget (en_pool_registry en) addr")
  case (Some meta)
  note inv = en_invD [OF assms]
  have "pg_inv (remove_pool_edges (en_working_graph en) (pm_pool_id meta))"
    "edges_ok (ti_len (en_token_index en)) (remove_pool_edges (en_working_graph en) (pm_pool_id meta))"
    using inv(2) pg_inv_remove pg_remove_simps(1) by (auto simp: graph_ok_def edges_ok_def list_all_iff)
  moreover have "linked (hremove addr (en_pool_registry en)) (remove_pool_edges (en_working_graph en) (pm_pool_id meta))"
  proof -
    have "pm_pool_id m \<noteq> pm_pool_id meta" if "a \<noteq> addr" "hget (en_pool_registry en) a = Some m" for a m
      using that registry_okD [OF inv(5)] Some meta_okD(3) by metis
    moreover have "fst (pg_view (remove_pool_edges (en_working_graph en) (pm_pool_id meta)))
        = (\<lambda>k. if snd (snd k) = pm_pool_id meta then None else fst (pg_view (en_working_graph en)) k)"
      using inv(2) pg_abs_remove by (simp add: pg_view_def graph_ok_def cong: if_cong)
    ultimately show ?thesis using inv(7) unfolding linked_def
      by (auto simp: hm.get_remove dom_def split: if_splits)
  qed
  ultimately show ?thesis using Some inv
    by (auto simp: remove_pool_def Let_def en_inv_def graph_ok_def registry_ok_def states_ok_def hm.get_remove hm.ok_remove
        publish_def publish_fetch_def publish_store_def snapshot_new_def remove_pool_edges_def split: if_splits)
qed (simp add: remove_pool_def assms)

lemma linked_warmed:
  assumes "linked reg g" and "hget reg addr = Some meta"
  shows "linked (hinsert addr (meta\<lparr>pm_bytecode_warmed := True\<rparr>) reg) g"
  using assms unfolding linked_def by (simp only: hm.get_insert) (simp split: if_split)

lemma mark_warmed_inv: "en_inv en \<Longrightarrow> en_inv (mark_pool_bytecode_warmed en addr)"
  using linked_warmed
  by (auto simp: mark_pool_bytecode_warmed_def en_inv_def registry_ok_def states_ok_def hm.get_insert hm.ok_insert meta_ok_def
      split: option.split)

section \<open>Fetches, events and the hot cache\<close>

text \<open>An outcome that returns, keeps the invariant, and changes neither the tokens nor the registry.\<close>

definition keeps :: "AetherEngine \<Rightarrow> AetherEngine exec \<Rightarrow> bool" where
  "keeps en m \<longleftrightarrow> (\<exists>en'. m = Ret en' \<and> en_inv en' \<and> en_token_index en' = en_token_index en
     \<and> en_pool_registry en' = en_pool_registry en)"

lemma keeps_Ret: "en_inv en \<Longrightarrow> keeps en (Ret en)"
  by (simp add: keeps_def)

lemma keeps_graph:
  "en_inv en \<Longrightarrow> list_all (op_ok (ti_len (en_token_index en))) ops \<Longrightarrow> keeps en (on_graph lnf pow10 ops en)"
  using on_graph_ok [of en ops lnf pow10] by (auto simp: keeps_def)

lemma keeps_cache:
  "keeps en m \<Longrightarrow> ps_address st = addr \<Longrightarrow> hget (en_pool_registry en) addr \<noteq> None \<Longrightarrow> keeps en (emap (cache_state addr st) m)"
  by (auto simp: keeps_def cache_state_inv) (simp add: cache_state_def)+

lemma keeps_cache_Ret:
  "en_inv en \<Longrightarrow> ps_address st = addr \<Longrightarrow> hget (en_pool_registry en) addr \<noteq> None \<Longrightarrow> keeps en (Ret (cache_state addr st en))"
  using keeps_cache [OF keeps_Ret] by simp

lemma keeps_bind: "keeps en m \<Longrightarrow> (\<And>en'. en_inv en' \<Longrightarrow> en_token_index en' = en_token_index en \<Longrightarrow>
    en_pool_registry en' = en_pool_registry en \<Longrightarrow> keeps en' (f en')) \<Longrightarrow> keeps en (ebind m f)"
  by (fastforce simp: keeps_def)

lemma keeps_inv: "keeps en m \<Longrightarrow> \<exists>en'. m = Ret en' \<and> en_inv en'"
  by (auto simp: keeps_def)

definition known :: "AetherEngine \<Rightarrow> address \<Rightarrow> PoolMetadata \<Rightarrow> bool" where
  "known en addr meta \<longleftrightarrow> hget (en_pool_registry en) addr = Some meta"

fun result_ok :: "AetherEngine \<Rightarrow> ReserveResult \<Rightarrow> bool" where
  "result_ok en (RR_V2 addr meta _ _) \<longleftrightarrow> known en addr meta"
| "result_ok en (RR_V3 addr meta _ _ _) \<longleftrightarrow> known en addr meta"
| "result_ok en (RR_Curve addr meta _ _ _) \<longleftrightarrow> known en addr meta"
| "result_ok en (RR_Balancer addr meta _ _ _ _) \<longleftrightarrow> known en addr meta"
| "result_ok en (RR_Skipped (Some meta)) \<longleftrightarrow> (\<exists>addr. known en addr meta)"
| "result_ok en (RR_Skipped None) \<longleftrightarrow> True"

lemma known_meta: "en_inv en \<Longrightarrow> known en addr meta \<Longrightarrow> meta_ok (en_token_index en) addr meta"
  by (simp add: known_def registry_okD [OF en_invD(5)])

lemma fetch_pool_ok: "known en addr meta \<Longrightarrow> result_ok en (fetch_pool rpc (addr, meta))"
  by (auto simp: fetch_pool_def Let_def split: ProtocolType.split option.split)

lemma apply_reserve_keeps:
  assumes "en_inv en" and "result_ok en r"
  shows "keeps en (apply_reserve lnf pow10 quarantined r en)"
proof (cases r)
  case (RR_V2 addr meta r0 r1)
  with assms have "known en addr meta" "meta_ok (en_token_index en) addr meta" by (auto intro: known_meta)
  then show ?thesis unfolding RR_V2 apply_reserve_def Let_def
    by (auto simp: known_def intro!: keeps_Ret keeps_cache keeps_graph reprice_ops_ok assms(1))
next
  case (RR_V3 addr meta s t l)
  with assms have "known en addr meta" "meta_ok (en_token_index en) addr meta" by (auto intro: known_meta)
  then show ?thesis unfolding RR_V3 apply_reserve_def
    by (auto simp: known_def intro!: keeps_Ret keeps_cache keeps_graph v3_ops_ok assms(1))
next
  case (RR_Curve addr meta a b0 b1)
  with assms show ?thesis unfolding apply_reserve_def
    by (auto intro!: keeps_cache_Ret simp: known_def curve_new_def)
next
  case (RR_Balancer addr meta b0 b1 w0 w1)
  with assms show ?thesis unfolding apply_reserve_def
    by (auto intro!: keeps_cache_Ret simp: known_def bal_new_def bal_update_state_def)
next
  case (RR_Skipped m)
  show ?thesis
  proof (cases m)
    case (Some meta)
    with assms RR_Skipped obtain addr where "meta_ok (en_token_index en) addr meta" by (auto dest: known_meta)
    then show ?thesis unfolding RR_Skipped Some apply_reserve_def
      using keeps_graph [OF assms(1)] by (simp add: meta_okD)
  qed (simp add: RR_Skipped apply_reserve_def keeps_Ret assms(1))
qed

lemma result_ok_frame: "en_pool_registry en' = en_pool_registry en \<Longrightarrow> result_ok en' r = result_ok en r"
  by (cases "(en, r)" rule: result_ok.cases) (simp_all add: known_def)

lemma apply_reserves_keeps:
  assumes "en_inv en" and "list_all (result_ok en) rs"
  shows "keeps en (apply_reserves lnf pow10 quarantined rs en)"
  using assms
proof (induction rs arbitrary: en)
  case (Cons r rs)
  have "keeps en' (apply_reserves lnf pow10 quarantined rs en')"
    if "en_inv en'" "en_pool_registry en' = en_pool_registry en" for en'
    using Cons.IH [OF that(1)] Cons.prems(2) result_ok_frame [OF that(2)] by (simp add: list_all_iff)
  then show ?case using apply_reserve_keeps Cons.prems by (auto intro!: keeps_bind)
qed (simp add: keeps_Ret)

text \<open>The contract of the task set: every spawned task completes once.\<close>

definition rpc_ok :: "rpc_env \<Rightarrow> bool" where
  "rpc_ok rpc \<longleftrightarrow> (\<forall>xs. mset (rpc_pool_order rpc xs) = mset xs) \<and> (\<forall>xs. mset (rpc_token_order rpc xs) = mset xs)"

lemma publish_inv:
  "en_inv en \<Longrightarrow> graph_ok (en_token_index en) g \<Longrightarrow> en_inv (en\<lparr>en_snapshots := publish (en_snapshots en) g b t\<rparr>)"
  by (simp add: en_inv_def publish_def publish_fetch_def publish_store_def snapshot_new_def Let_def)

lemma keeps_publish: "keeps en m \<Longrightarrow> keeps en (emap publish_working m)"
  unfolding keeps_def publish_working_def using publish_inv en_invD(2) by fastforce

lemma decimals_ops_ok: "list_all (op_ok n) (decimals_ops rpc pools)"
  by (auto simp: decimals_ops_def list_all_iff split: option.splits if_splits)

lemma fetch_keeps:
  assumes "en_inv en" and "rpc_ok rpc"
  shows "keeps en (fetch_initial_reserves_filtered lnf pow10 rpc only en)"
proof -
  define pools where "pools = filter (\<lambda>(addr, _). case only of Some s \<Rightarrow> addr \<in> set s | None \<Rightarrow> True) (en_pool_registry en)"
  have order: "set (rpc_pool_order rpc pools) = set pools" using assms(2) by (metis rpc_ok_def set_mset_mset)
  have reg: "hmap_ok (en_pool_registry en)" using en_invD(5) [OF assms(1)] by (simp add: registry_ok_def)
  have pool: "known en addr meta" if "(addr, meta) \<in> set pools" for addr meta
  proof -
    have "(addr, meta) \<in> set (en_pool_registry en)" using that by (simp add: pools_def)
    then show ?thesis using reg by (simp add: known_def hget_def hmap_ok_def)
  qed
  have "result_ok en (fetch_pool rpc x)" if "x \<in> set pools" for x
    using fetch_pool_ok [OF pool, of "fst x" "snd x"] that by simp
  then have ok: "list_all (result_ok en) (map (fetch_pool rpc) (rpc_pool_order rpc pools))"
    unfolding list_all_iff set_map order by - (rule ballI, elim imageE, simp only:)
  have "keeps en (ebind (on_graph lnf pow10 (decimals_ops rpc pools) en) (\<lambda>en. emap publish_working
      (apply_reserves lnf pow10 (fetch_token_identity_quarantine rpc pools) (map (fetch_pool rpc) (rpc_pool_order rpc pools)) en)))"
  proof (rule keeps_bind [OF keeps_graph [OF assms(1) decimals_ops_ok]])
    fix en' assume en': "en_inv en'" "en_pool_registry en' = en_pool_registry en"
    have "list_all (result_ok en') (map (fetch_pool rpc) (rpc_pool_order rpc pools))"
      using ok unfolding list_all_iff result_ok_frame [OF en'(2)] .
    then show "keeps en' (emap publish_working (apply_reserves lnf pow10 (fetch_token_identity_quarantine rpc pools)
        (map (fetch_pool rpc) (rpc_pool_order rpc pools)) en'))"
      by (rule keeps_publish [OF apply_reserves_keeps [OF en'(1)]])
  qed
  then show ?thesis
    using keeps_Ret [OF assms(1)] unfolding fetch_initial_reserves_filtered_def pools_def [symmetric] Let_def by simp
qed

lemma v2_record_inv: "en_inv en \<Longrightarrow> en_inv (en\<lparr>en_v2_reserves := c\<rparr>)"
  by (simp add: en_inv_def)

lemma pool_update_inv:
  assumes "en_inv en"
  shows "\<exists>en'. handle_pool_update lnf pow10 event en = Ret en' \<and> en_inv en'"
proof (cases event)
  case (ReserveUpdate pool protocol reserve0 reserve1)
  define en1 where "en1 = (if protocol = UniswapV2 \<or> protocol = SushiSwap
      then en\<lparr>en_v2_reserves := v2c_record (en_v2_reserves en) pool reserve0 reserve1 (bi_number (en_current_block en))\<rparr> else en)"
  have en1: "en_inv en1" using assms by (simp add: en1_def v2_record_inv)
  show ?thesis
  proof (cases "hget (en_pool_registry en1) pool")
    case None
    then show ?thesis using en1 by (simp add: ReserveUpdate handle_pool_update_def Let_def en1_def [symmetric])
  next
    case (Some meta)
    have ok: "meta_ok (en_token_index en1) pool meta" using registry_okD [OF en_invD(5) [OF en1] Some] .
    let ?st = "build_v2_pool_state pool meta reserve0 reserve1"
    obtain en2 where en2: "on_graph lnf pow10 (reprice_ops meta (u256_to_f64 reserve0) (u256_to_f64 reserve1) (fee_factor meta)) en1 = Ret en2"
      "en_inv en2" "en_pool_registry en2 = en_pool_registry en1"
      using keeps_graph [OF en1 reprice_ops_ok [OF ok], of lnf pow10 "u256_to_f64 reserve0" "u256_to_f64 reserve1" "fee_factor meta"]
      by (auto simp: keeps_def)
    then have "en_inv (cache_state pool ?st en2)" using Some by (simp add: cache_state_inv)
    then show ?thesis using en2 en1 Some
      by (simp add: ReserveUpdate handle_pool_update_def Let_def en1_def [symmetric])
  qed
next
  case (V3Update pool sqrt_price liquidity tick)
  show ?thesis
  proof (cases "hget (en_pool_registry en) pool")
    case (Some meta)
    have "meta_ok (en_token_index en) pool meta" using registry_okD [OF en_invD(5) [OF assms] Some] .
    then have "keeps en (emap (cache_state pool (build_v3_pool_state pool meta sqrt_price liquidity tick))
        (on_graph lnf pow10 (v3_ops meta pool sqrt_price liquidity) en))"
      using Some assms by (auto intro!: keeps_cache keeps_graph v3_ops_ok)
    then show ?thesis using Some assms keeps_inv by (simp add: V3Update handle_pool_update_def)
  qed (simp add: V3Update handle_pool_update_def assms)
next
  case (PoolCreated t0 t1 pool)
  then show ?thesis using register_pool_inv [OF assms]
    by (auto simp: handle_pool_update_def register_pool_def) (metis register_pool_inv [OF assms])
qed (simp add: handle_pool_update_def assms)

lemma bootstrap_inv:
  "en_inv en \<Longrightarrow> \<exists>loaded' en'. bootstrap_entries lnf pow10 parse entries loaded en = Ret (loaded', en') \<and> en_inv en'"
proof (induction entries arbitrary: loaded en)
  case (Cons entry entries)
  show ?case
  proof (cases "\<exists>protocol pool t0 t1. protocol_of_name (pe_protocol_name entry) = Some protocol
      \<and> nonzero_address parse (pe_address entry) = Some pool \<and> nonzero_address parse (pe_token0 entry) = Some t0
      \<and> nonzero_address parse (pe_token1 entry) = Some t1 \<and> \<not> hcontains (en_pool_registry en) pool")
    case True
    then obtain protocol pool t0 t1 where e: "protocol_of_name (pe_protocol_name entry) = Some protocol"
      "nonzero_address parse (pe_address entry) = Some pool" "nonzero_address parse (pe_token0 entry) = Some t0"
      "nonzero_address parse (pe_token1 entry) = Some t1" "\<not> hcontains (en_pool_registry en) pool" by blast
    obtain en1 where "register_pool_with_tick_spacing lnf pow10 en pool t0 t1 protocol (pe_fee entry) (pe_tick_spacing entry) = Ret en1"
      "en_inv en1" using register_pool_inv [OF Cons.prems] by blast
    then show ?thesis using Cons.IH [of en1 "loaded + 1"] e by simp
  next
    case False
    then have "bootstrap_entries lnf pow10 parse (entry # entries) loaded en = bootstrap_entries lnf pow10 parse entries loaded en"
      by (auto split: option.split)
    then show ?thesis using Cons by simp
  qed
qed simp

lemma register_added_inv:
  "en_inv en \<Longrightarrow> \<exists>en'. register_added lnf pow10 require warmed pools en = Ret en' \<and> en_inv en'"
proof (induction pools arbitrary: en)
  case (Cons pool pools)
  obtain en1 where "register_pool lnf pow10 en (pi_address pool) (pi_token0 pool) (pi_token1 pool) (pi_protocol pool) (pi_fee_bps pool) = Ret en1"
    "en_inv en1" using register_pool_inv [OF Cons.prems] unfolding register_pool_def by blast
  then show ?case using Cons mark_warmed_inv by simp
qed simp

lemma sync_inv:
  assumes "en_inv en" and "rpc_ok rpc"
  shows "\<exists>en'. sync_hot_cache_pools lnf pow10 rpc prewarm added removed en = Ret en' \<and> en_inv en'"
proof -
  define en0 where "en0 = foldl remove_pool en removed"
  have "en_inv en0" unfolding en0_def using assms(1) by (induction removed arbitrary: en) (simp_all add: remove_pool_inv)
  then obtain en1 where en1: "register_added lnf pow10 (en_rpc_provider en0 \<and> en_bytecode_cache en0)
      (case prewarm of Some ok \<Rightarrow> ok | None \<Rightarrow> (\<lambda>_. False)) added en0 = Ret en1" "en_inv en1"
    using register_added_inv by blast
  then have "\<exists>en'. fetch_reserves_for_addresses lnf pow10 rpc addrs en1 = Ret en' \<and> en_inv en'" for addrs
    using keeps_inv [OF fetch_keeps [OF en1(2) assms(2)]] by (simp add: fetch_reserves_for_addresses_def)
  with en1 show ?thesis by (simp add: sync_hot_cache_pools_def Let_def en0_def [symmetric])
qed

end
