(* ===== verification/Backrun_Sizing.thy ===== *)
theory Backrun_Sizing
  imports Pools Gas Optimizer Cycle_Gating Token_Index
begin

text \<open>
  Sizing of a mempool backrun (\<^verbatim>\<open>grpc-server/src/mempool_pipeline.rs\<close>): from a detected cycle to swap steps, the
  exact chain of pool quotes behind a candidate input, the ternary search over it, and the limits written into the
  steps. A quote may panic, so the search runs over a profit function that may panic.
\<close>

section \<open>Model\<close>

definition AAVE_FLASHLOAN_PREMIUM_BPS :: int where
  "AAVE_FLASHLOAN_PREMIUM_BPS = 9"

definition BACKRUN_SLIPPAGE_BPS :: u32 where
  "BACKRUN_SLIPPAGE_BPS = 100"

definition OPTIMIZE_MIN_INPUT_WEI :: u256 where
  "OPTIMIZE_MIN_INPUT_WEI = 1000000000000000"

definition OPTIMIZE_MAX_INPUT_WEI :: u256 where
  "OPTIMIZE_MAX_INPUT_WEI = 50000000000000000000"

definition OPTIMIZE_ITERATIONS :: u32 where
  "OPTIMIZE_ITERATIONS = 80"

record OptimizedSizing =
  os_input_amount :: u256
  os_per_hop_expected_out :: "u256 list"
  os_net_profit_wei :: int

datatype SizingOutcome = SizeFallback | BelowMinProfit | Sized OptimizedSizing

fun poolstate_quote :: "PoolState \<Rightarrow> address \<Rightarrow> u256 \<Rightarrow> u256 option exec" where
  "poolstate_quote (PS_UniswapV2 p) token_in amount_in = v2_get_amount_out p token_in amount_in"
| "poolstate_quote (PS_SushiSwap p) token_in amount_in = v2_get_amount_out p token_in amount_in"
| "poolstate_quote (PS_UniswapV3 p) token_in amount_in = Ret (v3_get_amount_out p token_in amount_in)"
| "poolstate_quote (PS_Curve p) token_in amount_in = curve_get_amount_out p token_in amount_in"
| "poolstate_quote (PS_Balancer p) token_in amount_in = bal_get_amount_out p token_in amount_in"
| "poolstate_quote (PS_BalancerV3 p) token_in amount_in = bal3_get_amount_out p token_in amount_in"
| "poolstate_quote (PS_Bancor p) token_in amount_in = ban_get_amount_out p token_in amount_in"

definition u112_reserve :: "f64 \<Rightarrow> u256" where
  "u112_reserve v = word_of_int (min (f64_to_u128 v) (2 ^ 112 - 1))"

definition victim_post_reserves :: "UniswapV2Pool \<Rightarrow> address \<Rightarrow> f64 \<Rightarrow> f64 \<Rightarrow> (u256 \<times> u256) option" where
  "victim_post_reserves pool victim_token_in post_in post_out =
     (if \<not> (is_finite post_in \<and> is_finite post_out) \<or> f64_le post_in (Num 0) \<or> f64_le post_out (Num 0) then None
      else
        let r_in = u112_reserve post_in; r_out = u112_reserve post_out
        in if victim_token_in = v2_token0 pool then Some (r_in, r_out) else Some (r_out, r_in))"

definition saturating_u256_to_i128 :: "u256 \<Rightarrow> int" where
  "saturating_u256_to_i128 v = min (uint v) (2 ^ 127 - 1)"

text \<open>Saturating arithmetic and the wrapping cast on \<^verbatim>\<open>i128\<close>.\<close>

definition sat_i128 :: "int \<Rightarrow> int" where
  "sat_i128 x = max (- (2 ^ 127)) (min (2 ^ 127 - 1) x)"

definition as_i128 :: "int \<Rightarrow> int" where
  "as_i128 x = (x + 2 ^ 127) mod 2 ^ 128 - 2 ^ 127"

text \<open>The post-victim reserves are laid over a constant-product victim pool only.\<close>

definition overlay_victim :: "address \<Rightarrow> address \<Rightarrow> f64 \<Rightarrow> f64 \<Rightarrow> address \<Rightarrow> PoolState \<Rightarrow> PoolState" where
  "overlay_victim victim_pool victim_token_in post_in post_out addr ps =
     (if addr = victim_pool then
        (case ps of
           PS_UniswapV2 p \<Rightarrow> (case victim_post_reserves p victim_token_in post_in post_out of
             Some (r0, r1) \<Rightarrow> PS_UniswapV2 (v2_update_state p r0 r1) | None \<Rightarrow> ps)
         | PS_SushiSwap p \<Rightarrow> (case victim_post_reserves p victim_token_in post_in post_out of
             Some (r0, r1) \<Rightarrow> PS_SushiSwap (v2_update_state p r0 r1) | None \<Rightarrow> ps)
         | _ \<Rightarrow> ps)
      else ps)"

fun resolve_hops :: "PoolStateCache \<Rightarrow> (address \<Rightarrow> PoolState \<Rightarrow> PoolState) \<Rightarrow> SwapStep list \<Rightarrow> PoolState list option" where
  "resolve_hops cache overlay [] = Some []"
| "resolve_hops cache overlay (step # steps) =
     (case hget cache (step_pool_address step) of
        None \<Rightarrow> None
      | Some ps \<Rightarrow> map_option ((#) (overlay (step_pool_address step) ps)) (resolve_hops cache overlay steps))"

text \<open>The chain of quotes for an input: \<open>None\<close> when a hop has no quote or quotes zero.\<close>

fun run_chain :: "(PoolState \<times> address) list \<Rightarrow> address \<Rightarrow> u256 \<Rightarrow> u256 option exec" where
  "run_chain [] current_token current = Ret (Some current)"
| "run_chain ((ps, token_out) # rest) current_token current =
     eobind (poolstate_quote ps current_token current) (\<lambda>out.
       if out = 0 then Ret None else run_chain rest token_out out)"

definition profit_of :: "(PoolState \<times> address) list \<Rightarrow> address \<Rightarrow> int \<Rightarrow> u256 \<Rightarrow> int exec" where
  "profit_of hops token_in0 gas_cost input =
     emap (\<lambda>r. case r of
         None \<Rightarrow> - (2 ^ 127) div 2
       | Some gross_out \<Rightarrow>
           let premium = sat_i128 (saturating_u256_to_i128 input * AAVE_FLASHLOAN_PREMIUM_BPS) div 10000
           in sat_i128 (sat_i128 (sat_i128 (saturating_u256_to_i128 gross_out - saturating_u256_to_i128 input) - as_i128 gas_cost)
                - premium))
       (run_chain hops token_in0 input)"

text \<open>The ternary search of \<^verbatim>\<open>detector/src/optimizer.rs\<close> with a profit function that may panic.\<close>

fun ternary_loop_m :: "nat \<Rightarrow> (u256 \<Rightarrow> int exec) \<Rightarrow> u256 \<Rightarrow> u256 \<Rightarrow> (u256 \<times> u256) exec" where
  "ternary_loop_m 0 profit_fn lo hi = Ret (lo, hi)"
| "ternary_loop_m (Suc k) profit_fn lo hi =
     (if hi \<le> lo + 2 then Ret (lo, hi)
      else
        let third = (hi - lo) div 3; m1 = lo + third; m2 = hi - third
        in ebind (profit_fn m1) (\<lambda>p1. ebind (profit_fn m2) (\<lambda>p2.
             if p1 < p2 then ternary_loop_m k profit_fn m1 hi else ternary_loop_m k profit_fn lo m2)))"

definition ternary_search_m :: "u256 \<Rightarrow> u256 \<Rightarrow> u32 \<Rightarrow> (u256 \<Rightarrow> int exec) \<Rightarrow> (u256 \<times> int) exec" where
  "ternary_search_m min_input max_input iterations profit_fn =
     ebind (ternary_loop_m (unat iterations) profit_fn min_input max_input) (\<lambda>(lo, hi).
       let optimal = lo + (hi - lo) div 2 in emap (Pair optimal) (profit_fn optimal))"

text \<open>The recomputation of every hop's output at the chosen input.\<close>

fun hop_outputs :: "(PoolState \<times> address) list \<Rightarrow> address \<Rightarrow> u256 \<Rightarrow> u256 list option exec" where
  "hop_outputs [] current_token current = Ret (Some [])"
| "hop_outputs ((ps, token_out) # rest) current_token current =
     eobind (poolstate_quote ps current_token current) (\<lambda>out.
       emap (map_option ((#) out)) (hop_outputs rest token_out out))"

definition first_reserve_in :: "PoolState \<Rightarrow> address \<Rightarrow> u256" where
  "first_reserve_in ps token_in0 =
     (case ps of
        PS_UniswapV2 p \<Rightarrow> if token_in0 = v2_token0 p then v2_reserve0 p else v2_reserve1 p
      | PS_SushiSwap p \<Rightarrow> if token_in0 = v2_token0 p then v2_reserve0 p else v2_reserve1 p
      | _ \<Rightarrow> OPTIMIZE_MAX_INPUT_WEI)"

definition size_hops :: "(PoolState \<times> address) list \<Rightarrow> address \<Rightarrow> int \<Rightarrow> u256 \<Rightarrow> SizingOutcome exec" where
  "size_hops hops token_in0 gas_cost min_profit_wei =
     (let profit_fn = profit_of hops token_in0 gas_cost;
          depth_cap = min (first_reserve_in (fst (hd hops)) token_in0 div 2) OPTIMIZE_MAX_INPUT_WEI;
          min_input = OPTIMIZE_MIN_INPUT_WEI;
          max_input = min depth_cap OPTIMIZE_MAX_INPUT_WEI
      in ebind (if min_input < max_input then ternary_search_m min_input max_input OPTIMIZE_ITERATIONS profit_fn
                else emap (Pair min_input) (profit_fn min_input)) (\<lambda>(optimal_input, net_profit).
           if net_profit \<le> 0 then Ret BelowMinProfit
           else if (word_of_int net_profit :: u256) < min_profit_wei then Ret BelowMinProfit
           else emap (\<lambda>r. case r of
               None \<Rightarrow> SizeFallback
             | Some outs \<Rightarrow> Sized \<lparr>os_input_amount = optimal_input, os_per_hop_expected_out = outs, os_net_profit_wei = net_profit\<rparr>)
             (hop_outputs hops token_in0 optimal_input)))"

definition optimize_cycle_input ::
    "SwapStep list \<Rightarrow> PoolStateCache \<Rightarrow> address \<Rightarrow> address \<Rightarrow> f64 \<Rightarrow> f64 \<Rightarrow> f64 \<Rightarrow> u256 \<Rightarrow> SizingOutcome exec" where
  "optimize_cycle_input steps pool_states victim_pool victim_token_in victim_post_in victim_post_out gas_price_gwei min_profit_wei =
     (if steps = [] then Ret SizeFallback
      else case resolve_hops pool_states (overlay_victim victim_pool victim_token_in victim_post_in victim_post_out) steps of
        None \<Rightarrow> Ret SizeFallback
      | Some hop_states \<Rightarrow>
          let total_gas = estimate_total_gas (map step_protocol steps) (replicate (length steps) 0);
              gas_cost = gas_cost_wei total_gas gas_price_gwei
          in size_hops (zip hop_states (map step_token_out steps)) (step_token_in (hd steps)) gas_cost min_profit_wei)"

section \<open>From a cycle to steps\<close>

definition f64_MAX :: f64 where
  "f64_MAX = Num ((2 ^ 53 - 1) * 2 ^ 971)"

text \<open>The conversion by 64-bit limbs.\<close>

fun limb_sum :: "u64 list \<Rightarrow> f64 \<Rightarrow> f64 \<Rightarrow> f64" where
  "limb_sum [] result scale = result"
| "limb_sum (l # ls) result scale =
     limb_sum ls (f64_add result (f64_mul (f64_of_word l) scale)) (f64_mul scale (f64_of_rat 18446744073709551616))"

definition u256_to_f64_saturating :: "u256 \<Rightarrow> f64" where
  "u256_to_f64_saturating v =
     (let result = limb_sum [limb v 0, limb v 1, limb v 2, limb v 3] (Num 0) (Num 1)
      in if is_finite result then result else f64_MAX)"

definition u256_from_f64_saturating :: "f64 \<Rightarrow> u256" where
  "u256_from_f64_saturating v =
     (if \<not> is_finite v \<or> f64_le v (Num 0) then 0
      else if f64_le (f64_of_rat (2 ^ 128 - 1)) v then 2 ^ 128 - 1
      else word_of_int (f64_to_u128 v))"

definition next_amount :: "PriceEdge \<Rightarrow> u256 \<Rightarrow> u256" where
  "next_amount e current_amount =
     (if f64_lt (Num 0) (pe_reserve_in e) \<and> f64_lt (Num 0) (pe_reserve_out e)
      then u256_from_f64_saturating (f64_mul (u256_to_f64_saturating current_amount) (f64_div (pe_reserve_out e) (pe_reserve_in e)))
      else current_amount)"

text \<open>The edge of least weight, filtered or not.\<close>

definition step_edge :: "PriceGraph \<Rightarrow> nat \<Rightarrow> nat \<Rightarrow> PriceEdge option" where
  "step_edge g from_idx to_idx =
     min_by (\<lambda>a b. f64_cmp (pe_weight a) (pe_weight b)) (filter (\<lambda>e. pe_to e = to_idx) (edges_from g from_idx))"

fun build_steps :: "PriceGraph \<Rightarrow> TokenIndex \<Rightarrow> nat list \<Rightarrow> u256 \<Rightarrow> SwapStep list option" where
  "build_steps g ti (a # b # rest) current_amount =
     (case (get_address ti a, get_address ti b, step_edge g a b) of
        (Some from_addr, Some to_addr, Some e) \<Rightarrow>
          map_option ((#) \<lparr>step_protocol = pe_protocol e, step_pool_address = pe_pool_address e, step_token_in = from_addr,
              step_token_out = to_addr, step_amount_in = current_amount, step_min_amount_out = 0, step_calldata = []\<rparr>)
            (build_steps g ti (b # rest) (next_amount e current_amount))
      | _ \<Rightarrow> None)"
| "build_steps g ti _ current_amount = Some []"

definition cycle_to_swap_steps :: "PriceGraph \<Rightarrow> TokenIndex \<Rightarrow> DetectedCycle \<Rightarrow> u256 \<Rightarrow> SwapStep list option" where
  "cycle_to_swap_steps g ti cycle input_amount_wei =
     (if length (dc_path cycle) < 2 then None else build_steps g ti (dc_path cycle) input_amount_wei)"

text \<open>The amounts and slippage limits written into the steps from a sizing; the indexing panics when it has too few outputs.\<close>

fun apply_sizing :: "SwapStep list \<Rightarrow> u256 list \<Rightarrow> u256 \<Rightarrow> SwapStep list exec" where
  "apply_sizing [] outs prev_in = Ret []"
| "apply_sizing (step # steps) [] prev_in = Panic IndexOutOfBounds"
| "apply_sizing (step # steps) (expected # outs) prev_in =
     emap ((#) (step\<lparr>step_amount_in := prev_in,
         step_min_amount_out := saturating_mul expected (ucast (10000 - BACKRUN_SLIPPAGE_BPS)) div 10000\<rparr>))
       (apply_sizing steps outs expected)"

section \<open>The search\<close>

lemma mid_third:
  fixes lo hi :: u256
  assumes "lo \<le> hi"
  shows "lo \<le> lo + (hi - lo) div 3" "lo + (hi - lo) div 3 \<le> hi - (hi - lo) div 3" "hi - (hi - lo) div 3 \<le> hi"
  using thirds [OF assms] assms by (simp_all add: word_le_nat_alt) linarith+

lemma ternary_loop_m_range:
  assumes "ternary_loop_m k f lo hi = Ret (lo', hi')" and "lo \<le> hi"
  shows "lo \<le> lo' \<and> lo' \<le> hi' \<and> hi' \<le> hi"
  using assms
proof (induction k arbitrary: lo hi)
  case (Suc k)
  define m1 where "m1 = lo + (hi - lo) div 3"
  define m2 where "m2 = hi - (hi - lo) div 3"
  have m: "lo \<le> m1" "m1 \<le> m2" "m2 \<le> hi" using mid_third [OF Suc.prems(2)] by (simp_all add: m1_def m2_def)
  show ?case
  proof (cases "hi \<le> lo + 2")
    case True
    then show ?thesis using Suc.prems by simp
  next
    case False
    then obtain p1 p2 where "f m1 = Ret p1" "f m2 = Ret p2"
      and "(if p1 < p2 then ternary_loop_m k f m1 hi else ternary_loop_m k f lo m2) = Ret (lo', hi')"
      using Suc.prems(1) unfolding ternary_loop_m.simps Let_def m1_def [symmetric] m2_def [symmetric]
      by (auto simp only: if_False ebind_Ret_iff)
    then consider "ternary_loop_m k f m1 hi = Ret (lo', hi')" | "ternary_loop_m k f lo m2 = Ret (lo', hi')" by (auto split: if_splits)
    then show ?thesis
    proof cases
      case 1
      from Suc.IH [OF this] m show ?thesis by (meson order_trans)
    next
      case 2
      from Suc.IH [OF this] m show ?thesis by (meson order_trans)
    qed
  qed
qed simp

lemma midpoint_range:
  fixes lo hi :: u256
  assumes "lo \<le> hi"
  shows "lo \<le> lo + (hi - lo) div 2" "lo + (hi - lo) div 2 \<le> hi"
proof -
  have le: "unat lo \<le> unat hi" using assms by (simp add: word_le_nat_alt)
  have half: "unat ((hi - lo) div 2) = (unat hi - unat lo) div 2" using assms by (simp add: unat_div_word unat_sub_le)
  have fits: "unat lo + (unat hi - unat lo) div 2 \<le> unat hi" using le by linarith
  have "unat (lo + (hi - lo) div 2) = unat lo + (unat hi - unat lo) div 2"
    using fits u256_fits_mono [OF u256_fits_unat [of hi]] by (subst unat_add_fits) (simp_all add: half)
  then show "lo \<le> lo + (hi - lo) div 2" "lo + (hi - lo) div 2 \<le> hi" using fits by (simp_all add: word_le_nat_alt)
qed

lemma ternary_search_m_range:
  assumes "ternary_search_m lo hi n f = Ret (x, v)" and "lo \<le> hi"
  shows "lo \<le> x \<and> x \<le> hi \<and> f x = Ret v"
proof -
  obtain lo' hi' where loop: "ternary_loop_m (unat n) f lo hi = Ret (lo', hi')"
    and x: "x = lo' + (hi' - lo') div 2" "f x = Ret v"
    using assms(1) by (auto simp: ternary_search_m_def Let_def exec_simps)
  from ternary_loop_m_range [OF loop assms(2)] midpoint_range [of lo' hi'] x show ?thesis by (auto intro: order_trans)
qed

text \<open>With a profit function that never panics the search is the one of the optimizer.\<close>

lemma ternary_loop_m_pure: "ternary_loop_m k (\<lambda>x. Ret (g x)) lo hi = Ret (ternary_loop k g lo hi)"
  by (induction k arbitrary: lo hi) (simp_all add: Let_def)

lemma ternary_search_m_pure: "ternary_search_m lo hi n (\<lambda>x. Ret (g x)) = Ret (ternary_search_optimal_input lo hi n g)"
  by (simp add: ternary_search_m_def ternary_loop_m_pure ternary_search_optimal_input_def Let_def case_prod_unfold)

section \<open>Chains of quotes\<close>

text \<open>Every hop's output is that hop's own quote for the previous output.\<close>

fun chain_quotes :: "(PoolState \<times> address) list \<Rightarrow> address \<Rightarrow> u256 \<Rightarrow> u256 list \<Rightarrow> bool" where
  "chain_quotes [] t x outs \<longleftrightarrow> outs = []"
| "chain_quotes ((ps, token_out) # rest) t x outs \<longleftrightarrow>
     (case outs of [] \<Rightarrow> False | out # outs' \<Rightarrow> poolstate_quote ps t x = Ret (Some out) \<and> chain_quotes rest token_out out outs')"

lemma hop_outputs_Some_iff:
  "hop_outputs ((ps, token_out) # rest) t x = Ret (Some outs) \<longleftrightarrow>
    (\<exists>out outs'. poolstate_quote ps t x = Ret (Some out) \<and> hop_outputs rest token_out out = Ret (Some outs') \<and> outs = out # outs')"
  by (auto simp: eobind_Ret_Some_iff emap_Ret_iff dest: sym)

lemma hop_outputs_quotes: "hop_outputs hops t x = Ret (Some outs) \<Longrightarrow> chain_quotes hops t x outs"
proof (induction hops t x arbitrary: outs rule: hop_outputs.induct)
  case (2 ps token_out rest t x)
  then obtain out outs' where "poolstate_quote ps t x = Ret (Some out)" "hop_outputs rest token_out out = Ret (Some outs')"
    "outs = out # outs'" unfolding hop_outputs_Some_iff by blast
  with "2.IH" show ?case by simp
qed simp

lemma chain_quotes_length: "chain_quotes hops t x outs \<Longrightarrow> length outs = length hops"
  by (induction hops t x outs rule: chain_quotes.induct) (auto split: list.splits)

lemma run_chain_last:
  "run_chain hops t x = Ret (Some gross) \<Longrightarrow> hop_outputs hops t x = Ret (Some outs) \<Longrightarrow> last (x # outs) = gross"
proof (induction hops t x arbitrary: outs rule: run_chain.induct)
  case (2 ps token_out rest t x)
  then obtain out outs' where "poolstate_quote ps t x = Ret (Some out)" "hop_outputs rest token_out out = Ret (Some outs')"
    "outs = out # outs'" unfolding hop_outputs_Some_iff by blast
  moreover from this "2.prems"(1) have "run_chain rest token_out out = Ret (Some gross)" "out \<noteq> 0" by (auto split: if_splits)
  ultimately show ?case using "2.IH" [of out outs'] by (auto split: if_splits)
qed simp

section \<open>Solvency\<close>

lemma sat_le: "0 < sat_i128 x \<Longrightarrow> sat_i128 x \<le> x"
  by (simp add: sat_i128_def)

lemma sat_id: "0 \<le> x \<Longrightarrow> x < 2 ^ 127 \<Longrightarrow> sat_i128 x = x"
  by (auto simp: sat_i128_def)

lemma sat_range: "- (2 ^ 127) \<le> sat_i128 x" "sat_i128 x < 2 ^ 127"
  by (simp_all add: sat_i128_def)

lemma sat_pos_sub: "0 < sat_i128 (sat_i128 x - p) \<Longrightarrow> 0 \<le> p \<Longrightarrow> sat_i128 (sat_i128 x - p) \<le> x - p"
  by (auto simp: sat_i128_def)

lemma sat_pos: "0 < sat_i128 (sat_i128 x - p) \<Longrightarrow> 0 \<le> p \<Longrightarrow> 0 < sat_i128 x"
  by (auto simp: sat_i128_def)

lemma profit_positive:
  assumes "profit_of hops t gas x = Ret net" and "0 < net" and "0 \<le> gas" and "gas < 2 ^ 127" and "uint x < 2 ^ 120"
  obtains gross where "run_chain hops t x = Ret (Some gross)"
    and "uint x + uint x * 9 div 10000 + gas + net \<le> uint gross"
proof -
  define i where "i = uint x"
  obtain r where r: "run_chain hops t x = Ret r" using assms(1) by (auto simp: profit_of_def exec_simps)
  show ?thesis
  proof (cases r)
    case None
    then show ?thesis using assms(1,2) r by (simp add: profit_of_def)
  next
    case (Some gross)
    have i: "0 \<le> i" "saturating_u256_to_i128 x = i" using assms(5) by (simp_all add: saturating_u256_to_i128_def i_def)
    have gasw: "as_i128 gas = gas" using assms(3,4) by (simp add: as_i128_def)
    have prem: "sat_i128 (i * AAVE_FLASHLOAN_PREMIUM_BPS) = i * 9"
      using assms(5) i(1) by (subst sat_id) (simp_all add: AAVE_FLASHLOAN_PREMIUM_BPS_def i_def)
    define g where "g = saturating_u256_to_i128 gross"
    have g: "g \<le> uint gross" by (simp add: g_def saturating_u256_to_i128_def)
    have net: "net = sat_i128 (sat_i128 (sat_i128 (g - i) - gas) - i * 9 div 10000)"
      using assms(1) r Some by (simp add: profit_of_def Let_def i gasw prem g_def)
    have p: "0 \<le> i * 9 div 10000" using i(1) by simp
    have "0 < sat_i128 (sat_i128 (g - i) - gas)" using assms(2) p unfolding net by (rule sat_pos)
    then have "sat_i128 (sat_i128 (g - i) - gas) \<le> g - i - gas" using assms(3) by (rule sat_pos_sub)
    moreover have "net \<le> sat_i128 (sat_i128 (g - i) - gas) - i * 9 div 10000" using assms(2) unfolding net by (rule sat_le)
    ultimately have "i + i * 9 div 10000 + gas + net \<le> uint gross" using g by linarith
    with that r Some show ?thesis by (simp add: i_def)
  qed
qed

lemma profit_lt: "profit_of hops t gas x = Ret net \<Longrightarrow> net < 2 ^ 127"
  using sat_range(2) by (auto simp: profit_of_def exec_simps Let_def split: option.splits)

lemma size_hops_search:
  assumes "size_hops hops t gas minp = Ret (Sized s)"
  shows "profit_of hops t gas (os_input_amount s) = Ret (os_net_profit_wei s)"
    and "OPTIMIZE_MIN_INPUT_WEI \<le> os_input_amount s" and "os_input_amount s \<le> OPTIMIZE_MAX_INPUT_WEI"
    and "0 < os_net_profit_wei s" and "minp \<le> word_of_int (os_net_profit_wei s)"
    and "hop_outputs hops t (os_input_amount s) = Ret (Some (os_per_hop_expected_out s))"
proof -
  define mx where "mx = min (min (first_reserve_in (fst (hd hops)) t div 2) OPTIMIZE_MAX_INPUT_WEI) OPTIMIZE_MAX_INPUT_WEI"
  let ?f = "profit_of hops t gas"
  obtain x net where search: "(if OPTIMIZE_MIN_INPUT_WEI < mx then ternary_search_m OPTIMIZE_MIN_INPUT_WEI mx OPTIMIZE_ITERATIONS ?f
        else emap (Pair OPTIMIZE_MIN_INPUT_WEI) (?f OPTIMIZE_MIN_INPUT_WEI)) = Ret (x, net)"
    and net: "0 < net" "\<not> (word_of_int net :: u256) < minp"
    and outs: "hop_outputs hops t x = Ret (Some (os_per_hop_expected_out s))" "x = os_input_amount s" "net = os_net_profit_wei s"
    using assms unfolding size_hops_def Let_def mx_def [symmetric]
    by (auto simp only: ebind_Ret_iff emap_Ret_iff) (auto split: if_splits option.splits simp: exec_simps)
  have mx: "mx \<le> OPTIMIZE_MAX_INPUT_WEI" by (simp add: mx_def)
  have "OPTIMIZE_MIN_INPUT_WEI \<le> x \<and> x \<le> OPTIMIZE_MAX_INPUT_WEI \<and> ?f x = Ret net"
  proof (cases "OPTIMIZE_MIN_INPUT_WEI < mx")
    case True
    then have "ternary_search_m OPTIMIZE_MIN_INPUT_WEI mx OPTIMIZE_ITERATIONS ?f = Ret (x, net)" using search by simp
    from ternary_search_m_range [OF this] True mx show ?thesis by (meson order_trans less_imp_le)
  next
    case False
    then show ?thesis using search
      by (auto simp: exec_simps OPTIMIZE_MIN_INPUT_WEI_def OPTIMIZE_MAX_INPUT_WEI_def)
  qed
  with net outs show "?f (os_input_amount s) = Ret (os_net_profit_wei s)"
    "OPTIMIZE_MIN_INPUT_WEI \<le> os_input_amount s" "os_input_amount s \<le> OPTIMIZE_MAX_INPUT_WEI"
    "0 < os_net_profit_wei s" "minp \<le> word_of_int (os_net_profit_wei s)"
    "hop_outputs hops t (os_input_amount s) = Ret (Some (os_per_hop_expected_out s))" by auto
qed

lemma gas_cost_nonneg: "0 \<le> gas_cost_wei units price"
proof -
  have "0 \<le> f64_to_u128 x" for x by (cases x) (simp_all add: f64_to_u128_def)
  then show ?thesis by (simp add: gas_cost_wei_def)
qed

lemma resolve_hops_length: "resolve_hops cache ov steps = Some hs \<Longrightarrow> length hs = length steps"
  by (induction steps arbitrary: hs) (auto split: option.splits)

text \<open>C8: a backrun is sized only when it pays: the input lies within the search bounds, the recorded outputs are the
  pools' own quotes one after the other at that input, and the last output covers the loan, its premium, the gas and
  the reported net profit, which is positive and at least the configured minimum.\<close>

theorem sizing_solvent:
  assumes "optimize_cycle_input steps cache vp vt post_in post_out gas_price minp = Ret (Sized s)"
    and "gas = gas_cost_wei (estimate_total_gas (map step_protocol steps) (replicate (length steps) 0)) gas_price"
    and "gas < 2 ^ 127"
  shows "\<exists>hs. resolve_hops cache (overlay_victim vp vt post_in post_out) steps = Some hs
    \<and> chain_quotes (zip hs (map step_token_out steps)) (step_token_in (hd steps)) (os_input_amount s) (os_per_hop_expected_out s)
    \<and> length (os_per_hop_expected_out s) = length steps
    \<and> OPTIMIZE_MIN_INPUT_WEI \<le> os_input_amount s \<and> os_input_amount s \<le> OPTIMIZE_MAX_INPUT_WEI
    \<and> 0 < os_net_profit_wei s \<and> uint minp \<le> os_net_profit_wei s
    \<and> uint (os_input_amount s) + uint (os_input_amount s) * 9 div 10000 + gas + os_net_profit_wei s
        \<le> uint (last (os_per_hop_expected_out s))"
proof -
  let ?x = "os_input_amount s" and ?net = "os_net_profit_wei s" and ?outs = "os_per_hop_expected_out s"
  obtain hs where ne: "steps \<noteq> []" and hs: "resolve_hops cache (overlay_victim vp vt post_in post_out) steps = Some hs"
    and size: "size_hops (zip hs (map step_token_out steps)) (step_token_in (hd steps)) gas minp = Ret (Sized s)"
    using assms(1) by (auto simp: optimize_cycle_input_def Let_def assms(2) split: if_splits option.splits)
  note found = size_hops_search [OF size]
  have "uint ?x \<le> 50000000000000000000"
    using found(3) by (simp add: OPTIMIZE_MAX_INPUT_WEI_def word_le_def)
  then have small: "uint ?x < 2 ^ 120" by simp
  obtain gross where gross: "run_chain (zip hs (map step_token_out steps)) (step_token_in (hd steps)) ?x = Ret (Some gross)"
    and pays: "uint ?x + uint ?x * 9 div 10000 + gas + ?net \<le> uint gross"
    using profit_positive [OF found(1,4) _ assms(3) small] gas_cost_nonneg assms(2) by blast
  have q: "chain_quotes (zip hs (map step_token_out steps)) (step_token_in (hd steps)) ?x ?outs"
    by (rule hop_outputs_quotes [OF found(6)])
  then have len: "length ?outs = length steps" using resolve_hops_length [OF hs] chain_quotes_length by fastforce
  have "?outs \<noteq> []" using len ne by auto
  then have "last ?outs = gross" using run_chain_last [OF gross found(6)] by simp
  moreover have "uint minp \<le> ?net"
    using found(4,5) profit_lt [OF found(1)] by (simp add: word_le_def uint_word_of_int)
  ultimately show ?thesis using hs q len found(2,3,4) pays by auto
qed

definition demo_v2 :: "address \<Rightarrow> u256 \<Rightarrow> u256 \<Rightarrow> PoolState" where
  "demo_v2 pool r0 r1 = PS_UniswapV2 \<lparr>v2_address = pool, v2_token0 = 1, v2_token1 = 2, v2_reserve0 = r0, v2_reserve1 = r1, v2_fee_bps = 30\<rparr>"

definition demo_step :: "address \<Rightarrow> address \<Rightarrow> address \<Rightarrow> SwapStep" where
  "demo_step pool token_in token_out = \<lparr>step_protocol = UniswapV2, step_pool_address = pool, step_token_in = token_in,
     step_token_out = token_out, step_amount_in = 0, step_min_amount_out = 0, step_calldata = []\<rparr>"

text \<open>Two pools of the same pair, the second pricing token 1 a thousand times higher.\<close>

theorem sizing_solvent_witness:
  "case optimize_cycle_input [demo_step 10 1 2, demo_step 11 2 1] [(10, demo_v2 10 (10 ^ 15) (10 ^ 15)), (11, demo_v2 11 (10 ^ 18) (10 ^ 15))]
     0 0 (Num 0) (Num 0) (Num 0) 5 of
   Ret (Sized s) \<Rightarrow> os_net_profit_wei s \<le> uint (last (os_per_hop_expected_out s)) | _ \<Rightarrow> False"
proof -
  let ?steps = "[demo_step 10 1 2, demo_step 11 2 1]"
  let ?run = "optimize_cycle_input ?steps [(10, demo_v2 10 (10 ^ 15) (10 ^ 15)), (11, demo_v2 11 (10 ^ 18) (10 ^ 15))]
     0 0 (Num 0) (Num 0) (Num 0) 5"
  have ok: "case ?run of Ret (Sized s) \<Rightarrow> True | _ \<Rightarrow> False" by code_simp
  have gas: "gas_cost_wei (estimate_total_gas (map step_protocol ?steps) (replicate (length ?steps) 0)) (Num 0) < 2 ^ 127" by code_simp
  obtain s where run: "?run = Ret (Sized s)" using ok by (auto split: exec.splits SizingOutcome.splits)
  from sizing_solvent [OF run refl gas] have
    "uint (os_input_amount s) + uint (os_input_amount s) * 9 div 10000
       + gas_cost_wei (estimate_total_gas (map step_protocol ?steps) (replicate (length ?steps) 0)) (Num 0) + os_net_profit_wei s
     \<le> uint (last (os_per_hop_expected_out s))" by blast
  moreover have "0 \<le> uint (os_input_amount s)" "0 \<le> uint (os_input_amount s) * 9 div 10000" by (simp_all add: pos_imp_zdiv_nonneg_iff)
  ultimately have "os_net_profit_wei s \<le> uint (last (os_per_hop_expected_out s))" using gas_cost_nonneg by (smt (verit))
  then show ?thesis unfolding run by simp
qed

section \<open>Steps\<close>

text \<open>Consecutive steps hand the output token over, and the path of tokens is the cycle's.\<close>

lemma build_steps_tokens:
  assumes "build_steps g ti path x = Some steps" and "path \<noteq> []"
  shows "map (\<lambda>v. get_address ti v) (butlast path) = map (Some \<circ> step_token_in) steps
    \<and> map (\<lambda>v. get_address ti v) (tl path) = map (Some \<circ> step_token_out) steps"
  using assms
proof (induction g ti path x arbitrary: steps rule: build_steps.induct)
  case (1 g ti a b rest x)
  then obtain fa ta e steps' where step: "get_address ti a = Some fa" "get_address ti b = Some ta" "step_edge g a b = Some e"
    and rest: "build_steps g ti (b # rest) (next_amount e x) = Some steps'"
    and steps: "steps = \<lparr>step_protocol = pe_protocol e, step_pool_address = pe_pool_address e, step_token_in = fa,
              step_token_out = ta, step_amount_in = x, step_min_amount_out = 0, step_calldata = []\<rparr> # steps'"
    by (auto split: option.splits)
  from "1.IH" [OF _ _ _ _ _ rest] step show ?case by (auto simp: steps)
qed auto

text \<open>Each step goes through an edge of least weight among the edges of its hop.\<close>

lemma step_edge_in: "step_edge g a b = Some e \<Longrightarrow> e \<in> set (edges_from g a) \<and> pe_to e = b"
  by (auto simp: step_edge_def dest: min_by_in)

lemma apply_sizing_Ret:
  assumes "length outs = length steps"
  shows "\<exists>steps'. apply_sizing steps outs x = Ret steps' \<and> map step_token_in steps' = map step_token_in steps
    \<and> map step_token_out steps' = map step_token_out steps \<and> map step_pool_address steps' = map step_pool_address steps
    \<and> map step_amount_in steps' = butlast (x # outs)
    \<and> map step_min_amount_out steps' = map (\<lambda>out. saturating_mul out 9900 div 10000) outs"
  using assms
proof (induction steps outs x rule: apply_sizing.induct)
  case (3 step steps out outs x)
  then obtain steps' where "apply_sizing steps outs out = Ret steps'" "map step_token_in steps' = map step_token_in steps"
    "map step_token_out steps' = map step_token_out steps" "map step_pool_address steps' = map step_pool_address steps"
    "map step_amount_in steps' = butlast (out # outs)"
    "map step_min_amount_out steps' = map (\<lambda>out. saturating_mul out 9900 div 10000) outs" by auto
  then show ?case by (simp add: BACKRUN_SLIPPAGE_BPS_def)
qed simp_all

text \<open>When the edge of least weight of a hop is filtered, the steps of the backrun go through it although the
  detector, which scored the cycle, and the block-driven path never use a filtered edge.\<close>

theorem filtered_edge_routed:
  assumes "e \<in> set (edges_from g a)" and "pe_to e = b" and "pe_filtered e" and "pe_weight e \<noteq> NaN"
    and "\<And>e'. e' \<in> set (edges_from g a) \<Longrightarrow> pe_to e' = b \<Longrightarrow> e' \<noteq> e \<Longrightarrow> f64_lt (pe_weight e) (pe_weight e')"
  shows "step_edge g a b = Some e \<and> best_edge (edges_from g) a b \<noteq> Some e
    \<and> select_best_edge_for_hop (edges_from g a) b \<noteq> Some e"
proof -
  let ?es = "filter (\<lambda>e. pe_to e = b) (edges_from g a)"
  have e: "e \<in> set ?es" using assms(1,2) by simp
  then obtain m where m: "step_edge g a b = Some m"
    unfolding step_edge_def by (metis (lifting) empty_iff empty_set min_by_None_iff not_Some_eq)
  have nn: "set ?es \<subseteq> {x. pe_weight x \<noteq> NaN}" using assms(4,5) by (auto simp: f64_lt_def)
  have "f64_cmp (pe_weight m) (pe_weight e) \<noteq> Greater"
    using asc.min_by_least [OF m [unfolded step_edge_def] nn e] .
  moreover have "f64_lt (pe_weight e) (pe_weight m)" if "m \<noteq> e" using assms(5) step_edge_in [OF m] that by blast
  ultimately have "m = e" by (force simp: f64_cmp_def f64_lt_def split: if_splits)
  moreover have "best_edge (edges_from g) a b \<noteq> Some e" using best_edge_in assms(3) by blast
  moreover have "select_best_edge_for_hop (edges_from g a) b \<noteq> Some e"
    using assms(3) by (auto simp: select_best_edge_for_hop_def dest: min_by_in)
  ultimately show ?thesis using m by simp
qed

definition filtered_demo :: PriceGraph where
  "filtered_demo = pg_append (pg_append (pg_new 2) ((pool_edge 0 1 (- 1) 10 0)\<lparr>pe_filtered := True\<rparr>)) (pool_edge 0 1 1 11 20000000)"

theorem filtered_edge_routed_witness:
  "map_option pe_pool_address (step_edge filtered_demo 0 1) = Some 10
    \<and> best_edge (edges_from filtered_demo) 0 1 \<noteq> Some ((pool_edge 0 1 (- 1) 10 0)\<lparr>pe_filtered := True\<rparr>)"
proof -
  have es: "edges_from filtered_demo 0 = [(pool_edge 0 1 (- 1) 10 0)\<lparr>pe_filtered := True\<rparr>, pool_edge 0 1 1 11 20000000]"
    by (simp add: filtered_demo_def pg_append_def pg_new_def edges_from_def pool_edge_def numeral_2_eq_2)
  have "step_edge filtered_demo 0 1 = Some ((pool_edge 0 1 (- 1) 10 0)\<lparr>pe_filtered := True\<rparr>)
      \<and> best_edge (edges_from filtered_demo) 0 1 \<noteq> Some ((pool_edge 0 1 (- 1) 10 0)\<lparr>pe_filtered := True\<rparr>)
      \<and> select_best_edge_for_hop (edges_from filtered_demo 0) 1 \<noteq> Some ((pool_edge 0 1 (- 1) 10 0)\<lparr>pe_filtered := True\<rparr>)"
    by (rule filtered_edge_routed) (auto simp: es pool_edge_def f64_lt_finite)
  then show ?thesis by (simp add: pool_edge_def)
qed

end
