(* ===== verification/Engine_Detection.thy ===== *)
theory Engine_Detection
  imports Engine_Inv Backrun_Sizing
begin

text \<open>
  The detection cycle of the engine (\<^verbatim>\<open>grpc-server/src/engine.rs\<close>): the snapshot of the working graph restricted to the
  hot cache, detection, gating, the candidates built from the cycles, sizing, and the publication of the simulated
  arbitrages; then the event loop. The simulator, the ABI encoder, the clocks and the exponential are parameters.
  Simulations run in parallel but are collected in order. Counters other than the gates', the pre-warm of the
  simulator, log lines and the ledger row of a published arbitrage are not modelled.
\<close>

section \<open>Model\<close>

definition edge_caps_optimizer_input :: "PriceEdge \<Rightarrow> bool" where
  "edge_caps_optimizer_input e \<longleftrightarrow> pe_protocol e \<noteq> UniswapV3 \<and> pe_liquidity e \<noteq> 0"

record CycleCandidate =
  cc_hops :: "ArbHop list"
  cc_protocols :: "ProtocolType list"
  cc_tick_counts :: "u32 list"
  cc_flashloan_token :: address
  cc_path_id :: string
  cc_exchange_rates :: "f64 list"
  cc_min_liquidity :: u256
  cc_reserves :: "(f64 \<times> f64) list"
  cc_fee_factors :: "f64 list"

definition candidate_empty :: CycleCandidate where
  "candidate_empty = \<lparr>cc_hops = [], cc_protocols = [], cc_tick_counts = [], cc_flashloan_token = 0, cc_path_id = [],
     cc_exchange_rates = [], cc_min_liquidity = - 1, cc_reserves = [], cc_fee_factors = []\<rparr>"

text \<open>The fee of a pool by address, 30 basis points when it is not registered.\<close>

definition hop_fee_factor :: "(address, PoolMetadata) hmap \<Rightarrow> address \<Rightarrow> f64" where
  "hop_fee_factor reg pool =
     (let fee_bps = (case hget reg pool of Some m \<Rightarrow> pm_fee_bps m | None \<Rightarrow> 30)
      in f64_div (f64_sub (Num 10000) (f64_of_word fee_bps)) (Num 10000))"

definition push_hop ::
    "(f64 \<Rightarrow> f64) \<Rightarrow> (address, PoolMetadata) hmap \<Rightarrow> address \<Rightarrow> address \<Rightarrow> PriceEdge \<Rightarrow> CycleCandidate \<Rightarrow> CycleCandidate" where
  "push_hop expf reg from_addr to_addr e c =
     c\<lparr>cc_exchange_rates := cc_exchange_rates c @ [expf (f64_neg (pe_weight e))],
       cc_reserves := cc_reserves c @ [(pe_reserve_in e, pe_reserve_out e)],
       cc_fee_factors := cc_fee_factors c @ [hop_fee_factor reg (pe_pool_address e)],
       cc_min_liquidity := (if edge_caps_optimizer_input e \<and> pe_liquidity e < cc_min_liquidity c
                            then pe_liquidity e else cc_min_liquidity c),
       cc_hops := cc_hops c @ [\<lparr>hop_protocol = pe_protocol e, hop_pool_address = pe_pool_address e,
         hop_token_in = from_addr, hop_token_out = to_addr, hop_amount_in = 0, hop_expected_out = 0,
         hop_estimated_gas = estimate_swap_gas (pe_protocol e) 0\<rparr>],
       cc_protocols := cc_protocols c @ [pe_protocol e],
       cc_tick_counts := cc_tick_counts c @ [0]\<rparr>"

text \<open>The loop over the hops of a cycle: \<open>None\<close> as soon as a vertex has no token or a hop has no unfiltered edge.\<close>

fun walk_hops ::
    "(f64 \<Rightarrow> f64) \<Rightarrow> PriceGraph \<Rightarrow> TokenIndex \<Rightarrow> (address, PoolMetadata) hmap \<Rightarrow> nat list \<Rightarrow> CycleCandidate
      \<Rightarrow> CycleCandidate option" where
  "walk_hops expf g ti reg (a # b # rest) c =
     (case (get_address ti a, get_address ti b, select_best_edge_for_hop (edges_from g a) b) of
        (Some from_addr, Some to_addr, Some e) \<Rightarrow> walk_hops expf g ti reg (b # rest) (push_hop expf reg from_addr to_addr e c)
      | _ \<Rightarrow> None)"
| "walk_hops expf g ti reg _ c = Some c"

fun join_dash :: "string list \<Rightarrow> string" where
  "join_dash [] = []"
| "join_dash [s] = s"
| "join_dash (s # ss) = s @ ''-'' @ join_dash ss"

definition build_candidate ::
    "(f64 \<Rightarrow> f64) \<Rightarrow> PriceGraph \<Rightarrow> TokenIndex \<Rightarrow> (address, PoolMetadata) hmap \<Rightarrow> DetectedCycle \<Rightarrow> CycleCandidate option" where
  "build_candidate expf g ti reg cycle =
     (case walk_hops expf g ti reg (dc_path cycle) candidate_empty of
        None \<Rightarrow> None
      | Some c \<Rightarrow>
          if cc_hops c = [] then None
          else Some (c\<lparr>cc_flashloan_token := hop_token_in (hd (cc_hops c)),
                       cc_path_id := join_dash (map dec_nat (dc_path cycle))\<rparr>))"

text \<open>The loop over the detected cycles; an empty path would index out of range.\<close>

fun collect_candidates ::
    "(f64 \<Rightarrow> f64) \<Rightarrow> PriceGraph \<Rightarrow> TokenIndex \<Rightarrow> (address, PoolMetadata) hmap \<Rightarrow> GatingConfig \<Rightarrow> (int, nat) hmap
      \<Rightarrow> DetectedCycle list \<Rightarrow> gate_effects \<Rightarrow> (CycleCandidate list \<times> gate_effects) exec" where
  "collect_candidates expf g ti reg cfg idx [] ef = Ret ([], ef)"
| "collect_candidates expf g ti reg cfg idx (cycle # cycles) ef =
     (if \<not> is_profitable cycle then collect_candidates expf g ti reg cfg idx cycles ef
      else case gate_pre_sim expf cycle g idx cfg ef of
        (Drop _, ef) \<Rightarrow> collect_candidates expf g ti reg cfg idx cycles ef
      | (Pass, ef) \<Rightarrow>
          if dc_path cycle = [] then Panic IndexOutOfBounds
          else (case build_candidate expf g ti reg cycle of
                  None \<Rightarrow> collect_candidates expf g ti reg cfg idx cycles ef
                | Some c \<Rightarrow> emap (\<lambda>(cs, ef). (c # cs, ef)) (collect_candidates expf g ti reg cfg idx cycles ef)))"

section \<open>Sizing a candidate\<close>

definition hop_output :: "(f64 \<times> f64) \<times> f64 \<times> f64 \<Rightarrow> f64 \<Rightarrow> f64" where
  "hop_output = (\<lambda>((x, y), fee, rate) dx.
     if f64_lt (Num 0) x \<and> f64_lt (Num 0) y
     then f64_div (f64_mul (f64_mul dx fee) y) (f64_add x (f64_mul dx fee))
     else f64_mul dx rate)"

definition hop_curves :: "CycleCandidate \<Rightarrow> ((f64 \<times> f64) \<times> f64 \<times> f64) list" where
  "hop_curves c = zip (cc_reserves c) (zip (cc_fee_factors c) (cc_exchange_rates c))"

definition f64_to_i128 :: "f64 \<Rightarrow> int" where
  "f64_to_i128 = f64_to_int (- (2 ^ 127)) (2 ^ 127 - 1)"

definition candidate_profit :: "CycleCandidate \<Rightarrow> int \<Rightarrow> u256 \<Rightarrow> int" where
  "candidate_profit c gas_cost input =
     (let current = foldl (\<lambda>dx h. hop_output h dx) (u256_to_f64 input) (hop_curves c);
          output = f64_to_i128 current;
          input_i128 = f64_to_i128 (u256_to_f64 input)
      in sat_i128 (sat_i128 (output - input_i128) - as_i128 gas_cost))"

definition CANDIDATE_MIN_INPUT :: u256 where
  "CANDIDATE_MIN_INPUT = 10000000000000000"

definition CANDIDATE_MAX_TRADE :: u256 where
  "CANDIDATE_MAX_TRADE = 50000000000000000000"

text \<open>The amounts of the hops at the chosen input.\<close>

fun optimize_hops :: "ArbHop list \<Rightarrow> ((f64 \<times> f64) \<times> f64 \<times> f64) list \<Rightarrow> u256 \<Rightarrow> ArbHop list \<times> u256" where
  "optimize_hops (hop # hops) (curve # curves) current_amount =
     (let out = word_of_int (f64_to_u128 (hop_output curve (u256_to_f64 current_amount)));
          (rest, final) = optimize_hops hops curves out
      in (hop\<lparr>hop_amount_in := current_amount, hop_expected_out := out\<rparr> # rest, final))"
| "optimize_hops _ _ current_amount = ([], current_amount)"

definition hop_to_step :: "u256 \<Rightarrow> ArbHop \<Rightarrow> SwapStep" where
  "hop_to_step slippage_factor hop =
     \<lparr>step_protocol = hop_protocol hop, step_pool_address = hop_pool_address hop, step_token_in = hop_token_in hop,
      step_token_out = hop_token_out hop, step_amount_in = hop_amount_in hop,
      step_min_amount_out = hop_expected_out hop * slippage_factor div 10000, step_calldata = []\<rparr>"

record SimInput =
  si_opp :: ArbOpportunity
  si_steps :: "SwapStep list"
  si_calldata :: bytes
  si_flashloan_token :: address
  si_input_amount :: u256
  si_net_profit :: u128

record detect_env =
  de_elapsed :: "nat \<Rightarrow> u64"
  de_expf :: "f64 \<Rightarrow> f64"
  de_abi_encode :: "executeArbCall \<Rightarrow> bytes"
  de_now_ns :: int
  de_simulate :: "SimInput \<Rightarrow> SimulationResult option"
  de_subscribers :: bool

definition build_sim_input :: "detect_env \<Rightarrow> EngineConfig \<Rightarrow> BlockInfo \<Rightarrow> CycleCandidate \<Rightarrow> SimInput option" where
  "build_sim_input env config block c =
     (let total_gas = estimate_total_gas (cc_protocols c) (cc_tick_counts c);
          gas_cost = gas_cost_wei total_gas (ec_gas_price_gwei config);
          max_input = (if cc_min_liquidity c < CANDIDATE_MAX_TRADE \<and> cc_min_liquidity c \<noteq> 0
                       then cc_min_liquidity c else CANDIDATE_MAX_TRADE);
          profit_fn = candidate_profit c gas_cost;
          (optimal_input, net_profit) =
            (if CANDIDATE_MIN_INPUT < max_input
             then ternary_search_optimal_input CANDIDATE_MIN_INPUT max_input 80 profit_fn
             else (CANDIDATE_MIN_INPUT, profit_fn CANDIDATE_MIN_INPUT))
      in if net_profit \<le> 0 then None
         else if (word_of_int net_profit :: u128) < ec_min_profit_threshold_wei config then None
         else
           let (hops, final) = optimize_hops (cc_hops c) (hop_curves c) optimal_input;
               gross = max 0 (f64_to_u128 (u256_to_f64 final) - f64_to_u128 (u256_to_f64 optimal_input));
               slippage_factor = 10000 - ucast (min (ec_slippage_bps config) 9999);
               steps = map (hop_to_step slippage_factor) hops;
               deadline = ucast (bi_timestamp block + 24);
               opp = \<lparr>opp_id = ''arb-'' @ dec_nat (unat (bi_number block)) @ ''-'' @ cc_path_id c, opp_hops = hops,
                 opp_total_profit_wei = word_of_int gross, opp_total_gas = total_gas,
                 opp_gas_cost_wei = word_of_int gas_cost, opp_net_profit_wei = word_of_int net_profit,
                 opp_block_number = bi_number block, opp_timestamp_ns = de_now_ns env\<rparr>
           in Some \<lparr>si_opp = opp, si_steps = steps,
                si_calldata = build_execute_arb_calldata (de_abi_encode env) steps (cc_flashloan_token c) optimal_input
                  deadline 0 (ucast (ec_tip_bps config)),
                si_flashloan_token = cc_flashloan_token c, si_input_amount = optimal_input,
                si_net_profit = word_of_int net_profit\<rparr>)"

text \<open>Collecting the simulations: a panicked task and a reverted simulation are skipped, the rest is cross-checked
  against the estimate and sent; without a subscriber nothing is published.\<close>

definition profit_to_u128 :: "u256 \<Rightarrow> u128" where
  "profit_to_u128 p = (if uint p < 2 ^ 128 then ucast p else - 1)"

fun publish_results ::
    "detect_env \<Rightarrow> GatingConfig \<Rightarrow> SimInput list \<Rightarrow> gate_effects \<Rightarrow> proto_arb list \<times> gate_effects" where
  "publish_results env cfg [] ef = ([], ef)"
| "publish_results env cfg (input # inputs) ef =
     (case de_simulate env input of
        None \<Rightarrow> publish_results env cfg inputs ef
      | Some r \<Rightarrow>
          if \<not> sim_success r then publish_results env cfg inputs ef
          else case gate_post_sim (si_net_profit input) (profit_to_u128 (sim_profit_wei r)) cfg ef of
            (PostDrop _, ef) \<Rightarrow> publish_results env cfg inputs ef
          | (PostPass, ef) \<Rightarrow>
              let arb = build_validated_arb (si_opp input) r (si_flashloan_token input) (si_input_amount input)
                    (si_steps input) (si_calldata input);
                  (arbs, ef) = publish_results env cfg inputs ef
              in ((if de_subscribers env then arb # arbs else arbs), ef))"

section \<open>The cycle\<close>

text \<open>The graph a cycle detects on.\<close>

definition detection_graph :: "AetherEngine \<Rightarrow> PriceGraph" where
  "detection_graph en =
     (case en_hot_cache en of
        Some cache \<Rightarrow>
          let allowed = pool_addresses cache
          in if allowed \<noteq> [] then clone_retaining_pools (en_working_graph en) allowed else en_working_graph en
      | None \<Rightarrow> en_working_graph en)"

definition run_detection_cycle ::
    "detect_env \<Rightarrow> AetherEngine \<Rightarrow> (proto_arb list \<times> AetherEngine) option exec" where
  "run_detection_cycle env en =
     (let graph = detection_graph en;
          block = en_current_block en;
          en = en\<lparr>en_working_graph := clear_dirty (en_working_graph en)\<rparr>;
          publish_graph = (\<lambda>en. en\<lparr>en_snapshots := publish (en_snapshots en) graph (bi_number block) (sint (bi_timestamp block))\<rparr>)
      in if \<not> has_dirty_edges graph \<and> num_edges graph = 0 then Ret (Some ([], publish_graph en))
         else
           let affected = affected_vertices graph
           in eobind (if affected = [] then detect_negative_cycles (en_detector en) (de_elapsed env) graph
                      else detect_from_affected (en_detector en) (de_elapsed env) graph affected) (\<lambda>cycles.
                if cycles = [] then Ret (Some ([], publish_graph en))
                else
                  let gating = ec_gating (en_config en);
                      idx = build_fingerprint_index (de_expf env) cycles gating
                  in emap (\<lambda>(candidates, ef).
                       let inputs = List.map_filter (build_sim_input env (en_config en) block) candidates;
                           (arbs, ef) = publish_results env gating inputs ef
                       in Some (arbs, (publish_graph en)\<lparr>en_gate_effects := ef\<rparr>))
                     (collect_candidates (de_expf env) graph (en_token_index en) (en_pool_registry en) gating idx cycles
                       (en_gate_effects en))))"

definition handle_new_block ::
    "detect_env \<Rightarrow> BlockInfo \<Rightarrow> AetherEngine \<Rightarrow> (proto_arb list \<times> AetherEngine) option exec" where
  "handle_new_block env block en = run_detection_cycle env (en\<lparr>en_current_block := block\<rparr>)"

section \<open>The detection graph\<close>

lemma retained_edges:
  "pg_inv g \<Longrightarrow> set (pg_all_edges (foldl remove_pool_edges g is)) = {e \<in> set (pg_all_edges g). pe_pool_id e \<notin> set is}"
  by (induction "is" arbitrary: g) (auto simp: pg_inv_remove pg_remove_simps(1))

lemma retained_allowed:
  assumes "pg_inv g" and "allowed \<noteq> []" and "e \<in> set (pg_all_edges (clone_retaining_pools g allowed))"
  shows "pe_pool_address e \<in> set allowed"
  using assms by (auto simp: clone_retaining_pools_def Let_def retained_edges)

lemma retain_ok:
  assumes "pg_inv g"
  shows "pg_inv (clone_retaining_pools g allowed)" "set (pg_all_edges (clone_retaining_pools g allowed)) \<subseteq> set (pg_all_edges g)"
    "pg_num_vertices (clone_retaining_pools g allowed) = pg_num_vertices g"
  using pg_retain(1) [OF assms] assms
  by (auto simp: clone_retaining_pools_def Let_def retained_edges retain_vertices)

lemma detection_graph_ok:
  assumes "en_inv en"
  shows "graph_ok (en_token_index en) (detection_graph en)"
proof -
  have "graph_ok ti (clone_retaining_pools g allowed)" if "graph_ok ti g" for ti g allowed
    using that retain_ok [of g allowed] by (auto simp: graph_ok_def edges_ok_def list_all_iff)
  then show ?thesis using en_invD(2) [OF assms] by (simp add: detection_graph_def Let_def split: option.split)
qed

text \<open>Detection on the graph stays within the counters' range and within the loop's fuel.\<close>

definition detectable :: "nat \<Rightarrow> PriceGraph \<Rightarrow> bool" where
  "detectable D g \<longleftrightarrow> pg_num_vertices g < 2 ^ 32 \<and> (\<forall>u. length (edges_from g u) \<le> D)
     \<and> (pg_num_vertices g + pg_num_vertices g * pg_num_vertices g) * D < 2 ^ 32"

lemma affected_length: "pg_inv g \<Longrightarrow> length (affected_vertices g) \<le> pg_num_vertices g"
proof -
  assume "pg_inv g"
  then have "set (affected_vertices g) \<subseteq> {..<pg_num_vertices g}" using affected_bound by (auto simp: list_all_iff)
  moreover have "distinct (affected_vertices g)" by (simp add: affected_vertices_def)
  ultimately show ?thesis by (metis card_lessThan card_mono distinct_card finite_lessThan)
qed

definition detect_cycles :: "(nat \<Rightarrow> u64) \<Rightarrow> BellmanFord \<Rightarrow> PriceGraph \<Rightarrow> DetectedCycle list option exec" where
  "detect_cycles elapsed bf g = (if affected_vertices g = [] then detect_negative_cycles bf elapsed g
     else detect_from_affected bf elapsed g (affected_vertices g))"

lemma detect_cycles_ok:
  assumes "pg_inv g" and "detectable D g"
  shows "\<exists>cs. detect_cycles elapsed bf g = Ret (Some cs) \<and> list_all (cycle_ok bf (pg_num_vertices g) (edges_from g)) cs"
proof (cases "affected_vertices g = []")
  case True
  then show ?thesis using detect_negative_cycles_ok [OF assms(1), of D bf elapsed] assms(2)
    by (simp add: detect_cycles_def detectable_def)
next
  case False
  define n where "n = pg_num_vertices g"
  have "(length (affected_vertices g) + n * n) * D \<le> (n + n * n) * D"
    using affected_length [OF assms(1)] by (simp add: n_def)
  also have "\<dots> < 2 ^ 32" using assms(2) by (simp add: detectable_def n_def)
  finally have "(length (affected_vertices g) + n * n) * D < 2 ^ 32" .
  then show ?thesis
    using detect_from_affected_ok [OF assms(1), of D "affected_vertices g" bf elapsed] assms(2) False
    by (auto simp: detect_cycles_def detectable_def n_def)
qed

section \<open>Routes\<close>

type_synonym hop_id = "address \<times> address \<times> address \<times> ProtocolType"

definition hop_key :: "ArbHop \<Rightarrow> hop_id" where
  "hop_key h = (hop_token_in h, hop_token_out h, hop_pool_address h, hop_protocol h)"

lemma hop_key_record [simp]:
  "hop_key \<lparr>hop_protocol = p, hop_pool_address = a, hop_token_in = i, hop_token_out = j, hop_amount_in = x,
     hop_expected_out = y, hop_estimated_gas = z\<rparr> = (i, j, a, p)"
  by (simp add: hop_key_def)

definition step_key :: "SwapStep \<Rightarrow> hop_id" where
  "step_key s = (step_token_in s, step_token_out s, step_pool_address s, step_protocol s)"

text \<open>The hops follow a path of vertices, each through an unfiltered edge between the vertices of its tokens.\<close>

fun route :: "PriceGraph \<Rightarrow> TokenIndex \<Rightarrow> nat list \<Rightarrow> hop_id list \<Rightarrow> bool" where
  "route g ti (a # b # rest) ((token_in, token_out, pool, protocol) # hops) \<longleftrightarrow>
     get_address ti a = Some token_in \<and> get_address ti b = Some token_out
     \<and> (\<exists>e \<in> set (edges_from g a). pe_to e = b \<and> \<not> pe_filtered e \<and> pe_pool_address e = pool \<and> pe_protocol e = protocol)
     \<and> route g ti (b # rest) hops"
| "route g ti [a] [] \<longleftrightarrow> True"
| "route g ti _ _ \<longleftrightarrow> False"

lemma route_ends:
  "route g ti path hops \<Longrightarrow> hops \<noteq> [] \<Longrightarrow> get_address ti (hd path) = Some (fst (hd hops))
     \<and> get_address ti (last path) = Some (fst (snd (last hops)))"
proof (induction g ti path hops rule: route.induct)
  case (1 g ti a b rest i o' p q hops)
  then show ?case by (cases "(g, ti, b # rest, hops)" rule: route.cases) auto
qed simp_all

lemma route_allowed:
  "route g ti path hops \<Longrightarrow> (\<And>u e. e \<in> set (edges_from g u) \<Longrightarrow> pe_pool_address e \<in> S) \<Longrightarrow> h \<in> set hops \<Longrightarrow> fst (snd (snd h)) \<in> S"
  by (induction g ti path hops rule: route.induct) auto

definition aligned :: "CycleCandidate \<Rightarrow> bool" where
  "aligned c \<longleftrightarrow> length (hop_curves c) = length (cc_hops c)"

lemma walk_hops_route:
  assumes "walk_hops expf g ti reg path c = Some c'" and "path \<noteq> []"
    and "length (cc_reserves c) = length (cc_hops c)" "length (cc_fee_factors c) = length (cc_hops c)"
      "length (cc_exchange_rates c) = length (cc_hops c)"
  shows "\<exists>hs. cc_hops c' = cc_hops c @ hs \<and> route g ti path (map hop_key hs) \<and> aligned c'"
  using assms
proof (induction path arbitrary: c)
  case (Cons a path)
  show ?case
  proof (cases path)
    case Nil
    then show ?thesis using Cons.prems by (auto simp: aligned_def hop_curves_def)
  next
    case (Cons b rest)
    then obtain fa ta e where hop: "get_address ti a = Some fa" "get_address ti b = Some ta"
      "select_best_edge_for_hop (edges_from g a) b = Some e"
      "walk_hops expf g ti reg path (push_hop expf reg fa ta e c) = Some c'"
      using Cons.prems(1) by (auto split: option.splits)
    have e: "e \<in> set (edges_from g a)" "pe_to e = b" "\<not> pe_filtered e"
      using hop(3) by (auto simp: select_best_edge_for_hop_def dest: min_by_in)
    from Cons.IH [OF hop(4)] Cons Cons.prems(3-5) obtain hs where
      "cc_hops c' = cc_hops (push_hop expf reg fa ta e c) @ hs" "route g ti path (map hop_key hs)" "aligned c'"
      by (auto simp: push_hop_def)
    with hop(1,2) e Cons show ?thesis by (auto simp: push_hop_def)
  qed
qed simp

lemma build_candidate_route:
  assumes "build_candidate expf g ti reg cycle = Some c" and "dc_path cycle \<noteq> []"
  shows "route g ti (dc_path cycle) (map hop_key (cc_hops c)) \<and> cc_hops c \<noteq> [] \<and> aligned c
    \<and> cc_flashloan_token c = hop_token_in (hd (cc_hops c))"
proof -
  obtain c0 where c0: "walk_hops expf g ti reg (dc_path cycle) candidate_empty = Some c0" "cc_hops c0 \<noteq> []"
    "c = c0\<lparr>cc_flashloan_token := hop_token_in (hd (cc_hops c0)), cc_path_id := join_dash (map dec_nat (dc_path cycle))\<rparr>"
    using assms(1) by (auto simp: build_candidate_def split: option.splits if_splits)
  from walk_hops_route [OF c0(1) assms(2)] c0 show ?thesis
    by (auto simp: candidate_empty_def aligned_def hop_curves_def)
qed

lemma collect_candidates_ok:
  assumes "list_all (\<lambda>c. dc_path c \<noteq> []) cycles"
  shows "\<exists>cs ef'. collect_candidates expf g ti reg cfg idx cycles ef = Ret (cs, ef')
    \<and> (\<forall>c \<in> set cs. \<exists>cycle \<in> set cycles. is_profitable cycle \<and> build_candidate expf g ti reg cycle = Some c)"
  using assms
proof (induction cycles arbitrary: ef)
  case (Cons cycle cycles)
  have IH: "\<exists>cs ef'. collect_candidates expf g ti reg cfg idx cycles ef = Ret (cs, ef')
      \<and> (\<forall>c \<in> set cs. \<exists>cycle \<in> set cycles. is_profitable cycle \<and> build_candidate expf g ti reg cycle = Some c)" for ef
    using Cons by simp
  obtain v ef1 where gate: "gate_pre_sim expf cycle g idx cfg ef = (v, ef1)" by fastforce
  obtain cs ef2 where rest: "collect_candidates expf g ti reg cfg idx cycles ef1 = Ret (cs, ef2)"
    "\<forall>c \<in> set cs. \<exists>cycle \<in> set cycles. is_profitable cycle \<and> build_candidate expf g ti reg cycle = Some c"
    using IH by blast
  show ?case
  proof (cases "is_profitable cycle")
    case False
    then show ?thesis using IH [of ef] by fastforce
  next
    case True
    then show ?thesis using gate rest Cons.prems
      by (cases v; cases "build_candidate expf g ti reg cycle") fastforce+
  qed
qed simp

section \<open>Sized steps\<close>

text \<open>Every step spends what the previous one is expected to deliver and asks for no more than is expected of it.\<close>

fun amounts_ok :: "u256 \<Rightarrow> SwapStep list \<Rightarrow> bool" where
  "amounts_ok x [] \<longleftrightarrow> True"
| "amounts_ok x (s # ss) \<longleftrightarrow> step_amount_in s = x \<and> (\<exists>out. step_min_amount_out s \<le> out \<and> amounts_ok out ss)"

lemma slippage_le:
  fixes a f :: u256
  assumes "unat f \<le> 10000"
  shows "a * f div 10000 \<le> a"
proof -
  have "unat (a * f) \<le> unat a * unat f" by (metis unat_mult_lem unat_word_ariths(2) mod_less_eq_dividend)
  also have "\<dots> \<le> unat a * 10000" using assms by simp
  finally have "unat (a * f) div 10000 \<le> unat a" by (simp add: div_le_mono [THEN order_trans])
  then show ?thesis by (simp add: word_le_nat_alt unat_div_word)
qed

lemma slippage_factor_le: "unat (10000 - ucast (min (bps :: u32) 9999) :: u256) \<le> 10000"
proof -
  have "unat (ucast (min bps 9999) :: u256) = unat (min bps 9999)" by (simp add: unat_ucast_up)
  also have "\<dots> \<le> 9999" using word_le_nat_alt [of "min bps 9999" 9999] by simp
  finally have "(ucast (min bps 9999) :: u256) \<le> 10000" by (simp add: word_le_nat_alt)
  then show ?thesis by (simp add: unat_sub_le)
qed

lemma step_key_hop [simp]: "step_key (hop_to_step f h) = hop_key h"
  by (simp add: step_key_def hop_to_step_def hop_key_def)

lemma hop_to_step_amounts [simp]:
  "step_amount_in (hop_to_step f h) = hop_amount_in h"
  "step_min_amount_out (hop_to_step f h) = hop_expected_out h * f div 10000"
  by (simp_all add: hop_to_step_def)

lemma optimize_hops_keys:
  "length curves = length hops \<Longrightarrow> map hop_key (fst (optimize_hops hops curves x)) = map hop_key hops"
  by (induction hops curves x rule: optimize_hops.induct) (auto simp: Let_def hop_key_def split: prod.splits)

lemma optimize_hops_amounts:
  "unat f \<le> 10000 \<Longrightarrow> amounts_ok x (map (hop_to_step f) (fst (optimize_hops hops curves x)))"
proof (induction hops curves x rule: optimize_hops.induct)
  case (1 hop hops curve curves x)
  then show ?case using slippage_le [of f] by (fastforce simp: Let_def split: prod.splits)
qed simp_all

lemma candidate_profit_bound: "candidate_profit c gas x < 2 ^ 127"
  by (simp add: candidate_profit_def Let_def sat_i128_def)

lemma build_sim_input_spec:
  assumes "build_sim_input env config block c = Some input" and "aligned c"
  shows "map step_key (si_steps input) = map hop_key (cc_hops c) \<and> si_flashloan_token input = cc_flashloan_token c
    \<and> amounts_ok (si_input_amount input) (si_steps input)
    \<and> ec_min_profit_threshold_wei config \<le> si_net_profit input \<and> 0 < si_net_profit input
    \<and> si_calldata input = build_execute_arb_calldata (de_abi_encode env) (si_steps input) (si_flashloan_token input)
        (si_input_amount input) (ucast (bi_timestamp block + 24)) 0 (ucast (ec_tip_bps config))"
proof -
  define gas where "gas = gas_cost_wei (estimate_total_gas (cc_protocols c) (cc_tick_counts c)) (ec_gas_price_gwei config)"
  define max_input where "max_input = (if cc_min_liquidity c < CANDIDATE_MAX_TRADE \<and> cc_min_liquidity c \<noteq> 0
    then cc_min_liquidity c else CANDIDATE_MAX_TRADE)"
  define f :: u256 where "f = 10000 - ucast (min (ec_slippage_bps config) 9999)"
  obtain x net where pick: "(if CANDIDATE_MIN_INPUT < max_input
      then ternary_search_optimal_input CANDIDATE_MIN_INPUT max_input 80 (candidate_profit c gas)
      else (CANDIDATE_MIN_INPUT, candidate_profit c gas CANDIDATE_MIN_INPUT)) = (x, net)" by fastforce
  obtain hops final where hops: "optimize_hops (cc_hops c) (hop_curves c) x = (hops, final)" by fastforce
  have "net = candidate_profit c gas x"
    using pick by (auto simp: ternary_search_optimal_input_def Let_def split: if_splits prod.splits)
  then have "net < 2 ^ 127" using candidate_profit_bound by simp
  moreover have net: "0 < net" "\<not> (word_of_int net :: u128) < ec_min_profit_threshold_wei config"
    and input: "si_steps input = map (hop_to_step f) hops" "si_flashloan_token input = cc_flashloan_token c"
      "si_input_amount input = x" "si_net_profit input = word_of_int net"
      "si_calldata input = build_execute_arb_calldata (de_abi_encode env) (si_steps input) (si_flashloan_token input)
        (si_input_amount input) (ucast (bi_timestamp block + 24)) 0 (ucast (ec_tip_bps config))"
    using assms(1) unfolding build_sim_input_def gas_def [symmetric] max_input_def [symmetric] Let_def pick
    by (auto simp: hops f_def split: if_splits)
  ultimately have "0 < (word_of_int net :: u128)" by (simp add: word_less_def uint_word_of_int)
  then show ?thesis
    using net input optimize_hops_keys [of "hop_curves c" "cc_hops c" x] optimize_hops_amounts [of f x "cc_hops c" "hop_curves c"]
      slippage_factor_le assms(2) hops by (simp add: aligned_def f_def comp_def)
qed

lemma publish_results_sound:
  assumes "arb \<in> set (fst (publish_results env cfg inputs ef))"
  shows "\<exists>input \<in> set inputs. \<exists>r. de_simulate env input = Some r \<and> sim_success r
    \<and> arb = build_validated_arb (si_opp input) r (si_flashloan_token input) (si_input_amount input) (si_steps input) (si_calldata input)"
  using assms
proof (induction inputs arbitrary: ef)
  case (Cons input inputs)
  show ?case
  proof (cases "\<exists>ef'. arb \<in> set (fst (publish_results env cfg inputs ef'))")
    case True
    then show ?thesis using Cons.IH by fastforce
  next
    case False
    then show ?thesis using Cons.prems
      by (auto simp: Let_def case_prod_unfold split: option.splits if_splits PostSimGateVerdict.splits)
  qed
qed simp

section \<open>The cycle is total and sound\<close>

lemma clear_dirty_frame:
  "pg_inv g \<Longrightarrow> pg_inv (clear_dirty g)" "pg_all_edges (clear_dirty g) = pg_all_edges g"
  "pg_num_vertices (clear_dirty g) = pg_num_vertices g" "\<not> has_dirty_edges (clear_dirty g)"
  by (auto simp: clear_dirty_def pg_inv_def has_dirty_edges_def list_ex_iff)

text \<open>The engine after a cycle: the flags of the working graph are cleared and the detection graph is published.\<close>

definition after_cycle :: "AetherEngine \<Rightarrow> gate_effects \<Rightarrow> AetherEngine" where
  "after_cycle en ef = en\<lparr>en_working_graph := clear_dirty (en_working_graph en),
     en_snapshots := publish (en_snapshots en) (detection_graph en) (bi_number (en_current_block en)) (sint (bi_timestamp (en_current_block en))),
     en_gate_effects := ef\<rparr>"

lemma linked_clear: "linked reg (clear_dirty g) = linked reg g"
  by (simp add: linked_def pg_view_def pg_abs_def clear_dirty_frame)

lemma after_cycle_inv: "en_inv en \<Longrightarrow> en_inv (after_cycle en ef)"
  using detection_graph_ok [of en]
  by (simp add: en_inv_def after_cycle_def publish_def publish_fetch_def publish_store_def snapshot_new_def Let_def graph_ok_def
      clear_dirty_frame edges_ok_def linked_clear)

text \<open>What is known of a simulated input.\<close>

definition input_ok :: "AetherEngine \<Rightarrow> SimInput \<Rightarrow> bool" where
  "input_ok en input \<longleftrightarrow> (\<exists>path.
     hd path = last path \<and> distinct (butlast path) \<and> si_steps input \<noteq> []
     \<and> route (detection_graph en) (en_token_index en) path (map step_key (si_steps input))
     \<and> step_token_in (hd (si_steps input)) = si_flashloan_token input
     \<and> step_token_out (last (si_steps input)) = si_flashloan_token input
     \<and> amounts_ok (si_input_amount input) (si_steps input)
     \<and> ec_min_profit_threshold_wei (en_config en) \<le> si_net_profit input \<and> 0 < si_net_profit input)"

lemma candidate_input_ok:
  assumes "cycle_ok bf n (edges_from (detection_graph en)) cycle"
    and "build_candidate expf (detection_graph en) (en_token_index en) reg cycle = Some c"
    and "build_sim_input env (en_config en) block c = Some input"
  shows "input_ok en input"
proof -
  have path: "dc_path cycle \<noteq> []" "hd (dc_path cycle) = last (dc_path cycle)" "distinct (butlast (dc_path cycle))"
    using assms(1) by (auto simp: cycle_ok_def)
  note c = build_candidate_route [OF assms(2) path(1)]
  have al: "aligned c" using c by blast
  note input = build_sim_input_spec [OF assms(3) al]
  have keys: "map step_key (si_steps input) = map hop_key (cc_hops c)" using input by blast
  then have ne: "si_steps input \<noteq> []" "cc_hops c \<noteq> []" using c by auto
  have r: "route (detection_graph en) (en_token_index en) (dc_path cycle) (map step_key (si_steps input))"
    using c keys by simp
  have first: "hop_key (hd (cc_hops c)) = step_key (hd (si_steps input))" using keys ne by (metis list.map_sel(1))
  have "get_address (en_token_index en) (hd (dc_path cycle)) = Some (step_token_in (hd (si_steps input)))"
    "get_address (en_token_index en) (last (dc_path cycle)) = Some (step_token_out (last (si_steps input)))"
    using route_ends [OF r] ne by (simp_all add: list.map_sel(1) last_map step_key_def)
  then have "step_token_in (hd (si_steps input)) = step_token_out (last (si_steps input))" using path(2) by simp
  moreover have "step_token_in (hd (si_steps input)) = si_flashloan_token input"
    using first c input by (simp add: hop_key_def step_key_def)
  ultimately show ?thesis using path ne r input unfolding input_ok_def by metis
qed

lemma run_detection_cycle_spec:
  assumes "en_inv en" and "detectable D (detection_graph en)"
  shows "\<exists>arbs ef. run_detection_cycle env en = Ret (Some (arbs, after_cycle en ef))
    \<and> (\<forall>arb \<in> set arbs. \<exists>input r. input_ok en input \<and> de_simulate env input = Some r \<and> sim_success r
        \<and> arb = build_validated_arb (si_opp input) r (si_flashloan_token input) (si_input_amount input) (si_steps input) (si_calldata input))"
proof -
  define g where "g = detection_graph en"
  have g: "pg_inv g" using detection_graph_ok [OF assms(1)] by (simp add: g_def graph_ok_def)
  obtain cycles where cycles: "detect_cycles (de_elapsed env) (en_detector en) g = Ret (Some cycles)"
    "list_all (cycle_ok (en_detector en) (pg_num_vertices g) (edges_from g)) cycles"
    using detect_cycles_ok [OF g assms(2) [folded g_def]] by blast
  have "list_all (\<lambda>c. dc_path c \<noteq> []) cycles" using cycles(2) by (auto simp: list_all_iff cycle_ok_def)
  then obtain cs ef where cs: "collect_candidates (de_expf env) g (en_token_index en) (en_pool_registry en)
      (ec_gating (en_config en)) (build_fingerprint_index (de_expf env) cycles (ec_gating (en_config en))) cycles
      (en_gate_effects en) = Ret (cs, ef)"
    "\<forall>c \<in> set cs. \<exists>cycle \<in> set cycles. is_profitable cycle
      \<and> build_candidate (de_expf env) g (en_token_index en) (en_pool_registry en) cycle = Some c"
    using collect_candidates_ok by blast
  define inputs where "inputs = List.map_filter (build_sim_input env (en_config en) (en_current_block en)) cs"
  have inputs: "input_ok en input" if mem: "input \<in> set inputs" for input
  proof -
    obtain c where c: "c \<in> set cs" "build_sim_input env (en_config en) (en_current_block en) c = Some input"
      using mem by (auto simp: inputs_def map_filter_def)
    then obtain cycle where "cycle \<in> set cycles"
      "build_candidate (de_expf env) g (en_token_index en) (en_pool_registry en) cycle = Some c" using cs(2) by blast
    then show ?thesis using candidate_input_ok [OF _ _ c(2)] cycles(2) by (auto simp: list_all_iff g_def)
  qed
  obtain arbs ef' where res: "publish_results env (ec_gating (en_config en)) inputs ef = (arbs, ef')" by fastforce
  have "\<forall>arb \<in> set arbs. \<exists>input r. input_ok en input \<and> de_simulate env input = Some r \<and> sim_success r
      \<and> arb = build_validated_arb (si_opp input) r (si_flashloan_token input) (si_input_amount input) (si_steps input) (si_calldata input)"
    using publish_results_sound [of _ env "ec_gating (en_config en)" inputs ef] inputs by (fastforce simp: res)
  moreover have "run_detection_cycle env en = Ret (Some (arbs, after_cycle en ef'))
      \<or> run_detection_cycle env en = Ret (Some ([], after_cycle en (en_gate_effects en)))"
    using cycles(1) cs(1) res
    by (simp add: run_detection_cycle_def Let_def g_def [symmetric] detect_cycles_def after_cycle_def inputs_def split: if_splits)
  ultimately show ?thesis by fastforce
qed

end
