(* ===== verification/Engine_Props.thy ===== *)
theory Engine_Props
  imports Engine_Detection
begin

text \<open>
  The engine as a transition system: every state reachable by bootstrap, fetches, pool events, hot-cache
  synchronisation and new blocks satisfies the invariant and no operation panics. Then the effect of single
  operations, and the places where they fall short of what their comments promise.
\<close>

section \<open>Reachable engines\<close>

inductive en_reach :: "(f64 \<Rightarrow> f64) \<Rightarrow> (int \<Rightarrow> f64) \<Rightarrow> AetherEngine \<Rightarrow> bool"
  for lnf :: "f64 \<Rightarrow> f64" and pow10 :: "int \<Rightarrow> f64" where
  start: "en_reach lnf pow10 (engine_new config rpc bytecode)"
| boot: "en_reach lnf pow10 en \<Longrightarrow> bootstrap_pools lnf pow10 parse contents en = Ret (loaded, en') \<Longrightarrow> en_reach lnf pow10 en'"
| fetch: "en_reach lnf pow10 en \<Longrightarrow> rpc_ok rpc \<Longrightarrow> fetch_initial_reserves_filtered lnf pow10 rpc only en = Ret en'
    \<Longrightarrow> en_reach lnf pow10 en'"
| event: "en_reach lnf pow10 en \<Longrightarrow> handle_pool_update lnf pow10 ev en = Ret en' \<Longrightarrow> en_reach lnf pow10 en'"
| sync: "en_reach lnf pow10 en \<Longrightarrow> rpc_ok rpc \<Longrightarrow> sync_hot_cache_pools lnf pow10 rpc prewarm added removed en = Ret en'
    \<Longrightarrow> en_reach lnf pow10 en'"
| hot: "en_reach lnf pow10 en \<Longrightarrow> en_reach lnf pow10 (set_hot_cache en cache)"
| block: "en_reach lnf pow10 en \<Longrightarrow> handle_new_block env b en = Ret (Some (arbs, en')) \<Longrightarrow> en_reach lnf pow10 en'"

lemma after_cycle_fold:
  "en\<lparr>en_working_graph := clear_dirty (en_working_graph en), en_snapshots := publish (en_snapshots en) (detection_graph en)
     (bi_number (en_current_block en)) (sint (bi_timestamp (en_current_block en)))\<rparr> = after_cycle en (en_gate_effects en)"
  "(after_cycle en ef)\<lparr>en_gate_effects := ef'\<rparr> = after_cycle en ef'"
  by (simp_all add: after_cycle_def)

lemma cycle_result: "run_detection_cycle env en = Ret (Some (arbs, en')) \<Longrightarrow> \<exists>ef. en' = after_cycle en ef"
  by (auto simp: run_detection_cycle_def Let_def after_cycle_fold exec_simps case_prod_unfold split: if_splits)

lemma bootstrap_pools_inv: "en_inv en \<Longrightarrow> \<exists>loaded en'. bootstrap_pools lnf pow10 parse contents en = Ret (loaded, en') \<and> en_inv en'"
  using bootstrap_inv [of en lnf pow10 parse _ 0] by (cases contents) (auto simp: bootstrap_pools_def)

lemma en_inv_block: "en_inv en \<Longrightarrow> en_inv (en\<lparr>en_current_block := b\<rparr>)"
  by (simp add: en_inv_def)

lemma reach_inv: "en_reach lnf pow10 en \<Longrightarrow> en_inv en"
proof (induction rule: en_reach.induct)
  case (boot en parse contents loaded en')
  then show ?case using bootstrap_pools_inv [of en lnf pow10 parse contents] by auto
next
  case (fetch en rpc only en')
  then show ?case using fetch_keeps [of en rpc lnf pow10 only] by (auto simp: keeps_def)
next
  case (event en ev en')
  then show ?case using pool_update_inv [of en lnf pow10 ev] by auto
next
  case (sync en rpc prewarm added removed en')
  then show ?case using sync_inv [of en rpc lnf pow10 prewarm added removed] by auto
next
  case (hot en cache)
  then show ?case by (simp add: set_hot_cache_def en_inv_def)
next
  case (block en env b arbs en')
  then show ?case using cycle_result after_cycle_inv en_inv_block unfolding handle_new_block_def by metis
qed (rule en_inv_new)


text \<open>A Sushiswap pool between WETH and USDC, registered by the bootstrap.\<close>

definition demo_entry :: PoolEntry where
  "demo_entry = \<lparr>pe_protocol_name = ''sushiswap'', pe_address = ''pool'', pe_token0 = ''USDC'', pe_token1 = ''WETH'',
     pe_fee = 30, pe_tick_spacing = None\<rparr>"

definition demo_parse :: "string \<Rightarrow> address option" where
  "demo_parse s = (if s = ''pool'' then Some 7 else if s = ''USDC'' then Some USDC else if s = ''WETH'' then Some WETH else None)"

definition demo_engine :: AetherEngine where
  "demo_engine = (case bootstrap_pools (\<lambda>_. Num 0) (\<lambda>_. Num 1) demo_parse (Some [demo_entry])
       (engine_new engine_config_default True False) of Ret (_, en) \<Rightarrow> en | _ \<Rightarrow> engine_new engine_config_default True False)"

lemma demo_engine_boot:
  "bootstrap_pools (\<lambda>_. Num 0) (\<lambda>_. Num 1) demo_parse (Some [demo_entry]) (engine_new engine_config_default True False) = Ret (1, demo_engine)"
proof -
  obtain loaded en where run: "bootstrap_pools (\<lambda>_. Num 0) (\<lambda>_. Num 1) demo_parse (Some [demo_entry])
      (engine_new engine_config_default True False) = Ret (loaded, en)"
    using bootstrap_pools_inv [OF en_inv_new] by blast
  have "loaded = 1" using run
    by (auto simp: bootstrap_pools_def demo_entry_def demo_parse_def protocol_of_name_def nonzero_address_def well_known
        engine_new_def hcontains_def hm.get_new exec_simps)
  then show ?thesis using run by (simp add: demo_engine_def)
qed

lemma demo_engine_reach: "en_reach (\<lambda>_. Num 0) (\<lambda>_. Num 1) demo_engine"
  by (rule en_reach.boot [OF en_reach.start demo_engine_boot])

definition demo_meta :: PoolMetadata where
  "demo_meta = \<lparr>pm_token0_idx = 0, pm_token1_idx = 1, pm_token0 = USDC, pm_token1 = WETH,
     pm_pool_id = \<lparr>pid_address = 7, pid_protocol = SushiSwap\<rparr>, pm_protocol = SushiSwap, pm_fee_bps = 30,
     pm_tick_spacing = None, pm_bytecode_warmed = True\<rparr>"

lemma demo_engine_meta: "hget (en_pool_registry demo_engine) 7 = Some demo_meta" by code_simp


section \<open>The detection cycle\<close>


text \<open>Two pools that together double the input, and a simulator that agrees.\<close>

definition arb_graph :: PriceGraph where
  "arb_graph = pg_append (pg_append (pg_new 2) (pool_edge 0 1 (- 1) 10 0)) (pool_edge 1 0 (1 / 2) 12 0)"

definition arb_engine :: AetherEngine where
  "arb_engine = (engine_new (engine_config_default\<lparr>ec_gating := gating_default\<lparr>gc_min_reserve_f64 := Num 0, gc_profit_factor_impossible := PInf,
         gc_revm_profit_mismatch_threshold := PInf\<rparr>, ec_gas_price_gwei := Num 0\<rparr>) False False)
     \<lparr>en_working_graph := arb_graph, en_token_index := insert_all ti_new [WETH, USDC], en_hot_cache := Some (hot_new\<lparr>hc_pools := [10, 12]\<rparr>)\<rparr>"

definition arb_env :: detect_env where
  "arb_env = \<lparr>de_elapsed = (\<lambda>_. 0), de_expf = (\<lambda>_. Num 2), de_abi_encode = (\<lambda>_. []), de_now_ns = 0,
     de_simulate = (\<lambda>_. Some \<lparr>sim_success = True, sim_profit_wei = 7, sim_gas_used = 1, sim_revert_reason = None\<rparr>),
     de_subscribers = True\<rparr>"


lemma arb_graph_facts:
  "pg_inv arb_graph" "pg_num_vertices arb_graph = 2" "length (edges_from arb_graph u) \<le> 1"
  "detection_graph arb_engine = arb_graph" "edges_ok 2 arb_graph"
proof -
  show "pg_inv arb_graph" unfolding arb_graph_def
    by (intro pg_inv_append pg_inv_new) (simp_all add: pg_append_def pg_new_def pool_edge_def edge_key_def)
  show "pg_num_vertices arb_graph = 2" "length (edges_from arb_graph u) \<le> 1"
    by (auto simp: arb_graph_def pg_append_def pg_new_def edges_from_def pool_edge_def less_Suc_eq numeral_2_eq_2)
  have es: "pg_all_edges arb_graph = [pool_edge 0 1 (- 1) 10 0, pool_edge 1 0 (1 / 2) 12 0]"
    by (simp add: arb_graph_def pg_append_def pg_new_def)
  show "edges_ok 2 arb_graph" by (simp add: edges_ok_def es edge_ok_def pool_edge_def)
  show "detection_graph arb_engine = arb_graph"
    by (simp add: detection_graph_def arb_engine_def pool_addresses_def clone_retaining_pools_def es pool_edge_def)
qed

lemma f64_constants:
  "f64_of_rat 18446744073709551616 = Num 18446744073709551616"
  "f64_of_rat 340282366920938500000000000000000000000 = Num 340282366920938463463374607431768211456"
  "f64_of_rat 115792089237316200000000000000000000000000000000000000000000000000000000000000 = Num 115792089237316195423570985008687907853269984665640564039457584007913129639936"
  "EPS = Num (7737125245533627 / 77371252455336267181195264)"
  by code_simp+

lemma u256_to_f64_code [code]:
  "u256_to_f64 v =
     f64_add
       (f64_add
         (f64_add (f64_of_word (limb v 0))
           (f64_mul (f64_of_word (limb v 1)) (Num 18446744073709551616)))
         (f64_mul (f64_of_word (limb v 2)) (Num 340282366920938463463374607431768211456)))
       (f64_mul (f64_of_word (limb v 3)) (Num 115792089237316195423570985008687907853269984665640564039457584007913129639936))"
  by (simp only: u256_to_f64_def f64_constants)

declare f64_constants(4) [code]

definition arb_cycle :: DetectedCycle where
  "arb_cycle = \<lparr>dc_path = [0, 1, 0], dc_total_weight = Num (- 1 / 2)\<rparr>"

definition arb_collected :: "(CycleCandidate list \<times> gate_effects) exec" where
  "arb_collected = collect_candidates (\<lambda>_. Num 2) arb_graph (en_token_index arb_engine) hnew (ec_gating (en_config arb_engine))
       (build_fingerprint_index (\<lambda>_. Num 2) [arb_cycle] (ec_gating (en_config arb_engine)))
       [arb_cycle] (en_gate_effects arb_engine)"

lemma arb_cycles:
  "detect_cycles (\<lambda>_. 0) (en_detector arb_engine) arb_graph = Ret (Some [arb_cycle])"
  by code_simp

text \<open>A candidate becomes a simulation when the size it is given earns the minimum.\<close>

lemma build_sim_input_minimal:
  assumes "cc_min_liquidity c = 1"
    and "\<not> candidate_profit c (gas_cost_wei (estimate_total_gas (cc_protocols c) (cc_tick_counts c)) (ec_gas_price_gwei config))
        CANDIDATE_MIN_INPUT \<le> 0"
    and "\<not> (word_of_int (candidate_profit c (gas_cost_wei (estimate_total_gas (cc_protocols c) (cc_tick_counts c))
        (ec_gas_price_gwei config)) CANDIDATE_MIN_INPUT) :: u128) < ec_min_profit_threshold_wei config"
  shows "build_sim_input env config block c \<noteq> None"
  using assms by (auto simp: build_sim_input_def Let_def CANDIDATE_MIN_INPUT_def CANDIDATE_MAX_TRADE_def split: prod.splits if_splits)

lemma arb_candidate:
  "case arb_collected of Ret ([c], _) \<Rightarrow> cc_min_liquidity c = 1 \<and> (let p = candidate_profit c (gas_cost_wei (estimate_total_gas (cc_protocols c) (cc_tick_counts c))
         (ec_gas_price_gwei (en_config arb_engine))) CANDIDATE_MIN_INPUT
       in \<not> p \<le> 0 \<and> \<not> (word_of_int p :: u128) < ec_min_profit_threshold_wei (en_config arb_engine))
   | _ \<Rightarrow> False"
  by code_simp

lemma arb_run: "\<exists>arb en'. run_detection_cycle arb_env arb_engine = Ret (Some ([arb], en'))"
proof -
  obtain cs ef where cs: "arb_collected = Ret (cs, ef)"
    using arb_candidate by (auto split: exec.split_asm)
  obtain c where "cs = [c]" using arb_candidate unfolding cs by (auto split: list.split_asm)
  with cs have c: "arb_collected = Ret ([c], ef)" by simp
  have input: "build_sim_input env (en_config arb_engine) block c \<noteq> None" for env block
    using arb_candidate by (intro build_sim_input_minimal) (simp_all add: c Let_def)
  have engine: "en_pool_registry arb_engine = hnew" "num_edges arb_graph = 2"
    "gc_revm_profit_mismatch_threshold (ec_gating (en_config arb_engine)) = PInf"
    by (simp_all add: arb_engine_def engine_new_def num_edges_def arb_graph_def pg_append_def pg_new_def)
  have env: "de_elapsed arb_env = (\<lambda>_. 0)" "de_expf arb_env = (\<lambda>_. Num 2)" "de_subscribers arb_env"
    "de_simulate arb_env x = Some \<lparr>sim_success = True, sim_profit_wei = 7, sim_gas_used = 1, sim_revert_reason = None\<rparr>" for x
    by (simp_all add: arb_env_def)
  obtain i where i: "build_sim_input arb_env (en_config arb_engine) (en_current_block arb_engine) c = Some i"
    using input by blast
  show ?thesis
    unfolding run_detection_cycle_def Let_def arb_graph_facts(4)
    using arb_cycles c [unfolded arb_collected_def] i
    by (simp add: detect_cycles_def [symmetric] engine env List.map_filter_simps gate_post_sim_def)
qed

lemma pg_all_edges_new [simp]: "pg_all_edges (pg_new n) = []"
  by (simp add: pg_new_def)

lemma arb_engine_inv: "en_inv arb_engine"
proof -
  have "ti_inv (insert_all ti_new [WETH, USDC])" "ti_len (insert_all ti_new [WETH, USDC]) = 2"
    by (simp_all add: insert_all_inv ti_inv_new del: insert_all.simps) code_simp
  then show ?thesis
    using en_inv_new [of "en_config arb_engine" False False] arb_graph_facts
    by (simp add: en_inv_def arb_engine_def engine_new_def graph_ok_def registry_ok_def states_ok_def linked_def edges_ok_def
        manager_new_def snapshot_new_def hm.get_new)
qed


end
