(* ===== verification/Engine_Events.thy ===== *)
theory Engine_Events
  imports Engine_Props
begin

text \<open>
  What single events do to the engine: an update of reserves re-prices both directed edges of its pool and the cached
  pool state from the same numbers. Then the states in which the graph says something else than the comments promise:
  a quarantined pool is priced by its first event, a pool fetched with an empty side keeps its placeholder price, and
  the edges of a pool registered twice outlive its removal.
\<close>

section \<open>Re-pricing a pool\<close>

lemma f64_pos_not_le: "f64_lt (Num 0) x \<Longrightarrow> \<not> f64_le x (Num 0)"
  by (auto simp: f64_lt_def f64_le_def)

lemma update_edge_frame:
  assumes "update_edge_from_reserves lnf pow10 g src dst i rin rout fee = Ret g'"
  shows "priced lnf pow10 g' = priced lnf pow10 g"
proof -
  have fields: "pg_token_decimals g' = pg_token_decimals g" "pg_weth_vertex g' = pg_weth_vertex g"
    "pg_min_liquidity_weth g' = pg_min_liquidity_weth g"
    using assms
    by (auto simp: update_edge_from_reserves_def Let_def mirror_edge_def exec_simps split: if_splits option.splits)
  have decimals: "token_decimals g' = token_decimals g" by (intro ext) (simp only: token_decimals_def fields)
  have "below_floor pow10 g' = below_floor pow10 g" by (intro ext) (simp only: below_floor_def fields decimals)
  with decimals show ?thesis by (intro ext) (simp only: priced_def)
qed

text \<open>The two keys of a pool.\<close>

definition key01 :: "PoolMetadata \<Rightarrow> edge_key" where
  "key01 meta = (pm_token0_idx meta, pm_token1_idx meta, pm_pool_id meta)"

definition key10 :: "PoolMetadata \<Rightarrow> edge_key" where
  "key10 meta = (pm_token1_idx meta, pm_token0_idx meta, pm_pool_id meta)"

lemma reprice_view:
  assumes "pg_inv g" and "pm_token0_idx meta < pg_num_vertices g" "pm_token1_idx meta < pg_num_vertices g"
    and "f64_lt (Num 0) r0" "f64_lt (Num 0) r1" and "pm_token0_idx meta \<noteq> pm_token1_idx meta"
    and e01: "pg_abs g (key01 meta) = Some e01" and e10: "pg_abs g (key10 meta) = Some e10"
  shows "\<exists>g'. apply_ops lnf pow10 g (reprice_ops meta r0 r1 fee) = Ret g' \<and> pg_inv g'
    \<and> pg_abs g' = (pg_abs g)(key01 meta \<mapsto> priced lnf pow10 g (pm_token0_idx meta) (pm_token1_idx meta) (pm_pool_id meta) r0 r1 fee e01,
        key10 meta \<mapsto> priced lnf pow10 g (pm_token1_idx meta) (pm_token0_idx meta) (pm_pool_id meta) r1 r0 fee e10)"
proof -
  let ?u = "\<lambda>a b x y. UpdateFromReserves (a meta) (b meta) (pm_pool_id meta) x y fee"
  obtain g1 where g1: "pg_step lnf pow10 g (?u pm_token0_idx pm_token1_idx r0 r1) = Ret g1" "pg_inv g1"
    "pg_view g1 = abs_step lnf pow10 g (?u pm_token0_idx pm_token1_idx r0 r1) (pg_view g)"
    using pg_step_refines_aux [OF assms(1), of "?u pm_token0_idx pm_token1_idx r0 r1"] assms(2) by auto
  have n1: "pg_num_vertices g1 = pg_num_vertices g" using pg_step_vertices [OF g1(1)] by simp
  obtain g2 where g2: "pg_step lnf pow10 g1 (?u pm_token1_idx pm_token0_idx r1 r0) = Ret g2" "pg_inv g2"
    "pg_view g2 = abs_step lnf pow10 g1 (?u pm_token1_idx pm_token0_idx r1 r0) (pg_view g1)"
    using pg_step_refines_aux [OF g1(2), of "?u pm_token1_idx pm_token0_idx r1 r0"] assms(3) n1 by auto
  have frame: "priced lnf pow10 g1 = priced lnf pow10 g" using update_edge_frame g1(1) by simp
  have ne: "key01 meta \<noteq> key10 meta" using assms(6) by (simp add: key01_def key10_def)
  have "pg_abs g1 = (pg_abs g)(key01 meta \<mapsto> priced lnf pow10 g (pm_token0_idx meta) (pm_token1_idx meta) (pm_pool_id meta) r0 r1 fee e01)"
    using g1(3) e01 f64_pos_not_le [OF assms(4)] f64_pos_not_le [OF assms(5)]
    by (simp add: pg_view_def abs_modify_def key01_def)
  moreover from this have "pg_abs g2 = (pg_abs g1)(key10 meta \<mapsto> priced lnf pow10 g (pm_token1_idx meta) (pm_token0_idx meta) (pm_pool_id meta) r1 r0 fee e10)"
    using g2(3) e10 ne f64_pos_not_le [OF assms(4)] f64_pos_not_le [OF assms(5)]
    by (simp add: pg_view_def abs_modify_def key10_def frame)
  ultimately show ?thesis using g1(1) g2(1,2) by (simp add: reprice_ops_def)
qed

lemma pool_edges_exist:
  assumes "en_inv en" and "hget (en_pool_registry en) pool = Some meta" and "graph_integrated (pm_protocol meta)"
  shows "\<exists>e01 e10. pg_abs (en_working_graph en) (key01 meta) = Some e01 \<and> pg_abs (en_working_graph en) (key10 meta) = Some e10"
  using assms en_invD(7) [OF assms(1)] by (fastforce simp: linked_def pg_view_def key01_def key10_def dom_def)

lemma pool_vertices:
  assumes "en_inv en" and "hget (en_pool_registry en) pool = Some meta"
  shows "pm_token0_idx meta < pg_num_vertices (en_working_graph en)" "pm_token1_idx meta < pg_num_vertices (en_working_graph en)"
    "pm_token0 meta \<noteq> pm_token1 meta \<longleftrightarrow> pm_token0_idx meta \<noteq> pm_token1_idx meta"
proof -
  note m = registry_okD [OF en_invD(5) [OF assms(1)] assms(2)]
  show "pm_token0_idx meta < pg_num_vertices (en_working_graph en)" "pm_token1_idx meta < pg_num_vertices (en_working_graph en)"
    using meta_okD(1,2) [OF m] en_invD(3) [OF assms(1)] by simp_all
  have "get_index (en_token_index en) (pm_token0 meta) = Some (pm_token0_idx meta)"
    "get_index (en_token_index en) (pm_token1 meta) = Some (pm_token1_idx meta)"
    using m en_invD(1) [OF assms(1)] by (simp_all add: meta_ok_def ti_inv_def)
  moreover have "get_address (en_token_index en) (pm_token0_idx meta) = Some (pm_token0 meta)"
    "get_address (en_token_index en) (pm_token1_idx meta) = Some (pm_token1 meta)"
    using m by (simp_all add: meta_ok_def)
  ultimately show "pm_token0 meta \<noteq> pm_token1 meta \<longleftrightarrow> pm_token0_idx meta \<noteq> pm_token1_idx meta" by auto
qed



section \<open>Prices the comments rule out\<close>

text \<open>A node whose contracts answer every call with the same bytes, tasks completing in order.\<close>

definition echo_rpc :: "(eth_call \<Rightarrow> bytes option) \<Rightarrow> rpc_env" where
  "echo_rpc answer = \<lparr>rpc_call = (\<lambda>_. answer), rpc_pool_balances = (\<lambda>_. None), rpc_weights = (\<lambda>_. None),
     rpc_pool_order = (\<lambda>ps. ps), rpc_token_order = (\<lambda>ts. ts)\<rparr>"

definition zero_words :: bytes where
  "zero_words = replicate 96 0"

definition edge_of :: "PriceGraph \<Rightarrow> PoolMetadata \<Rightarrow> (f64 \<times> f64 \<times> bool) option" where
  "edge_of g meta = map_option (\<lambda>e. (pe_reserve_in e, pe_reserve_out e, pe_filtered e)) (pg_abs g (key01 meta))"

text \<open>A pool whose contract reports other tokens is quarantined, yet its placeholder edges stay in the published
  snapshot unfiltered, and the first update of its reserves prices and caches it like any other pool.\<close>

lemma quarantine_lifted_by_event:
  "fetch_token_identity_quarantine (echo_rpc (\<lambda>_. Some zero_words)) (en_pool_registry demo_engine) = [7]
    \<and> (case fetch_initial_reserves_filtered (\<lambda>_. Num 0) (\<lambda>_. Num 1) (echo_rpc (\<lambda>_. Some zero_words)) None demo_engine of
         Ret en \<Rightarrow> edge_of (gs_graph (sm_current (en_snapshots en))) demo_meta = Some (Num 0, Num 0, False)
           \<and> (case handle_pool_update (\<lambda>_. Num 0) (\<lambda>_. Num 1) (ReserveUpdate 7 SushiSwap 5 8) en of
                Ret en' \<Rightarrow> edge_of (en_working_graph en') demo_meta = Some (Num 5, Num 8, False) \<and> hcontains (en_pool_states en') 7
              | _ \<Rightarrow> False)
       | _ \<Rightarrow> False)"
  by code_simp

text \<open>A pool fetched with an empty side keeps its placeholder edge unfiltered, while a failed fetch filters it.\<close>

lemma empty_pool_stays_unfiltered:
  "(case fetch_initial_reserves_filtered (\<lambda>_. Num 0) (\<lambda>_. Num 1) (echo_rpc (\<lambda>c. if c = GetReserves then Some zero_words else None)) None demo_engine of
      Ret en \<Rightarrow> edge_of (gs_graph (sm_current (en_snapshots en))) demo_meta = Some (Num 0, Num 0, False) | _ \<Rightarrow> False)
   \<and> (case fetch_initial_reserves_filtered (\<lambda>_. Num 0) (\<lambda>_. Num 1) (echo_rpc (\<lambda>_. None)) None demo_engine of
      Ret en \<Rightarrow> edge_of (gs_graph (sm_current (en_snapshots en))) demo_meta = Some (Num 0, Num 0, True) | _ \<Rightarrow> False)"
  by code_simp

text \<open>A creation event for a registered pool registers it again under another protocol; removing the pool then leaves
  the edges of the first registration behind.\<close>

lemma reregistered_edges_survive:
  "(case handle_pool_update (\<lambda>_. Num 0) (\<lambda>_. Num 1) (PoolCreated USDC WETH 7) demo_engine of
      Ret en \<Rightarrow> (let en' = remove_pool en 7
        in \<not> hcontains (en_pool_registry en') 7
          \<and> edge_of (gs_graph (sm_current (en_snapshots en'))) demo_meta = Some (Num 0, Num 0, False))
    | _ \<Rightarrow> False)"
  by code_simp

text \<open>An update of a concentrated-liquidity pool without liquidity moves the price of its edges and keeps the reserves
  and the filter verdict of the last update.\<close>

lemma add_edges_view:
  assumes "pg_inv g" and "pm_token0_idx meta < pg_num_vertices g" "pm_token1_idx meta < pg_num_vertices g"
    and "pm_token0_idx meta \<noteq> pm_token1_idx meta"
    and e01: "pg_abs g (key01 meta) = Some e01" and e10: "pg_abs g (key10 meta) = Some e10"
  shows "\<exists>g'. apply_ops lnf pow10 g (add_ops meta pool r01 r10 liq) = Ret g'
    \<and> pg_abs g' = (pg_abs g)(key01 meta \<mapsto> e01\<lparr>pe_weight := f64_neg (lnf r01), pe_liquidity := liq\<rparr>,
        key10 meta \<mapsto> e10\<lparr>pe_weight := f64_neg (lnf r10), pe_liquidity := liq\<rparr>)"
proof -
  let ?u = "\<lambda>a b r. AddEdge (a meta) (b meta) r (pm_pool_id meta) pool (pm_protocol meta) liq"
  obtain g1 where g1: "pg_step lnf pow10 g (?u pm_token0_idx pm_token1_idx r01) = Ret g1" "pg_inv g1"
    "pg_view g1 = abs_step lnf pow10 g (?u pm_token0_idx pm_token1_idx r01) (pg_view g)"
    using pg_step_refines_aux [OF assms(1), of "?u pm_token0_idx pm_token1_idx r01"] assms(2,3) by auto
  have n1: "pg_num_vertices g1 = pg_num_vertices g" using pg_step_vertices [OF g1(1)] by simp
  obtain g2 where g2: "pg_step lnf pow10 g1 (?u pm_token1_idx pm_token0_idx r10) = Ret g2"
    "pg_view g2 = abs_step lnf pow10 g1 (?u pm_token1_idx pm_token0_idx r10) (pg_view g1)"
    using pg_step_refines_aux [OF g1(2), of "?u pm_token1_idx pm_token0_idx r10"] assms(2,3) n1 by auto
  have ne: "key01 meta \<noteq> key10 meta" using assms(4) by (simp add: key01_def key10_def)
  have "pg_abs g1 = (pg_abs g)(key01 meta \<mapsto> e01\<lparr>pe_weight := f64_neg (lnf r01), pe_liquidity := liq\<rparr>)"
    using g1(3) e01 by (simp add: pg_view_def abs_modify_def key01_def)
  moreover from this have "pg_abs g2 = (pg_abs g1)(key10 meta \<mapsto> e10\<lparr>pe_weight := f64_neg (lnf r10), pe_liquidity := liq\<rparr>)"
    using g2(2) e10 ne by (simp add: pg_view_def abs_modify_def key10_def)
  ultimately show ?thesis using g1(1) g2(1) by (simp add: add_ops_def)
qed

lemma v3_dry_update_keeps_reserves:
  assumes "en_inv en" and reg: "hget (en_pool_registry en) pool = Some meta" and "graph_integrated (pm_protocol meta)"
    and "pm_token0 meta \<noteq> pm_token1 meta" and "f64_lt (Num 0) (v3_price sqrt_price)"
  shows "\<exists>en' e01. handle_pool_update lnf pow10 (V3Update pool sqrt_price 0 tick) en = Ret en'
    \<and> pg_abs (en_working_graph en) (key01 meta) = Some e01
    \<and> pg_abs (en_working_graph en') (key01 meta) =
        Some (e01\<lparr>pe_weight := f64_neg (lnf (f64_mul (v3_price sqrt_price) (fee_factor meta))), pe_liquidity := 0\<rparr>)"
proof -
  define w where "w = en_working_graph en"
  have g: "pg_inv w" using en_invD(2) [OF assms(1)] by (simp add: graph_ok_def w_def)
  obtain e01 e10 where e: "pg_abs w (key01 meta) = Some e01" "pg_abs w (key10 meta) = Some e10"
    using pool_edges_exist [OF assms(1) reg assms(3)] unfolding w_def by blast
  have idx: "pm_token0_idx meta \<noteq> pm_token1_idx meta" using pool_vertices(3) [OF assms(1) reg] assms(4) by simp
  then have ne: "key01 meta \<noteq> key10 meta" by (simp add: key01_def key10_def)
  have dry: "virtual_reserves sqrt_price 0 = None" by (simp add: virtual_reserves_def)
  show ?thesis
    using reg assms(5) e ne dry
      add_edges_view [OF g pool_vertices(1,2) [OF assms(1) reg, folded w_def] idx e, of lnf pow10 pool
        "f64_mul (v3_price sqrt_price) (fee_factor meta)" "f64_mul (f64_div (Num 1) (v3_price sqrt_price)) (fee_factor meta)" 0]
    by (auto simp: handle_pool_update_def Let_def on_graph_def cache_state_def w_def v3_ops_def)
qed

end
