(* ===== verification/Mempool_Backrun.thy ===== *)
theory Mempool_Backrun
  imports Bytes Common_Types
begin

text \<open>
  Validation of a backrun (\<^verbatim>\<open>simulator/src/mempool_backrun.rs\<close>): the victim's transaction, or the storage it is predicted
  to leave, then the arbitrage, on a forked state. The virtual machine is the parameter \<open>evm\<close>: its database with the
  writes of the cache layer, and the two ways of executing a transaction, in a block and with a chain id. The hash of the
  storage layout and the printers of revert texts are parameters too.
\<close>

section \<open>Model\<close>

record VictimTx =
  vt_from :: address
  vt_to :: address
  vt_value :: u256
  vt_data :: bytes
  vt_gas_price :: u128
  vt_gas_limit :: u64

record ArbTx =
  at_caller :: address
  at_to :: address
  at_data :: bytes
  at_gas_limit :: u64

datatype RejectReason =
    VictimReverted | VictimHalted | ArbReverted | ArbHalted | NegativeAfterGas | SimError | RpcTransport | SimTimeout

fun reject_str :: "RejectReason \<Rightarrow> string" where
  "reject_str VictimReverted = ''victim_reverted''"
| "reject_str VictimHalted = ''victim_halted''"
| "reject_str ArbReverted = ''arb_reverted''"
| "reject_str ArbHalted = ''arb_halted''"
| "reject_str NegativeAfterGas = ''negative_after_gas''"
| "reject_str SimError = ''sim_error''"
| "reject_str RpcTransport = ''rpc_transport''"
| "reject_str SimTimeout = ''sim_timeout''"

record BackrunSimResult =
  br_accepted :: bool
  br_gross_profit_wei :: u256
  br_arb_gas_used :: u64
  br_victim_gas_used :: u64
  br_reject :: "RejectReason option"
  br_revert_selector :: "bytes option"

definition br_rejected :: "RejectReason \<Rightarrow> u64 \<Rightarrow> u64 \<Rightarrow> BackrunSimResult" where
  "br_rejected reason victim_gas arb_gas =
     \<lparr>br_accepted = False, br_gross_profit_wei = 0, br_arb_gas_used = arb_gas, br_victim_gas_used = victim_gas,
      br_reject = Some reason, br_revert_selector = None\<rparr>"

record ValidatorParams =
  vp_block_number :: u64
  vp_block_timestamp :: u64
  vp_base_fee :: u64
  vp_chain_id :: u64
  vp_profit_token :: address
  vp_profit_recipient :: address
  vp_balance_slot :: u256
  vp_executor_bytecode :: "bytes option"
  vp_skip_victim_with_overrides :: "(address \<times> u256 \<times> u256) list option"

text \<open>The virtual machine. A transaction ends with a success or a revert with its output, or a halt, each with the gas
  it used, or in an error of the database or of the transaction itself.\<close>

record tx_env =
  te_caller :: address
  te_to :: address
  te_data :: bytes
  te_value :: u256
  te_gas_limit :: u64
  te_gas_price :: u128

record block_env =
  be_number :: u256
  be_timestamp :: u256
  be_basefee :: u64
  be_chain_id :: u64

datatype exec_outcome = ExSuccess u64 bytes | ExRevert u64 bytes | ExHalt u64

datatype evm_error = DatabaseError | OtherError

type_synonym evm_state = "address \<Rightarrow> u256 \<Rightarrow> u256 option"

record 'db evm =
  evm_insert_storage :: "'db \<Rightarrow> address \<Rightarrow> u256 \<Rightarrow> u256 \<Rightarrow> 'db"
  evm_insert_code :: "'db \<Rightarrow> address \<Rightarrow> bytes \<Rightarrow> 'db"
  evm_storage_ref :: "'db \<Rightarrow> address \<Rightarrow> u256 \<Rightarrow> u256 option"
  evm_transact_commit :: "block_env \<Rightarrow> 'db \<Rightarrow> tx_env \<Rightarrow> (evm_error + exec_outcome) \<times> 'db"
  evm_transact :: "block_env \<Rightarrow> 'db \<Rightarrow> tx_env \<Rightarrow> evm_error + (exec_outcome \<times> evm_state)"

fun classify_transact_err :: "evm_error \<Rightarrow> RejectReason" where
  "classify_transact_err DatabaseError = RpcTransport"
| "classify_transact_err OtherError = SimError"

definition read_post_balance :: "evm_state \<Rightarrow> address \<Rightarrow> u256 \<Rightarrow> u256 \<Rightarrow> u256" where
  "read_post_balance st token storage_key fallback = (case st token storage_key of Some v \<Rightarrow> v | None \<Rightarrow> fallback)"

text \<open>The first four bytes of the output, zero where it is shorter.\<close>

definition revert_selector :: "bytes \<Rightarrow> bytes" where
  "revert_selector output = take 4 output @ replicate (4 - length output) 0"

text \<open>The executor's owner, and its map of enabled protocols, in the storage of an injected contract.\<close>

definition owner_word :: "address \<Rightarrow> u256" where
  "owner_word caller = from_be (replicate 12 0 @ be_bytes 20 (unat caller))"

definition enabled_key :: "(bytes \<Rightarrow> u256) \<Rightarrow> u8 \<Rightarrow> u256" where
  "enabled_key keccak p = keccak (replicate 31 0 @ [p] @ replicate 31 0 @ [3])"

definition seeded_protocols :: "u8 list" where
  "seeded_protocols = [1, 2, 3, 4, 5, 6]"

definition inject_executor :: "'db evm \<Rightarrow> (bytes \<Rightarrow> u256) \<Rightarrow> address \<Rightarrow> address \<Rightarrow> bytes \<Rightarrow> 'db \<Rightarrow> 'db" where
  "inject_executor evm keccak executor caller code db =
     (let db = evm_insert_storage evm db executor 0 (owner_word caller);
          db = foldl (\<lambda>db p. evm_insert_storage evm db executor (enabled_key keccak p) 1) db seeded_protocols
      in evm_insert_code evm db executor code)"

definition apply_overrides :: "'db evm \<Rightarrow> (address \<times> u256 \<times> u256) list \<Rightarrow> 'db \<Rightarrow> 'db" where
  "apply_overrides evm overrides db =
     foldl (\<lambda>db (account, slot, value). evm_insert_storage evm db account slot value) db overrides"

definition prepare_db :: "'db evm \<Rightarrow> (bytes \<Rightarrow> u256) \<Rightarrow> ArbTx \<Rightarrow> ValidatorParams \<Rightarrow> 'db \<Rightarrow> 'db" where
  "prepare_db evm keccak arb params db =
     (let db = (case vp_skip_victim_with_overrides params of Some overrides \<Rightarrow> apply_overrides evm overrides db | None \<Rightarrow> db)
      in case vp_executor_bytecode params of
           Some code \<Rightarrow> inject_executor evm keccak (at_to arb) (at_caller arb) code db
         | None \<Rightarrow> db)"

definition profit_key :: "(bytes \<Rightarrow> u256) \<Rightarrow> ValidatorParams \<Rightarrow> u256" where
  "profit_key keccak params =
     keccak (replicate 12 0 @ be_bytes 20 (unat (vp_profit_recipient params)) @ abi_word (vp_balance_slot params))"

definition block_of :: "ValidatorParams \<Rightarrow> block_env" where
  "block_of params = \<lparr>be_number = ucast (vp_block_number params), be_timestamp = ucast (vp_block_timestamp params),
     be_basefee = vp_base_fee params, be_chain_id = vp_chain_id params\<rparr>"

definition victim_tx_env :: "VictimTx \<Rightarrow> tx_env" where
  "victim_tx_env victim = \<lparr>te_caller = vt_from victim, te_to = vt_to victim, te_data = vt_data victim,
     te_value = vt_value victim, te_gas_limit = vt_gas_limit victim, te_gas_price = vt_gas_price victim\<rparr>"

definition arb_tx_env :: "ArbTx \<Rightarrow> ValidatorParams \<Rightarrow> tx_env" where
  "arb_tx_env arb params = \<lparr>te_caller = at_caller arb, te_to = at_to arb, te_data = at_data arb, te_value = 0,
     te_gas_limit = at_gas_limit arb, te_gas_price = ucast (vp_base_fee params)\<rparr>"

text \<open>The victim leg: its gas and the state the arbitrage runs on, or the result to return at once.\<close>

definition run_victim ::
    "'db evm \<Rightarrow> VictimTx \<Rightarrow> ValidatorParams \<Rightarrow> 'db \<Rightarrow> BackrunSimResult + (u64 \<times> 'db)" where
  "run_victim evm victim params db =
     (if vp_skip_victim_with_overrides params \<noteq> None then Inr (0, db)
      else case evm_transact_commit evm (block_of params) db (victim_tx_env victim) of
        (Inr (ExSuccess gas_used _), db') \<Rightarrow> Inr (gas_used, db')
      | (Inr (ExRevert gas_used output), _) \<Rightarrow>
          Inl \<lparr>br_accepted = False, br_gross_profit_wei = 0, br_arb_gas_used = 0, br_victim_gas_used = gas_used,
               br_reject = Some VictimReverted, br_revert_selector = Some (revert_selector output)\<rparr>
      | (Inr (ExHalt gas_used), _) \<Rightarrow> Inl (br_rejected VictimHalted gas_used 0)
      | (Inl e, _) \<Rightarrow> Inl (br_rejected (classify_transact_err e) 0 0))"

definition run_arb ::
    "'db evm \<Rightarrow> ArbTx \<Rightarrow> ValidatorParams \<Rightarrow> u256 \<Rightarrow> u256 \<Rightarrow> u64 \<Rightarrow> 'db \<Rightarrow> BackrunSimResult" where
  "run_arb evm arb params storage_key pre_balance victim_gas_used db =
     (case evm_transact evm (block_of params) db (arb_tx_env arb params) of
        Inr (ExSuccess gas_used _, st) \<Rightarrow>
          let post_balance = read_post_balance st (vp_profit_token params) storage_key pre_balance;
              gross = saturating_sub post_balance pre_balance;
              gas_cost = saturating_mul (ucast gas_used) (ucast (vp_base_fee params))
          in if gross \<le> gas_cost then br_rejected NegativeAfterGas victim_gas_used gas_used
             else \<lparr>br_accepted = True, br_gross_profit_wei = gross, br_arb_gas_used = gas_used,
                   br_victim_gas_used = victim_gas_used, br_reject = None, br_revert_selector = None\<rparr>
      | Inr (ExRevert gas_used output, _) \<Rightarrow>
          \<lparr>br_accepted = False, br_gross_profit_wei = 0, br_arb_gas_used = gas_used, br_victim_gas_used = victim_gas_used,
           br_reject = Some ArbReverted, br_revert_selector = Some (revert_selector output)\<rparr>
      | Inr (ExHalt gas_used, _) \<Rightarrow> br_rejected ArbHalted victim_gas_used gas_used
      | Inl e \<Rightarrow> br_rejected (classify_transact_err e) victim_gas_used 0)"

definition validate_backrun_inner ::
    "'db evm \<Rightarrow> (bytes \<Rightarrow> u256) \<Rightarrow> 'db \<Rightarrow> VictimTx \<Rightarrow> ArbTx \<Rightarrow> ValidatorParams \<Rightarrow> BackrunSimResult" where
  "validate_backrun_inner evm keccak db victim arb params =
     (let db = prepare_db evm keccak arb params db;
          storage_key = profit_key keccak params;
          pre_balance = (case evm_storage_ref evm db (vp_profit_token params) storage_key of Some v \<Rightarrow> v | None \<Rightarrow> 0)
      in case run_victim evm victim params db of
           Inl r \<Rightarrow> r
         | Inr (victim_gas_used, db) \<Rightarrow> run_arb evm arb params storage_key pre_balance victim_gas_used db)"

text \<open>The revert text: \<open>hex\<close>, \<open>hex_u256\<close> and \<open>utf8_lossy\<close> are the printers of the libraries.\<close>

definition panic_kind :: "u256 \<Rightarrow> string" where
  "panic_kind code =
     (if code = 0x01 then ''assert(false)''
      else if code = 0x11 then ''arithmetic over/underflow''
      else if code = 0x12 then ''division/modulo by zero''
      else if code = 0x21 then ''invalid enum''
      else if code = 0x22 then ''storage byte array bad encoding''
      else if code = 0x31 then ''pop on empty array''
      else if code = 0x32 then ''out-of-bounds array access''
      else if code = 0x41 then ''out-of-memory''
      else if code = 0x51 then ''called invalid internal function''
      else ''unknown panic'')"

definition error_text :: "(bytes \<Rightarrow> string) \<Rightarrow> bytes \<Rightarrow> string" where
  "error_text utf8_lossy body =
     (if length body \<ge> 64
      then let len = unat (from_be (take 32 (drop 32 body)) :: u256);
               stop = min (min (64 + len) (2 ^ 64 - 1)) (length body)
           in if stop > 64 then ''Error(\"'' @ utf8_lossy (take (stop - 64) (drop 64 body)) @ ''\")''
              else ''Error(<malformed>)''
      else ''Error(<malformed>)'')"

definition decode_revert_reason ::
    "(bytes \<Rightarrow> string) \<Rightarrow> (u256 \<Rightarrow> string) \<Rightarrow> (bytes \<Rightarrow> string) \<Rightarrow> bytes \<Rightarrow> string" where
  "decode_revert_reason hex hex_u256 utf8_lossy output =
     (if output = [] then ''empty''
      else if length output < 4 then ''short(0x'' @ hex output @ '')''
      else
        let sel = take 4 output; body = drop 4 output
        in if sel = [0x08, 0xc3, 0x79, 0xa0] then error_text utf8_lossy body
           else if sel = [0x4e, 0x48, 0x7b, 0x71] then
             (if length body \<ge> 32
              then let code = from_be (take 32 body) in ''Panic(0x'' @ hex_u256 code @ '': '' @ panic_kind code @ '')''
              else ''Panic(<malformed>)'')
           else ''custom(0x'' @ hex sel @ '')'')"

section \<open>Properties\<close>

lemma gas_product: "uint (saturating_mul (ucast (g :: u64)) (ucast (f :: u64)) :: u256) = uint g * uint f"
proof -
  have "unat g < 2 ^ 64" "unat f < 2 ^ 64"
    using unsigned_less [of g, where 'a = nat] unsigned_less [of f, where 'a = nat] by simp_all
  then have "unat g * unat f < 2 ^ 64 * 2 ^ 64" by (intro mult_strict_mono) simp_all
  then have "unat (saturating_mul (ucast g) (ucast f) :: u256) = unat g * unat f"
    by (subst saturating_mul_fits) (simp_all add: unat_ucast_widen)
  then show ?thesis by (metis of_nat_mult uint_nat)
qed

text \<open>The last leg of an accepted validation.\<close>

lemma run_arb_accepted:
  assumes "br_accepted (run_arb evm arb params key pre vgas db)"
  shows "\<exists>gas outp st. evm_transact evm (block_of params) db (arb_tx_env arb params) = Inr (ExSuccess gas outp, st)
    \<and> run_arb evm arb params key pre vgas db =
        \<lparr>br_accepted = True, br_gross_profit_wei = read_post_balance st (vp_profit_token params) key pre - pre,
         br_arb_gas_used = gas, br_victim_gas_used = vgas, br_reject = None, br_revert_selector = None\<rparr>
    \<and> uint pre + uint gas * uint (vp_base_fee params) < uint (read_post_balance st (vp_profit_token params) key pre)"
proof -
  obtain gas outp st where run: "evm_transact evm (block_of params) db (arb_tx_env arb params) = Inr (ExSuccess gas outp, st)"
    using assms unfolding run_arb_def br_rejected_def by (auto split: sum.splits exec_outcome.splits)
  define post where "post = read_post_balance st (vp_profit_token params) key pre"
  have "\<not> saturating_sub post pre \<le> saturating_mul (ucast gas) (ucast (vp_base_fee params))"
    using assms run by (auto simp: run_arb_def br_rejected_def Let_def post_def split: if_splits)
  then have lt: "uint gas * uint (vp_base_fee params) < uint (saturating_sub post pre)"
    unfolding word_le_def gas_product by simp
  have "0 \<le> uint gas * uint (vp_base_fee params)" by simp
  then have pos: "0 < uint (saturating_sub post pre)" using lt by linarith
  then have le: "pre \<le> post" by (auto simp: saturating_sub_def split: if_splits)
  then have "uint (saturating_sub post pre) = uint post - uint pre"
    by (simp add: saturating_sub_def uint_sub_lem word_le_def)
  then show ?thesis
    using run lt le \<open>\<not> saturating_sub post pre \<le> _\<close>
    by (auto simp: run_arb_def Let_def post_def [symmetric] saturating_sub_def)
qed

lemma run_arb_rejected: "\<not> br_accepted (run_arb evm arb params key pre vgas db) \<longleftrightarrow> br_reject (run_arb evm arb params key pre vgas db) \<noteq> None"
  "\<not> br_accepted (run_arb evm arb params key pre vgas db) \<Longrightarrow> br_gross_profit_wei (run_arb evm arb params key pre vgas db) = 0"
  by (auto simp: run_arb_def br_rejected_def Let_def split: sum.splits exec_outcome.splits)

lemma run_victim_rejected:
  "run_victim evm victim params db = Inl r \<Longrightarrow> \<not> br_accepted r \<and> br_gross_profit_wei r = 0 \<and> br_reject r \<noteq> None"
  by (auto simp: run_victim_def br_rejected_def split: if_splits sum.splits exec_outcome.splits prod.splits)

text \<open>The state the arbitrage runs on: the victim's, or the prepared one when its effect was written into storage.\<close>

definition victim_applied :: "'db evm \<Rightarrow> VictimTx \<Rightarrow> ValidatorParams \<Rightarrow> 'db \<Rightarrow> u64 \<Rightarrow> 'db \<Rightarrow> bool" where
  "victim_applied evm victim params db gas db' \<longleftrightarrow>
     (if vp_skip_victim_with_overrides params = None
      then (\<exists>outp. evm_transact_commit evm (block_of params) db (victim_tx_env victim) = (Inr (ExSuccess gas outp), db'))
      else gas = 0 \<and> db' = db)"

lemma run_victim_applied: "run_victim evm victim params db = Inr (gas, db') \<Longrightarrow> victim_applied evm victim params db gas db'"
  by (auto simp: run_victim_def victim_applied_def split: if_splits sum.splits exec_outcome.splits prod.splits)

lemma validate_backrun_ok:
  assumes "validate_backrun_inner evm keccak db victim arb params = r"
  shows "(br_accepted r \<longleftrightarrow> br_reject r = None) \<and> (\<not> br_accepted r \<longrightarrow> br_gross_profit_wei r = 0)
    \<and> (br_accepted r \<longrightarrow> (\<exists>db' outp st pre.
        pre = (case evm_storage_ref evm (prepare_db evm keccak arb params db) (vp_profit_token params) (profit_key keccak params) of
                 Some v \<Rightarrow> v | None \<Rightarrow> 0)
        \<and> victim_applied evm victim params (prepare_db evm keccak arb params db) (br_victim_gas_used r) db'
        \<and> evm_transact evm (block_of params) db' (arb_tx_env arb params) = Inr (ExSuccess (br_arb_gas_used r) outp, st)
        \<and> br_gross_profit_wei r = read_post_balance st (vp_profit_token params) (profit_key keccak params) pre - pre
        \<and> uint pre + uint (br_arb_gas_used r) * uint (vp_base_fee params)
            < uint (read_post_balance st (vp_profit_token params) (profit_key keccak params) pre)))"
proof -
  define d where "d = prepare_db evm keccak arb params db"
  define pre where "pre = (case evm_storage_ref evm d (vp_profit_token params) (profit_key keccak params) of Some v \<Rightarrow> v | None \<Rightarrow> 0)"
  have r: "r = (case run_victim evm victim params d of Inl r \<Rightarrow> r
      | Inr (gas, d') \<Rightarrow> run_arb evm arb params (profit_key keccak params) pre gas d')"
    using assms unfolding validate_backrun_inner_def Let_def d_def pre_def by simp
  show ?thesis
  proof (cases "run_victim evm victim params d")
    case (Inl r')
    then show ?thesis using run_victim_rejected [OF Inl] r by auto
  next
    case (Inr p)
    obtain gas d' where p: "p = (gas, d')" by fastforce
    have ra: "r = run_arb evm arb params (profit_key keccak params) pre gas d'" using r Inr p by simp
    note v = run_victim_applied [OF Inr [unfolded p]]
    show ?thesis
      using v run_arb_accepted [of evm arb params "profit_key keccak params" pre gas d']
        run_arb_rejected [of evm arb params "profit_key keccak params" pre gas d']
      unfolding ra [symmetric] d_def [symmetric] pre_def [symmetric] by fastforce
  qed
qed

text \<open>C9: a backrun is accepted exactly when no reject reason is set, and a rejected one reports no profit. An accepted
  one was measured on the state the victim's transaction left, or with the predicted storage in place of
  it, by an arbitrage that succeeded there; the reported profit is what the recipient's token balance gained, and it
  is more than the gas of the arbitrage costs at the base fee.\<close>

theorem validate_backrun_sound:
  assumes "validate_backrun_inner evm keccak db victim arb params = r"
  shows "(br_accepted r \<longleftrightarrow> br_reject r = None) \<and> (\<not> br_accepted r \<longrightarrow> br_gross_profit_wei r = 0)
    \<and> (br_accepted r \<longrightarrow> (\<exists>db' outp st pre.
        pre = (case evm_storage_ref evm (prepare_db evm keccak arb params db) (vp_profit_token params) (profit_key keccak params) of
                 Some v \<Rightarrow> v | None \<Rightarrow> 0)
        \<and> victim_applied evm victim params (prepare_db evm keccak arb params db) (br_victim_gas_used r) db'
        \<and> evm_transact evm (block_of params) db' (arb_tx_env arb params) = Inr (ExSuccess (br_arb_gas_used r) outp, st)
        \<and> br_gross_profit_wei r = read_post_balance st (vp_profit_token params) (profit_key keccak params) pre - pre
        \<and> uint pre + uint (br_arb_gas_used r) * uint (vp_base_fee params)
            < uint (read_post_balance st (vp_profit_token params) (profit_key keccak params) pre)))"
  by (rule validate_backrun_ok [OF assms])

text \<open>A machine whose database counts commits and whose arbitrage pays ten for each.\<close>

definition demo_evm :: "nat evm" where
  "demo_evm = \<lparr>evm_insert_storage = (\<lambda>n _ _ _. n), evm_insert_code = (\<lambda>n _ _. n), evm_storage_ref = (\<lambda>_ _ _. Some 5),
     evm_transact_commit = (\<lambda>_ n _. (Inr (ExSuccess 21000 []), Suc n)),
     evm_transact = (\<lambda>_ n _. Inr (ExSuccess 2 [], \<lambda>_ _. Some (5 + 10 * of_nat n)))\<rparr>"

definition demo_victim :: VictimTx where
  "demo_victim = \<lparr>vt_from = 1, vt_to = 2, vt_value = 0, vt_data = [], vt_gas_price = 0, vt_gas_limit = 30000000\<rparr>"

definition demo_arb :: ArbTx where
  "demo_arb = \<lparr>at_caller = 3, at_to = 4, at_data = [], at_gas_limit = 3000000\<rparr>"

definition demo_params :: ValidatorParams where
  "demo_params = \<lparr>vp_block_number = 1, vp_block_timestamp = 1, vp_base_fee = 4, vp_chain_id = 1, vp_profit_token = 9,
     vp_profit_recipient = 3, vp_balance_slot = 3, vp_executor_bytecode = None, vp_skip_victim_with_overrides = None\<rparr>"

theorem validate_backrun_sound_witness:
  "br_gross_profit_wei (validate_backrun_inner demo_evm (\<lambda>_. 0) 0 demo_victim demo_arb demo_params) = 10
    \<and> br_reject (validate_backrun_inner demo_evm (\<lambda>_. 0) 0 demo_victim demo_arb demo_params) = None
    \<and> (\<exists>db' outp st. victim_applied demo_evm demo_victim demo_params 0 21000 db'
        \<and> evm_transact demo_evm (block_of demo_params) db' (arb_tx_env demo_arb demo_params) = Inr (ExSuccess 2 outp, st))"
proof -
  let ?r = "validate_backrun_inner demo_evm (\<lambda>_. 0) 0 demo_victim demo_arb demo_params"
  have "?r = \<lparr>br_accepted = True, br_gross_profit_wei = 10, br_arb_gas_used = 2, br_victim_gas_used = 21000, br_reject = None,
      br_revert_selector = None\<rparr>"
    by code_simp
  moreover have "prepare_db demo_evm (\<lambda>_. 0) demo_arb demo_params 0 = 0" by code_simp
  ultimately show ?thesis
    using validate_backrun_sound [of demo_evm "\<lambda>_. 0" 0 demo_victim demo_arb demo_params ?r] by auto
qed

text \<open>An executor injected into the fork has the protocols 1 to 6 enabled, so it refuses every step through a
  Balancer V3 pool, whose tag is 7.\<close>

lemma injected_executor_protocols: "protocol_u8 p \<in> set seeded_protocols \<longleftrightarrow> p \<noteq> BalancerV3"
  by (cases p) (simp_all add: seeded_protocols_def)

text \<open>The standard error of a failed \<^verbatim>\<open>require\<close> is printed as its message.\<close>

lemma decode_revert_reason_error:
  assumes "msg \<noteq> []" and "length msg < 2 ^ 32"
  shows "decode_revert_reason hex hex_u256 utf8_lossy
      ([0x08, 0xc3, 0x79, 0xa0] @ abi_word (0x20 :: u256) @ abi_word (of_nat (length msg) :: u256) @ msg @ padding)
    = ''Error(\"'' @ utf8_lossy msg @ ''\")''"
proof -
  have "unat (of_nat (length msg) :: u256) = length msg"
    using assms(2) by (simp add: unat_of_nat)
  then show ?thesis
    using assms by (simp add: decode_revert_reason_def error_text_def Let_def min_def)
qed

end
