(* ===== verification/Post_State_Replay.thy ===== *)
theory Post_State_Replay
  imports Mempool_Backrun Pools
begin

text \<open>
  Replay of a pending transaction for its effect on one pool (\<^verbatim>\<open>simulator/src/post_state_replay.rs\<close>): the victim is
  committed on a fork and the pool is asked for its state by view calls. The virtual machine is the one of the backrun
  validation; the encoding of the view calls and the decoding of their results are the parameter \<open>view_abi\<close>.
\<close>

section \<open>Model\<close>

datatype ReplayError =
    ReplayVictimReverted | ReplayVictimHalted | ReadCallFailed string | DecodeFailed string | ReplaySimError
  | UnimplementedProtocol string

fun replay_str :: "ReplayError \<Rightarrow> string" where
  "replay_str ReplayVictimReverted = ''victim_reverted''"
| "replay_str ReplayVictimHalted = ''victim_halted''"
| "replay_str (ReadCallFailed _) = ''read_call_failed''"
| "replay_str (DecodeFailed _) = ''decode_failed''"
| "replay_str ReplaySimError = ''sim_error''"
| "replay_str (UnimplementedProtocol _) = ''unimplemented_protocol''"

record ReplayParams =
  rp_block_number :: u64
  rp_block_timestamp :: u64
  rp_base_fee :: u64
  rp_chain_id :: u64

definition VAULT :: address where
  "VAULT = 0xBA12222222228d8Ba445958a75a0704d566BF2C8"

text \<open>The view functions of the pools and of the vault; a pool id is 32 bytes.\<close>

datatype view_call = Slot0Call | LiquidityCall | BalancesCall u256 | GetPoolIdCall | GetPoolTokensCall u256

record view_abi =
  va_encode :: "view_call \<Rightarrow> bytes"
  va_slot0 :: "bytes \<Rightarrow> (160 word) option"
  va_liquidity :: "bytes \<Rightarrow> u128 option"
  va_balance :: "bytes \<Rightarrow> u256 option"
  va_pool_id :: "bytes \<Rightarrow> u256 option"
  va_pool_tokens :: "bytes \<Rightarrow> (address list \<times> u256 list) option"

text \<open>Results and the \<^verbatim>\<open>?\<close> operator on them.\<close>

fun rbind :: "'e + 'a \<Rightarrow> ('a \<Rightarrow> 'e + 'b) \<Rightarrow> 'e + 'b" where
  "rbind (Inl e) f = Inl e"
| "rbind (Inr x) f = f x"

fun ok_or :: "'a option \<Rightarrow> 'e \<Rightarrow> 'e + 'a" where
  "ok_or (Some x) e = Inr x"
| "ok_or None e = Inl e"

definition replay_block :: "ReplayParams \<Rightarrow> block_env" where
  "replay_block params = \<lparr>be_number = ucast (rp_block_number params), be_timestamp = ucast (rp_block_timestamp params),
     be_basefee = rp_base_fee params, be_chain_id = rp_chain_id params\<rparr>"

definition build_view_env :: "address \<Rightarrow> bytes \<Rightarrow> tx_env" where
  "build_view_env pool data = \<lparr>te_caller = 0, te_to = pool, te_data = data, te_value = 0, te_gas_limit = 1000000, te_gas_price = 0\<rparr>"

definition replay_victim :: "'db evm \<Rightarrow> 'db \<Rightarrow> VictimTx \<Rightarrow> ReplayParams \<Rightarrow> ReplayError + 'db" where
  "replay_victim evm db victim params =
     (case evm_transact_commit evm (replay_block params) db (victim_tx_env victim) of
        (Inr (ExSuccess _ _), db') \<Rightarrow> Inr db'
      | (Inr (ExRevert _ _), _) \<Rightarrow> Inl ReplayVictimReverted
      | (Inr (ExHalt _), _) \<Rightarrow> Inl ReplayVictimHalted
      | (Inl _, _) \<Rightarrow> Inl ReplaySimError)"

text \<open>A view call on the state after the victim, and the decoding of what it returned.\<close>

definition read_view :: "'db evm \<Rightarrow> view_abi \<Rightarrow> ReplayParams \<Rightarrow> 'db \<Rightarrow> address \<Rightarrow> view_call \<Rightarrow> string \<Rightarrow> ReplayError + bytes" where
  "read_view evm abi params db target call name =
     (case evm_transact evm (replay_block params) db (build_view_env target (va_encode abi call)) of
        Inr (ExSuccess _ output, _) \<Rightarrow> Inr output
      | _ \<Rightarrow> Inl (ReadCallFailed name))"

definition replay_v3_inner ::
    "'db evm \<Rightarrow> view_abi \<Rightarrow> 'db \<Rightarrow> VictimTx \<Rightarrow> address \<Rightarrow> ReplayParams \<Rightarrow> ReplayError + V3PostState" where
  "replay_v3_inner evm abi db victim pool params =
     rbind (replay_victim evm db victim params) (\<lambda>db.
     rbind (read_view evm abi params db pool Slot0Call ''slot0'') (\<lambda>slot0_output.
     rbind (ok_or (va_slot0 abi slot0_output) (DecodeFailed ''slot0'')) (\<lambda>sqrt_price_x96.
     rbind (read_view evm abi params db pool LiquidityCall ''liquidity'') (\<lambda>liq_output.
     rbind (ok_or (va_liquidity abi liq_output) (DecodeFailed ''liquidity'')) (\<lambda>liquidity.
       Inr \<lparr>v3p_new_sqrt_price_x96 = ucast sqrt_price_x96, v3p_new_liquidity = liquidity, v3p_amount_out = 0,
            v3p_single_tick = True\<rparr>)))))"

definition replay_curve_inner ::
    "'db evm \<Rightarrow> view_abi \<Rightarrow> 'db \<Rightarrow> VictimTx \<Rightarrow> address \<Rightarrow> u8 \<Rightarrow> u8 \<Rightarrow> ReplayParams \<Rightarrow> ReplayError + CurvePostState" where
  "replay_curve_inner evm abi db victim pool coin_idx_in coin_idx_out params =
     rbind (replay_victim evm db victim params) (\<lambda>db.
     rbind (read_view evm abi params db pool (BalancesCall (ucast coin_idx_in)) ''balances'') (\<lambda>in_output.
     rbind (ok_or (va_balance abi in_output) (DecodeFailed ''balances'')) (\<lambda>new_balance_in.
     rbind (read_view evm abi params db pool (BalancesCall (ucast coin_idx_out)) ''balances'') (\<lambda>out_output.
     rbind (ok_or (va_balance abi out_output) (DecodeFailed ''balances'')) (\<lambda>new_balance_out.
       Inr \<lparr>cps_i = unat coin_idx_in, cps_j = unat coin_idx_out, cps_new_balance_in = new_balance_in,
            cps_new_balance_out = new_balance_out, cps_amount_out = 0, cps_analytical = False\<rparr>)))))"

text \<open>The loop over the vault's parallel arrays.\<close>

fun pick_balances :: "address \<Rightarrow> address \<Rightarrow> (address \<times> u256) list \<Rightarrow> u256 option \<Rightarrow> u256 option \<Rightarrow> u256 option \<times> u256 option" where
  "pick_balances token0 token1 [] bal0 bal1 = (bal0, bal1)"
| "pick_balances token0 token1 ((tok, bal) # rest) bal0 bal1 =
     (if tok = token0 then pick_balances token0 token1 rest (Some bal) bal1
      else if tok = token1 then pick_balances token0 token1 rest bal0 (Some bal)
      else pick_balances token0 token1 rest bal0 bal1)"

fun balancer_post :: "u256 option \<times> u256 option \<Rightarrow> ReplayError + BalancerPostState" where
  "balancer_post (Some b0, Some b1) = Inr \<lparr>bps_new_balance0 = b0, bps_new_balance1 = b1, bps_amount_out = 0, bps_analytical = False\<rparr>"
| "balancer_post _ = Inl (DecodeFailed ''getPoolTokens'')"

definition replay_balancer_inner ::
    "'db evm \<Rightarrow> view_abi \<Rightarrow> 'db \<Rightarrow> VictimTx \<Rightarrow> address \<Rightarrow> address \<Rightarrow> address \<Rightarrow> address \<Rightarrow> ReplayParams
      \<Rightarrow> ReplayError + BalancerPostState" where
  "replay_balancer_inner evm abi db victim pool vault token0 token1 params =
     rbind (replay_victim evm db victim params) (\<lambda>db.
     rbind (read_view evm abi params db pool GetPoolIdCall ''getPoolId'') (\<lambda>pool_id_output.
     rbind (ok_or (va_pool_id abi pool_id_output) (DecodeFailed ''getPoolId'')) (\<lambda>pool_id.
     rbind (read_view evm abi params db vault (GetPoolTokensCall pool_id) ''getPoolTokens'') (\<lambda>tokens_output.
     rbind (ok_or (va_pool_tokens abi tokens_output) (DecodeFailed ''getPoolTokens'')) (\<lambda>(tokens, balances).
       balancer_post (pick_balances token0 token1 (zip tokens balances) None None))))))"

section \<open>Properties\<close>

lemma rbind_Inr_iff: "rbind m f = Inr y \<longleftrightarrow> (\<exists>x. m = Inr x \<and> f x = Inr y)"
  by (cases m) auto

lemma ok_or_Inr_iff: "ok_or v e = Inr x \<longleftrightarrow> v = Some x"
  by (cases v) auto

lemma replay_victim_Inr_iff:
  "replay_victim evm db victim params = Inr db' \<longleftrightarrow>
     (\<exists>gas outp. evm_transact_commit evm (replay_block params) db (victim_tx_env victim) = (Inr (ExSuccess gas outp), db'))"
  by (auto simp: replay_victim_def split: prod.splits sum.splits exec_outcome.splits)

lemma read_view_Inr_iff:
  "read_view evm abi params db target call name = Inr outp \<longleftrightarrow>
     (\<exists>gas st. evm_transact evm (replay_block params) db (build_view_env target (va_encode abi call)) = Inr (ExSuccess gas outp, st))"
  by (auto simp: read_view_def split: sum.splits prod.splits exec_outcome.splits)

lemma balancer_post_Inr_iff:
  "balancer_post p = Inr post \<longleftrightarrow> (\<exists>b0 b1. p = (Some b0, Some b1)
     \<and> post = \<lparr>bps_new_balance0 = b0, bps_new_balance1 = b1, bps_amount_out = 0, bps_analytical = False\<rparr>)"
  by (cases p rule: balancer_post.cases) auto

lemma Inr_Inr_eq: "Inr x = (Inr y :: 'e + 'a) \<longleftrightarrow> y = x"
  by auto

lemmas replay_simps = rbind_Inr_iff ok_or_Inr_iff replay_victim_Inr_iff

text \<open>The loop over the vault's arrays is a lookup, the later entry of a token winning, when the two tokens differ.\<close>

lemma pick_balances_lookup:
  assumes "token0 \<noteq> token1"
  shows "pick_balances token0 token1 ps bal0 bal1 =
    ((case map_of (rev ps) token0 of Some b \<Rightarrow> Some b | None \<Rightarrow> bal0),
     (case map_of (rev ps) token1 of Some b \<Rightarrow> Some b | None \<Rightarrow> bal1))"
  using assms by (induction ps arbitrary: bal0 bal1) (auto simp: map_add_def split: option.splits)

lemma pick_balances_same: "pick_balances token0 token0 ps bal0 None = (b, c) \<Longrightarrow> c = None"
  by (induction ps arbitrary: bal0) (auto split: if_splits)

lemma zip_lookup:
  assumes "distinct tokens" and "length balances = length tokens" and "i < length tokens"
  shows "map_of (rev (zip tokens balances)) (tokens ! i) = Some (balances ! i)"
proof (rule map_of_is_SomeI)
  have "map fst (rev (zip tokens balances)) = rev tokens" using assms(2) by (simp add: rev_map [symmetric])
  then show "distinct (map fst (rev (zip tokens balances)))" using assms(1) by simp
  show "(tokens ! i, balances ! i) \<in> set (rev (zip tokens balances))"
    using assms(2,3) by (auto simp: set_zip)
qed

text \<open>What a view call answers on a state.\<close>

definition answers :: "'db evm \<Rightarrow> view_abi \<Rightarrow> ReplayParams \<Rightarrow> 'db \<Rightarrow> address \<Rightarrow> view_call \<Rightarrow> bytes \<Rightarrow> bool" where
  "answers evm abi params db target call outp \<longleftrightarrow>
     (\<exists>gas st. evm_transact evm (replay_block params) db (build_view_env target (va_encode abi call)) = Inr (ExSuccess gas outp, st))"

lemma read_view_answers: "read_view evm abi params db target call name = Inr outp \<longleftrightarrow> answers evm abi params db target call outp"
  by (simp add: read_view_Inr_iff answers_def)

text \<open>C18: a replayed Balancer state is read after the victim. When the replay answers, the victim succeeded and was
  committed, the vault's answer for the pool's own id was read on the committed state, and each balance is the one the vault
  lists for that token, at whatever position the vault keeps it; a pool whose two tokens are the same is refused.\<close>

theorem replay_balancer_exact:
  assumes "replay_balancer_inner evm abi db victim pool vault token0 token1 params = Inr post"
  shows "token0 \<noteq> token1 \<and> \<not> bps_analytical post
    \<and> (\<exists>gas o0 db' o1 pid o2 tokens balances.
        evm_transact_commit evm (replay_block params) db (victim_tx_env victim) = (Inr (ExSuccess gas o0), db')
        \<and> answers evm abi params db' pool GetPoolIdCall o1 \<and> va_pool_id abi o1 = Some pid
        \<and> answers evm abi params db' vault (GetPoolTokensCall pid) o2 \<and> va_pool_tokens abi o2 = Some (tokens, balances)
        \<and> (distinct tokens \<and> length balances = length tokens \<longrightarrow>
             (\<forall>i < length tokens. (tokens ! i = token0 \<longrightarrow> bps_new_balance0 post = balances ! i)
                \<and> (tokens ! i = token1 \<longrightarrow> bps_new_balance1 post = balances ! i))))"
proof -
  obtain gas o0 db' o1 pid o2 tokens balances b0 b1
    where run: "evm_transact_commit evm (replay_block params) db (victim_tx_env victim) = (Inr (ExSuccess gas o0), db')"
      "answers evm abi params db' pool GetPoolIdCall o1" "va_pool_id abi o1 = Some pid"
      "answers evm abi params db' vault (GetPoolTokensCall pid) o2" "va_pool_tokens abi o2 = Some (tokens, balances)"
      and pick: "pick_balances token0 token1 (zip tokens balances) None None = (Some b0, Some b1)"
      and post: "post = \<lparr>bps_new_balance0 = b0, bps_new_balance1 = b1, bps_amount_out = 0, bps_analytical = False\<rparr>"
    using assms unfolding replay_balancer_inner_def
    by (auto simp: replay_simps read_view_answers balancer_post_Inr_iff split: prod.split_asm)
  have ne: "token0 \<noteq> token1" using pick pick_balances_same by fastforce
  have "map_of (rev (zip tokens balances)) token0 = Some b0" "map_of (rev (zip tokens balances)) token1 = Some b1"
    using pick unfolding pick_balances_lookup [OF ne] by (auto split: option.splits)
  then have "distinct tokens \<and> length balances = length tokens \<longrightarrow>
      (\<forall>i < length tokens. (tokens ! i = token0 \<longrightarrow> b0 = balances ! i) \<and> (tokens ! i = token1 \<longrightarrow> b1 = balances ! i))"
    using zip_lookup [of tokens balances] by auto
  with run ne show ?thesis unfolding post BalancerPostState.select_convs by blast
qed

text \<open>A vault that lists the tokens in the other order, with the outputs of the calls as their tags.\<close>

definition view_evm :: "nat evm" where
  "view_evm = \<lparr>evm_insert_storage = (\<lambda>n _ _ _. n), evm_insert_code = (\<lambda>n _ _. n), evm_storage_ref = (\<lambda>_ _ _. None),
     evm_transact_commit = (\<lambda>_ n _. (Inr (ExSuccess 21000 []), Suc n)),
     evm_transact = (\<lambda>_ n tx. Inr (ExSuccess 2 (te_data tx), \<lambda>_ _. None))\<rparr>"

definition tag_abi :: view_abi where
  "tag_abi = \<lparr>va_encode = (\<lambda>c. case c of Slot0Call \<Rightarrow> [0] | LiquidityCall \<Rightarrow> [1] | BalancesCall i \<Rightarrow> [2, ucast i] | GetPoolIdCall \<Rightarrow> [3]
       | GetPoolTokensCall i \<Rightarrow> [4]),
     va_slot0 = (\<lambda>_. Some 5), va_liquidity = (\<lambda>_. Some 6), va_balance = (\<lambda>_. Some 7), va_pool_id = (\<lambda>_. Some 8),
     va_pool_tokens = (\<lambda>bs. if bs = [4] then Some ([20, 10], [200, 100]) else None)\<rparr>"

definition replay_demo :: ReplayParams where
  "replay_demo = \<lparr>rp_block_number = 1, rp_block_timestamp = 1, rp_base_fee = 1, rp_chain_id = 1\<rparr>"

theorem replay_balancer_exact_witness:
  "replay_balancer_inner view_evm tag_abi 0 demo_victim 1 VAULT 10 20 replay_demo =
     Inr \<lparr>bps_new_balance0 = 100, bps_new_balance1 = 200, bps_amount_out = 0, bps_analytical = False\<rparr>
   \<and> (\<exists>gas o0 db'. evm_transact_commit view_evm (replay_block replay_demo) 0 (victim_tx_env demo_victim) = (Inr (ExSuccess gas o0), db'))"
proof -
  have "replay_balancer_inner view_evm tag_abi 0 demo_victim 1 VAULT 10 20 replay_demo =
     Inr \<lparr>bps_new_balance0 = 100, bps_new_balance1 = 200, bps_amount_out = 0, bps_analytical = False\<rparr>"
    by code_simp
  from this replay_balancer_exact [OF this] show ?thesis by blast
qed

text \<open>The other two readers: their values are the answers of the pool after the victim.\<close>

lemma replay_v3_reads:
  "replay_v3_inner evm abi db victim pool params = Inr post \<longleftrightarrow>
     (\<exists>gas o0 db' o1 p o2 l. evm_transact_commit evm (replay_block params) db (victim_tx_env victim) = (Inr (ExSuccess gas o0), db')
        \<and> answers evm abi params db' pool Slot0Call o1 \<and> va_slot0 abi o1 = Some p
        \<and> answers evm abi params db' pool LiquidityCall o2 \<and> va_liquidity abi o2 = Some l
        \<and> post = \<lparr>v3p_new_sqrt_price_x96 = ucast p, v3p_new_liquidity = l, v3p_amount_out = 0, v3p_single_tick = True\<rparr>)"
  unfolding replay_v3_inner_def replay_simps read_view_answers Inr_Inr_eq by blast

lemma replay_curve_reads:
  "replay_curve_inner evm abi db victim pool i j params = Inr post \<longleftrightarrow>
     (\<exists>gas o0 db' o1 x o2 y. evm_transact_commit evm (replay_block params) db (victim_tx_env victim) = (Inr (ExSuccess gas o0), db')
        \<and> answers evm abi params db' pool (BalancesCall (ucast i)) o1 \<and> va_balance abi o1 = Some x
        \<and> answers evm abi params db' pool (BalancesCall (ucast j)) o2 \<and> va_balance abi o2 = Some y
        \<and> post = \<lparr>cps_i = unat i, cps_j = unat j, cps_new_balance_in = x, cps_new_balance_out = y, cps_amount_out = 0,
            cps_analytical = False\<rparr>)"
  unfolding replay_curve_inner_def replay_simps read_view_answers Inr_Inr_eq by blast

end
