(* ===== verification/Mempool_Writer.thy ===== *)
theory Mempool_Writer
  imports Common_Types F64 Hash_Map
begin

text \<open>
  The prediction writer (\<^verbatim>\<open>grpc-server/src/mempool_writer.rs\<close>): the row built for every scanned swap, the bounded channel
  the pipeline sends it on, and the task that drains the channel into the table \<^verbatim>\<open>mempool_predictions\<close>, whose
  insertion does nothing when the hash of the pending transaction is already there. Whether the database accepts a
  statement is part of the event that drains a row.
\<close>

section \<open>Model\<close>

definition PROTOCOL_UNI_V2 :: string where "PROTOCOL_UNI_V2 = ''uni_v2''"
definition PROTOCOL_SUSHI :: string where "PROTOCOL_SUSHI = ''sushi''"
definition PROTOCOL_UNI_V3 :: string where "PROTOCOL_UNI_V3 = ''uni_v3''"
definition PROTOCOL_CURVE :: string where "PROTOCOL_CURVE = ''curve''"
definition PROTOCOL_BALANCER :: string where "PROTOCOL_BALANCER = ''balancer''"
definition PROTOCOL_BANCOR :: string where "PROTOCOL_BANCOR = ''bancor''"
definition PROTOCOL_ONE_INCH_V6 :: string where "PROTOCOL_ONE_INCH_V6 = ''one_inch_v6''"

definition WRITER_CHANNEL_CAPACITY :: nat where
  "WRITER_CHANNEL_CAPACITY = 512"

datatype PredictedPostState =
    PP_V2 f64 f64 | PP_V3 f64 f64 | PP_Balancer f64 f64 | PP_Curve f64 f64 | PP_Bancor f64 f64 | PP_OneInchV6 f64 f64

text \<open>JSON values; a number that is not finite serialises to null.\<close>

datatype json = JNull | JNum f64 | JString string | JObject "(string \<times> json) list"

definition json_f64 :: "f64 \<Rightarrow> json" where
  "json_f64 x = (if is_finite x then JNum x else JNull)"

definition tagged :: "string \<Rightarrow> f64 \<Rightarrow> f64 \<Rightarrow> json" where
  "tagged kind reserve_in reserve_out =
     JObject [(''kind'', JString kind), (''reserve_in'', json_f64 reserve_in), (''reserve_out'', json_f64 reserve_out)]"

fun into_json :: "PredictedPostState \<Rightarrow> json" where
  "into_json (PP_V2 a b) = tagged ''v2'' a b"
| "into_json (PP_V3 a b) = tagged ''v3'' a b"
| "into_json (PP_Balancer a b) = tagged ''balancer'' a b"
| "into_json (PP_Curve a b) = tagged ''curve'' a b"
| "into_json (PP_Bancor a b) = tagged ''bancor'' a b"
| "into_json (PP_OneInchV6 a b) = tagged ''one_inch_v6'' a b"

record NewMempoolPrediction =
  mp_prediction_id :: u128
  mp_decoded_at :: int
  mp_pending_tx_hash :: u256
  mp_router_address :: address
  mp_protocol :: string
  mp_token_in :: address
  mp_token_out :: address
  mp_amount_in :: u256
  mp_pool_address :: "address option"
  mp_predicted_target_block :: u64
  mp_predicted_post_state :: json
  mp_profit_factor_predicted :: "f64 option"
  mp_detection_lead_ms :: "int option"
  mp_engine_git_sha :: "string option"

text \<open>The writer with its channel, its counters and the table it fills.\<close>

record PgMempoolWriter =
  mw_queue :: "NewMempoolPrediction list"
  mw_persisted_total :: "(string, u64) hmap"
  mw_drops_total :: u64
  mw_queue_depth :: int
  mw_writes :: "bool list"
  mw_table :: "NewMempoolPrediction list"

definition writer_new :: PgMempoolWriter where
  "writer_new = \<lparr>mw_queue = [], mw_persisted_total = hnew, mw_drops_total = 0, mw_queue_depth = 0, mw_writes = [], mw_table = []\<rparr>"

definition insert_prediction :: "PgMempoolWriter \<Rightarrow> NewMempoolPrediction \<Rightarrow> PgMempoolWriter" where
  "insert_prediction w prediction =
     (if length (mw_queue w) < WRITER_CHANNEL_CAPACITY
      then w\<lparr>mw_queue := mw_queue w @ [prediction], mw_queue_depth := mw_queue_depth w + 1,
             mw_persisted_total := hentry (mp_protocol prediction) 0 (\<lambda>n. n + 1) (mw_persisted_total w)\<rparr>
      else w\<lparr>mw_drops_total := mw_drops_total w + 1\<rparr>)"

text \<open>The row bound to the statement: the target block is clamped to the range of the column.\<close>

definition row_of :: "NewMempoolPrediction \<Rightarrow> NewMempoolPrediction" where
  "row_of p = p\<lparr>mp_predicted_target_block := (if uint (mp_predicted_target_block p) < 2 ^ 63 then mp_predicted_target_block p else 2 ^ 63 - 1)\<rparr>"

text \<open>\<^verbatim>\<open>INSERT ... ON CONFLICT (pending_tx_hash) DO NOTHING\<close>\<close>

definition insert_prediction_inner :: "NewMempoolPrediction list \<Rightarrow> NewMempoolPrediction \<Rightarrow> NewMempoolPrediction list" where
  "insert_prediction_inner rows p =
     (if mp_pending_tx_hash p \<in> mp_pending_tx_hash ` set rows then rows else rows @ [row_of p])"

text \<open>One turn of the writer task; \<open>ok\<close> tells whether the database executed the statement.\<close>

definition drain_one :: "bool \<Rightarrow> PgMempoolWriter \<Rightarrow> PgMempoolWriter" where
  "drain_one ok w =
     (case mw_queue w of
        [] \<Rightarrow> w
      | p # ps \<Rightarrow> w\<lparr>mw_queue := ps, mw_queue_depth := mw_queue_depth w - 1, mw_writes := mw_writes w @ [ok],
                    mw_table := (if ok then insert_prediction_inner (mw_table w) p else mw_table w)\<rparr>)"

datatype writer_event = WInsert NewMempoolPrediction | WDrain bool

fun writer_step :: "PgMempoolWriter \<Rightarrow> writer_event \<Rightarrow> PgMempoolWriter" where
  "writer_step w (WInsert p) = insert_prediction w p"
| "writer_step w (WDrain ok) = drain_one ok w"

section \<open>Properties\<close>

definition inserted :: "writer_event list \<Rightarrow> NewMempoolPrediction list" where
  "inserted evs = List.map_filter (\<lambda>e. case e of WInsert p \<Rightarrow> Some p | WDrain _ \<Rightarrow> None) evs"

lemma inserted_simps [simp]:
  "inserted [] = []" "inserted (evs @ [WInsert p]) = inserted evs @ [p]" "inserted (evs @ [WDrain ok]) = inserted evs"
  by (simp_all add: inserted_def List.map_filter_def)

text \<open>What holds after any sequence of insertions and drains, in any order.\<close>

definition writer_inv :: "NewMempoolPrediction list \<Rightarrow> PgMempoolWriter \<Rightarrow> bool" where
  "writer_inv sent w \<longleftrightarrow>
     length (mw_queue w) \<le> WRITER_CHANNEL_CAPACITY \<and> mw_queue_depth w = int (length (mw_queue w))
     \<and> (of_nat (length sent) :: u64) = of_nat (length (mw_writes w)) + of_nat (length (mw_queue w)) + mw_drops_total w
     \<and> distinct (map mp_pending_tx_hash (mw_table w))
     \<and> set (mw_queue w) \<subseteq> set sent \<and> set (mw_table w) \<subseteq> row_of ` set sent"

lemma row_of_hash [simp]: "mp_pending_tx_hash (row_of p) = mp_pending_tx_hash p"
  by (simp add: row_of_def)

lemma insert_inner_inv:
  "distinct (map mp_pending_tx_hash rows) \<Longrightarrow> distinct (map mp_pending_tx_hash (insert_prediction_inner rows p))"
  "set (insert_prediction_inner rows p) \<subseteq> insert (row_of p) (set rows)"
  by (auto simp: insert_prediction_inner_def)

lemma writer_step_inv:
  assumes "writer_inv (inserted evs) w"
  shows "writer_inv (inserted (evs @ [e])) (writer_step w e)"
proof (cases e)
  case (WInsert p)
  then show ?thesis using assms by (auto simp: writer_inv_def insert_prediction_def)
next
  case (WDrain ok)
  show ?thesis
  proof (cases "mw_queue w")
    case Nil
    then show ?thesis using assms WDrain by (simp add: drain_one_def)
  next
    case (Cons p ps)
    then show ?thesis
      using assms WDrain insert_inner_inv(1) [of "mw_table w" p] insert_inner_inv(2) [of "mw_table w" p]
      by (auto simp: writer_inv_def drain_one_def)
  qed
qed

lemma writer_run_inv: "writer_inv (inserted evs) (foldl writer_step writer_new evs)"
proof (induction evs rule: rev_induct)
  case Nil
  then show ?case by (simp add: writer_inv_def writer_new_def)
next
  case (snoc e evs)
  then show ?case using writer_step_inv by simp
qed


lemma insert_inner_keeps: "row \<in> set rows \<Longrightarrow> row \<in> set (insert_prediction_inner rows p)"
  by (simp add: insert_prediction_inner_def)

lemma hash_kept: "h \<in> mp_pending_tx_hash ` set rows \<Longrightarrow> mp_pending_tx_hash p = h \<Longrightarrow> insert_prediction_inner rows p = rows"
  by (simp add: insert_prediction_inner_def)


definition demo_prediction :: "address \<Rightarrow> NewMempoolPrediction" where
  "demo_prediction pool = \<lparr>mp_prediction_id = 1, mp_decoded_at = 0, mp_pending_tx_hash = 77, mp_router_address = 5,
     mp_protocol = PROTOCOL_UNI_V2, mp_token_in = 1, mp_token_out = 2, mp_amount_in = 3, mp_pool_address = Some pool,
     mp_predicted_target_block = 9, mp_predicted_post_state = into_json (PP_V2 (Num 1) (Num 2)),
     mp_profit_factor_predicted = None, mp_detection_lead_ms = None, mp_engine_git_sha = None\<rparr>"


text \<open>The stored state names its protocol and gives back both reserves when they are finite.\<close>

fun json_reserves :: "json \<Rightarrow> (string \<times> f64 \<times> f64) option" where
  "json_reserves (JObject [(k, JString kind), (a, JNum x), (b, JNum y)]) =
     (if k = ''kind'' \<and> a = ''reserve_in'' \<and> b = ''reserve_out'' then Some (kind, x, y) else None)"
| "json_reserves _ = None"

fun post_reserves :: "PredictedPostState \<Rightarrow> string \<times> f64 \<times> f64" where
  "post_reserves (PP_V2 a b) = (''v2'', a, b)"
| "post_reserves (PP_V3 a b) = (''v3'', a, b)"
| "post_reserves (PP_Balancer a b) = (''balancer'', a, b)"
| "post_reserves (PP_Curve a b) = (''curve'', a, b)"
| "post_reserves (PP_Bancor a b) = (''bancor'', a, b)"
| "post_reserves (PP_OneInchV6 a b) = (''one_inch_v6'', a, b)"

lemma post_state_json_round_trip:
  "json_reserves (into_json s) = (case post_reserves s of (kind, a, b) \<Rightarrow> if is_finite a \<and> is_finite b then Some (kind, a, b) else None)"
  by (cases s) (auto simp: tagged_def json_f64_def)

end
