(* ===== verification/Mempool_Pipeline.thy ===== *)
theory Mempool_Pipeline
  imports Engine Router_Decoder Hot_Token Backrun_Sizing Post_State_Replay Mempool_Writer
begin

text \<open>
  The mempool pipeline (\<^verbatim>\<open>grpc-server/src/mempool_pipeline.rs\<close>): a pending transaction is decoded, its swaps are filtered
  against the pool registry, the effect of each on its pool is predicted and written into a copy of the price graph, the
  cycles this opens are gated, sized, validated and published. What a scan changes is the record \<open>pipe\<close>: the index cache
  of the context, the hot-token table, the counters in the order they are bumped, the calls on the prediction sink, the
  published messages and the gate's counters; latency histograms and log lines are left out. The context is the record
  \<open>SimContext\<close>. The clock, the printers, the node, the virtual machine and the process environment are the record
  \<open>mp_env\<close>.
\<close>

section \<open>Context\<close>

record PendingTxEvent =
  ev_tx_hash :: b256
  ev_from :: address
  ev_to :: "address option"
  ev_value :: u256
  ev_input :: bytes
  ev_gas_price :: u128
  ev_first_seen_unix_nanos :: u64
  ev_raw_tx :: bytes

type_synonym PairIndex = "(address \<times> address \<times> ProtocolType, PoolMetadata list) hmap"

definition canonical_pair :: "address \<Rightarrow> address \<Rightarrow> address \<times> address" where
  "canonical_pair a b = (if a \<le> b then (a, b) else (b, a))"

definition MEMPOOL_VICTIM_GAS_LIMIT :: u64 where
  "MEMPOOL_VICTIM_GAS_LIMIT = 30000000"

fun build_pair_index :: "PoolMetadata list \<Rightarrow> PairIndex \<Rightarrow> PairIndex" where
  "build_pair_index [] idx = idx"
| "build_pair_index (meta # rest) idx =
     (let (a, b) = canonical_pair (pm_token0 meta) (pm_token1 meta)
      in build_pair_index rest (hentry (a, b, pm_protocol meta) [] (\<lambda>pools. pools @ [meta]) idx))"

record BackrunValidatorConfig =
  bc_executor_address :: address
  bc_searcher_caller :: address
  bc_profit_token :: address
  bc_balance_slot :: u256
  bc_chain_id :: u64
  bc_min_profit_wei :: u256
  bc_input_amount_wei :: u256
  bc_gas_price_gwei :: f64
  bc_provider :: bool
  bc_executor_bytecode :: "bytes option"

text \<open>The registry is shared by pointer: its address, its contents, and its values in the order the hash map yields them.\<close>

record SimContext =
  sc_registry_ptr :: nat
  sc_registry :: "(address, PoolMetadata) hmap"
  sc_registry_values :: "PoolMetadata list"
  sc_token_index :: TokenIndex
  sc_snapshot_manager :: SnapshotManager
  sc_detector :: BellmanFord
  sc_pool_states :: PoolStateCache
  sc_arb_publisher :: bool
  sc_backrun :: "BackrunValidatorConfig option"
  sc_engine_git_sha :: "string option"
  sc_post_state_replay_enabled :: bool
  sc_gating :: GatingConfig

definition sim_context_new ::
    "nat \<Rightarrow> (address, PoolMetadata) hmap \<Rightarrow> PoolMetadata list \<Rightarrow> TokenIndex \<Rightarrow> SnapshotManager \<Rightarrow> BellmanFord
      \<Rightarrow> PoolStateCache \<Rightarrow> string option \<Rightarrow> SimContext" where
  "sim_context_new ptr registry values ti snapshots detector pool_states git_sha =
     \<lparr>sc_registry_ptr = ptr, sc_registry = registry, sc_registry_values = values, sc_token_index = ti,
      sc_snapshot_manager = snapshots, sc_detector = detector, sc_pool_states = pool_states, sc_arb_publisher = False,
      sc_backrun = None, sc_engine_git_sha = git_sha, sc_post_state_replay_enabled = False, sc_gating = gating_default\<rparr>"

definition with_gating :: "SimContext \<Rightarrow> GatingConfig \<Rightarrow> SimContext" where
  "with_gating ctx gating = ctx\<lparr>sc_gating := gating\<rparr>"

definition with_post_state_replay :: "SimContext \<Rightarrow> bool \<Rightarrow> SimContext" where
  "with_post_state_replay ctx enabled = ctx\<lparr>sc_post_state_replay_enabled := enabled\<rparr>"

definition with_arb_publisher :: "SimContext \<Rightarrow> SimContext" where
  "with_arb_publisher ctx = ctx\<lparr>sc_arb_publisher := True\<rparr>"

definition with_backrun_validator :: "SimContext \<Rightarrow> BackrunValidatorConfig \<Rightarrow> SimContext" where
  "with_backrun_validator ctx cfg = ctx\<lparr>sc_backrun := Some cfg\<rparr>"

datatype metric =
    PendingDecodeErrors string | PendingDexTx string string bool | PendingPipelineLagged u64 | MempoolFiltered string
  | ArbSimSkipped string | ArbCandidates string string | SimEvmFallback string | PostStateReplay string
  | BackrunRejected string | BackrunValidated string | PrewarmHit | PrewarmMiss

record pipe =
  pl_pair_index_cache :: "(nat \<times> PairIndex) option"
  pl_hot_tokens :: HotTokenTracker
  pl_metrics :: "metric list"
  pl_predictions :: "NewMempoolPrediction list"
  pl_published :: "proto_arb list"
  pl_gate :: gate_effects

definition pipe_new :: pipe where
  "pipe_new = \<lparr>pl_pair_index_cache = None, pl_hot_tokens = tracker_of hot_token_default, pl_metrics = [], pl_predictions = [],
     pl_published = [], pl_gate = \<lparr>ge_dropped = hnew, ge_log_budget = 0\<rparr>\<rparr>"

definition inc_metric :: "metric \<Rightarrow> pipe \<Rightarrow> pipe" where
  "inc_metric m st = st\<lparr>pl_metrics := pl_metrics st @ [m]\<rparr>"

text \<open>The outside of the pipeline. \<open>me_fork\<close> builds the forked database of an attempt (pinned or at the head, with the
  pre-warmed code injected), \<open>me_uuid\<close> the identifiers of the predictions in order, \<open>me_permit\<close> and \<open>me_replay_permit\<close> tell whether
  the semaphore has room.\<close>

record 'db mp_env =
  me_sol_abi :: sol_abi
  me_view_abi :: view_abi
  me_evm :: "'db evm"
  me_keccak :: "bytes \<Rightarrow> u256"
  me_abi_encode :: "executeArbCall \<Rightarrow> bytes"
  me_address_hex :: "address \<Rightarrow> string"
  me_hash_hex :: "b256 \<Rightarrow> string"
  me_decimal :: "nat \<Rightarrow> string"
  me_lnf :: "f64 \<Rightarrow> f64"
  me_expf :: "f64 \<Rightarrow> f64"
  me_pow10 :: "int \<Rightarrow> f64"
  me_half_pow :: "f64 \<Rightarrow> f64"
  me_now_secs :: u64
  me_now_nanos :: int
  me_uuid :: "nat \<Rightarrow> u128"
  me_elapsed :: "nat \<Rightarrow> u64"
  me_elapsed_ms :: f64
  me_permit :: bool
  me_replay_permit :: bool
  me_prewarmed :: bool
  me_fork :: "bool \<Rightarrow> nat \<Rightarrow> u64 \<Rightarrow> 'db option"
  me_replay_fork :: "u64 \<Rightarrow> 'db option"
  me_skip_victim :: bool
  me_fork_latest :: bool
  me_sim_retries :: u32
  me_sim_timeout_ms :: f64
  me_subscribers :: bool

definition lookup_pool :: "SimContext \<Rightarrow> address \<Rightarrow> address \<Rightarrow> ProtocolType \<Rightarrow> pipe \<Rightarrow> PoolMetadata option \<times> pipe" where
  "lookup_pool ctx token_in token_out protocol st =
     (let (index, st) = (case pl_pair_index_cache st of
            Some (p, cached) \<Rightarrow>
              if p = sc_registry_ptr ctx then (cached, st)
              else let fresh = build_pair_index (sc_registry_values ctx) hnew
                   in (fresh, st\<lparr>pl_pair_index_cache := Some (sc_registry_ptr ctx, fresh)\<rparr>)
          | None \<Rightarrow> let fresh = build_pair_index (sc_registry_values ctx) hnew
                    in (fresh, st\<lparr>pl_pair_index_cache := Some (sc_registry_ptr ctx, fresh)\<rparr>));
          (a, b) = canonical_pair token_in token_out
      in (case hget index (a, b, protocol) of Some (meta # _) \<Rightarrow> Some meta | _ \<Rightarrow> None, st))"

section \<open>Labels\<close>

fun decoder_protocol_to_type :: "Protocol \<Rightarrow> ProtocolType option" where
  "decoder_protocol_to_type R_UniswapV2 = Some UniswapV2"
| "decoder_protocol_to_type R_SushiSwap = Some SushiSwap"
| "decoder_protocol_to_type R_UniswapV3 = Some UniswapV3"
| "decoder_protocol_to_type R_BalancerV2 = Some BalancerV2"
| "decoder_protocol_to_type R_Curve = Some Curve"
| "decoder_protocol_to_type R_BancorV3 = Some BancorV3"
| "decoder_protocol_to_type R_OneInchV6 = None"

fun decoder_protocol_label :: "Protocol \<Rightarrow> string" where
  "decoder_protocol_label R_UniswapV2 = PROTOCOL_UNI_V2"
| "decoder_protocol_label R_SushiSwap = PROTOCOL_SUSHI"
| "decoder_protocol_label R_UniswapV3 = PROTOCOL_UNI_V3"
| "decoder_protocol_label R_BalancerV2 = PROTOCOL_BALANCER"
| "decoder_protocol_label R_Curve = PROTOCOL_CURVE"
| "decoder_protocol_label R_BancorV3 = PROTOCOL_BANCOR"
| "decoder_protocol_label R_OneInchV6 = PROTOCOL_ONE_INCH_V6"

fun protocol_label :: "Protocol \<Rightarrow> string" where
  "protocol_label R_UniswapV2 = ''uniswap_v2''"
| "protocol_label R_UniswapV3 = ''uniswap_v3''"
| "protocol_label R_SushiSwap = ''sushiswap''"
| "protocol_label R_BalancerV2 = ''balancer_v2''"
| "protocol_label R_Curve = ''curve''"
| "protocol_label R_BancorV3 = ''bancor_v3''"
| "protocol_label R_OneInchV6 = ''one_inch_v6''"

fun decode_error_label :: "DecodeError \<Rightarrow> string" where
  "decode_error_label TooShort = ''too_short''"
| "decode_error_label (UnknownSelector _) = ''unknown_selector''"
| "decode_error_label AbiDecode = ''abi_decode''"
| "decode_error_label EmptyPath = ''empty_path''"
| "decode_error_label (CurveUnsupported _) = ''curve_unsupported''"

definition profit_bucket :: "f64 \<Rightarrow> string" where
  "profit_bucket pf =
     (let bps = f64_mul pf (Num 10000)
      in if f64_lt bps (Num 10) then ''lt_10bps''
         else if f64_lt bps (Num 50) then ''10_50bps''
         else if f64_lt bps (Num 200) then ''50_200bps''
         else ''gt_200bps'')"

definition gross_profit_bucket :: "u256 \<Rightarrow> string" where
  "gross_profit_bucket profit_wei =
     (let eth = f64_div (u256_to_f64_saturating profit_wei) (Num (10 ^ 18))
      in if f64_lt eth (f64_of_rat (1 / 1000)) then ''lt_10bps''
         else if f64_lt eth (f64_of_rat (1 / 100)) then ''10_50bps''
         else if f64_lt eth (f64_of_rat (1 / 10)) then ''50_200bps''
         else ''gt_200bps'')"

section \<open>Filtering and dispatch\<close>

definition pre_sim_filter :: "SimContext \<Rightarrow> DecodedSwap \<Rightarrow> pipe \<Rightarrow> bool \<times> pipe" where
  "pre_sim_filter ctx swap st =
     (if ds_token_in swap = ds_token_out swap then (False, inc_metric (MempoolFiltered ''same_token'') st)
      else if ds_amount_in swap = 0 then (False, inc_metric (MempoolFiltered ''zero_amount'') st)
      else case decoder_protocol_to_type (ds_protocol swap) of
        None \<Rightarrow> (True, st)
      | Some target_protocol \<Rightarrow>
          if target_protocol = BancorV3 \<and> ds_token_in swap \<noteq> BNT_ADDRESS \<and> ds_token_out swap \<noteq> BNT_ADDRESS then
            let (leg_a, st) = lookup_pool ctx (ds_token_in swap) BNT_ADDRESS BancorV3 st;
                (leg_b, st) = lookup_pool ctx (ds_token_out swap) BNT_ADDRESS BancorV3 st
            in if leg_a = None \<or> leg_b = None then (False, inc_metric (MempoolFiltered ''not_in_registry'') st) else (True, st)
          else
            let (pool, st) = lookup_pool ctx (ds_token_in swap) (ds_token_out swap) target_protocol st
            in if pool = None then (False, inc_metric (MempoolFiltered ''not_in_registry'') st) else (True, st))"

definition emit_decoded :: "string \<Rightarrow> DecodedSwap \<Rightarrow> pipe \<Rightarrow> pipe" where
  "emit_decoded router_label swap st = inc_metric (PendingDexTx router_label (protocol_label (ds_protocol swap)) True) st"

definition emit_failure :: "string \<Rightarrow> DecodeError \<Rightarrow> pipe \<Rightarrow> pipe" where
  "emit_failure router_label err st =
     inc_metric (PendingDecodeErrors (decode_error_label err)) (inc_metric (PendingDexTx router_label ''unknown'' False) st)"

text \<open>The amount of a swap paid in the native coin is the transaction's value.\<close>

fun backfill_value :: "u256 \<Rightarrow> DecodedSwap list \<Rightarrow> DecodedSwap list" where
  "backfill_value value [] = []"
| "backfill_value value (first # rest) =
     (if value \<noteq> 0 \<and> ds_amount_in first = 0 then first\<lparr>ds_amount_in := value\<rparr> # rest else first # rest)"

text \<open>The loop over the decoded swaps; the result has the swaps for which a scan is spawned.\<close>

fun dispatch_swaps ::
    "'db mp_env \<Rightarrow> SimContext option \<Rightarrow> string \<Rightarrow> DecodedSwap list \<Rightarrow> pipe \<Rightarrow> DecodedSwap list \<times> pipe" where
  "dispatch_swaps env sim_ctx router_label [] st = ([], st)"
| "dispatch_swaps env sim_ctx router_label (swap # swaps) st =
     (let st = emit_decoded router_label swap st in
      case sim_ctx of
        None \<Rightarrow> dispatch_swaps env sim_ctx router_label swaps st
      | Some ctx \<Rightarrow>
          let st = st\<lparr>pl_hot_tokens := ht_record (me_half_pow env) (pl_hot_tokens st) (ds_token_in swap) (ds_token_out swap)
                     (ds_protocol swap) (ds_pool_address swap) (me_now_secs env)\<rparr>;
              (pass, st) = pre_sim_filter ctx swap st;
              (tasks, st) = dispatch_swaps env sim_ctx router_label swaps st
          in (if pass then swap # tasks else tasks, st))"

definition handle_event ::
    "'db mp_env \<Rightarrow> SimContext option \<Rightarrow> PendingTxEvent \<Rightarrow> pipe \<Rightarrow> DecodedSwap list \<times> pipe" where
  "handle_event env sim_ctx event st =
     (case ev_to event of
        None \<Rightarrow> ([], inc_metric (PendingDecodeErrors ''no_to'') st)
      | Some to \<Rightarrow>
          let router_label = me_address_hex env to
          in case decode_pending_many (me_sol_abi env) to (ev_input event) of
               Inl err \<Rightarrow> ([], emit_failure router_label err st)
             | Inr swaps \<Rightarrow>
                 if swaps = [] then ([], inc_metric (PendingDecodeErrors ''multicall_no_swaps'') st)
                 else dispatch_swaps env sim_ctx router_label (backfill_value (ev_value event) swaps) st)"

definition report_hot_tokens :: "'db mp_env \<Rightarrow> pipe \<Rightarrow> pipe" where
  "report_hot_tokens env st = st\<lparr>pl_hot_tokens := fst (ht_prune (me_half_pow env) (pl_hot_tokens st) (me_now_secs env))\<rparr>"

text \<open>One turn of the pipeline task: the spawned scans, and whether the task goes on.\<close>

datatype pipe_input = ReportTick | Pending PendingTxEvent | Lagged u64 | ChannelClosed | ShutdownChanged bool

fun pipeline_turn ::
    "'db mp_env \<Rightarrow> SimContext option \<Rightarrow> pipe_input \<Rightarrow> pipe \<Rightarrow> bool \<times> DecodedSwap list \<times> pipe" where
  "pipeline_turn env sim_ctx ReportTick st = (True, [], if sim_ctx = None then st else report_hot_tokens env st)"
| "pipeline_turn env sim_ctx (Pending event) st = (True, handle_event env sim_ctx event st)"
| "pipeline_turn env sim_ctx (Lagged n) st = (True, [], inc_metric (PendingPipelineLagged n) st)"
| "pipeline_turn env sim_ctx ChannelClosed st = (False, [], st)"
| "pipeline_turn env sim_ctx (ShutdownChanged stop) st = (\<not> stop, [], st)"

definition resolve_swap_pool ::
    "SimContext \<Rightarrow> DecodedSwap \<Rightarrow> pipe \<Rightarrow> (PoolMetadata \<times> address \<times> address \<times> ProtocolType) option \<times> pipe" where
  "resolve_swap_pool ctx swap st =
     (case decoder_protocol_to_type (ds_protocol swap) of
        None \<Rightarrow>
          (case ds_pool_address swap of
             None \<Rightarrow> (None, inc_metric (ArbSimSkipped ''unresolved_executor'') st)
           | Some pool_addr \<Rightarrow>
               (case hget (sc_registry ctx) pool_addr of
                  None \<Rightarrow> (None, inc_metric (ArbSimSkipped ''pool_not_registered'') st)
                | Some meta \<Rightarrow>
                    let zero_for_one = (case ds_one_inch_zero_for_one swap of Some z \<Rightarrow> z | None \<Rightarrow> True);
                        (token_in, token_out) = (if zero_for_one then (pm_token0 meta, pm_token1 meta) else (pm_token1 meta, pm_token0 meta))
                    in (Some (meta, token_in, token_out, pid_protocol (pm_pool_id meta)), st)))
      | Some target_protocol \<Rightarrow>
          (case lookup_pool ctx (ds_token_in swap) (ds_token_out swap) target_protocol st of
             (None, st) \<Rightarrow> (None, st)
           | (Some meta, st) \<Rightarrow>
               if pid_protocol (pm_pool_id meta) \<noteq> target_protocol
               then (None, inc_metric (ArbSimSkipped ''pool_not_registered'') st)
               else (Some (meta, ds_token_in swap, ds_token_out swap, target_protocol), st)))"

section \<open>Post-states\<close>

definition predict_v2_post_state :: "f64 \<Rightarrow> f64 \<Rightarrow> f64 \<Rightarrow> f64 \<Rightarrow> f64 \<times> f64" where
  "predict_v2_post_state reserve_in reserve_out dx fee =
     (if f64_le reserve_in (Num 0) \<or> f64_le reserve_out (Num 0) \<or> f64_le dx (Num 0) \<or> f64_le fee (Num 0) then (Num 0, Num 0)
      else
        let dx_eff = f64_mul dx fee;
            dy = f64_div (f64_mul dx_eff reserve_out) (f64_add reserve_in dx_eff)
        in (f64_add reserve_in dx, f64_max (f64_sub reserve_out dy) (Num 1)))"

fun unified_to_post_reserves :: "address \<Rightarrow> PoolMetadata \<Rightarrow> UnifiedPostState \<Rightarrow> f64 \<times> f64" where
  "unified_to_post_reserves swap_token_in meta (UP_UniswapV3 v3) =
     (case virtual_reserves (v3p_new_sqrt_price_x96 v3) (v3p_new_liquidity v3) of
        Some (x_v, y_v) \<Rightarrow> if swap_token_in = pm_token0 meta then (x_v, y_v) else (y_v, x_v)
      | None \<Rightarrow> (Num 0, Num 0))"
| "unified_to_post_reserves swap_token_in meta (UP_Balancer b) =
     (let b0 = u256_to_f64_saturating (bps_new_balance0 b); b1 = u256_to_f64_saturating (bps_new_balance1 b)
      in if swap_token_in = pm_token0 meta then (b0, b1) else (b1, b0))"
| "unified_to_post_reserves swap_token_in meta (UP_Curve c) =
     (u256_to_f64_saturating (cps_new_balance_in c), u256_to_f64_saturating (cps_new_balance_out c))"
| "unified_to_post_reserves swap_token_in meta (UP_Bancor b) =
     (u256_to_f64_saturating (nps_new_balance_in b), u256_to_f64_saturating (nps_new_balance_out b))"

definition victim_of :: "PendingTxEvent \<Rightarrow> address \<Rightarrow> VictimTx" where
  "victim_of event to =
     \<lparr>vt_from = ev_from event, vt_to = to, vt_value = ev_value event, vt_data = ev_input event,
      vt_gas_price = ev_gas_price event, vt_gas_limit = MEMPOOL_VICTIM_GAS_LIMIT\<rparr>"

text \<open>The readers of the replay, by protocol: the label of a failure or the replayed state.\<close>

fun on_fork :: "'db option \<Rightarrow> ('db \<Rightarrow> ReplayError + 'a) \<Rightarrow> ('a \<Rightarrow> UnifiedPostState) \<Rightarrow> string + UnifiedPostState" where
  "on_fork None f wrap = Inl ''sim_error''"
| "on_fork (Some db) f wrap = (case f db of Inl e \<Rightarrow> Inl (replay_str e) | Inr post \<Rightarrow> Inr (wrap post))"

fun replay_reader ::
    "'db mp_env \<Rightarrow> ReplayProtocol \<Rightarrow> PoolState \<Rightarrow> address \<Rightarrow> address \<Rightarrow> address \<Rightarrow> VictimTx \<Rightarrow> ReplayParams
      \<Rightarrow> string + UnifiedPostState" where
  "replay_reader env RP_UniswapV3 state pool_addr token_in token_out victim params =
     on_fork (me_replay_fork env (rp_block_number params))
       (\<lambda>db. replay_v3_inner (me_evm env) (me_view_abi env) db victim pool_addr params) UP_UniswapV3"
| "replay_reader env RP_Curve state pool_addr token_in token_out victim params =
     (case state of
        PS_Curve curve \<Rightarrow>
          (case (position (\<lambda>t. t = token_in) (curve_tokens curve), position (\<lambda>t. t = token_out) (curve_tokens curve)) of
             (Some i, Some j) \<Rightarrow>
               on_fork (me_replay_fork env (rp_block_number params))
                 (\<lambda>db. replay_curve_inner (me_evm env) (me_view_abi env) db victim pool_addr (of_nat i) (of_nat j) params) UP_Curve
           | _ \<Rightarrow> Inl ''decode_failed'')
      | _ \<Rightarrow> Inl ''decode_failed'')"
| "replay_reader env RP_Balancer state pool_addr token_in token_out victim params =
     (case state of
        PS_Balancer bal \<Rightarrow>
          on_fork (me_replay_fork env (rp_block_number params))
            (\<lambda>db. replay_balancer_inner (me_evm env) (me_view_abi env) db victim pool_addr VAULT (bal_token0 bal) (bal_token1 bal) params)
            UP_Balancer
      | _ \<Rightarrow> Inl ''decode_failed'')"
| "replay_reader env RP_Bancor state pool_addr token_in token_out victim params = Inl ''unimplemented_protocol''"

definition try_post_state_replay ::
    "'db mp_env \<Rightarrow> SimContext \<Rightarrow> ReplayProtocol \<Rightarrow> address \<Rightarrow> PoolState \<Rightarrow> address \<Rightarrow> address \<Rightarrow> PendingTxEvent \<Rightarrow> u64 \<Rightarrow> pipe
      \<Rightarrow> UnifiedPostState option \<times> pipe" where
  "try_post_state_replay env ctx protocol pool_addr state token_in token_out event block_number st =
     (if \<not> sc_post_state_replay_enabled ctx then (None, inc_metric (PostStateReplay ''unimplemented_protocol'') st)
      else case sc_backrun ctx of
        None \<Rightarrow> (None, st)
      | Some cfg \<Rightarrow>
          if \<not> bc_provider cfg then (None, st)
          else if \<not> me_replay_permit env then (None, inc_metric (PostStateReplay ''sim_error'') st)
          else case ev_to event of
            None \<Rightarrow> (None, st)
          | Some to \<Rightarrow>
              let params = \<lparr>rp_block_number = block_number, rp_block_timestamp = me_now_secs env, rp_base_fee = 1000000000,
                            rp_chain_id = bc_chain_id cfg\<rparr>
              in case replay_reader env protocol state pool_addr token_in token_out (victim_of event to) params of
                   Inr post \<Rightarrow> (Some post, inc_metric (PostStateReplay ''success'') st)
                 | Inl reason \<Rightarrow> (None, inc_metric (PostStateReplay reason) st))"

text \<open>The predictor calls its hooks at most once: the fallback counter, then the replay of the pool's own protocol.\<close>

fun replay_of :: "PoolState \<Rightarrow> ReplayProtocol option" where
  "replay_of (PS_UniswapV3 _) = Some RP_UniswapV3"
| "replay_of (PS_Balancer _) = Some RP_Balancer"
| "replay_of (PS_BalancerV3 _) = Some RP_Balancer"
| "replay_of _ = None"

definition predict_pool_state ::
    "'db mp_env \<Rightarrow> SimContext \<Rightarrow> PoolState \<Rightarrow> address \<Rightarrow> DecodedSwap \<Rightarrow> PendingTxEvent \<Rightarrow> u64 \<Rightarrow> pipe
      \<Rightarrow> (UnifiedPostState option \<times> pipe) exec" where
  "predict_pool_state env ctx state pool_addr swap event block_number st =
     (let replay = (\<lambda>proto st. try_post_state_replay env ctx proto pool_addr state (ds_token_in swap) (ds_token_out swap) event block_number st)
      in emap (\<lambda>(reasons, post).
           let st = foldl (\<lambda>st reason. inc_metric (SimEvmFallback reason) st) st reasons
           in (post, if reasons = [] then st else case replay_of state of None \<Rightarrow> st | Some proto \<Rightarrow> snd (replay proto st)))
         (predict_post_state_with_replay (me_lnf env) state (ds_token_in swap) (ds_amount_in swap) (\<lambda>proto. fst (replay proto st))))"

text \<open>The reserves the graph adopts, or the reason to stop.\<close>

definition victim_post_state ::
    "'db mp_env \<Rightarrow> SimContext \<Rightarrow> DecodedSwap \<Rightarrow> PoolMetadata \<Rightarrow> PriceEdge \<Rightarrow> PendingTxEvent \<Rightarrow> u64 \<Rightarrow> pipe
      \<Rightarrow> ((f64 \<times> f64) option \<times> pipe) exec" where
  "victim_post_state env ctx swap meta e event block_number st =
     (if ds_protocol swap = R_UniswapV2 \<or> ds_protocol swap = R_SushiSwap then
        Ret (Some (predict_v2_post_state (pe_reserve_in e) (pe_reserve_out e) (u256_to_f64_saturating (ds_amount_in swap)) (fee_factor meta)), st)
      else case hget (sc_pool_states ctx) (pid_address (pm_pool_id meta)) of
        None \<Rightarrow> Ret (None, inc_metric (ArbSimSkipped ''pool_state_missing'') st)
      | Some state \<Rightarrow>
          emap (\<lambda>(post, st). case post of
              None \<Rightarrow> (None, inc_metric (ArbSimSkipped ''predictor_low_confidence'') st)
            | Some unified \<Rightarrow>
                let (pin, pout) = unified_to_post_reserves (ds_token_in swap) meta unified
                in if f64_le pin (Num 0) \<or> f64_le pout (Num 0) then (None, inc_metric (ArbSimSkipped ''post_state_invalid'') st)
                   else (Some (pin, pout), st))
            (predict_pool_state env ctx state (pid_address (pm_pool_id meta)) swap event block_number st))"

fun predicted_state :: "Protocol \<Rightarrow> f64 \<Rightarrow> f64 \<Rightarrow> PredictedPostState" where
  "predicted_state R_UniswapV2 = PP_V2"
| "predicted_state R_SushiSwap = PP_V2"
| "predicted_state R_UniswapV3 = PP_V3"
| "predicted_state R_BalancerV2 = PP_Balancer"
| "predicted_state R_Curve = PP_Curve"
| "predicted_state R_BancorV3 = PP_Bancor"
| "predicted_state R_OneInchV6 = PP_OneInchV6"

section \<open>Validation\<close>

definition victim_storage_overrides ::
    "'db mp_env \<Rightarrow> DecodedSwap \<Rightarrow> PoolMetadata \<Rightarrow> f64 \<Rightarrow> f64 \<Rightarrow> (address \<times> u256 \<times> u256) list option" where
  "victim_storage_overrides env swap meta post_in post_out =
     (if \<not> me_skip_victim env then None
      else if ds_protocol swap \<noteq> R_UniswapV2 \<and> ds_protocol swap \<noteq> R_SushiSwap then None
      else if ds_path_extra swap \<noteq> [] then None
      else
        let (r0_f, r1_f) = (if ds_token_in swap = pm_token0 meta then (post_in, post_out) else (post_out, post_in))
        in if \<not> (is_finite r0_f \<and> is_finite r1_f) \<or> f64_le r0_f (Num 0) \<or> f64_le r1_f (Num 0) then None
           else Some [(pid_address (pm_pool_id meta), 8,
                       (u112_reserve r0_f OR push_bit 112 (u112_reserve r1_f)) OR push_bit 224 0)])"

text \<open>The sized steps with the loan and the net profit the sizing expects; \<open>None\<close> below the minimal profit.\<close>

definition size_backrun ::
    "BackrunValidatorConfig \<Rightarrow> PoolStateCache \<Rightarrow> address \<Rightarrow> address \<Rightarrow> f64 \<Rightarrow> f64 \<Rightarrow> SwapStep list
      \<Rightarrow> (SwapStep list \<times> u256 \<times> u128) option exec" where
  "size_backrun cfg pool_states victim_pool victim_token_in post_in post_out steps =
     ebind (optimize_cycle_input steps pool_states victim_pool victim_token_in post_in post_out (bc_gas_price_gwei cfg) (bc_min_profit_wei cfg))
       (\<lambda>outcome. case outcome of
            Sized sizing \<Rightarrow>
              emap (\<lambda>steps. Some (steps, os_input_amount sizing, word_of_int (os_net_profit_wei sizing)))
                (apply_sizing steps (os_per_hop_expected_out sizing) (os_input_amount sizing))
          | BelowMinProfit \<Rightarrow> Ret None
          | SizeFallback \<Rightarrow> Ret (Some (steps, bc_input_amount_wei cfg, 0)))"

definition backrun_params ::
    "'db mp_env \<Rightarrow> BackrunValidatorConfig \<Rightarrow> u64 \<Rightarrow> (address \<times> u256 \<times> u256) list option \<Rightarrow> ValidatorParams" where
  "backrun_params env cfg block_number overrides =
     \<lparr>vp_block_number = block_number, vp_block_timestamp = me_now_secs env, vp_base_fee = 1000000000,
      vp_chain_id = bc_chain_id cfg, vp_profit_token = bc_profit_token cfg, vp_profit_recipient = bc_searcher_caller cfg,
      vp_balance_slot = bc_balance_slot cfg, vp_executor_bytecode = bc_executor_bytecode cfg,
      vp_skip_victim_with_overrides = overrides\<rparr>"

definition backrun_arb :: "'db mp_env \<Rightarrow> BackrunValidatorConfig \<Rightarrow> SwapStep list \<Rightarrow> address \<Rightarrow> u256 \<Rightarrow> ArbTx" where
  "backrun_arb env cfg steps flashloan_token flashloan_amount =
     \<lparr>at_caller = bc_searcher_caller cfg, at_to = bc_executor_address cfg,
      at_data = build_execute_arb_calldata (me_abi_encode env) steps flashloan_token flashloan_amount
        (ucast (me_now_secs env + 24)) (bc_min_profit_wei cfg) 9000,
      at_gas_limit = 3000000\<rparr>"

text \<open>The bounded retry: \<open>left\<close> more attempts are allowed after this one.\<close>

fun validate_attempts ::
    "'db mp_env \<Rightarrow> VictimTx \<Rightarrow> ArbTx \<Rightarrow> ValidatorParams \<Rightarrow> nat \<Rightarrow> nat \<Rightarrow> pipe \<Rightarrow> BackrunSimResult option \<times> pipe" where
  "validate_attempts env victim arb params attempt left st =
     (case me_fork env (me_fork_latest env) attempt (vp_block_number params) of
        None \<Rightarrow> (None, inc_metric (BackrunRejected ''fork_construction_failed'') st)
      | Some db \<Rightarrow>
          let st = inc_metric (if me_prewarmed env then PrewarmHit else PrewarmMiss) st;
              r = validate_backrun_inner (me_evm env) (me_keccak env) db victim arb params
          in if br_accepted r \<or> br_reject r \<noteq> Some RpcTransport then (Some r, st)
             else case left of 0 \<Rightarrow> (Some r, st) | Suc left' \<Rightarrow> validate_attempts env victim arb params (Suc attempt) left' st)"

declare validate_attempts.simps [simp del]

definition reject_label :: "'db mp_env \<Rightarrow> BackrunSimResult \<Rightarrow> string" where
  "reject_label env r =
     (let reason = (case br_reject r of Some e \<Rightarrow> reject_str e | None \<Rightarrow> reject_str SimError)
      in if (reason = reject_str RpcTransport \<or> reason = reject_str SimError) \<and> f64_lt (me_sim_timeout_ms env) (me_elapsed_ms env)
         then reject_str SimTimeout else reason)"

fun backrun_protocol_to_proto :: "ProtocolType \<Rightarrow> int" where
  "backrun_protocol_to_proto UniswapV2 = 1"
| "backrun_protocol_to_proto UniswapV3 = 2"
| "backrun_protocol_to_proto SushiSwap = 3"
| "backrun_protocol_to_proto Curve = 4"
| "backrun_protocol_to_proto BalancerV2 = 5"
| "backrun_protocol_to_proto BalancerV3 = 5"
| "backrun_protocol_to_proto BancorV3 = 6"

definition backrun_step_to_proto :: "SwapStep \<Rightarrow> proto_step" where
  "backrun_step_to_proto s =
     \<lparr>ps_protocol_code = backrun_protocol_to_proto (step_protocol s), ps_pool_address = address_to_bytes (step_pool_address s),
      ps_token_in = address_to_bytes (step_token_in s), ps_token_out = address_to_bytes (step_token_out s),
      ps_amount_in = u256_to_bytes (step_amount_in s), ps_min_amount_out = u256_to_bytes (step_min_amount_out s),
      ps_calldata = step_calldata s\<rparr>"

definition as_i64 :: "int \<Rightarrow> int" where
  "as_i64 x = sint (word_of_int x :: 64 word)"

definition backrun_proto ::
    "'db mp_env \<Rightarrow> PendingTxEvent \<Rightarrow> DetectedCycle \<Rightarrow> u64 \<Rightarrow> BackrunSimResult \<Rightarrow> u64 \<Rightarrow> address \<Rightarrow> u256 \<Rightarrow> SwapStep list \<Rightarrow> bytes \<Rightarrow> proto_arb" where
  "backrun_proto env event cycle block_number r base_fee flashloan_token flashloan_amount steps calldata =
     \<lparr>pa_id = ''mempool-'' @ me_hash_hex env (ev_tx_hash event) @ ''-'' @ me_decimal env (case dc_path cycle of [] \<Rightarrow> 0 | v # _ \<Rightarrow> v),
      pa_hops = [], pa_total_profit_wei = u256_to_bytes (br_gross_profit_wei r), pa_total_gas = br_arb_gas_used r,
      pa_gas_cost_wei = u256_to_bytes (saturating_mul (ucast (br_arb_gas_used r)) (ucast base_fee)),
      pa_net_profit_wei = u256_to_bytes (br_gross_profit_wei r), pa_block_number = block_number,
      pa_timestamp_ns = as_i64 (as_i64 (uint (me_now_secs env)) * 1000000000),
      pa_flashloan_token = address_to_bytes flashloan_token, pa_flashloan_amount = u256_to_bytes flashloan_amount,
      pa_steps = map backrun_step_to_proto steps, pa_calldata = calldata, pa_source = MempoolBackrun,
      pa_victim_tx_hash = u256_to_bytes (ev_tx_hash event), pa_target_block = saturating_add block_number 1,
      pa_victim_raw_tx = ev_raw_tx event\<rparr>"

text \<open>The accepted simulation is cross-checked against the sizing, then published if anybody listens.\<close>

definition settle_backrun ::
    "'db mp_env \<Rightarrow> GatingConfig \<Rightarrow> PendingTxEvent \<Rightarrow> DetectedCycle \<Rightarrow> u64 \<Rightarrow> address \<Rightarrow> u256 \<Rightarrow> SwapStep list \<Rightarrow> u128 \<Rightarrow> ArbTx
      \<Rightarrow> ValidatorParams \<Rightarrow> BackrunSimResult \<Rightarrow> pipe \<Rightarrow> pipe" where
  "settle_backrun env gating event cycle block_number flashloan_token flashloan_amount steps expected_net arb params r st =
     (if \<not> br_accepted r then inc_metric (BackrunRejected (reject_label env r)) st
      else
        let actual_profit = (if uint (br_gross_profit_wei r) < 2 ^ 128 then ucast (br_gross_profit_wei r) else - 1);
            (verdict, ef) = gate_post_sim expected_net actual_profit gating (pl_gate st);
            st = st\<lparr>pl_gate := ef\<rparr>
        in if verdict \<noteq> PostPass then inc_metric (BackrunRejected ''revm_contradicts'') st
           else
             let st = inc_metric (BackrunValidated (gross_profit_bucket (br_gross_profit_wei r))) st;
                 proto = backrun_proto env event cycle block_number r (vp_base_fee params) flashloan_token flashloan_amount steps (at_data arb)
             in if me_subscribers env then st\<lparr>pl_published := pl_published st @ [proto]\<rparr> else st)"

definition run_backrun_validation ::
    "'db mp_env \<Rightarrow> BackrunValidatorConfig \<Rightarrow> PriceGraph \<Rightarrow> TokenIndex \<Rightarrow> DetectedCycle \<Rightarrow> PendingTxEvent \<Rightarrow> u64
      \<Rightarrow> (address \<times> u256 \<times> u256) list option \<Rightarrow> PoolStateCache \<Rightarrow> address \<Rightarrow> address \<Rightarrow> f64 \<Rightarrow> f64 \<Rightarrow> GatingConfig \<Rightarrow> pipe \<Rightarrow> pipe exec" where
  "run_backrun_validation env cfg graph ti cycle event block_number overrides pool_states victim_pool victim_token_in post_in post_out gating st =
     (if \<not> me_permit env then Ret (inc_metric (BackrunRejected ''sim_concurrency_saturated'') st)
      else if \<not> bc_provider cfg then Ret (inc_metric (BackrunRejected ''provider_unavailable'') st)
      else case cycle_to_swap_steps graph ti cycle (bc_input_amount_wei cfg) of
        None \<Rightarrow> Ret (inc_metric (BackrunRejected ''cycle_unbuildable'') st)
      | Some [] \<Rightarrow> Ret (inc_metric (BackrunRejected ''cycle_unbuildable'') st)
      | Some (step # rest) \<Rightarrow>
          let flashloan_token = step_token_in step
          in emap (\<lambda>sized. case sized of
                 None \<Rightarrow> inc_metric (BackrunRejected ''below_min_profit_optimized'') st
               | Some (steps, flashloan_amount, expected_net) \<Rightarrow>
                   (case ev_to event of
                      None \<Rightarrow> st
                    | Some to \<Rightarrow>
                        let arb = backrun_arb env cfg steps flashloan_token flashloan_amount;
                            params = backrun_params env cfg block_number overrides
                        in case validate_attempts env (victim_of event to) arb params 0 (unat (me_sim_retries env)) st of
                             (None, st) \<Rightarrow> st
                           | (Some r, st) \<Rightarrow>
                               settle_backrun env gating event cycle block_number flashloan_token flashloan_amount steps expected_net arb params r st))
               (size_backrun cfg pool_states victim_pool victim_token_in post_in post_out (step # rest)))"

section \<open>Scanning\<close>

definition best_first :: "(f64 \<Rightarrow> f64) \<Rightarrow> DetectedCycle list \<Rightarrow> DetectedCycle list" where
  "best_first expf cycles =
     sort_by (\<lambda>a b. f64_cmp (profit_factor expf b) (profit_factor expf a)) (filter is_profitable cycles)"

fun first_passing ::
    "(f64 \<Rightarrow> f64) \<Rightarrow> PriceGraph \<Rightarrow> (int, nat) hmap \<Rightarrow> GatingConfig \<Rightarrow> DetectedCycle list \<Rightarrow> gate_effects
      \<Rightarrow> DetectedCycle option \<times> gate_effects" where
  "first_passing expf g idx cfg [] ef = (None, ef)"
| "first_passing expf g idx cfg (c # cs) ef =
     (case gate_pre_sim expf c g idx cfg ef of
        (Pass, ef) \<Rightarrow> (Some c, ef)
      | (Drop _, ef) \<Rightarrow> first_passing expf g idx cfg cs ef)"

definition prediction_of ::
    "'db mp_env \<Rightarrow> SimContext \<Rightarrow> DecodedSwap \<Rightarrow> b256 \<Rightarrow> address \<Rightarrow> u64 \<Rightarrow> f64 option \<Rightarrow> pipe \<Rightarrow> PoolMetadata \<Rightarrow> PredictedPostState
      \<Rightarrow> NewMempoolPrediction" where
  "prediction_of env ctx swap tx_hash to block_number best st meta post =
     \<lparr>mp_prediction_id = me_uuid env (length (pl_predictions st)), mp_decoded_at = me_now_nanos env, mp_pending_tx_hash = tx_hash,
      mp_router_address = to, mp_protocol = decoder_protocol_label (ds_protocol swap), mp_token_in = ds_token_in swap,
      mp_token_out = ds_token_out swap, mp_amount_in = ds_amount_in swap, mp_pool_address = Some (pid_address (pm_pool_id meta)),
      mp_predicted_target_block = saturating_add block_number 1, mp_predicted_post_state = into_json post,
      mp_profit_factor_predicted = best, mp_detection_lead_ms = None, mp_engine_git_sha = sc_engine_git_sha ctx\<rparr>"

fun persist_predictions ::
    "'db mp_env \<Rightarrow> SimContext \<Rightarrow> DecodedSwap \<Rightarrow> b256 \<Rightarrow> address \<Rightarrow> u64 \<Rightarrow> f64 option \<Rightarrow> (PoolMetadata \<times> PredictedPostState) list
      \<Rightarrow> pipe \<Rightarrow> pipe" where
  "persist_predictions env ctx swap tx_hash to block_number best [] st = st"
| "persist_predictions env ctx swap tx_hash to block_number best ((meta, post) # rest) st =
     persist_predictions env ctx swap tx_hash to block_number best rest
       (st\<lparr>pl_predictions := pl_predictions st @ [prediction_of env ctx swap tx_hash to block_number best st meta post]\<rparr>)"

text \<open>The tail that the single-pool scan and the two-pool scan share: the detection on the repriced copy of the graph, the
  predictions, the candidate counters, the gate and the validation.\<close>

definition scan_repriced ::
    "'db mp_env \<Rightarrow> SimContext \<Rightarrow> string \<Rightarrow> DecodedSwap \<Rightarrow> b256 \<Rightarrow> address \<Rightarrow> PendingTxEvent \<Rightarrow> GraphSnapshot \<Rightarrow> pg_op list \<Rightarrow> nat list
      \<Rightarrow> (PoolMetadata \<times> PredictedPostState) list \<Rightarrow> (address \<times> u256 \<times> u256) list option \<Rightarrow> address \<Rightarrow> f64 \<Rightarrow> f64 \<Rightarrow> pipe \<Rightarrow> pipe option exec" where
  "scan_repriced env ctx router_label swap tx_hash to event snapshot ops affected posts overrides victim_pool post_in post_out st =
     ebind (apply_ops (me_lnf env) (me_pow10 env) (gs_graph snapshot) ops) (\<lambda>graph.
     eobind (detect_from_affected (sc_detector ctx) (me_elapsed env) graph affected) (\<lambda>cycles.
       let profitable = best_first (me_expf env) cycles;
           best_factor = (case profitable of [] \<Rightarrow> None | c # _ \<Rightarrow> Some (profit_factor (me_expf env) c));
           st = persist_predictions env ctx swap tx_hash to (gs_block_number snapshot) best_factor posts st
       in if profitable = [] then Ret (Some (inc_metric (ArbSimSkipped ''no_profitable_cycle'') st))
          else
            let st = foldl (\<lambda>st c. inc_metric (ArbCandidates router_label (profit_bucket (profit_factor (me_expf env) c))) st) st profitable
            in case (if sc_arb_publisher ctx then sc_backrun ctx else None) of
                 None \<Rightarrow> Ret (Some st)
               | Some cfg \<Rightarrow>
                   let idx = build_fingerprint_index (me_expf env) profitable (sc_gating ctx);
                       (best, ef) = first_passing (me_expf env) graph idx (sc_gating ctx) profitable (pl_gate st);
                       st = st\<lparr>pl_gate := ef\<rparr>
                   in case best of
                        None \<Rightarrow> Ret (Some st)
                      | Some cycle \<Rightarrow>
                          emap Some (run_backrun_validation env cfg (gs_graph snapshot) (sc_token_index ctx) cycle event
                            (gs_block_number snapshot) overrides (sc_pool_states ctx) victim_pool (ds_token_in swap)
                            post_in post_out (sc_gating ctx) st)))"

definition has_edge :: "PriceGraph \<Rightarrow> nat \<Rightarrow> nat \<Rightarrow> PoolId \<Rightarrow> bool" where
  "has_edge g a b pid = list_ex (\<lambda>e. pe_to e = b \<and> pe_pool_id e = pid) (edges_from g a)"

text \<open>The two-pool scan of a swap through BNT.\<close>

definition scan_legs ::
    "'db mp_env \<Rightarrow> SimContext \<Rightarrow> string \<Rightarrow> DecodedSwap \<Rightarrow> b256 \<Rightarrow> address \<Rightarrow> PendingTxEvent \<Rightarrow> nat \<Rightarrow> nat \<Rightarrow> nat
      \<Rightarrow> PoolMetadata \<Rightarrow> PoolMetadata \<Rightarrow> BancorPostState \<Rightarrow> BancorPostState \<Rightarrow> pipe \<Rightarrow> pipe option exec" where
  "scan_legs env ctx router_label swap tx_hash to event in_idx out_idx bnt_idx leg_a leg_b post_a post_b st =
     (let snapshot = load_full (sc_snapshot_manager ctx);
          g = gs_graph snapshot;
          a_id = pm_pool_id leg_a; b_id = pm_pool_id leg_b
      in if \<not> has_edge g in_idx bnt_idx a_id \<or> \<not> has_edge g bnt_idx in_idx a_id
            \<or> \<not> has_edge g bnt_idx out_idx b_id \<or> \<not> has_edge g out_idx bnt_idx b_id
         then Ret (Some (inc_metric (ArbSimSkipped ''graph_edge_missing'') st))
         else
           let a_in = u256_to_f64_saturating (nps_new_balance_in post_a);
               a_out = u256_to_f64_saturating (nps_new_balance_out post_a);
               b_in = u256_to_f64_saturating (nps_new_balance_in post_b);
               b_out = u256_to_f64_saturating (nps_new_balance_out post_b)
           in if f64_le a_in (Num 0) \<or> f64_le a_out (Num 0) \<or> f64_le b_in (Num 0) \<or> f64_le b_out (Num 0)
              then Ret (Some (inc_metric (ArbSimSkipped ''post_state_invalid'') st))
              else scan_repriced env ctx router_label swap tx_hash to event snapshot
                     [UpdateFromReserves in_idx bnt_idx a_id a_in a_out (fee_factor leg_a),
                      UpdateFromReserves bnt_idx in_idx a_id a_out a_in (fee_factor leg_a),
                      UpdateFromReserves bnt_idx out_idx b_id b_in b_out (fee_factor leg_b),
                      UpdateFromReserves out_idx bnt_idx b_id b_out b_in (fee_factor leg_b)]
                     [in_idx, bnt_idx, out_idx] [(leg_a, PP_Bancor a_in a_out), (leg_b, PP_Bancor b_in b_out)] None 0 (Num 0) (Num 0) st)"

definition try_post_state_scan_bancor_multihop ::
    "'db mp_env \<Rightarrow> SimContext \<Rightarrow> string \<Rightarrow> DecodedSwap \<Rightarrow> b256 \<Rightarrow> address \<Rightarrow> PendingTxEvent \<Rightarrow> pipe \<Rightarrow> pipe option exec" where
  "try_post_state_scan_bancor_multihop env ctx router_label swap tx_hash to event st =
     (let stop = (\<lambda>reason st. Ret (Some (inc_metric (ArbSimSkipped reason) st))); ti = sc_token_index ctx in
      case (get_index ti (ds_token_in swap), get_index ti (ds_token_out swap), get_index ti BNT_ADDRESS) of
        (None, _, _) \<Rightarrow> stop ''token_in_unknown'' st
      | (Some _, None, _) \<Rightarrow> stop ''token_out_unknown'' st
      | (Some _, Some _, None) \<Rightarrow> stop ''token_in_unknown'' st
      | (Some in_idx, Some out_idx, Some bnt_idx) \<Rightarrow>
          (case lookup_pool ctx (ds_token_in swap) BNT_ADDRESS BancorV3 st of
             (None, st) \<Rightarrow> stop ''bancor_second_pool_not_found'' st
           | (Some leg_a, st) \<Rightarrow>
               (case lookup_pool ctx (ds_token_out swap) BNT_ADDRESS BancorV3 st of
                  (None, st) \<Rightarrow> stop ''bancor_second_pool_not_found'' st
                | (Some leg_b, st) \<Rightarrow>
                    (case (hget (sc_pool_states ctx) (pid_address (pm_pool_id leg_a)), hget (sc_pool_states ctx) (pid_address (pm_pool_id leg_b))) of
                       (Some (PS_Bancor a), Some (PS_Bancor b)) \<Rightarrow>
                         ebind (ban_predict_post_state_multihop a (ds_token_in swap) (ds_amount_in swap) (ds_token_out swap) b) (\<lambda>posts.
                           case posts of
                             None \<Rightarrow> stop ''bancor_multihop_low_confidence'' st
                           | Some (post_a, post_b) \<Rightarrow>
                               scan_legs env ctx router_label swap tx_hash to event in_idx out_idx bnt_idx leg_a leg_b post_a post_b st)
                     | (Some _, Some _) \<Rightarrow> stop ''bancor_multihop_low_confidence'' st
                     | _ \<Rightarrow> stop ''pool_state_missing'' st))))"

definition scan_pool ::
    "'db mp_env \<Rightarrow> SimContext \<Rightarrow> string \<Rightarrow> DecodedSwap \<Rightarrow> b256 \<Rightarrow> address \<Rightarrow> PendingTxEvent \<Rightarrow> PoolMetadata \<Rightarrow> nat \<Rightarrow> nat \<Rightarrow> pipe
      \<Rightarrow> pipe option exec" where
  "scan_pool env ctx router_label swap tx_hash to event meta in_idx out_idx st =
     (let snapshot = load_full (sc_snapshot_manager ctx); pid = pm_pool_id meta in
      case find (\<lambda>e. pe_to e = out_idx \<and> pe_pool_id e = pid) (edges_from (gs_graph snapshot) in_idx) of
        None \<Rightarrow> Ret (Some (inc_metric (ArbSimSkipped ''graph_edge_missing'') st))
      | Some e \<Rightarrow>
          if f64_le (pe_reserve_in e) (Num 0) \<or> f64_le (pe_reserve_out e) (Num 0)
          then Ret (Some (inc_metric (ArbSimSkipped ''reserves_zero'') st))
          else ebind (victim_post_state env ctx swap meta e event (gs_block_number snapshot) st) (\<lambda>(post, st).
            case post of
              None \<Rightarrow> Ret (Some st)
            | Some (post_in, post_out) \<Rightarrow>
                scan_repriced env ctx router_label swap tx_hash to event snapshot
                  [UpdateFromReserves in_idx out_idx pid post_in post_out (fee_factor meta),
                   UpdateFromReserves out_idx in_idx pid post_out post_in (fee_factor meta)]
                  [in_idx, out_idx] [(meta, predicted_state (ds_protocol swap) post_in post_out)]
                  (victim_storage_overrides env swap meta post_in post_out) (pid_address pid) post_in post_out st))"

definition try_post_state_scan ::
    "'db mp_env \<Rightarrow> SimContext \<Rightarrow> string \<Rightarrow> DecodedSwap \<Rightarrow> b256 \<Rightarrow> address \<Rightarrow> PendingTxEvent \<Rightarrow> pipe \<Rightarrow> pipe option exec" where
  "try_post_state_scan env ctx router_label swap tx_hash to event st =
     (case resolve_swap_pool ctx swap st of
        (None, st) \<Rightarrow> Ret (Some st)
      | (Some (meta, token_in, token_out, protocol), st) \<Rightarrow>
          if protocol = BancorV3 \<and> ds_token_in swap \<noteq> BNT_ADDRESS \<and> ds_token_out swap \<noteq> BNT_ADDRESS
          then try_post_state_scan_bancor_multihop env ctx router_label swap tx_hash to event st
          else case get_index (sc_token_index ctx) token_in of
            None \<Rightarrow> Ret (Some (inc_metric (ArbSimSkipped ''token_in_unknown'') st))
          | Some in_idx \<Rightarrow>
              (case get_index (sc_token_index ctx) token_out of
                 None \<Rightarrow> Ret (Some (inc_metric (ArbSimSkipped ''token_out_unknown'') st))
               | Some out_idx \<Rightarrow> scan_pool env ctx router_label swap tx_hash to event meta in_idx out_idx st))"

section \<open>Pre-warming\<close>

text \<open>The addresses whose code a refresh fetches: sorted, without repetitions.\<close>

definition prewarm_code_addrs :: "SimContext \<Rightarrow> address list" where
  "prewarm_code_addrs ctx =
     remdups_adj (sort ((case sc_backrun ctx of Some cfg \<Rightarrow> [bc_executor_address cfg] | None \<Rightarrow> [])
       @ map (\<lambda>meta. pid_address (pm_pool_id meta)) (sc_registry_values ctx)))"

text \<open>The refresher on a new block: the block of the last refresh, and whether this one triggers one.\<close>

definition refresher_turn :: "u64 \<Rightarrow> u64 \<Rightarrow> u64 \<Rightarrow> bool \<times> u64" where
  "refresher_turn interval_blocks last_refresh_block block_number =
     (if saturating_sub block_number last_refresh_block \<ge> max interval_blocks 1 \<or> last_refresh_block = 0
      then (True, block_number) else (False, last_refresh_block))"

end
