(* ===== verification/Mempool_Props.thy ===== *)
theory Mempool_Props
  imports Mempool_Pipeline Engine_Props
begin

text \<open>
  Properties of the mempool pipeline: the pool lookup, what reaches a scan, what a scan persists and publishes, and the
  swaps that never get that far.
\<close>

lemma inc_metric_sel [simp]:
  "pl_pair_index_cache (inc_metric m st) = pl_pair_index_cache st" "pl_hot_tokens (inc_metric m st) = pl_hot_tokens st"
  "pl_predictions (inc_metric m st) = pl_predictions st" "pl_published (inc_metric m st) = pl_published st"
  "pl_gate (inc_metric m st) = pl_gate st" "pl_metrics (inc_metric m st) = pl_metrics st @ [m]"
  by (simp_all add: inc_metric_def)

section \<open>The lookup\<close>

lemma canonical_pair_eq_iff: "canonical_pair a b = canonical_pair c d \<longleftrightarrow> {a, b} = {c, d}"
  by (auto simp: canonical_pair_def doubleton_eq_iff)

definition serves :: "address \<Rightarrow> address \<Rightarrow> ProtocolType \<Rightarrow> PoolMetadata \<Rightarrow> bool" where
  "serves a b p meta \<longleftrightarrow> {pm_token0 meta, pm_token1 meta} = {a, b} \<and> pm_protocol meta = p"

lemma serves_code [code]:
  "serves a b p meta \<longleftrightarrow> (pm_token0 meta = a \<and> pm_token1 meta = b \<or> pm_token0 meta = b \<and> pm_token1 meta = a) \<and> pm_protocol meta = p"
  by (auto simp: serves_def doubleton_eq_iff)

lemma build_pair_index_get:
  "hget (build_pair_index metas idx) (fst (canonical_pair a b), snd (canonical_pair a b), p) =
     (if filter (serves a b p) metas = [] then hget idx (fst (canonical_pair a b), snd (canonical_pair a b), p)
      else Some ((case hget idx (fst (canonical_pair a b), snd (canonical_pair a b), p) of None \<Rightarrow> [] | Some ms \<Rightarrow> ms)
             @ filter (serves a b p) metas))"
proof (induction metas arbitrary: idx)
  case (Cons m ms)
  have key: "(fst (canonical_pair (pm_token0 m) (pm_token1 m)), snd (canonical_pair (pm_token0 m) (pm_token1 m)), pm_protocol m) =
      (fst (canonical_pair a b), snd (canonical_pair a b), p) \<longleftrightarrow> serves a b p m"
    using canonical_pair_eq_iff [of "pm_token0 m" "pm_token1 m" a b] by (auto simp: serves_def prod_eq_iff)
  show ?case
    using key by (auto simp: Cons.IH case_prod_unfold Let_def split: option.splits)
qed simp

definition index_coherent :: "SimContext \<Rightarrow> pipe \<Rightarrow> bool" where
  "index_coherent ctx st \<longleftrightarrow>
     (\<forall>idx. pl_pair_index_cache st = Some (sc_registry_ptr ctx, idx) \<longrightarrow> idx = build_pair_index (sc_registry_values ctx) hnew)"

lemma find_filter: "find P xs = (case filter P xs of [] \<Rightarrow> None | x # _ \<Rightarrow> Some x)"
  by (induction xs) auto

lemma lookup_pool_result:
  assumes "index_coherent ctx st"
  shows "lookup_pool ctx a b p st =
    (find (serves a b p) (sc_registry_values ctx),
     st\<lparr>pl_pair_index_cache := Some (sc_registry_ptr ctx, build_pair_index (sc_registry_values ctx) hnew)\<rparr>)"
proof -
  have "st\<lparr>pl_pair_index_cache := pl_pair_index_cache st\<rparr> = st" by simp
  then have st: "pl_pair_index_cache st = Some x \<Longrightarrow> st\<lparr>pl_pair_index_cache := Some x\<rparr> = st" for x by metis
  show ?thesis
    using assms build_pair_index_get [of "sc_registry_values ctx" hnew a b p] st
    by (auto simp: lookup_pool_def index_coherent_def Let_def case_prod_unfold find_filter hm.get_new split: option.splits list.splits)
qed

text \<open>C15: with an index that was built for the registry at hand, a lookup returns the first registered pool, in the order of
  the registry's values, of the two tokens in either order and of the protocol, and \<^verbatim>\<open>None\<close> exactly when there is none. It
  changes nothing but the cached index, which stays right for this registry and for any later one at another address.\<close>

theorem lookup_pool_exact:
  assumes "index_coherent ctx st" and "lookup_pool ctx a b p st = (r, st')"
  shows "r = find (\<lambda>meta. {pm_token0 meta, pm_token1 meta} = {a, b} \<and> pm_protocol meta = p) (sc_registry_values ctx)
    \<and> st' = st\<lparr>pl_pair_index_cache := pl_pair_index_cache st'\<rparr>
    \<and> index_coherent ctx st' \<and> (\<forall>ctx'. sc_registry_ptr ctx' \<noteq> sc_registry_ptr ctx \<longrightarrow> index_coherent ctx' st')"
  using assms by (auto simp: lookup_pool_result index_coherent_def serves_def [abs_def])

text \<open>Two pools of one pair and a third of another.\<close>

definition demo_pool :: "address \<Rightarrow> address \<Rightarrow> address \<Rightarrow> ProtocolType \<Rightarrow> u32 \<Rightarrow> PoolMetadata" where
  "demo_pool pool t0 t1 p fee = \<lparr>pm_token0_idx = (if t0 = 1 then 0 else 1), pm_token1_idx = (if t1 = 1 then 0 else 1), pm_token0 = t0, pm_token1 = t1,
     pm_pool_id = \<lparr>pid_address = pool, pid_protocol = p\<rparr>, pm_protocol = p, pm_fee_bps = fee, pm_tick_spacing = None,
     pm_bytecode_warmed = True\<rparr>"

definition demo_context :: "nat \<Rightarrow> PoolMetadata list \<Rightarrow> SimContext" where
  "demo_context ptr metas = sim_context_new ptr (map (\<lambda>m. (pid_address (pm_pool_id m), m)) metas) metas ti_new (manager_new (pg_new 2))
     (bf_new 4 1000) hnew None"

definition demo_pools :: "PoolMetadata list" where
  "demo_pools = [demo_pool 91 1 3 UniswapV3 5, demo_pool 92 1 2 UniswapV3 30, demo_pool 93 1 2 UniswapV3 100]"

lemma index_coherent_new: "index_coherent ctx pipe_new"
  by (simp add: index_coherent_def pipe_new_def)

theorem lookup_pool_exact_witness:
  "fst (lookup_pool (demo_context 7 demo_pools) 2 1 UniswapV3 pipe_new) = Some (demo_pool 92 1 2 UniswapV3 30)
   \<and> index_coherent (demo_context 8 []) (snd (lookup_pool (demo_context 7 demo_pools) 2 1 UniswapV3 pipe_new))"
proof -
  have "lookup_pool (demo_context 7 demo_pools) 2 1 UniswapV3 pipe_new =
      (fst (lookup_pool (demo_context 7 demo_pools) 2 1 UniswapV3 pipe_new),
       snd (lookup_pool (demo_context 7 demo_pools) 2 1 UniswapV3 pipe_new))" by simp
  from lookup_pool_exact [OF index_coherent_new this] show ?thesis
    by (simp add: demo_context_def sim_context_new_def demo_pools_def demo_pool_def doubleton_eq_iff)
qed

text \<open>The index is tied to its registry by the address of the registry alone. A registry that is allocated where an
  earlier one was freed is answered from the earlier one's index: a pool that was removed is still found.\<close>

theorem pointer_reuse_stale:
  assumes "index_coherent ctx st" and "sc_registry_ptr ctx' = sc_registry_ptr ctx"
  shows "fst (lookup_pool ctx' a b p (snd (lookup_pool ctx c d q st))) = fst (lookup_pool ctx a b p st)"
  using assms lookup_pool_result [OF assms(1)] build_pair_index_get [of "sc_registry_values ctx" hnew a b p]
  by (auto simp: lookup_pool_def [of ctx'] Let_def case_prod_unfold find_filter hm.get_new split: option.splits list.splits)

theorem pointer_reuse_stale_witness:
  "fst (lookup_pool (demo_context 7 []) 1 2 UniswapV3 (snd (lookup_pool (demo_context 7 demo_pools) 1 2 UniswapV3 pipe_new)))
     = Some (demo_pool 92 1 2 UniswapV3 30)
   \<and> fst (lookup_pool (demo_context 7 []) 1 2 UniswapV3 pipe_new) = None"
proof -
  have "fst (lookup_pool (demo_context 7 demo_pools) 1 2 UniswapV3 pipe_new) = Some (demo_pool 92 1 2 UniswapV3 30)" by code_simp
  moreover have "fst (lookup_pool (demo_context 7 []) 1 2 UniswapV3 pipe_new) = None" by code_simp
  moreover have "sc_registry_ptr (demo_context 7 []) = sc_registry_ptr (demo_context 7 demo_pools)"
    by (simp add: demo_context_def sim_context_new_def)
  ultimately show ?thesis
    using pointer_reuse_stale [OF index_coherent_new, of "demo_context 7 []" "demo_context 7 demo_pools" 1 2 UniswapV3 1 2 UniswapV3] by simp
qed

section \<open>What reaches a scan\<close>

lemma index_coherent_cong: "pl_pair_index_cache st' = pl_pair_index_cache st \<Longrightarrow> index_coherent ctx st' = index_coherent ctx st"
  by (simp add: index_coherent_def)

lemma lookup_keeps:
  assumes "index_coherent ctx st" and "lookup_pool ctx a b p st = (r, st')"
  shows "r = find (serves a b p) (sc_registry_values ctx)" "index_coherent ctx st'" "pl_metrics st' = pl_metrics st"
    "pl_predictions st' = pl_predictions st" "pl_published st' = pl_published st" "pl_gate st' = pl_gate st"
  using assms by (auto simp: lookup_pool_result index_coherent_def)

text \<open>The pools a swap needs: its own, or for a Bancor swap between two other tokens the BNT pools of both.\<close>

definition bancor_multihop :: "DecodedSwap \<Rightarrow> bool" where
  "bancor_multihop swap \<longleftrightarrow> ds_protocol swap = R_BancorV3 \<and> ds_token_in swap \<noteq> BNT_ADDRESS \<and> ds_token_out swap \<noteq> BNT_ADDRESS"

definition registered_for :: "SimContext \<Rightarrow> DecodedSwap \<Rightarrow> bool" where
  "registered_for ctx swap \<longleftrightarrow>
     (case decoder_protocol_to_type (ds_protocol swap) of
        None \<Rightarrow> True
      | Some p \<Rightarrow>
          if bancor_multihop swap
          then (\<exists>m \<in> set (sc_registry_values ctx). serves (ds_token_in swap) BNT_ADDRESS BancorV3 m)
             \<and> (\<exists>m \<in> set (sc_registry_values ctx). serves (ds_token_out swap) BNT_ADDRESS BancorV3 m)
          else \<exists>m \<in> set (sc_registry_values ctx). serves (ds_token_in swap) (ds_token_out swap) p m)"

lemma decoder_protocol_bancor: "decoder_protocol_to_type q = Some BancorV3 \<longleftrightarrow> q = R_BancorV3"
  by (cases q) simp_all

lemma find_None_set: "find P xs = None \<longleftrightarrow> \<not> (\<exists>x \<in> set xs. P x)"
  by (auto simp: find_None_iff)

lemma pre_sim_filter_result:
  assumes "index_coherent ctx st" and "pre_sim_filter ctx swap st = (pass, st')"
  shows "pass \<longleftrightarrow> ds_token_in swap \<noteq> ds_token_out swap \<and> ds_amount_in swap \<noteq> 0 \<and> registered_for ctx swap"
    and "index_coherent ctx st'" and "pl_predictions st' = pl_predictions st" and "pl_published st' = pl_published st"
    and "pl_hot_tokens st' = pl_hot_tokens st"
    and "pl_metrics st' = pl_metrics st @ (if pass then [] else [MempoolFiltered
        (if ds_token_in swap = ds_token_out swap then ''same_token'' else if ds_amount_in swap = 0 then ''zero_amount'' else ''not_in_registry'')])"
proof -
  have coh: "index_coherent ctx (st\<lparr>pl_pair_index_cache := Some (sc_registry_ptr ctx, build_pair_index (sc_registry_values ctx) hnew)\<rparr>)"
    by (simp add: index_coherent_def)
  note look = lookup_pool_result [OF assms(1)] lookup_pool_result [OF coh]
  show "pass \<longleftrightarrow> ds_token_in swap \<noteq> ds_token_out swap \<and> ds_amount_in swap \<noteq> 0 \<and> registered_for ctx swap"
    using assms(2)
    by (auto simp: pre_sim_filter_def look registered_for_def bancor_multihop_def decoder_protocol_bancor find_None_set
        split: if_splits option.splits)
  show "index_coherent ctx st'" "pl_predictions st' = pl_predictions st" "pl_published st' = pl_published st"
    "pl_hot_tokens st' = pl_hot_tokens st"
    "pl_metrics st' = pl_metrics st @ (if pass then [] else [MempoolFiltered
        (if ds_token_in swap = ds_token_out swap then ''same_token'' else if ds_amount_in swap = 0 then ''zero_amount'' else ''not_in_registry'')])"
    using assms(2) coh assms(1)
    by (auto simp: pre_sim_filter_def look Let_def index_coherent_def split: if_splits option.splits)
qed

definition schedulable :: "SimContext \<Rightarrow> DecodedSwap \<Rightarrow> bool" where
  "schedulable ctx swap \<longleftrightarrow> ds_token_in swap \<noteq> ds_token_out swap \<and> ds_amount_in swap \<noteq> 0 \<and> registered_for ctx swap"

lemma dispatch_swaps_result:
  assumes "index_coherent ctx st" and "dispatch_swaps env (Some ctx) label swaps st = (tasks, st')"
  shows "tasks = filter (schedulable ctx) swaps \<and> index_coherent ctx st' \<and> pl_predictions st' = pl_predictions st
    \<and> pl_published st' = pl_published st"
  using assms
proof (induction swaps arbitrary: st tasks)
  case (Cons swap swaps)
  define st1 where "st1 = (emit_decoded label swap st)\<lparr>pl_hot_tokens := ht_record (me_half_pow env)
      (pl_hot_tokens (emit_decoded label swap st)) (ds_token_in swap) (ds_token_out swap) (ds_protocol swap)
      (ds_pool_address swap) (me_now_secs env)\<rparr>"
  obtain pass st2 where filt: "pre_sim_filter ctx swap st1 = (pass, st2)" by fastforce
  obtain tasks' st3 where rest: "dispatch_swaps env (Some ctx) label swaps st2 = (tasks', st3)" by fastforce
  have st1: "index_coherent ctx st1" "pl_predictions st1 = pl_predictions st" "pl_published st1 = pl_published st"
    using Cons.prems(1) by (simp_all add: st1_def emit_decoded_def index_coherent_def)
  note f = pre_sim_filter_result [OF st1(1) filt]
  have eq: "tasks = (if pass then swap # tasks' else tasks')" "st' = st3"
    using Cons.prems(2) filt rest by (simp_all add: Let_def st1_def)
  from Cons.IH [OF f(2) rest [folded eq(2)]] f st1 eq show ?case by (simp add: schedulable_def)
qed simp

lemma decode_pending_many_ok: "decode_pending_many abi to calldata = Inr swaps \<Longrightarrow> list_all (swap_ok to) swaps"
  by (auto simp: decode_pending_many_def decode_at_depth_ok split: if_splits)

lemma backfill_ok: "list_all (swap_ok to) swaps \<Longrightarrow> list_all (swap_ok to) (backfill_value v swaps)"
  by (cases swaps) (auto simp: swap_ok_def)


text \<open>An environment with the abstract machine of the validation and of the replay: a logarithm with two values, an
  encoder that forgets its argument, and a fork whose database is the number of the attempt.\<close>

definition demo_env :: "sol_value list \<Rightarrow> nat mp_env" where
  "demo_env vs = \<lparr>me_sol_abi = demo_abi vs, me_view_abi = tag_abi,
     me_evm = demo_evm\<lparr>evm_transact := (\<lambda>_ n _. Inr (ExSuccess 0 [], \<lambda>_ _. Some (5 + 10 * of_nat n)))\<rparr>, me_keccak = (\<lambda>_. 0),
     me_abi_encode = (\<lambda>_. []), me_address_hex = (\<lambda>_. ''router''), me_hash_hex = (\<lambda>_. ''hash''), me_decimal = (\<lambda>_. ''n''),
     me_lnf = (\<lambda>x. if f64_lt (Num 2) x then Num 2 else Num (- 1)), me_expf = (\<lambda>_. Num 2), me_pow10 = (\<lambda>_. Num 1),
     me_half_pow = (\<lambda>_. Num 1), me_now_secs = 100, me_now_nanos = 100, me_uuid = of_nat, me_elapsed = (\<lambda>_. 0),
     me_elapsed_ms = Num 1, me_permit = True, me_replay_permit = True, me_prewarmed = False, me_fork = (\<lambda>_ k _. Some k),
     me_replay_fork = (\<lambda>_. Some 0), me_skip_victim = False, me_fork_latest = False, me_sim_retries = 1,
     me_sim_timeout_ms = Num 5000, me_subscribers = True\<rparr>"

definition demo_event :: PendingTxEvent where
  "demo_event = \<lparr>ev_tx_hash = 77, ev_from = 1, ev_to = Some 5, ev_value = 0, ev_input = demo_selector (V3 exactInput_0) @ [1],
     ev_gas_price = 1, ev_first_seen_unix_nanos = 1, ev_raw_tx = [1]\<rparr>"

definition demo_path :: "sol_value list" where
  "demo_path = [SStruct [SBytes (pack_v3_path 1 [(500, 2), (3000, 9)]), SAddr 1, SUint 2, SUint 1000, SUint 990]]"


end
