(* ===== verification/Mempool_Scan.thy ===== *)
theory Mempool_Scan
  imports Mempool_Props
begin

text \<open>
  Scans of the mempool pipeline: the swaps that pass the filter and are then lost, what a scan may publish, and what it
  persists.
\<close>

section \<open>Swaps that are lost\<close>

text \<open>C40: a Bancor swap between two tokens other than BNT passes the filter when the BNT pools of both tokens are
  registered, but its scan looks for a pool of the two tokens first and ends there: nothing is predicted, nothing is
  published and no counter records it.\<close>

theorem bancor_multihop_lost:
  assumes "index_coherent ctx st" and "bancor_multihop swap" and "ds_token_in swap \<noteq> ds_token_out swap"
    and "ds_amount_in swap \<noteq> 0" and "registered_for ctx swap"
    and "\<forall>m \<in> set (sc_registry_values ctx). \<not> serves (ds_token_in swap) (ds_token_out swap) BancorV3 m"
  shows "fst (pre_sim_filter ctx swap st) \<and> (\<exists>st'. try_post_state_scan env ctx label swap tx_hash to event st = Ret (Some st')
    \<and> pl_metrics st' = pl_metrics st \<and> pl_predictions st' = pl_predictions st \<and> pl_published st' = pl_published st)"
proof -
  have "fst (pre_sim_filter ctx swap st)"
    using pre_sim_filter_result(1) [OF assms(1), of swap] assms(3-5) by (cases "pre_sim_filter ctx swap st") simp
  moreover have "find (serves (ds_token_in swap) (ds_token_out swap) BancorV3) (sc_registry_values ctx) = None"
    using assms(6) by (simp add: find_None_iff)
  ultimately show ?thesis
    using assms(2) lookup_pool_result [OF assms(1)]
    by (auto simp: try_post_state_scan_def resolve_swap_pool_def bancor_multihop_def)
qed

definition bnt_pools :: "PoolMetadata list" where
  "bnt_pools = [demo_pool 91 1 BNT_ADDRESS BancorV3 30, demo_pool 92 2 BNT_ADDRESS BancorV3 30]"

theorem bancor_multihop_lost_witness:
  "let ctx = demo_context 7 bnt_pools; swap = plain_swap R_BancorV3 5 1 2 1000 990 1 0 []
   in fst (pre_sim_filter ctx swap pipe_new)
      \<and> (\<exists>st'. try_post_state_scan (demo_env []) ctx ''router'' swap 77 5 demo_event pipe_new = Ret (Some st') \<and> pl_metrics st' = [])"
proof -
  let ?ctx = "demo_context 7 bnt_pools" and ?swap = "plain_swap R_BancorV3 5 1 2 1000 990 1 0 []"
  have "bancor_multihop ?swap" "registered_for ?ctx ?swap" by code_simp+
  moreover have "list_all (\<lambda>m. \<not> serves (ds_token_in ?swap) (ds_token_out ?swap) BancorV3 m) (sc_registry_values ?ctx)" by code_simp
  ultimately show ?thesis
    using bancor_multihop_lost [OF index_coherent_new, of ?swap ?ctx "demo_env []" "''router''" 77 5 demo_event]
    by (auto simp: plain_swap_def list_all_iff pipe_new_def)
qed

text \<open>The states the analytical predictor has no rule for.\<close>

definition constant_product_state :: "PoolState \<Rightarrow> bool" where
  "constant_product_state s \<longleftrightarrow> (case s of PS_UniswapV2 _ \<Rightarrow> True | PS_SushiSwap _ \<Rightarrow> True | _ \<Rightarrow> False)"

lemma predict_pool_state_v2:
  "constant_product_state s \<Longrightarrow>
   predict_pool_state env ctx s pool swap event block st = Ret (None, inc_metric (SimEvmFallback ''unknown_protocol'') st)"
  by (auto simp: constant_product_state_def predict_pool_state_def Let_def split: PoolState.splits)

text \<open>A 1inch hop through a constant-product pool is never scanned. The hop names the pool, the pool is registered and
  its reserves are known, yet the reserves are not predicted with the constant-product formula as for the routers' own swaps:
  the hop is handed to the predictor of the other protocols, which refuses it, so no prediction is made and nothing is
  published.\<close>

theorem one_inch_v2_lost:
  assumes "ds_protocol swap = R_OneInchV6" and "ds_pool_address swap = Some pool" and "hget (sc_registry ctx) pool = Some meta"
    and "hget (sc_pool_states ctx) (pid_address (pm_pool_id meta)) = Some s" and "constant_product_state s"
    and "pid_protocol (pm_pool_id meta) \<noteq> BancorV3"
  shows "\<exists>st' reasons. try_post_state_scan env ctx label swap tx_hash to event st = Ret (Some st')
    \<and> pl_predictions st' = pl_predictions st \<and> pl_published st' = pl_published st
    \<and> pl_metrics st' = pl_metrics st @ reasons
    \<and> reasons \<in> {[ArbSimSkipped ''token_in_unknown''], [ArbSimSkipped ''token_out_unknown''], [ArbSimSkipped ''graph_edge_missing''],
        [ArbSimSkipped ''reserves_zero''], [SimEvmFallback ''unknown_protocol'', ArbSimSkipped ''predictor_low_confidence'']}"
proof -
  obtain token_in token_out where res: "resolve_swap_pool ctx swap st = (Some (meta, token_in, token_out, pid_protocol (pm_pool_id meta)), st)"
    using assms(1-3) by (simp add: resolve_swap_pool_def Let_def case_prod_unfold)
  have vps: "victim_post_state env ctx swap meta e event block st =
      Ret (None, inc_metric (ArbSimSkipped ''predictor_low_confidence'') (inc_metric (SimEvmFallback ''unknown_protocol'') st))" for e block
    using assms(1,4,5) by (simp add: victim_post_state_def predict_pool_state_v2)
  show ?thesis
    using assms(6)
    by (auto simp: try_post_state_scan_def res scan_pool_def vps Let_def split: option.split)
qed

theorem one_inch_v2_lost_witness:
  "let ctx = (demo_context 7 [demo_pool 91 1 2 UniswapV2 30])\<lparr>sc_pool_states := [(91, demo_v2 91 1000 1000)]\<rparr>;
       swap = (plain_swap R_OneInchV6 5 1 0 1000 990 1 0 [])\<lparr>ds_pool_address := Some 91, ds_one_inch_zero_for_one := Some True\<rparr>
   in \<exists>st'. try_post_state_scan (demo_env []) ctx ''router'' swap 77 5 demo_event pipe_new = Ret (Some st') \<and> pl_predictions st' = []"
proof -
  let ?swap = "(plain_swap R_OneInchV6 5 1 0 1000 990 1 0 [])\<lparr>ds_pool_address := Some 91, ds_one_inch_zero_for_one := Some True\<rparr>"
  let ?ctx = "(demo_context 7 [demo_pool 91 1 2 UniswapV2 30])\<lparr>sc_pool_states := [(91, demo_v2 91 1000 1000)]\<rparr>"
  have "hget (sc_registry ?ctx) 91 = Some (demo_pool 91 1 2 UniswapV2 30)" "hget (sc_pool_states ?ctx) 91 = Some (demo_v2 91 1000 1000)"
    "constant_product_state (demo_v2 91 1000 1000)" by code_simp+
  moreover have "pid_address (pm_pool_id (demo_pool 91 1 2 UniswapV2 30)) = 91" "pid_protocol (pm_pool_id (demo_pool 91 1 2 UniswapV2 30)) \<noteq> BancorV3"
    "ds_protocol ?swap = R_OneInchV6" "ds_pool_address ?swap = Some 91"
    by (simp_all add: demo_pool_def plain_swap_def)
  ultimately obtain st' where "try_post_state_scan (demo_env []) ?ctx ''router'' ?swap 77 5 demo_event pipe_new = Ret (Some st')"
      "pl_predictions st' = pl_predictions pipe_new"
    using one_inch_v2_lost [of ?swap 91 ?ctx "demo_pool 91 1 2 UniswapV2 30" "demo_v2 91 1000 1000" "demo_env []" "''router''" 77 5
        demo_event pipe_new] by metis
  then show ?thesis by (auto simp: Let_def pipe_new_def)
qed

section \<open>Published backruns\<close>

lemma validate_attempts_result:
  assumes "validate_attempts env victim arb params k left st = (r, st')"
  shows "pl_published st' = pl_published st \<and> pl_predictions st' = pl_predictions st \<and> pl_gate st' = pl_gate st
    \<and> (\<forall>x. r = Some x \<longrightarrow> (\<exists>db. x = validate_backrun_inner (me_evm env) (me_keccak env) db victim arb params))"
  using assms
proof (induction env victim arb params k left st rule: validate_attempts.induct)
  case (1 env victim arb params k left st)
  show ?case
  proof (cases "me_fork env (me_fork_latest env) k (vp_block_number params)")
    case None
    then show ?thesis using "1.prems" by (auto simp: validate_attempts.simps [of _ _ _ _ k])
  next
    case (Some db)
    define st1 where "st1 = inc_metric (if me_prewarmed env then PrewarmHit else PrewarmMiss) st"
    define x where "x = validate_backrun_inner (me_evm env) (me_keccak env) db victim arb params"
    have st1: "pl_published st1 = pl_published st" "pl_predictions st1 = pl_predictions st" "pl_gate st1 = pl_gate st"
      by (simp_all add: st1_def)
    show ?thesis
    proof (cases "br_accepted x \<or> br_reject x \<noteq> Some RpcTransport \<or> left = 0")
      case True
      then have "(r, st') = (Some x, st1)" using "1.prems" Some
        by (auto simp: validate_attempts.simps [of _ _ _ _ k] Let_def st1_def x_def split: nat.split_asm)
      then show ?thesis using st1 x_def by auto
    next
      case False
      then obtain left' where left: "left = Suc left'" by (cases left) auto
      have "validate_attempts env victim arb params (Suc k) left' st1 = (r, st')"
        using "1.prems" False Some left by (simp add: validate_attempts.simps [of _ _ _ _ k] Let_def st1_def [symmetric] x_def [symmetric])
      with "1.IH" [OF Some st1_def x_def _ left] False st1 show ?thesis by simp
    qed
  qed
qed

text \<open>The label, the sizing and the message of an accepted validation.\<close>

lemma settle_backrun_result:
  assumes "settle_backrun env gating event cycle block token amount steps net arb params r st = st'"
  shows "pl_predictions st' = pl_predictions st
    \<and> (pl_published st' = pl_published st \<or> br_accepted r \<and> me_subscribers env
        \<and> pl_published st' = pl_published st @ [backrun_proto env event cycle block r (vp_base_fee params) token amount steps (at_data arb)])"
  using assms unfolding settle_backrun_def
  by (auto simp: Let_def case_prod_unfold split: if_splits)

lemma apply_sizing_keeps:
  "apply_sizing steps outs x = Ret steps' \<Longrightarrow>
    map step_token_in steps' = map step_token_in steps \<and> map step_token_out steps' = map step_token_out steps
    \<and> map step_pool_address steps' = map step_pool_address steps \<and> map step_protocol steps' = map step_protocol steps
    \<and> (steps \<noteq> [] \<longrightarrow> step_amount_in (hd steps') = x)"
  by (induction steps outs x arbitrary: steps' rule: apply_sizing.induct) (auto simp: emap_Ret_iff)

lemma build_steps_amount: "build_steps g ti path x = Some steps \<Longrightarrow> steps \<noteq> [] \<Longrightarrow> step_amount_in (hd steps) = x"
  by (induction g ti path x rule: build_steps.induct) (auto split: option.splits)

text \<open>The route of a list of steps.\<close>

definition route :: "SwapStep list \<Rightarrow> (ProtocolType \<times> address \<times> address \<times> address) list" where
  "route steps = map (\<lambda>s. (step_protocol s, step_pool_address s, step_token_in s, step_token_out s)) steps"

lemma route_zip:
  "route steps = zip (map step_protocol steps) (zip (map step_pool_address steps) (zip (map step_token_in steps) (map step_token_out steps)))"
  by (induction steps) (simp_all add: route_def)

lemma size_backrun_result:
  assumes "size_backrun cfg states pool token pin pout steps = Ret (Some (steps', amount, net))"
    and "steps \<noteq> []" and "step_amount_in (hd steps) = bc_input_amount_wei cfg"
  shows "route steps' = route steps \<and> step_amount_in (hd steps') = amount"
proof -
  obtain outcome where run: "optimize_cycle_input steps states pool token pin pout (bc_gas_price_gwei cfg) (bc_min_profit_wei cfg) = Ret outcome"
    using assms(1) by (auto simp: size_backrun_def ebind_Ret_iff)
  consider "steps' = steps" "amount = bc_input_amount_wei cfg"
    | (sized) sizing :: OptimizedSizing where "apply_sizing steps (os_per_hop_expected_out sizing) (os_input_amount sizing) = Ret steps'" "amount = os_input_amount sizing"
  proof (cases outcome)
    case (Sized sizing)
    then show ?thesis using that(2) [of sizing] assms(1) run by (simp add: size_backrun_def emap_Ret_iff)
  qed (use that(1) assms(1) run in \<open>auto simp: size_backrun_def\<close>)
  then show ?thesis
  proof cases
    case 1
    then show ?thesis using assms(3) by simp
  next
    case sized
    from apply_sizing_keeps [OF sized(1)] show ?thesis
      using assms(2) sized(2) by (simp add: route_zip)
  qed
qed

text \<open>What a published message stands for: a route through edges of the graph that was scanned, in the order of the
  cycle; a loan of the first token, of the first step's amount; the calldata of exactly these steps; and an accepted
  validation of that calldata after the victim, whose profit and gas the message carries.\<close>

definition backrun_ok ::
    "'db mp_env \<Rightarrow> BackrunValidatorConfig \<Rightarrow> PriceGraph \<Rightarrow> TokenIndex \<Rightarrow> u64 \<Rightarrow> PendingTxEvent \<Rightarrow> nat list \<Rightarrow> proto_arb \<Rightarrow> bool" where
  "backrun_ok env cfg g ti block event path proto \<longleftrightarrow>
     (\<exists>to steps built db r overrides.
        ev_to event = Some to \<and> steps \<noteq> []
        \<and> build_steps g ti path (bc_input_amount_wei cfg) = Some built \<and> route steps = route built
        \<and> pa_steps proto = map backrun_step_to_proto steps
        \<and> pa_flashloan_token proto = address_to_bytes (step_token_in (hd steps))
        \<and> pa_flashloan_amount proto = u256_to_bytes (step_amount_in (hd steps))
        \<and> pa_calldata proto = build_execute_arb_calldata (me_abi_encode env) steps (step_token_in (hd steps)) (step_amount_in (hd steps))
            (ucast (me_now_secs env + 24)) (bc_min_profit_wei cfg) 9000
        \<and> r = validate_backrun_inner (me_evm env) (me_keccak env) db (victim_of event to)
            (backrun_arb env cfg steps (step_token_in (hd steps)) (step_amount_in (hd steps))) (backrun_params env cfg block overrides)
        \<and> br_accepted r \<and> uint (br_arb_gas_used r) * 1000000000 < uint (br_gross_profit_wei r)
        \<and> pa_total_profit_wei proto = u256_to_bytes (br_gross_profit_wei r) \<and> pa_total_gas proto = br_arb_gas_used r
        \<and> pa_source proto = MempoolBackrun \<and> pa_block_number proto = block \<and> pa_target_block proto = saturating_add block 1
        \<and> pa_victim_tx_hash proto = u256_to_bytes (ev_tx_hash event))"

lemma accepted_profit:
  assumes "validate_backrun_inner evm keccak db victim arb params = r" and "br_accepted r"
  shows "uint (br_arb_gas_used r) * uint (vp_base_fee params) < uint (br_gross_profit_wei r)"
proof -
  obtain st pre where gross: "br_gross_profit_wei r = read_post_balance st (vp_profit_token params) (profit_key keccak params) pre - pre"
    and lt: "uint pre + uint (br_arb_gas_used r) * uint (vp_base_fee params)
      < uint (read_post_balance st (vp_profit_token params) (profit_key keccak params) pre)"
    using validate_backrun_ok [OF assms(1)] assms(2) by blast
  have "0 \<le> uint (br_arb_gas_used r) * uint (vp_base_fee params)" by simp
  with lt have "pre \<le> read_post_balance st (vp_profit_token params) (profit_key keccak params) pre" unfolding word_le_def by linarith
  then have "uint (br_gross_profit_wei r) = uint (read_post_balance st (vp_profit_token params) (profit_key keccak params) pre) - uint pre"
    unfolding gross by (simp add: uint_sub_lem word_le_def)
  with lt show ?thesis by linarith
qed

lemma run_backrun_validation_result:
  assumes "run_backrun_validation env cfg g ti cycle event block overrides states pool token pin pout gating st = Ret st'"
  shows "pl_predictions st' = pl_predictions st \<and> (pl_published st' = pl_published st
    \<or> (\<exists>proto. pl_published st' = pl_published st @ [proto] \<and> backrun_ok env cfg g ti block event (dc_path cycle) proto))"
proof (cases "pl_published st' = pl_published st \<and> pl_predictions st' = pl_predictions st")
  case False
  obtain step rest where steps0: "cycle_to_swap_steps g ti cycle (bc_input_amount_wei cfg) = Some (step # rest)"
    using assms False by (auto simp: run_backrun_validation_def split: if_split_asm option.split_asm list.split_asm)
  then have built: "build_steps g ti (dc_path cycle) (bc_input_amount_wei cfg) = Some (step # rest)"
    by (simp add: cycle_to_swap_steps_def split: if_split_asm)
  have flags: "me_permit env" "bc_provider cfg"
    using assms False by (auto simp: run_backrun_validation_def split: if_split_asm)
  obtain so where so: "size_backrun cfg states pool token pin pout (step # rest) = Ret so"
    using assms steps0 flags by (auto simp: run_backrun_validation_def Let_def emap_Ret_iff)
  obtain steps amount net where sz: "so = Some (steps, amount, net)"
    using assms False steps0 flags so by (cases so) (auto simp: run_backrun_validation_def Let_def)
  note sized = so [unfolded sz]
  obtain to where to: "ev_to event = Some to"
    using assms False steps0 flags sized by (cases "ev_to event") (auto simp: run_backrun_validation_def Let_def)
  define arb where "arb = backrun_arb env cfg steps (step_token_in step) amount"
  define params where "params = backrun_params env cfg block overrides"
  obtain ro st1 where attempts: "validate_attempts env (victim_of event to) arb params 0 (unat (me_sim_retries env)) st = (ro, st1)" by fastforce
  note va = validate_attempts_result [OF attempts]
  have st': "st' = (case ro of None \<Rightarrow> st1 | Some r \<Rightarrow>
      settle_backrun env gating event cycle block (step_token_in step) amount steps net arb params r st1)"
    using assms flags steps0 sized to attempts
    by (auto simp: run_backrun_validation_def Let_def arb_def [symmetric] params_def [symmetric] split: option.split)
  then obtain r where r: "ro = Some r" using va False by (cases ro) auto
  obtain db where db: "r = validate_backrun_inner (me_evm env) (me_keccak env) db (victim_of event to) arb params" using va r by blast
  have settle: "settle_backrun env gating event cycle block (step_token_in step) amount steps net arb params r st1 = st'" using st' r by simp
  note se = settle_backrun_result [OF settle]
  then have acc: "br_accepted r" and pub: "pl_published st' = pl_published st @
      [backrun_proto env event cycle block r (vp_base_fee params) (step_token_in step) amount steps (at_data arb)]"
    using va False by auto
  have size: "route steps = route (step # rest)" "step_amount_in (hd steps) = amount"
    using size_backrun_result [OF sized] build_steps_amount [OF built] by auto
  then have steps: "steps \<noteq> []" "step_token_in (hd steps) = step_token_in step" by (auto simp: route_def neq_Nil_conv)
  have fee: "vp_base_fee params = 1000000000" by (simp add: params_def backrun_params_def)
  have "backrun_ok env cfg g ti block event (dc_path cycle)
      (backrun_proto env event cycle block r (vp_base_fee params) (step_token_in step) amount steps (at_data arb))"
    unfolding backrun_ok_def
    using to steps size built db acc accepted_profit [OF db [symmetric] acc]
    by (intro exI [of _ to] exI [of _ steps] exI [of _ "step # rest"] exI [of _ db] exI [of _ r] exI [of _ overrides])
       (simp add: backrun_proto_def arb_def params_def backrun_arb_def fee [unfolded params_def])
  with pub se va show ?thesis by auto
qed auto

section \<open>Scans\<close>

text \<open>Repricing keeps the shape of the graph.\<close>

fun is_update :: "pg_op \<Rightarrow> bool" where
  "is_update (UpdateFromReserves _ _ _ _ _ _) = True"
| "is_update _ = False"

lemma find_update_length: "find_update P f xs = Some ys \<Longrightarrow> length ys = length xs"
  by (induction xs arbitrary: ys) (auto split: if_splits)

lemma mirror_edge_degree: "mirror_edge g src dst i f = Ret (Some g') \<Longrightarrow> length (edges_from g' u) = length (edges_from g u)"
  by (auto simp: mirror_edge_def exec_simps edges_from_def nth_list_update find_update_length split: option.splits)

lemma update_step_shape:
  assumes "pg_inv g" and "is_update op" and "pg_step lnf pow10 g op = Ret g'"
  shows "pg_inv g' \<and> pg_num_vertices g' = pg_num_vertices g \<and> length (edges_from g' u) = length (edges_from g u)"
proof -
  obtain src dst i rin rout fee where op: "op = UpdateFromReserves src dst i rin rout fee" using assms(2) by (cases op) auto
  have "g' = g \<or> (\<exists>f. mirror_edge g src dst i f = Ret (Some g'))"
    using assms(3) by (auto simp: op update_edge_from_reserves_def Let_def emap_Ret_iff split: if_splits option.splits)
  then show ?thesis
  proof
    assume "g' = g"
    then show ?thesis using assms(1) by simp
  next
    assume "\<exists>f. mirror_edge g src dst i f = Ret (Some g')"
    then obtain f where m: "mirror_edge g src dst i f = Ret (Some g')" by blast
    then have "src < pg_num_vertices g" using pg_invD(1) [OF assms(1)] by (auto simp: mirror_edge_def exec_simps)
    then show ?thesis
      using pg_step_refines_aux [OF assms(1), of op lnf pow10] assms(3) pg_step_vertices [OF assms(3)] mirror_edge_degree [OF m]
      by (auto simp: op)
  qed
qed

lemma updates_shape:
  assumes "pg_inv g" and "list_all is_update ops" and "apply_ops lnf pow10 g ops = Ret g'"
  shows "pg_inv g' \<and> pg_num_vertices g' = pg_num_vertices g \<and> length (edges_from g' u) = length (edges_from g u)"
  using assms
proof (induction ops arbitrary: g)
  case (Cons op ops)
  obtain g1 where g1: "pg_step lnf pow10 g op = Ret g1" "apply_ops lnf pow10 g1 ops = Ret g'"
    using Cons.prems(3) by (auto simp: ebind_Ret_iff)
  from update_step_shape [OF Cons.prems(1) _ g1(1), of u] Cons.IH [of g1] g1(2) Cons.prems(2) show ?case by simp
qed simp

text \<open>A graph the detection can be run on: consistent, and small enough that its 32-bit counters do not wrap.\<close>

definition scannable :: "nat \<Rightarrow> PriceGraph \<Rightarrow> bool" where
  "scannable D g \<longleftrightarrow> pg_inv g \<and> pg_num_vertices g < 2 ^ 32 \<and> (\<forall>u. length (edges_from g u) \<le> D)
     \<and> (3 + pg_num_vertices g * pg_num_vertices g) * D < 2 ^ 32"

lemma scannable_detect:
  assumes "scannable D g" and "list_all is_update ops" and "apply_ops lnf pow10 g ops = Ret g'" and "length affected \<le> 3"
  shows "\<exists>cs. detect_from_affected bf elapsed g' affected = Ret (Some cs)
    \<and> list_all (cycle_ok bf (pg_num_vertices g') (edges_from g')) cs"
proof -
  note sh = updates_shape [OF _ assms(2,3)]
  have "(length affected + pg_num_vertices g' * pg_num_vertices g') * D \<le> (3 + pg_num_vertices g * pg_num_vertices g) * D"
    using sh assms(1,4) by (simp add: scannable_def)
  then have fits: "(length affected + pg_num_vertices g' * pg_num_vertices g') * D < 2 ^ 32"
    using assms(1) unfolding scannable_def by linarith
  have "pg_inv g'" "pg_num_vertices g' < 2 ^ 32" "length (edges_from g' u) \<le> D" for u
    using sh [of u] assms(1) by (auto simp: scannable_def)
  from detect_from_affected_ok [OF this fits] show ?thesis by blast
qed

lemma first_passing_mem: "first_passing expf g idx cfg cs ef = (Some c, ef') \<Longrightarrow> c \<in> set cs"
  by (induction cs arbitrary: ef) (auto split: prod.split_asm PreSimGateVerdict.split_asm)

lemma best_first_set: "set (best_first expf cs) = {c \<in> set cs. is_profitable c}"
  by (simp add: best_first_def)

text \<open>What a scan that ends may have done.\<close>

definition closed_path :: "nat list \<Rightarrow> bool" where
  "closed_path path \<longleftrightarrow> 2 \<le> length path \<and> hd path = last path \<and> distinct (butlast path)"

definition scan_ok :: "'db mp_env \<Rightarrow> SimContext \<Rightarrow> PendingTxEvent \<Rightarrow> pipe \<Rightarrow> pipe \<Rightarrow> bool" where
  "scan_ok env ctx event st st' \<longleftrightarrow> pl_published st' = pl_published st
     \<or> (\<exists>cfg cycle proto. sc_backrun ctx = Some cfg \<and> sc_arb_publisher ctx
          \<and> pl_published st' = pl_published st @ [proto]
          \<and> is_profitable cycle \<and> closed_path (dc_path cycle) \<and> num_hops cycle \<le> bf_max_hops (sc_detector ctx)
          \<and> backrun_ok env cfg (gs_graph (load_full (sc_snapshot_manager ctx))) (sc_token_index ctx)
              (gs_block_number (load_full (sc_snapshot_manager ctx))) event (dc_path cycle) proto)"

lemma persist_keeps [simp]:
  "pl_published (persist_predictions env ctx swap h to b best posts st) = pl_published st"
  "pl_metrics (persist_predictions env ctx swap h to b best posts st) = pl_metrics st"
  "pl_gate (persist_predictions env ctx swap h to b best posts st) = pl_gate st"
  by (induction env ctx swap h to b best posts st rule: persist_predictions.induct) simp_all

lemma candidates_keep [simp]:
  "pl_published (foldl (\<lambda>st c. inc_metric (f c) st) st cs) = pl_published st"
  "pl_predictions (foldl (\<lambda>st c. inc_metric (f c) st) st cs) = pl_predictions st"
  by (induction cs arbitrary: st) simp_all

lemma scan_repriced_result:
  assumes run: "scan_repriced env ctx label swap h to event snapshot ops affected posts overrides pool pin pout st = Ret (Some st')"
    and snap: "snapshot = load_full (sc_snapshot_manager ctx)" and "scannable D (gs_graph snapshot)"
    and "list_all is_update ops" and "length affected \<le> 3"
  shows "scan_ok env ctx event st st' \<and> (\<exists>best. pl_predictions st' =
    pl_predictions (persist_predictions env ctx swap h to (gs_block_number snapshot) best posts st))"
proof -
  obtain g where g: "apply_ops (me_lnf env) (me_pow10 env) (gs_graph snapshot) ops = Ret g"
    using run by (auto simp: scan_repriced_def ebind_Ret_iff)
  obtain cs where cs: "detect_from_affected (sc_detector ctx) (me_elapsed env) g affected = Ret (Some cs)"
    and ok: "list_all (cycle_ok (sc_detector ctx) (pg_num_vertices g) (edges_from g)) cs"
    using scannable_detect [OF assms(3,4) g assms(5)] by blast
  define prof where "prof = best_first (me_expf env) cs"
  define best where "best = (case prof of [] \<Rightarrow> None | c # _ \<Rightarrow> Some (profit_factor (me_expf env) c))"
  define st1 where "st1 = persist_predictions env ctx swap h to (gs_block_number snapshot) best posts st"
  define st2 where "st2 = foldl (\<lambda>st c. inc_metric (ArbCandidates label (profit_bucket (profit_factor (me_expf env) c))) st) st1 prof"
  have keep: "pl_published st1 = pl_published st" "pl_published st2 = pl_published st" "pl_predictions st2 = pl_predictions st1"
    by (simp_all add: st1_def st2_def)
  note eqs = run [unfolded scan_repriced_def g cs ebind.simps eobind_simps Let_def, folded prof_def, folded best_def, folded st1_def, folded st2_def]
  show ?thesis
  proof (cases "pl_published st' = pl_published st \<and> pl_predictions st' = pl_predictions st1")
    case True
    then show ?thesis unfolding scan_ok_def st1_def by blast
  next
    case False
    then obtain cfg where cfg: "sc_arb_publisher ctx" "sc_backrun ctx = Some cfg" "prof \<noteq> []"
      using eqs keep by (auto split: if_split_asm option.split_asm)
    obtain bc ef where fp: "first_passing (me_expf env) g (build_fingerprint_index (me_expf env) prof (sc_gating ctx)) (sc_gating ctx) prof (pl_gate st2) = (bc, ef)"
      by fastforce
    then obtain cycle where bc: "bc = Some cycle" using False eqs cfg keep by (cases bc) auto
    have mem: "cycle \<in> set cs" "is_profitable cycle"
      using first_passing_mem [OF fp [unfolded bc]] by (auto simp: prof_def best_first_set)
    then have cyc: "closed_path (dc_path cycle)" "num_hops cycle \<le> bf_max_hops (sc_detector ctx)"
      using ok by (auto simp: list_all_iff cycle_ok_def closed_path_def)
    have "run_backrun_validation env cfg (gs_graph snapshot) (sc_token_index ctx) cycle event (gs_block_number snapshot) overrides
        (sc_pool_states ctx) pool (ds_token_in swap) pin pout (sc_gating ctx) (st2\<lparr>pl_gate := ef\<rparr>) = Ret st'"
      using eqs cfg fp bc by (auto simp: emap_Ret_iff)
    from run_backrun_validation_result [OF this] have r: "pl_predictions st' = pl_predictions st1"
      "pl_published st' = pl_published st \<or> (\<exists>proto. pl_published st' = pl_published st @ [proto]
        \<and> backrun_ok env cfg (gs_graph snapshot) (sc_token_index ctx) (gs_block_number snapshot) event (dc_path cycle) proto)"
      using keep by simp_all
    then show ?thesis using cfg cyc mem(2) snap unfolding scan_ok_def st1_def by blast
  qed
qed

end
