(* ===== verification/Mempool_Sound.thy ===== *)
theory Mempool_Sound
  imports Mempool_Scan
begin

text \<open>
  The scan of a decoded swap as a whole: what it publishes and what it persists, with the detection run on any consistent
  snapshot.
\<close>

lemma lookup_frame [simp]:
  "pl_published (snd (lookup_pool ctx a b p st)) = pl_published st" "pl_predictions (snd (lookup_pool ctx a b p st)) = pl_predictions st"
  by (auto simp: lookup_pool_def Let_def case_prod_unfold split: option.splits)

lemma resolve_frame:
  assumes "resolve_swap_pool ctx swap st = (r, st')"
  shows "pl_published st' = pl_published st" "pl_predictions st' = pl_predictions st"
  using assms by (auto simp: resolve_swap_pool_def Let_def case_prod_unfold split: option.splits if_splits)

lemma replay_frame:
  assumes "try_post_state_replay env ctx proto pool s tin tout event block st = (r, st')"
  shows "pl_published st' = pl_published st" "pl_predictions st' = pl_predictions st"
  using assms by (auto simp: try_post_state_replay_def Let_def split: option.splits if_splits sum.splits)

lemma replay_snd_frame [simp]:
  "pl_published (snd (try_post_state_replay env ctx proto pool s tin tout event block st)) = pl_published st"
  "pl_predictions (snd (try_post_state_replay env ctx proto pool s tin tout event block st)) = pl_predictions st"
  using replay_frame [of env ctx proto pool s tin tout event block st] by (simp_all add: prod_eq_iff)

lemma predict_frame:
  assumes "predict_pool_state env ctx s pool swap event block st = Ret (post, st')"
  shows "pl_published st' = pl_published st \<and> pl_predictions st' = pl_predictions st"
  using assms by (auto simp: predict_pool_state_def Let_def emap_Ret_iff case_prod_unfold split: if_splits option.splits)

lemma victim_post_frame:
  assumes "victim_post_state env ctx swap meta e event block st = Ret (post, st')"
  shows "pl_published st' = pl_published st \<and> pl_predictions st' = pl_predictions st"
  using assms by (auto simp: victim_post_state_def Let_def emap_Ret_iff case_prod_unfold dest!: predict_frame split: if_splits option.splits)

text \<open>A scan stops before the detection, or runs it after one or two predicted pools.\<close>

definition stopped :: "pipe \<Rightarrow> pipe \<Rightarrow> bool" where
  "stopped st st' \<longleftrightarrow> pl_published st' = pl_published st \<and> pl_predictions st' = pl_predictions st"

definition detected ::
    "'db mp_env \<Rightarrow> SimContext \<Rightarrow> string \<Rightarrow> DecodedSwap \<Rightarrow> b256 \<Rightarrow> address \<Rightarrow> PendingTxEvent \<Rightarrow> nat \<Rightarrow> pipe \<Rightarrow> pipe \<Rightarrow> bool" where
  "detected env ctx label swap h to event n st st' \<longleftrightarrow>
     (\<exists>ops affected posts overrides pool pin pout st1. stopped st st1 \<and> list_all is_update ops \<and> length affected \<le> 3
        \<and> posts \<noteq> [] \<and> length posts \<le> n
        \<and> scan_repriced env ctx label swap h to event (load_full (sc_snapshot_manager ctx)) ops affected posts overrides pool pin pout st1
            = Ret (Some st'))"

lemma detectedI:
  assumes "scan_repriced env ctx label swap h to event (load_full (sc_snapshot_manager ctx)) ops affected posts overrides pool pin pout st1
      = Ret (Some st')" and "stopped st st1" and "list_all is_update ops" and "length affected \<le> 3" and "posts \<noteq> []" and "length posts \<le> n"
  shows "detected env ctx label swap h to event n st st'"
  using assms unfolding detected_def by blast

lemma scan_pool_cases:
  assumes "scan_pool env ctx label swap h to event meta i j st = Ret (Some st')"
  shows "stopped st st' \<or> detected env ctx label swap h to event 1 st st'"
proof (cases "find (\<lambda>e. pe_to e = j \<and> pe_pool_id e = pm_pool_id meta) (edges_from (gs_graph (load_full (sc_snapshot_manager ctx))) i)")
  case None
  then show ?thesis using assms by (auto simp: scan_pool_def Let_def stopped_def)
next
  case (Some e)
  show ?thesis
  proof (cases "f64_le (pe_reserve_in e) (Num 0) \<or> f64_le (pe_reserve_out e) (Num 0)")
    case True
    then show ?thesis using assms Some by (auto simp: scan_pool_def Let_def stopped_def)
  next
    case False
    obtain post st1 where v: "victim_post_state env ctx swap meta e event (gs_block_number (load_full (sc_snapshot_manager ctx))) st = Ret (post, st1)"
      using assms Some False by (auto simp: scan_pool_def Let_def ebind_Ret_iff)
    note frame = victim_post_frame [OF v]
    show ?thesis
    proof (cases post)
      case None
      then show ?thesis using assms Some False v frame by (auto simp: scan_pool_def Let_def stopped_def)
    next
      case (Some p)
      then have "scan_repriced env ctx label swap h to event (load_full (sc_snapshot_manager ctx))
          [UpdateFromReserves i j (pm_pool_id meta) (fst p) (snd p) (fee_factor meta),
           UpdateFromReserves j i (pm_pool_id meta) (snd p) (fst p) (fee_factor meta)]
          [i, j] [(meta, predicted_state (ds_protocol swap) (fst p) (snd p))] (victim_storage_overrides env swap meta (fst p) (snd p))
          (pid_address (pm_pool_id meta)) (fst p) (snd p) st1 = Ret (Some st')"
        using assms \<open>find _ _ = Some e\<close> False v by (simp add: scan_pool_def Let_def case_prod_unfold)
      from detectedI [OF this, of st 1] frame show ?thesis by (simp add: stopped_def)
    qed
  qed
qed

lemma scan_legs_cases:
  assumes "scan_legs env ctx label swap h to event i j k leg_a leg_b pa pb st = Ret (Some st')"
  shows "stopped st st' \<or> detected env ctx label swap h to event 2 st st'"
proof (rule disjCI)
  assume "\<not> detected env ctx label swap h to event 2 st st'"
  then have "scan_repriced env ctx label swap h to event (load_full (sc_snapshot_manager ctx)) ops affected [x, y] overrides pool pin pout st
      \<noteq> Ret (Some st')" if "list_all is_update ops" "length affected \<le> 3" for ops affected x y overrides pool pin pout
    using detectedI [of env ctx label swap h to event ops affected "[x, y]" overrides pool pin pout st st' st 2] that
    by (auto simp: stopped_def)
  then show "stopped st st'"
    using assms unfolding scan_legs_def Let_def by (auto simp: stopped_def split: if_split_asm)
qed

lemma multihop_cases:
  assumes "try_post_state_scan_bancor_multihop env ctx label swap h to event st = Ret (Some st')"
  shows "stopped st st' \<or> detected env ctx label swap h to event 2 st st'"
proof -
  define st1 where "st1 = snd (lookup_pool ctx (ds_token_in swap) BNT_ADDRESS BancorV3 st)"
  define st2 where "st2 = snd (lookup_pool ctx (ds_token_out swap) BNT_ADDRESS BancorV3 st1)"
  have frame: "stopped st st1" "stopped st st2" by (simp_all add: st1_def st2_def stopped_def)
  have detected_mono: "detected env ctx label swap h to event 2 st2 st' \<Longrightarrow> detected env ctx label swap h to event 2 st st'"
    using frame(2) unfolding detected_def stopped_def by metis
  have "stopped st st' \<or> (\<exists>i j k leg_a leg_b pa pb. scan_legs env ctx label swap h to event i j k leg_a leg_b pa pb st2 = Ret (Some st'))"
    using assms frame unfolding try_post_state_scan_bancor_multihop_def Let_def
    by (auto simp: stopped_def st1_def st2_def case_prod_unfold ebind_Ret_iff
        split: option.split_asm PoolState.split_asm)
  then show ?thesis
    using scan_legs_cases detected_mono frame(2) unfolding stopped_def by metis
qed

definition max_legs :: "DecodedSwap \<Rightarrow> nat" where
  "max_legs swap = (if ds_protocol swap = R_BancorV3 \<or> ds_protocol swap = R_OneInchV6 then 2 else 1)"

lemma detected_mono:
  "detected env ctx label swap h to event n st1 st' \<Longrightarrow> stopped st st1 \<Longrightarrow> n \<le> m \<Longrightarrow> detected env ctx label swap h to event m st st'"
  unfolding detected_def stopped_def by (metis order_trans)

lemma resolve_protocol:
  assumes "resolve_swap_pool ctx swap st = (Some (meta, a, b, BancorV3), st')"
  shows "max_legs swap = 2"
  using assms unfolding resolve_swap_pool_def max_legs_def
  by (cases "ds_protocol swap") (auto split: option.split_asm prod.split_asm if_split_asm)

lemma scan_cases:
  assumes "try_post_state_scan env ctx label swap h to event st = Ret (Some st')"
  shows "stopped st st' \<or> detected env ctx label swap h to event (max_legs swap) st st'"
proof -
  obtain r st1 where res: "resolve_swap_pool ctx swap st = (r, st1)" by fastforce
  have frame: "stopped st st1" using resolve_frame [OF res] by (simp add: stopped_def)
  have trans: "stopped st1 st' \<Longrightarrow> stopped st st'" using frame by (simp add: stopped_def)
  have legs: "1 \<le> max_legs swap" by (simp add: max_legs_def)
  show ?thesis
  proof (cases r)
    case None
    then show ?thesis using assms res frame by (simp add: try_post_state_scan_def)
  next
    case (Some q)
    obtain meta a b p where q: "q = (meta, a, b, p)" by (cases q) auto
    show ?thesis
    proof (cases "p = BancorV3 \<and> ds_token_in swap \<noteq> BNT_ADDRESS \<and> ds_token_out swap \<noteq> BNT_ADDRESS")
      case True
      then have "try_post_state_scan_bancor_multihop env ctx label swap h to event st1 = Ret (Some st')"
        using assms res Some q by (simp add: try_post_state_scan_def)
      moreover have two: "max_legs swap = 2" using resolve_protocol [of ctx swap st meta a b st1] res Some q True by simp
      ultimately show ?thesis using multihop_cases trans detected_mono [OF _ frame order_refl] unfolding two by blast
    next
      case False
      then have "stopped st1 st' \<or> (\<exists>i j. scan_pool env ctx label swap h to event meta i j st1 = Ret (Some st'))"
        using assms res Some q by (auto simp: try_post_state_scan_def stopped_def split: option.split_asm)
      then show ?thesis using trans scan_pool_cases detected_mono [OF _ frame legs] by blast
    qed
  qed
qed

section \<open>What a scan publishes\<close>

lemma closed_route:
  assumes "build_steps g ti path x = Some built" and "closed_path path" and "route steps = route built"
  shows "map step_token_in (tl steps) = map step_token_out (butlast steps)" "step_token_out (last steps) = step_token_in (hd steps)"
proof -
  have len: "2 \<le> length path" and ends: "hd path = last path" using assms(2) by (auto simp: closed_path_def)
  have same: "map step_token_in steps = map step_token_in built" "map step_token_out steps = map step_token_out built"
    using arg_cong [OF assms(3), of "map (\<lambda>(_, _, a, _). a)"] arg_cong [OF assms(3), of "map (\<lambda>(_, _, _, b). b)"]
    by (simp_all add: route_def comp_def case_prod_unfold)
  have p: "path \<noteq> []" "tl path \<noteq> []" "butlast path \<noteq> []" using len by (cases path; cases "tl path"; auto)+
  have t: "map (get_address ti) (butlast path) = map Some (map step_token_in steps)"
    "map (get_address ti) (tl path) = map Some (map step_token_out steps)"
    using build_steps_tokens [OF assms(1) p(1)] unfolding same by (simp_all add: comp_def)
  have ne: "steps \<noteq> []" using t(1) len by (cases path rule: rev_cases) auto
  have "map Some (map step_token_in (tl steps)) = map (get_address ti) (tl (butlast path))"
    using arg_cong [OF t(1), of tl] by (simp add: map_tl)
  also have "\<dots> = map (get_address ti) (butlast (tl path))" by (simp add: butlast_tl)
  also have "\<dots> = map Some (map step_token_out (butlast steps))"
    using arg_cong [OF t(2), of butlast] by (simp add: map_butlast)
  finally show "map step_token_in (tl steps) = map step_token_out (butlast steps)" by (simp only: inj_map_eq_map [OF inj_Some])
  have "get_address ti (last path) = Some (step_token_out (last steps))"
    using arg_cong [OF t(2), of last] p ne by (simp add: last_map last_tl)
  moreover have "get_address ti (hd path) = Some (step_token_in (hd steps))"
    using arg_cong [OF t(1), of hd] p ne by (cases path) (auto simp: hd_map)
  ultimately show "step_token_out (last steps) = step_token_in (hd steps)" using ends by simp
qed


text \<open>Two constant-product pools of one pair; the victim pushes the first one off the price of the second.\<close>

definition pub_graph :: PriceGraph where
  "pub_graph = pg_append (pg_append (pg_append (pg_append (pg_new 2) (pool_edge 0 1 1 91 1000)) (pool_edge 1 0 1 91 1000)) (pool_edge 0 1 1 92 1000)) (pool_edge 1 0 1 92 1000)"

definition pub_cfg :: BackrunValidatorConfig where
  "pub_cfg = \<lparr>bc_executor_address = 4, bc_searcher_caller = 3, bc_profit_token = 9, bc_balance_slot = 3, bc_chain_id = 1,
     bc_min_profit_wei = 0, bc_input_amount_wei = 3, bc_gas_price_gwei = Num 1, bc_provider = True, bc_executor_bytecode = None\<rparr>"

definition pub_context :: SimContext where
  "pub_context = with_gating (with_backrun_validator (with_arb_publisher
     ((demo_context 7 [demo_pool 91 1 2 UniswapV2 30, demo_pool 92 1 2 UniswapV2 30])
       \<lparr>sc_token_index := insert_all ti_new [1, 2], sc_snapshot_manager := publish (manager_new (pg_new 2)) pub_graph 6 0\<rparr>)) pub_cfg)
     (gating_default\<lparr>gc_min_reserve_f64 := Num 0\<rparr>)"

definition pub_swap :: DecodedSwap where
  "pub_swap = plain_swap R_UniswapV2 5 1 2 1000 990 1 0 []"

lemma limb_sum_code [code]:
  "limb_sum [] result scale = result"
  "limb_sum (l # ls) result scale = limb_sum ls (f64_add result (f64_mul (f64_of_word l) scale)) (f64_mul scale (Num 18446744073709551616))"
  by (simp_all add: f64_constants)

lemma pub_scan:
  "case try_post_state_scan (demo_env []) pub_context ''router'' pub_swap 77 5 demo_event pipe_new of
     Ret (Some st') \<Rightarrow> length (pl_published st') = 1 \<and> length (pl_predictions st') = 1
   | _ \<Rightarrow> False"
  by code_simp

lemma pub_graph_scannable: "scannable 2 (gs_graph (load_full (sc_snapshot_manager pub_context)))"
proof -
  have "pg_inv pub_graph" unfolding pub_graph_def
    by (intro pg_inv_append pg_inv_new) (auto simp: pg_append_def pg_new_def pool_edge_def edge_key_def)
  moreover have "pg_num_vertices pub_graph = 2" "length (edges_from pub_graph u) \<le> 2" for u
    by (auto simp: pub_graph_def pg_append_def pg_new_def edges_from_def pool_edge_def less_Suc_eq numeral_2_eq_2)
  ultimately show ?thesis
    by (simp add: scannable_def pub_context_def with_gating_def with_backrun_validator_def with_arb_publisher_def demo_context_def
        sim_context_new_def publish_def publish_fetch_def publish_store_def load_full_def snapshot_new_def Let_def)
qed


section \<open>What a scan persists\<close>

definition prediction_for :: "DecodedSwap \<Rightarrow> b256 \<Rightarrow> address \<Rightarrow> u64 \<Rightarrow> NewMempoolPrediction \<Rightarrow> bool" where
  "prediction_for swap h to block p \<longleftrightarrow> mp_pending_tx_hash p = h \<and> mp_router_address p = to
     \<and> mp_protocol p = decoder_protocol_label (ds_protocol swap) \<and> mp_token_in p = ds_token_in swap \<and> mp_token_out p = ds_token_out swap
     \<and> mp_amount_in p = ds_amount_in swap \<and> mp_predicted_target_block p = saturating_add block 1"

lemma persist_predictions_result:
  "\<exists>ps. pl_predictions (persist_predictions env ctx swap h to b best posts st) = pl_predictions st @ ps
     \<and> length ps = length posts \<and> list_all (prediction_for swap h to b) ps"
proof (induction posts arbitrary: st)
  case (Cons q posts)
  obtain meta post where q: "q = (meta, post)" by fastforce
  define p where "p = prediction_of env ctx swap h to b best st meta post"
  from Cons.IH [of "st\<lparr>pl_predictions := pl_predictions st @ [p]\<rparr>"] obtain ps
    where "pl_predictions (persist_predictions env ctx swap h to b best (q # posts) st) = pl_predictions st @ p # ps"
      "length ps = length posts" "list_all (prediction_for swap h to b) ps" by (auto simp: q p_def)
  moreover have "prediction_for swap h to b p" by (simp add: p_def prediction_of_def prediction_for_def)
  ultimately show ?case by (intro exI [of _ "p # ps"]) simp
qed simp



section \<open>Pre-warming\<close>

lemma sorted_remdups_adj_distinct: "sorted xs \<Longrightarrow> distinct (remdups_adj xs)"
  by (induction xs rule: remdups_adj.induct) (auto dest: order.antisym)

text \<open>The addresses of a refresh are those of the executor and of the registered pools, each once and in order.\<close>

lemma prewarm_code_addrs_exact:
  "sorted_wrt (<) (prewarm_code_addrs ctx)
   \<and> set (prewarm_code_addrs ctx) = (case sc_backrun ctx of Some cfg \<Rightarrow> {bc_executor_address cfg} | None \<Rightarrow> {})
       \<union> (\<lambda>meta. pid_address (pm_pool_id meta)) ` set (sc_registry_values ctx)"
  by (auto simp: prewarm_code_addrs_def strict_sorted_iff sorted_remdups_adj_distinct sorted_insort split: option.split)

end
