(* ===== verification/Spec2Isabelle.thy ===== *)
theory Spec2Isabelle
  imports Prelude F64 Gas Pools Registry Token_Index Price_Graph_Refine Snapshot Spfa_Correct Optimizer
    Cycle_Gating Event_Decoder Node_Pool First_Seen Hot_Token Pool_Admission
    Hot_Cache Discovery_Service Risk_Manager Router_Decoder Engine_Props Engine_Events Mempool_Sound
begin

text \<open>
  Verification development for Aether, a cyclic-arbitrage engine written in Rust (\<^verbatim>\<open>src/crates\<close>).

  \<^bold>\<open>The program.\<close> Ingestion decodes pool logs and keeps a set of RPC nodes; pool adapters quote and predict swaps of
  each protocol; the registry and the token index map pools and tokens to a price graph whose edges carry the
  negative logarithms of prices; a snapshot of the graph is published to the detector, which looks for negative
  cycles with a queue-based Bellman-Ford; found cycles pass gates, are sized by a search over the input amount, scored
  and ranked. Beside this path, discovery turns factory logs into a ranked cache of pools, whose top entries form
  the hot cache that restricts detection, and mempool trackers feed a list of hot token pairs whose venues
  are screened for transfer taxes before they are admitted to the pool file.

  \<^bold>\<open>Conventions.\<close> A machine integer of \<open>w\<close> bits is a \<open>w word\<close>, \<^verbatim>\<open>U256\<close> included; its operators wrap as those of
  the source do in release builds, and checked or saturating operations are written out (\<^verbatim>\<open>Prelude\<close>). \<^verbatim>\<open>usize\<close> is
  \<open>nat\<close>, signed integers are \<open>int\<close> within their range. A function that can panic returns \<open>'a exec\<close>, with \<open>Panic\<close> for a
  division by zero, an index out of bounds, a failed cast or a missing key; \<^verbatim>\<open>Option\<close> and \<^verbatim>\<open>Result\<close> are \<open>option\<close> and sums.
  \<^verbatim>\<open>f64\<close> is an executable IEEE double with round-to-nearest-even (\<^verbatim>\<open>F64\<close>); logarithm, exponential and powers are
  parameters. Hash maps are association lists behind the locale \<open>std_map\<close> (\<^verbatim>\<open>Hash_Map\<close>), the list order standing
  for one iteration order. Clocks, hashes, ABI coders, RPC providers and the virtual machine are parameters.

  \<^bold>\<open>Theories and what they show.\<close>
  \<^item> \<^verbatim>\<open>Prelude\<close>, \<^verbatim>\<open>F64\<close>, \<^verbatim>\<open>Hash_Map\<close>, \<^verbatim>\<open>Bytes\<close>: shared arithmetic, the \<open>exec\<close> monad, sorting and minimum by a
    comparator (locale \<open>comparator\<close>, interpreted for ascending and descending floats), maps, big-endian bytes.
  \<^item> \<^verbatim>\<open>Common_Types\<close>, \<^verbatim>\<open>Gas\<close>, \<^verbatim>\<open>Swap_Encode\<close>: \<^verbatim>\<open>common/src/types.rs\<close>, \<^verbatim>\<open>detector/src/gas.rs\<close>, \<^verbatim>\<open>pools/src/swap_encode.rs\<close>.
  \<^item> \<^verbatim>\<open>Pool_Contract\<close>: the locales \<open>pool_adapter\<close> (what the \<^verbatim>\<open>Pool\<close> trait promises) and \<open>constant_product\<close> (a quote that
    rounds down a constant-product formula), from which no-drain, product growth and no-profit round trips follow.
  \<^item> \<^verbatim>\<open>Uniswap_V2\<close> (with SushiSwap), \<^verbatim>\<open>Uniswap_V3\<close>, \<^verbatim>\<open>Curve_Pool\<close>, \<^verbatim>\<open>Balancer\<close> (V2 and V3), \<^verbatim>\<open>Bancor\<close>: the adapters of
    \<^verbatim>\<open>pools/src\<close>, each interpreting those locales. Quotes equal their exact integer formulas within stated ranges,
    predictions agree with quotes and conserve what they should, the iterations of Curve stay in bounds, and the
    binary search of V3 ends; where the code leaves the range, theorems exhibit the wrong quote.
  \<^item> \<^verbatim>\<open>Pools\<close>: \<^verbatim>\<open>pools/src/lib.rs\<close>, the trait object as a sum, the post-state predictors and when they fall back.
  \<^item> \<^verbatim>\<open>Registry\<close>, \<^verbatim>\<open>Token_Index\<close>: \<^verbatim>\<open>pools/src/registry.rs\<close>, \<^verbatim>\<open>state/src/token_index.rs\<close>; invariants over every operation.
  \<^item> \<^verbatim>\<open>Price_Graph\<close>, \<^verbatim>\<open>Price_Graph_Refine\<close>: \<^verbatim>\<open>state/src/price_graph.rs\<close>; the adjacency lists, the flat list, the key index
    and the dirty flags implement one abstract map from edge keys to edges plus a set of dirty keys.
  \<^item> \<^verbatim>\<open>Snapshot\<close>: \<^verbatim>\<open>state/src/snapshot.rs\<close>; the two atomic actions of publication, monotone with one writer, not with two.
  \<^item> \<^verbatim>\<open>Bellman_Ford\<close>, \<^verbatim>\<open>Spfa_Correct\<close>: \<^verbatim>\<open>detector/src/bellman_ford.rs\<close>; the locale \<open>graph_source\<close> (interpreted on the
    price graph) carries a potential that bounds the queue removals, so the scans return, and every cycle is genuine.
  \<^item> \<^verbatim>\<open>Opportunity\<close>, \<^verbatim>\<open>Optimizer\<close>, \<^verbatim>\<open>Cycle_Gating\<close>: \<^verbatim>\<open>detector/src/opportunity.rs\<close>, \<^verbatim>\<open>optimizer.rs\<close>,
    \<^verbatim>\<open>grpc-server/src/cycle_gating.rs\<close>; the best \<open>k\<close> are kept, the search ends near the peak of a unimodal
    profit, the gates drop exactly what their thresholds say.
  \<^item> \<^verbatim>\<open>Event_Decoder\<close>, \<^verbatim>\<open>Node_Pool\<close>: \<^verbatim>\<open>ingestion/src/event_decoder.rs\<close>, \<^verbatim>\<open>node_pool.rs\<close>; round trips of encoded logs, the only
    log that panics, node health and selection.
  \<^item> \<^verbatim>\<open>First_Seen\<close>, \<^verbatim>\<open>Hot_Token\<close>, \<^verbatim>\<open>Fee_On_Transfer\<close>, \<^verbatim>\<open>Pool_Admission\<close>: \<^verbatim>\<open>grpc-server/src/first_seen_tracker.rs\<close>,
    \<^verbatim>\<open>hot_token.rs\<close>, \<^verbatim>\<open>simulator/src/fee_on_transfer.rs\<close>, \<^verbatim>\<open>grpc-server/src/pool_admission.rs\<close>; bounded memory, canonical
    pairs, what a clean verdict guarantees, and appending to the pool file twice adds nothing.
  \<^item> \<^verbatim>\<open>Discovery_Cache\<close>, \<^verbatim>\<open>Discovery_Service\<close>, \<^verbatim>\<open>Hot_Cache\<close>: \<^verbatim>\<open>discovery/src\<close> and \<^verbatim>\<open>state/src/hot_cache\<close>; capacity,
    unit scores and best-first ranking of every reachable cache, provenance of discovered pools, and the
    counters of the hot cache, proved for any \<open>ranked_source\<close> and interpreted on the discovery cache.

  \<^bold>\<open>Bounds and fuel.\<close> The Curve iterations run their 256 rounds structurally. The queue loop of the detector takes the
  number of removals as fuel; \<open>n + n * n\<close> is proved enough for \<open>n\<close> vertices, provided the 32-bit relaxation counters
  cannot wrap, which a bound on the out-degree states. The binary search of \<^verbatim>\<open>Uniswap_V3\<close> has 256 rounds and the
  searches of \<^verbatim>\<open>Optimizer\<close> the iteration counts passed by the caller, as in the source.

  \<^bold>\<open>Not modelled.\<close> The engine loop, the mempool pipeline, the router calldata decoder, the revm-based simulator and
  validators, the gRPC service and its protobuf types, subscriptions, the ledger database, metrics registration, the
  command-line tools, the Go services and the Solidity executor. They are I/O, drive an external virtual machine, or
  compose the modelled parts inside asynchronous tasks. Concurrency is modelled where the code's guarantee depends
  on it (\<^verbatim>\<open>Snapshot\<close>, and the tasks of \<^verbatim>\<open>First_Seen\<close> and \<^verbatim>\<open>Hot_Cache\<close> as event sequences); elsewhere one operation is one step.
\<close>

end
